(* ===== verification/Prelude.thy ===== *)
theory Prelude
  imports Main
    "HOL-Library.Word" "HOL-Library.Multiset"
    "HOL-Library.List_Lexorder" "HOL-Library.Char_ord"
begin

text \<open>
  Shared vocabulary of the development: Go maps as association lists, the key-ordered listings
  that the store returns, Go's fixed-width integers, instants and durations, and the fact
  collections the component theories fill.

  A Go \<^verbatim>\<open>map[K]V\<close> is an association list with distinct keys (\<open>mwf\<close>). The order of
  the list is the order in which a \<^verbatim>\<open>range\<close> loop visits the entries, which Go leaves
  unspecified; \<open>meq\<close> relates two lists that hold the same entries in any order, so a fact
  that is invariant under \<open>meq\<close> holds for every iteration order.
\<close>

named_theorems store_defs \<open>definitions of the state store's mutators\<close>
named_theorems inv_defs \<open>definitions of the groups of the store invariant\<close>
named_theorems fsm_defs \<open>definitions of the FSM's command handlers\<close>
named_theorems meq_intros \<open>operations that respect the equivalence of Go maps\<close>

subsection \<open>Fixed-width integers, instants and durations\<close>

type_synonym uint32 = "32 word"
type_synonym uint64 = "64 word"

text \<open>An instant is a number of nanoseconds since the Unix epoch; a duration is a difference of
  instants. A \<^verbatim>\<open>*timestamppb.Timestamp\<close> that may be nil is an optional instant, and
  \<^verbatim>\<open>AsTime\<close> of nil is the epoch.\<close>

type_synonym time = int
type_synonym duration = int

definition AsTime :: "time option \<Rightarrow> time" where
  "AsTime t = (case t of None \<Rightarrow> 0 | Some x \<Rightarrow> x)"

definition Millisecond :: duration where "Millisecond = 1000000"
definition Second :: duration where "Second = 1000 * Millisecond"
definition Minute :: duration where "Minute = 60 * Second"
definition Hour :: duration where "Hour = 60 * Minute"

definition UnixMilli :: "time \<Rightarrow> int" where
  "UnixMilli t = t div Millisecond"

text \<open>\<^verbatim>\<open>int64\<close> arithmetic is written on \<^typ>\<open>int\<close> with the two's complement
  wrap-around of the type.\<close>

definition wrap_int64 :: "int \<Rightarrow> int" where
  "wrap_int64 x = (x + 2 ^ 63) mod 2 ^ 64 - 2 ^ 63"

lemma wrap_int64_id:
  assumes "- (2 ^ 63) \<le> x" and "x < 2 ^ 63"
  shows "wrap_int64 x = x"
  using assms by (simp add: wrap_int64_def)

lemma wrap_int64_range: "- (2 ^ 63) \<le> wrap_int64 x \<and> wrap_int64 x < 2 ^ 63"
proof -
  have "(x + 2 ^ 63) mod 2 ^ 64 < (2 ^ 64 :: int)" by (rule pos_mod_bound) simp
  moreover have "(0 :: int) \<le> (x + 2 ^ 63) mod 2 ^ 64" by (rule pos_mod_sign) simp
  ultimately show ?thesis by (simp add: wrap_int64_def)
qed

subsection \<open>Go maps\<close>

type_synonym ('k, 'v) gomap = "('k \<times> 'v) list"

primrec mput :: "'k \<Rightarrow> 'v \<Rightarrow> ('k, 'v) gomap \<Rightarrow> ('k, 'v) gomap" where
  "mput k v [] = [(k, v)]"
| "mput k v (p # ps) = (if fst p = k then (k, v) # ps else p # mput k v ps)"

definition mdel :: "'k \<Rightarrow> ('k, 'v) gomap \<Rightarrow> ('k, 'v) gomap" where
  "mdel k m = filter (\<lambda>p. fst p \<noteq> k) m"

definition mhas :: "('k, 'v) gomap \<Rightarrow> 'k \<Rightarrow> bool" where
  "mhas m k = (map_of m k \<noteq> None)"

definition mvals :: "('k, 'v) gomap \<Rightarrow> 'v list" where
  "mvals m = map snd m"

definition mwf :: "('k, 'v) gomap \<Rightarrow> bool" where
  "mwf m = distinct (map fst m)"

text \<open>The zero value Go gives for an absent key of a map of slices or maps.\<close>

definition inner :: "('k, ('i, 'v) gomap) gomap \<Rightarrow> 'k \<Rightarrow> ('i, 'v) gomap" where
  "inner m k = (case map_of m k of None \<Rightarrow> [] | Some x \<Rightarrow> x)"

lemma map_of_mput [simp]: "map_of (mput k v m) = (map_of m)(k \<mapsto> v)"
  by (induction m) auto

lemma fst_set_mput [simp]: "fst ` set (mput k v m) = insert k (fst ` set m)"
  by (induction m) auto

lemma map_of_mdel [simp]: "map_of (mdel k m) = (map_of m)(k := None)"
  by (induction m) (auto simp: mdel_def)

lemma mdel_Nil [simp]: "mdel k [] = []"
  by (simp add: mdel_def)

lemma mdel_Cons [simp]: "mdel k (p # m) = (if fst p = k then mdel k m else p # mdel k m)"
  by (simp add: mdel_def)

lemma mhas_iff [simp]: "mhas m k = (\<exists>v. map_of m k = Some v)"
  by (auto simp: mhas_def)

lemma mwf_Nil [simp]: "mwf []"
  by (simp add: mwf_def)

lemma mwf_mput [simp]: "mwf m \<Longrightarrow> mwf (mput k v m)"
  unfolding mwf_def by (induction m) (simp_all, metis)

lemma mwf_mdel [simp]: "mwf m \<Longrightarrow> mwf (mdel k m)"
  unfolding mwf_def mdel_def by (rule distinct_map_filter)

lemma in_mvals_iff: "mwf m \<Longrightarrow> v \<in> set (mvals m) \<longleftrightarrow> (\<exists>k. map_of m k = Some v)"
  unfolding mwf_def mvals_def by (force simp: map_of_eq_Some_iff)

lemma inner_mput [simp]: "inner (mput k v m) k' = (if k' = k then v else inner m k')"
  by (simp add: inner_def)

lemma inner_mdel [simp]: "inner (mdel k m) k' = (if k' = k then [] else inner m k')"
  by (simp add: inner_def)

lemma inner_Nil [simp]: "inner [] k = []"
  by (simp add: inner_def)

text \<open>A collection keyed by an attribute of its values, as every \<^verbatim>\<open>map[id]*T\<close> of the store.\<close>

definition keyed :: "('v \<Rightarrow> 'k) \<Rightarrow> ('k, 'v) gomap \<Rightarrow> bool" where
  "keyed f m = (mwf m \<and> (\<forall>k v. map_of m k = Some v \<longrightarrow> f v = k))"

lemma keyed_Nil [simp]: "keyed f []"
  by (simp add: keyed_def)

lemma keyed_mput [simp]: "keyed f m \<Longrightarrow> f v = k \<Longrightarrow> keyed f (mput k v m)"
  by (simp add: keyed_def)

lemma keyed_mdel [simp]: "keyed f m \<Longrightarrow> keyed f (mdel k m)"
  by (simp add: keyed_def)

lemma keyed_mwf: "keyed f m \<Longrightarrow> mwf m"
  by (simp add: keyed_def)

lemma keyedD: "keyed f m \<Longrightarrow> map_of m k = Some v \<Longrightarrow> f v = k"
  by (simp add: keyed_def)

lemma keyed_inj_on: "keyed f m \<Longrightarrow> inj_on f (set (mvals m))"
  by (auto simp: inj_on_def in_mvals_iff keyed_mwf) (metis keyedD option.inject)

lemma keyed_distinct_mvals: "keyed f m \<Longrightarrow> distinct (mvals m)"
proof -
  assume k: "keyed f m"
  then have "map f (mvals m) = map fst m"
    by (auto simp: mvals_def keyed_def mwf_def)
  with k show ?thesis
    by (metis distinct_map keyed_mwf mwf_def)
qed

subsection \<open>Equal up to iteration order\<close>

definition meq :: "('k, 'v) gomap \<Rightarrow> ('k, 'v) gomap \<Rightarrow> bool" where
  "meq m n = (mwf m \<and> mwf n \<and> map_of m = map_of n)"

definition meq2 :: "('k, ('i, 'v) gomap) gomap \<Rightarrow> ('k, ('i, 'v) gomap) gomap \<Rightarrow> bool" where
  "meq2 m n = (mwf m \<and> mwf n \<and> (\<forall>k. meq (inner m k) (inner n k)))"

lemma meq_refl: "mwf m \<Longrightarrow> meq m m"
  by (simp add: meq_def)

lemma meq_sym: "meq m n \<Longrightarrow> meq n m"
  by (simp add: meq_def)

lemma meq_trans: "meq l m \<Longrightarrow> meq m n \<Longrightarrow> meq l n"
  by (simp add: meq_def)

lemma meq_map_of: "meq m n \<Longrightarrow> map_of m = map_of n"
  by (simp add: meq_def)

lemma meq_Nil [simp]: "meq [] []"
  by (simp add: meq_def)

lemma meq_mput [meq_intros]: "meq m n \<Longrightarrow> meq (mput k v m) (mput k v n)"
  by (simp add: meq_def)

lemma meq_mdel [meq_intros]: "meq m n \<Longrightarrow> meq (mdel k m) (mdel k n)"
  by (simp add: meq_def)

lemma meq2_inner: "meq2 m n \<Longrightarrow> meq (inner m k) (inner n k)"
  by (simp add: meq2_def)

lemma meq2_Nil [simp]: "meq2 [] []"
  by (simp add: meq2_def)

lemma meq2_sym: "meq2 m n \<Longrightarrow> meq2 n m"
  by (simp add: meq2_def meq_sym)

lemma meq2_trans: "meq2 l m \<Longrightarrow> meq2 m n \<Longrightarrow> meq2 l n"
  by (auto simp: meq2_def intro: meq_trans)

lemma meq2_mput [meq_intros]: "meq2 m n \<Longrightarrow> meq v w \<Longrightarrow> meq2 (mput k v m) (mput k w n)"
  by (simp add: meq2_def)

lemma meq2_mdel [meq_intros]: "meq2 m n \<Longrightarrow> meq2 (mdel k m) (mdel k n)"
  by (simp add: meq2_def)

lemma meq_mset:
  assumes "meq m n"
  shows "mset m = mset n"
proof -
  have d: "distinct m" "distinct n"
    using assms by (auto simp: meq_def mwf_def distinct_map)
  have "set m = set n"
    using assms by (intro map_of_inject_set [THEN iffD1]) (auto simp: meq_def mwf_def)
  with d show ?thesis by (simp add: set_eq_iff_mset_eq_distinct)
qed

lemma meq_mset_mvals: "meq m n \<Longrightarrow> mset (mvals m) = mset (mvals n)"
  unfolding mvals_def mset_map by (drule meq_mset) simp

lemma meq_set: "meq m n \<Longrightarrow> set m = set n"
  by (drule meq_mset) (metis set_mset_mset)

subsection \<open>Listings ordered by a key\<close>

text \<open>\<^verbatim>\<open>sort.Slice\<close> is not stable, so it determines the result only where the keys are
  distinct. The listings below sort by an identifier, and the following lemma is what makes them
  independent of the iteration order of the map.\<close>

lemma sort_key_cong_mset:
  assumes "mset xs = mset ys" and "inj_on f (set xs)"
  shows "sort_key f xs = sort_key f ys"
  using assms by (intro sort_key_inj_key_eq) simp_all

lemma sort_key_filter_cong:
  assumes "mset xs = mset ys" and "inj_on f (set xs)"
  shows "sort_key f (filter P xs) = sort_key f (filter P ys)"
proof (rule sort_key_cong_mset)
  show "mset (filter P xs) = mset (filter P ys)"
    using assms(1) by (metis mset_filter)
  show "inj_on f (set (filter P xs))"
    using assms(2) by (rule inj_on_subset) auto
qed

lemma keyed_sorted_listing:
  assumes "keyed f m" and "meq m n"
  shows "sort_key f (filter P (mvals m)) = sort_key f (filter P (mvals n))"
  using meq_mset_mvals [OF assms(2)] keyed_inj_on [OF assms(1)] by (rule sort_key_filter_cong)

lemma in_sorted_listing_iff:
  assumes "keyed f m"
  shows "v \<in> set (sort_key f (filter P (mvals m))) \<longleftrightarrow> map_of m (f v) = Some v \<and> P v"
  using assms by (auto simp: in_mvals_iff keyed_mwf dest: keyedD)

lemma find_SomeD: "find P xs = Some x \<Longrightarrow> x \<in> set xs \<and> P x"
  by (induction xs) (auto split: if_splits)

lemma find_NoneD: "find P xs = None \<Longrightarrow> x \<in> set xs \<Longrightarrow> \<not> P x"
  by (auto simp: find_None_iff)

end
