(* ===== verification/Proto.thy ===== *)
theory Proto
  imports Prelude
begin

text \<open>
  The messages the control plane replicates: \<^verbatim>\<open>zattera/v1/*.proto\<close> as the generated Go
  structs of \<^verbatim>\<open>api/gen\<close> present them to the code under \<^verbatim>\<open>internal/\<close>. A message is a
  record whose fields carry a prefix that names the message (Isabelle's selectors are global), an
  enum is a datatype with the proto constants as constructors. A nested message is a record of its
  own; it is optional only where the code distinguishes nil from the zero message. Timestamps and
  durations that the code tests for nil are optional instants.

  The unread payload of a few configuration messages (build and GitHub configuration of an app,
  middleware of a domain, SMTP settings) is carried as bytes: the modelled code copies it and never
  looks inside.
\<close>

type_synonym bytes = "8 word list"

subsection \<open>common.proto\<close>

datatype Role = ROLE_UNSPECIFIED | ROLE_OWNER | ROLE_ADMIN | ROLE_DEVELOPER | ROLE_VIEWER

record Meta =
  Id :: string
  CreatedAt :: "time option"
  UpdatedAt :: "time option"

record EncryptedValue =
  ev_nonce :: bytes
  ev_ciphertext :: bytes
  ev_key_version :: uint32

record ResourceLimits =
  cpu_millis :: uint32
  memory_mb :: uint32

record Event =
  event_meta :: Meta
  event_kind :: string
  event_severity :: string
  event_project_id :: string
  event_app_id :: string
  event_environment_id :: string
  event_node_id :: string
  event_message :: string
  event_fields :: "(string, string) gomap"

record AuditEntry =
  audit_meta :: Meta
  audit_actor_user_id :: string
  audit_actor_token_id :: string
  audit_method :: string
  audit_project_id :: string
  audit_resource_id :: string
  audit_outcome :: string
  audit_request_summary :: string
  audit_remote_addr :: string

subsection \<open>project.proto, auth.proto\<close>

record Org =
  org_meta :: Meta
  org_name :: string

record User =
  user_meta :: Meta
  user_email :: string
  user_display_name :: string
  user_password_hash :: string
  user_org_id :: string
  user_org_role :: Role

record Project =
  project_meta :: Meta
  project_org_id :: string
  project_name :: string

record ProjectMember =
  pm_project_id :: string
  pm_user_id :: string
  pm_role :: Role

datatype TokenKind = TOKEN_KIND_UNSPECIFIED | TOKEN_KIND_PERSONAL | TOKEN_KIND_SESSION

record Token =
  token_meta :: Meta
  token_user_id :: string
  token_name :: string
  token_secret_hash :: string
  token_kind :: TokenKind
  token_expires_at :: "time option"
  token_last_used_at :: "time option"

record ClusterKeyMaterial =
  ckm_sealed_data_key :: bytes
  ckm_nonce :: bytes
  ckm_argon2_salt :: bytes
  ckm_argon2_time :: uint32
  ckm_argon2_memory_kib :: uint32
  ckm_argon2_threads :: uint32
  ckm_key_version :: uint32

subsection \<open>service.proto\<close>

record ReplicaRange =
  replicas_min :: uint32
  replicas_max :: uint32

record Autoscale =
  target_cpu_percent :: uint32
  target_memory_percent :: uint32
  target_rps_per_replica :: uint32

datatype Protocol = PROTOCOL_UNSPECIFIED | PROTOCOL_HTTP | PROTOCOL_TCP | PROTOCOL_UDP

record PortSpec =
  port_name :: string
  container_port :: uint32
  port_protocol :: Protocol
  public_l4_port :: uint32

datatype HealthCheckType =
  HEALTH_CHECK_TYPE_UNSPECIFIED | HEALTH_CHECK_TYPE_HTTP | HEALTH_CHECK_TYPE_TCP
  | HEALTH_CHECK_TYPE_EXEC

record HealthCheck =
  hc_type :: HealthCheckType
  hc_path :: string
  hc_port :: uint32
  hc_command :: string
  hc_interval :: duration
  hc_timeout :: duration
  hc_grace_period :: duration
  hc_unhealthy_threshold :: uint32

record VolumeMount =
  vm_volume_name :: string
  vm_mount_path :: string

datatype ConcurrencyPolicy =
  CONCURRENCY_POLICY_UNSPECIFIED | CONCURRENCY_POLICY_FORBID | CONCURRENCY_POLICY_REPLACE
  | CONCURRENCY_POLICY_ALLOW

record CronSpec =
  cron_name :: string
  cron_schedule :: string
  cron_command :: string
  cron_concurrency :: ConcurrencyPolicy
  cron_max_retries :: uint32

record RateLimit =
  rl_requests_per_second :: uint32
  rl_burst :: uint32

record ServiceSpec =
  svc_replicas :: ReplicaRange
  svc_autoscale :: Autoscale
  svc_resources :: ResourceLimits
  svc_ports :: "PortSpec list"
  svc_healthcheck :: HealthCheck
  svc_scale_to_zero :: bool
  svc_max_concurrency :: uint32
  svc_stateful :: bool
  svc_volumes :: "VolumeMount list"
  svc_cron :: "CronSpec list"
  svc_stop_grace :: duration
  svc_command :: string
  svc_placement_constraints :: "(string, string) gomap"
  svc_rate_limit :: "RateLimit option"

subsection \<open>app.proto, deploy.proto\<close>

record App =
  app_meta :: Meta
  app_project_id :: string
  app_name :: string
  app_build :: bytes
  app_github :: bytes

datatype EnvironmentType =
  ENVIRONMENT_TYPE_UNSPECIFIED | ENVIRONMENT_TYPE_PRODUCTION | ENVIRONMENT_TYPE_STAGING
  | ENVIRONMENT_TYPE_PREVIEW

record Environment =
  env_meta :: Meta
  env_app_id :: string
  env_project_id :: string
  env_name :: string
  env_type :: EnvironmentType
  env_service :: ServiceSpec
  env_active_release_id :: string
  env_route_generation :: uint64
  env_preview_pr_number :: int
  env_preview_expires_at :: "time option"
  env_effective_replicas :: uint32
  env_idle_timeout :: duration

record ReleaseSource =
  src_git_sha :: string
  src_git_branch :: string
  src_git_message :: string
  src_tarball_digest :: string
  src_build_id :: string

record Release =
  rel_meta :: Meta
  rel_environment_id :: string
  rel_app_id :: string
  rel_project_id :: string
  rel_version :: uint64
  rel_image_ref :: string
  rel_config_hash :: string
  rel_service :: ServiceSpec
  rel_source :: ReleaseSource
  rel_created_by_user_id :: string
  rel_platforms :: "string list"

datatype DeploymentPhase =
  DEPLOYMENT_PHASE_UNSPECIFIED | DEPLOYMENT_PHASE_PENDING | DEPLOYMENT_PHASE_BUILDING
  | DEPLOYMENT_PHASE_PLACING | DEPLOYMENT_PHASE_STARTING | DEPLOYMENT_PHASE_HEALTHCHECKING
  | DEPLOYMENT_PHASE_PROMOTING | DEPLOYMENT_PHASE_DRAINING_OLD | DEPLOYMENT_PHASE_SUCCEEDED
  | DEPLOYMENT_PHASE_FAILED | DEPLOYMENT_PHASE_ROLLED_BACK | DEPLOYMENT_PHASE_SUPERSEDED
  | DEPLOYMENT_PHASE_STOPPING_OLD

record Deployment =
  dep_meta :: Meta
  dep_environment_id :: string
  dep_app_id :: string
  dep_project_id :: string
  dep_release_id :: string
  dep_previous_release_id :: string
  dep_phase :: DeploymentPhase
  dep_error :: string
  dep_is_rollback :: bool
  dep_build_id :: string
  dep_promoted_at :: "time option"
  dep_drain_deadline :: "time option"
  dep_created_by_user_id :: string

datatype BuildType =
  BUILD_TYPE_UNSPECIFIED | BUILD_TYPE_NIXPACKS | BUILD_TYPE_DOCKERFILE | BUILD_TYPE_IMAGE

datatype BuildStatus =
  BUILD_STATUS_UNSPECIFIED | BUILD_STATUS_QUEUED | BUILD_STATUS_RUNNING
  | BUILD_STATUS_SUCCEEDED | BUILD_STATUS_FAILED | BUILD_STATUS_CANCELED

record Build =
  build_meta :: Meta
  build_app_id :: string
  build_project_id :: string
  build_environment_id :: string
  build_type :: BuildType
  build_status :: BuildStatus
  build_node_id :: string
  build_image_ref :: string
  build_tarball_digest :: string
  build_git_sha :: string
  build_error :: string
  build_started_at :: "time option"
  build_finished_at :: "time option"
  build_platforms :: "string list"

subsection \<open>node.proto\<close>

datatype NodeRole = NODE_ROLE_UNSPECIFIED | NODE_ROLE_CONTROL | NODE_ROLE_WORKER

datatype NodeStatus =
  NODE_STATUS_UNSPECIFIED | NODE_STATUS_ALIVE | NODE_STATUS_SUSPECT | NODE_STATUS_DOWN
  | NODE_STATUS_DRAINING | NODE_STATUS_DRAINED

record Node =
  node_meta :: Meta
  node_name :: string
  node_roles :: "NodeRole list"
  node_labels :: "(string, string) gomap"
  node_mesh_ip :: string
  node_wireguard_public_key :: string
  node_public_endpoints :: "string list"
  node_capacity :: ResourceLimits
  node_capacity_disk_mb :: uint32
  node_status :: NodeStatus
  node_schedulable :: bool
  node_autoprovisioned :: bool
  node_binary_version :: string
  node_last_heartbeat_at :: "time option"
  node_os_arch :: string

datatype AssignmentDesired =
  ASSIGNMENT_DESIRED_UNSPECIFIED | ASSIGNMENT_DESIRED_RUN | ASSIGNMENT_DESIRED_STOP

datatype InstanceState =
  INSTANCE_STATE_UNSPECIFIED | INSTANCE_STATE_PENDING | INSTANCE_STATE_PULLING
  | INSTANCE_STATE_STARTING | INSTANCE_STATE_RUNNING | INSTANCE_STATE_HEALTHY
  | INSTANCE_STATE_UNHEALTHY | INSTANCE_STATE_FAILED | INSTANCE_STATE_STOPPED

record AssignmentObserved =
  obs_state :: InstanceState
  obs_container_id :: string
  obs_restarts :: uint32
  obs_exit_code :: int
  obs_message :: string
  obs_updated_at :: "time option"
  obs_mesh_port_bindings :: "(string, uint32) gomap"

record Assignment =
  asg_meta :: Meta
  asg_node_id :: string
  asg_project_id :: string
  asg_app_id :: string
  asg_environment_id :: string
  asg_release_id :: string
  asg_deployment_id :: string
  asg_desired :: AssignmentDesired
  asg_config_hash :: string
  asg_mesh_port_bindings :: "(string, uint32) gomap"
  asg_observed :: AssignmentObserved
  asg_job_id :: string

record JoinToken =
  jt_meta :: Meta
  jt_secret_hash :: string
  jt_single_use :: bool
  jt_used :: bool
  jt_expires_at :: "time option"
  jt_roles :: "NodeRole list"
  jt_created_by_user_id :: string

subsection \<open>domain.proto, job.proto, volume.proto, alert.proto\<close>

datatype CertStatus =
  CERT_STATUS_UNSPECIFIED | CERT_STATUS_PENDING | CERT_STATUS_ISSUED | CERT_STATUS_FAILED

record Domain =
  dom_meta :: Meta
  dom_project_id :: string
  dom_app_id :: string
  dom_environment_id :: string
  dom_hostname :: string
  dom_path_prefix :: string
  dom_middleware :: bytes
  dom_cert_status :: CertStatus
  dom_cluster_subdomain :: bool
  dom_port_name :: string

record DNSProviderConfig =
  dns_meta :: Meta
  dns_type :: string
  dns_name :: string
  dns_credentials :: "(string, EncryptedValue) gomap"
  dns_zones :: "string list"

datatype JobStatus =
  JOB_STATUS_UNSPECIFIED | JOB_STATUS_QUEUED | JOB_STATUS_RUNNING | JOB_STATUS_SUCCEEDED
  | JOB_STATUS_FAILED | JOB_STATUS_RETRYING | JOB_STATUS_CANCELED

record Job =
  job_meta :: Meta
  job_project_id :: string
  job_app_id :: string
  job_environment_id :: string
  job_release_id :: string
  job_command :: string
  job_cron_name :: string
  job_status :: JobStatus
  job_node_id :: string
  job_exit_code :: int
  job_attempt :: uint32
  job_max_retries :: uint32
  job_error :: string
  job_started_at :: "time option"
  job_finished_at :: "time option"
  job_created_by_user_id :: string

datatype VolumeStatus =
  VOLUME_STATUS_UNSPECIFIED | VOLUME_STATUS_ACTIVE | VOLUME_STATUS_NODE_LOST
  | VOLUME_STATUS_RESTORING

record VolumeLease =
  lease_node_id :: string
  lease_assignment_id :: string
  lease_expires_at :: "time option"

record SnapshotPolicy =
  sp_schedule :: string
  sp_pre_hook :: string
  sp_keep_last :: uint32

record Volume =
  vol_meta :: Meta
  vol_project_id :: string
  vol_environment_id :: string
  vol_name :: string
  vol_node_id :: string
  vol_status :: VolumeStatus
  vol_lease :: "VolumeLease option"
  vol_snapshot_policy :: "SnapshotPolicy option"
  vol_size_bytes_observed :: uint64

datatype SnapshotStatus =
  SNAPSHOT_STATUS_UNSPECIFIED | SNAPSHOT_STATUS_RUNNING | SNAPSHOT_STATUS_COMPLETE
  | SNAPSHOT_STATUS_FAILED

record VolumeSnapshot =
  vs_meta :: Meta
  vs_volume_id :: string
  vs_manifest_key :: string
  vs_logical_size_bytes :: uint64
  vs_uploaded_bytes :: uint64
  vs_status :: SnapshotStatus
  vs_error :: string

record BackupConfig =
  bc_s3_endpoint :: string
  bc_s3_bucket :: string
  bc_s3_prefix :: string
  bc_s3_region :: string
  bc_s3_access_key :: EncryptedValue
  bc_s3_secret_key :: EncryptedValue
  bc_schedule :: string
  bc_verify :: bool
  bc_archive :: bool

record BackupRecord =
  br_meta :: Meta
  br_kind :: string
  br_manifest_key :: string
  br_bytes :: uint64
  br_status :: string
  br_error :: string

record AlertRule =
  ar_meta :: Meta
  ar_name :: string
  ar_project_id :: string
  ar_metric :: bytes
  ar_event_kind :: string
  ar_channel_ids :: "string list"
  ar_disabled :: bool

record NotificationChannel =
  nc_meta :: Meta
  nc_name :: string
  nc_type :: string
  nc_webhook_url_plain :: string
  nc_email_to :: string
  nc_smtp :: bytes
  nc_telegram_chat_id :: string
  nc_secrets :: bytes

subsection \<open>cluster/v1/fsm.proto\<close>

record NetworkAllocation =
  na_project_id :: string
  na_environment_id :: string
  na_node_id :: string
  na_subnet_cidr :: string

record AppliedRequest =
  ar_request_id :: string
  ar_raft_index :: uint64

text \<open>The object id of a message, \<^verbatim>\<open>m.GetMeta().GetId()\<close>.\<close>

abbreviation user_id :: "User \<Rightarrow> string" where "user_id u \<equiv> Id (user_meta u)"
abbreviation project_id :: "Project \<Rightarrow> string" where "project_id p \<equiv> Id (project_meta p)"
abbreviation app_id :: "App \<Rightarrow> string" where "app_id a \<equiv> Id (app_meta a)"
abbreviation env_id :: "Environment \<Rightarrow> string" where "env_id e \<equiv> Id (env_meta e)"
abbreviation rel_id :: "Release \<Rightarrow> string" where "rel_id r \<equiv> Id (rel_meta r)"
abbreviation dep_id :: "Deployment \<Rightarrow> string" where "dep_id d \<equiv> Id (dep_meta d)"
abbreviation build_id :: "Build \<Rightarrow> string" where "build_id b \<equiv> Id (build_meta b)"
abbreviation node_id :: "Node \<Rightarrow> string" where "node_id n \<equiv> Id (node_meta n)"
abbreviation jt_id :: "JoinToken \<Rightarrow> string" where "jt_id t \<equiv> Id (jt_meta t)"
abbreviation asg_id :: "Assignment \<Rightarrow> string" where "asg_id a \<equiv> Id (asg_meta a)"
abbreviation token_id :: "Token \<Rightarrow> string" where "token_id t \<equiv> Id (token_meta t)"
abbreviation dom_id :: "Domain \<Rightarrow> string" where "dom_id d \<equiv> Id (dom_meta d)"
abbreviation dns_id :: "DNSProviderConfig \<Rightarrow> string" where "dns_id p \<equiv> Id (dns_meta p)"
abbreviation vol_id :: "Volume \<Rightarrow> string" where "vol_id v \<equiv> Id (vol_meta v)"
abbreviation vs_id :: "VolumeSnapshot \<Rightarrow> string" where "vs_id v \<equiv> Id (vs_meta v)"
abbreviation br_id :: "BackupRecord \<Rightarrow> string" where "br_id b \<equiv> Id (br_meta b)"
abbreviation job_id :: "Job \<Rightarrow> string" where "job_id j \<equiv> Id (job_meta j)"
abbreviation ar_id :: "AlertRule \<Rightarrow> string" where "ar_id r \<equiv> Id (ar_meta r)"
abbreviation nc_id :: "NotificationChannel \<Rightarrow> string" where "nc_id c \<equiv> Id (nc_meta c)"

end
