(* ===== verification/Watch.thy ===== *)
theory Watch
  imports Proto
begin

text \<open>
  The watch hub of the state store, \<^verbatim>\<open>internal/state/watch.go\<close>, with the resource kinds of
  \<^verbatim>\<open>internal/state/state.go\<close>. Subscriptions are heap objects: \<open>objs\<close> maps an address to
  the object, \<open>subs\<close> is the hub's set of registered addresses. The channel \<^verbatim>\<open>signal\<close> of
  capacity one is a flag: a non-blocking send sets it, a receive clears it.
\<close>

subsection \<open>Data\<close>

datatype Kind =
  KindOrg | KindUser | KindProject | KindProjectMember | KindApp | KindEnvironment
  | KindEnvVar | KindRelease | KindDeployment | KindBuild | KindNode | KindJoinToken
  | KindAssignment | KindToken | KindDomain | KindKV | KindDNSProvider | KindVolume
  | KindVolumeSnapshot | KindBackup | KindNetworkAlloc | KindServiceVIP | KindJob
  | KindAlertRule | KindNotifyChannel | KindEvent | KindClusterKey

record Change =
  change_kind :: Kind
  change_id :: string

record Subscription =
  sub_kinds :: "Kind list option"
  sub_pending :: "Change list"
  sub_signal :: bool
  sub_closed :: bool

record Hub =
  hub_subs :: "nat list"
  hub_objs :: "(nat, Subscription) gomap"
  hub_next :: nat

subsection \<open>Operations\<close>

definition newHub :: Hub where
  "newHub = \<lparr>hub_subs = [], hub_objs = [], hub_next = 0\<rparr>"

definition subscribe :: "Kind list \<Rightarrow> Hub \<Rightarrow> Hub \<times> nat" where
  "subscribe kinds h =
     (let sub = \<lparr>sub_kinds = (if kinds = [] then None else Some kinds), sub_pending = [],
                 sub_signal = False, sub_closed = False\<rparr>;
          p = hub_next h
      in (h\<lparr>hub_objs := mput p sub (hub_objs h), hub_subs := p # hub_subs h,
            hub_next := Suc p\<rparr>, p))"

definition wants :: "Subscription \<Rightarrow> Change \<Rightarrow> bool" where
  "wants s c = (case sub_kinds s of None \<Rightarrow> True | Some ks \<Rightarrow> change_kind c \<in> set ks)"

definition offer :: "Change \<Rightarrow> Subscription \<Rightarrow> Subscription" where
  "offer c s =
     (if \<not> wants s c then s
      else if sub_closed s then s
      else s\<lparr>sub_pending := List.insert c (sub_pending s), sub_signal := True\<rparr>)"

definition publish :: "Change \<Rightarrow> Hub \<Rightarrow> Hub" where
  "publish c h =
     h\<lparr>hub_objs := map (\<lambda>(p, s). (p, if p \<in> set (hub_subs h) then offer c s else s)) (hub_objs h)\<rparr>"

text \<open>\<^verbatim>\<open><-sub.Notify()\<close> takes the signal, \<^verbatim>\<open>sub.Drain()\<close> takes the pending set.\<close>

definition Notify :: "Subscription \<Rightarrow> bool \<times> Subscription" where
  "Notify s = (sub_signal s, s\<lparr>sub_signal := False\<rparr>)"

definition Drain :: "Subscription \<Rightarrow> Change list \<times> Subscription" where
  "Drain s = (sub_pending s, s\<lparr>sub_pending := []\<rparr>)"

definition Close :: "nat \<Rightarrow> Hub \<Rightarrow> Hub" where
  "Close p h =
     h\<lparr>hub_subs := removeAll p (hub_subs h),
       hub_objs := map (\<lambda>(q, s). (q, if q = p then s\<lparr>sub_closed := True, sub_pending := []\<rparr> else s))
                       (hub_objs h)\<rparr>"

subsection \<open>The life of one subscription\<close>

text \<open>A subscription sees the publisher's changes and its owner's two actions, in any order.\<close>

datatype sub_event = Offered Change | Notified | Drained

fun sub_step :: "sub_event \<Rightarrow> Subscription \<times> Change list \<Rightarrow> Subscription \<times> Change list" where
  "sub_step (Offered c) (s, got) = (offer c s, got)"
| "sub_step Notified (s, got) = (snd (Notify s), got)"
| "sub_step Drained (s, got) = (snd (Drain s), got @ fst (Drain s))"

primrec sub_run :: "sub_event list \<Rightarrow> Subscription \<times> Change list \<Rightarrow> Subscription \<times> Change list" where
  "sub_run [] x = x"
| "sub_run (e # es) x = sub_run es (sub_step e x)"

primrec offered :: "Subscription \<Rightarrow> sub_event list \<Rightarrow> Change set" where
  "offered s [] = {}"
| "offered s (e # es) =
     (case e of Offered c \<Rightarrow> (if wants s c then {c} else {}) | _ \<Rightarrow> {}) \<union> offered s es"

lemma wants_frame [simp]:
  "wants (s\<lparr>sub_pending := p\<rparr>) c = wants s c"
  "wants (s\<lparr>sub_signal := b\<rparr>) c = wants s c"
  by (simp_all add: wants_def)

lemma wants_offer [simp]: "wants (offer c s) d = wants s d"
  by (simp add: offer_def)

lemma offered_cong: "(\<And>c. wants s c = wants t c) \<Longrightarrow> offered s es = offered t es"
  by (induction es) (auto split: sub_event.splits)

lemma sub_step_closed [simp]: "sub_closed (fst (sub_step e x)) = sub_closed (fst x)"
  by (cases e; cases x) (auto simp: offer_def Notify_def Drain_def)

lemma sub_step_wants [simp]: "wants (fst (sub_step e x)) c = wants (fst x) c"
  by (cases e; cases x) (auto simp: Notify_def Drain_def)

lemma sub_step_collect:
  assumes "\<not> sub_closed (fst x)"
  shows "set (snd (sub_step e x)) \<union> set (sub_pending (fst (sub_step e x))) =
         set (snd x) \<union> set (sub_pending (fst x)) \<union>
           (case e of Offered c \<Rightarrow> (if wants (fst x) c then {c} else {}) | _ \<Rightarrow> {})"
  using assms by (cases e; cases x) (auto simp: offer_def Notify_def Drain_def)

lemma sub_run_collect:
  "\<not> sub_closed (fst x) \<Longrightarrow>
     set (snd (sub_run es x)) \<union> set (sub_pending (fst (sub_run es x))) =
     set (snd x) \<union> set (sub_pending (fst x)) \<union> offered (fst x) es"
proof (induction es arbitrary: x)
  case Nil
  then show ?case by simp
next
  case (Cons e es)
  have "offered (fst (sub_step e x)) es = offered (fst x) es"
    by (rule offered_cong) simp
  with Cons.IH [of "sub_step e x"] sub_step_collect [OF Cons.prems, of e] Cons.prems
  show ?case by (simp add: Un_ac)
qed

text \<open>The signal is level-triggered: an owner that drains after every received signal (as every
  control loop of the daemon does) never sleeps on pending changes.\<close>

fun protocol :: "sub_event list \<Rightarrow> bool" where
  "protocol [] = True"
| "protocol (Notified # Drained # es) = protocol es"
| "protocol (Notified # es) = False"
| "protocol (_ # es) = protocol es"

definition awake :: "Subscription \<Rightarrow> bool" where
  "awake s = (sub_pending s \<noteq> [] \<longrightarrow> sub_signal s)"

lemma awake_offer [simp]: "awake s \<Longrightarrow> awake (offer c s)"
  by (simp add: awake_def offer_def)

lemma awake_Drain [simp]: "awake (snd (Drain s))"
  by (simp add: awake_def Drain_def)

lemma sub_run_awake:
  "protocol es \<Longrightarrow> awake s \<Longrightarrow> awake (fst (sub_run es (s, got)))"
  by (induction es arbitrary: s got rule: protocol.induct) auto

lemma publish_reaches:
  assumes "map_of (hub_objs h) p = Some s" and "p \<in> set (hub_subs h)"
  shows "map_of (hub_objs (publish c h)) p = Some (offer c s)"
proof -
  have "map_of (map (\<lambda>(q, t). (q, if q \<in> set (hub_subs h) then offer c t else t)) m) p =
        map_option (\<lambda>t. if p \<in> set (hub_subs h) then offer c t else t) (map_of m p)" for m
    by (induction m) auto
  with assms show ?thesis by (simp add: publish_def)
qed



end
