(* ===== verification/Store.thy ===== *)
theory Store
  imports Watch
begin

text \<open>
  The replicated cluster state, \<^verbatim>\<open>internal/state/state.go\<close> and
  \<^verbatim>\<open>internal/state/accessors.go\<close>: the collections of users, projects, members, apps,
  environments, variables, releases, deployments and builds. The mutators take the store last and
  return the new store; \<^verbatim>\<open>clone\<close> is the identity on values, and the write lock that every
  mutator holds makes each of them one step. A getter that returns \<^verbatim>\<open>(*T, bool)\<close> returns an
  option. A lookup through a secondary index returns an option of an option: \<open>Some None\<close> is the
  nil message with \<^verbatim>\<open>ok = true\<close> that a dangling index entry would give.
\<close>

subsection \<open>The store\<close>

record kvEntry =
  kv_value :: bytes
  kv_version :: int
  kv_expiresAt :: int

record Store =
  version :: uint64
  org :: "Org option"
  clusterKey :: "ClusterKeyMaterial option"
  users :: "(string, User) gomap"
  usersByEmail :: "(string, string) gomap"
  projects :: "(string, Project) gomap"
  projectMembers :: "(string, (string, ProjectMember) gomap) gomap"
  apps :: "(string, App) gomap"
  environments :: "(string, Environment) gomap"
  envVars :: "(string, (string, EncryptedValue) gomap) gomap"
  releases :: "(string, Release) gomap"
  deployments :: "(string, Deployment) gomap"
  builds :: "(string, Build) gomap"
  nodes :: "(string, Node) gomap"
  joinTokens :: "(string, JoinToken) gomap"
  assignments :: "(string, Assignment) gomap"
  assignmentsByNode :: "(string, (string, unit) gomap) gomap"
  tokens :: "(string, Token) gomap"
  tokensByHash :: "(string, string) gomap"
  domains :: "(string, Domain) gomap"
  domainsByHostname :: "(string, (string, bool) gomap) gomap"
  kv :: "(string, kvEntry) gomap"
  dnsProviders :: "(string, DNSProviderConfig) gomap"
  volumes :: "(string, Volume) gomap"
  volumeSnapshots :: "(string, VolumeSnapshot) gomap"
  backupConfig :: "BackupConfig option"
  backupRecords :: "(string, BackupRecord) gomap"
  networkAllocs :: "(string, NetworkAllocation) gomap"
  serviceVIPs :: "(string, string) gomap"
  jobs :: "(string, Job) gomap"
  alertRules :: "(string, AlertRule) gomap"
  notifyChannels :: "(string, NotificationChannel) gomap"
  events :: "Event list"
  audit :: "AuditEntry list"
  appliedRequests :: "AppliedRequest list"
  appliedSet :: "(string, unit) gomap"
  hub :: Hub

definition auditRingCap :: nat where "auditRingCap = 50000"
definition eventRingCap :: nat where "eventRingCap = 10000"
definition appliedRingCap :: nat where "appliedRingCap = 8192"

definition New :: Store where
  "New = \<lparr>version = 0, org = None, clusterKey = None, users = [], usersByEmail = [],
     projects = [], projectMembers = [], apps = [], environments = [], envVars = [],
     releases = [], deployments = [], builds = [], nodes = [], joinTokens = [],
     assignments = [], assignmentsByNode = [], tokens = [], tokensByHash = [],
     domains = [], domainsByHostname = [], kv = [], dnsProviders = [], volumes = [],
     volumeSnapshots = [], backupConfig = None, backupRecords = [], networkAllocs = [],
     serviceVIPs = [], jobs = [], alertRules = [], notifyChannels = [], events = [],
     audit = [], appliedRequests = [], appliedSet = [], hub = newHub\<rparr>"

definition Watch :: "Kind list \<Rightarrow> Store \<Rightarrow> Store \<times> nat" where
  "Watch kinds s = (case subscribe kinds (hub s) of (h, p) \<Rightarrow> (s\<lparr>hub := h\<rparr>, p))"

definition touch :: "Kind \<Rightarrow> string \<Rightarrow> Store \<Rightarrow> Store" where [store_defs]:
  "touch kind i s =
     s\<lparr>version := version s + 1,
       hub := publish \<lparr>change_kind = kind, change_id = i\<rparr> (hub s)\<rparr>"

text \<open>\<^verbatim>\<open>sortByID\<close> over the cloned values of a map, kept where a filter holds.\<close>

definition sortByID :: "('v \<Rightarrow> string) \<Rightarrow> 'v list \<Rightarrow> 'v list" where
  "sortByID i xs = sort_key i xs"

subsection \<open>Organisation and cluster key\<close>

definition SetOrg :: "Org \<Rightarrow> Store \<Rightarrow> Store" where [store_defs]:
  "SetOrg o' s = touch KindOrg (Id (org_meta o')) (s\<lparr>org := Some o'\<rparr>)"

definition Org :: "Store \<Rightarrow> Org option" where
  "Org s = org s"

definition SetClusterKeyMaterial :: "ClusterKeyMaterial \<Rightarrow> Store \<Rightarrow> Store" where [store_defs]:
  "SetClusterKeyMaterial m s = touch KindClusterKey '''' (s\<lparr>clusterKey := Some m\<rparr>)"

definition ClusterKeyMaterial :: "Store \<Rightarrow> ClusterKeyMaterial option" where
  "ClusterKeyMaterial s = clusterKey s"

subsection \<open>Users\<close>

definition PutUser :: "User \<Rightarrow> Store \<Rightarrow> Store" where [store_defs]:
  "PutUser u s =
     (let i = user_id u;
          byEmail = (case map_of (users s) i of
                       Some prev \<Rightarrow> mdel (user_email prev) (usersByEmail s)
                     | None \<Rightarrow> usersByEmail s)
      in touch KindUser i
           (s\<lparr>users := mput i u (users s), usersByEmail := mput (user_email u) i byEmail\<rparr>))"

definition DeleteUser :: "string \<Rightarrow> Store \<Rightarrow> Store" where [store_defs]:
  "DeleteUser i s =
     (case map_of (users s) i of
        None \<Rightarrow> s
      | Some prev \<Rightarrow>
          touch KindUser i
            (s\<lparr>usersByEmail := mdel (user_email prev) (usersByEmail s),
               users := mdel i (users s)\<rparr>))"

definition User :: "string \<Rightarrow> Store \<Rightarrow> User option" where
  "User i s = map_of (users s) i"

definition UserByEmail :: "string \<Rightarrow> Store \<Rightarrow> User option option" where
  "UserByEmail email s =
     (case map_of (usersByEmail s) email of
        None \<Rightarrow> None
      | Some i \<Rightarrow> Some (map_of (users s) i))"

definition ListUsers :: "Store \<Rightarrow> User list" where
  "ListUsers s = sortByID user_id (mvals (users s))"

subsection \<open>Projects and members\<close>

definition PutProject :: "Project \<Rightarrow> Store \<Rightarrow> Store" where [store_defs]:
  "PutProject p s =
     touch KindProject (project_id p) (s\<lparr>projects := mput (project_id p) p (projects s)\<rparr>)"

definition DeleteProject :: "string \<Rightarrow> Store \<Rightarrow> Store" where [store_defs]:
  "DeleteProject i s =
     (if mhas (projects s) i
      then touch KindProject i
             (s\<lparr>projects := mdel i (projects s), projectMembers := mdel i (projectMembers s)\<rparr>)
      else s)"

definition Project :: "string \<Rightarrow> Store \<Rightarrow> Project option" where
  "Project i s = map_of (projects s) i"

definition ProjectByName :: "string \<Rightarrow> Store \<Rightarrow> Project option" where
  "ProjectByName name s = find (\<lambda>p. project_name p = name) (mvals (projects s))"

definition ListProjects :: "Store \<Rightarrow> Project list" where
  "ListProjects s = sortByID project_id (mvals (projects s))"

definition PutProjectMember :: "ProjectMember \<Rightarrow> Store \<Rightarrow> Store" where [store_defs]:
  "PutProjectMember m s =
     (let byUser = inner (projectMembers s) (pm_project_id m)
      in touch KindProjectMember (pm_project_id m @ ''/'' @ pm_user_id m)
           (s\<lparr>projectMembers :=
                mput (pm_project_id m) (mput (pm_user_id m) m byUser) (projectMembers s)\<rparr>))"

definition DeleteProjectMember :: "string \<Rightarrow> string \<Rightarrow> Store \<Rightarrow> Store" where [store_defs]:
  "DeleteProjectMember projectID userID s =
     (case map_of (projectMembers s) projectID of
        None \<Rightarrow> s
      | Some byUser \<Rightarrow>
          if mhas byUser userID
          then touch KindProjectMember (projectID @ ''/'' @ userID)
                 (s\<lparr>projectMembers := mput projectID (mdel userID byUser) (projectMembers s)\<rparr>)
          else s)"

definition ProjectMember :: "string \<Rightarrow> string \<Rightarrow> Store \<Rightarrow> ProjectMember option" where
  "ProjectMember projectID userID s =
     (case map_of (projectMembers s) projectID of
        None \<Rightarrow> None
      | Some byUser \<Rightarrow> map_of byUser userID)"

definition ListProjectMembers :: "string \<Rightarrow> Store \<Rightarrow> ProjectMember list" where
  "ListProjectMembers projectID s =
     sort_key pm_user_id (mvals (inner (projectMembers s) projectID))"

definition ListMembershipsOfUser :: "string \<Rightarrow> Store \<Rightarrow> ProjectMember list" where
  "ListMembershipsOfUser userID s =
     sort_key pm_project_id
       (List.map_filter (\<lambda>byUser. map_of byUser userID) (mvals (projectMembers s)))"

subsection \<open>Apps\<close>

definition PutApp :: "App \<Rightarrow> Store \<Rightarrow> Store" where [store_defs]:
  "PutApp a s = touch KindApp (app_id a) (s\<lparr>apps := mput (app_id a) a (apps s)\<rparr>)"

definition DeleteApp :: "string \<Rightarrow> Store \<Rightarrow> Store" where [store_defs]:
  "DeleteApp i s =
     (if mhas (apps s) i then touch KindApp i (s\<lparr>apps := mdel i (apps s)\<rparr>) else s)"

definition App :: "string \<Rightarrow> Store \<Rightarrow> App option" where
  "App i s = map_of (apps s) i"

definition AppByName :: "string \<Rightarrow> string \<Rightarrow> Store \<Rightarrow> App option" where
  "AppByName projectID name s =
     find (\<lambda>a. app_project_id a = projectID \<and> app_name a = name) (mvals (apps s))"

definition ListApps :: "string \<Rightarrow> Store \<Rightarrow> App list" where
  "ListApps projectID s =
     sortByID app_id (filter (\<lambda>a. projectID = '''' \<or> app_project_id a = projectID) (mvals (apps s)))"

subsection \<open>Environments and their variables\<close>

definition PutEnvironment :: "Environment \<Rightarrow> Store \<Rightarrow> Store" where [store_defs]:
  "PutEnvironment e s =
     touch KindEnvironment (env_id e) (s\<lparr>environments := mput (env_id e) e (environments s)\<rparr>)"

definition DeleteEnvironment :: "string \<Rightarrow> Store \<Rightarrow> Store" where [store_defs]:
  "DeleteEnvironment i s =
     (if mhas (environments s) i
      then touch KindEnvironment i
             (s\<lparr>environments := mdel i (environments s), envVars := mdel i (envVars s)\<rparr>)
      else s)"

definition Environment :: "string \<Rightarrow> Store \<Rightarrow> Environment option" where
  "Environment i s = map_of (environments s) i"

definition EnvironmentByName :: "string \<Rightarrow> string \<Rightarrow> Store \<Rightarrow> Environment option" where
  "EnvironmentByName appID name s =
     find (\<lambda>e. env_app_id e = appID \<and> env_name e = name) (mvals (environments s))"

definition ListEnvironments :: "string \<Rightarrow> string \<Rightarrow> Store \<Rightarrow> Environment list" where
  "ListEnvironments projectID appID s =
     sortByID env_id
       (filter (\<lambda>e. \<not> (appID \<noteq> '''' \<and> env_app_id e \<noteq> appID)
                   \<and> \<not> (projectID \<noteq> '''' \<and> env_project_id e \<noteq> projectID))
               (mvals (environments s)))"

definition SetEnvVars ::
  "string \<Rightarrow> (string, EncryptedValue) gomap \<Rightarrow> string list \<Rightarrow> Store \<Rightarrow> Store" where [store_defs]:
  "SetEnvVars envID set' unset s =
     (let vars = inner (envVars s) envID;
          vars1 = fold (\<lambda>(k, v). mput k v) set' vars;
          vars2 = fold mdel unset vars1
      in touch KindEnvVar envID (s\<lparr>envVars := mput envID vars2 (envVars s)\<rparr>))"

definition EnvVars :: "string \<Rightarrow> Store \<Rightarrow> (string, EncryptedValue) gomap" where
  "EnvVars envID s = inner (envVars s) envID"

subsection \<open>Releases, deployments, builds\<close>

definition PutRelease :: "Release \<Rightarrow> Store \<Rightarrow> Store" where [store_defs]:
  "PutRelease r s = touch KindRelease (rel_id r) (s\<lparr>releases := mput (rel_id r) r (releases s)\<rparr>)"

definition Release :: "string \<Rightarrow> Store \<Rightarrow> Release option" where
  "Release i s = map_of (releases s) i"

definition DeleteRelease :: "string \<Rightarrow> Store \<Rightarrow> Store" where [store_defs]:
  "DeleteRelease i s = touch KindRelease i (s\<lparr>releases := mdel i (releases s)\<rparr>)"

text \<open>Sorted by version, newest first; \<^verbatim>\<open>sort.Slice\<close> leaves the order of equal versions open.\<close>

definition ListReleases :: "string \<Rightarrow> Store \<Rightarrow> Release list" where
  "ListReleases envID s =
     sort_key (\<lambda>r. - uint (rel_version r))
       (filter (\<lambda>r. envID = '''' \<or> rel_environment_id r = envID) (mvals (releases s)))"

definition NextReleaseVersion :: "string \<Rightarrow> Store \<Rightarrow> uint64" where
  "NextReleaseVersion envID s =
     fold (\<lambda>r maxV. if rel_environment_id r = envID \<and> rel_version r > maxV
                     then rel_version r else maxV) (mvals (releases s)) 0 + 1"

definition PutDeployment :: "Deployment \<Rightarrow> Store \<Rightarrow> Store" where [store_defs]:
  "PutDeployment d s =
     touch KindDeployment (dep_id d) (s\<lparr>deployments := mput (dep_id d) d (deployments s)\<rparr>)"

definition Deployment :: "string \<Rightarrow> Store \<Rightarrow> Deployment option" where
  "Deployment i s = map_of (deployments s) i"

definition ListDeployments :: "string \<Rightarrow> Store \<Rightarrow> Deployment list" where
  "ListDeployments envID s =
     sortByID dep_id
       (filter (\<lambda>d. envID = '''' \<or> dep_environment_id d = envID) (mvals (deployments s)))"

definition PutBuild :: "Build \<Rightarrow> Store \<Rightarrow> Store" where [store_defs]:
  "PutBuild b s = touch KindBuild (build_id b) (s\<lparr>builds := mput (build_id b) b (builds s)\<rparr>)"

definition Build :: "string \<Rightarrow> Store \<Rightarrow> Build option" where
  "Build i s = map_of (builds s) i"

definition ListBuilds :: "string \<Rightarrow> Store \<Rightarrow> Build list" where
  "ListBuilds appID s =
     sortByID build_id (filter (\<lambda>b. appID = '''' \<or> build_app_id b = appID) (mvals (builds s)))"

end
