(* ===== verification/GoStrings.thy ===== *)
theory GoStrings
  imports Prelude
begin

text \<open>
  The functions of Go's \<^verbatim>\<open>strings\<close>, \<^verbatim>\<open>strconv\<close> and \<^verbatim>\<open>fmt\<close> packages that the
  modelled code calls. A Go string is its list of bytes; \<^verbatim>\<open>strings.TrimSpace\<close> and
  \<^verbatim>\<open>strings.ToLower\<close> are modelled on ASCII text.
\<close>

definition is_space :: "char \<Rightarrow> bool" where
  "is_space c = (of_char c \<in> {9, 10, 11, 12, 13, 32 :: nat})"

definition TrimSpace :: "string \<Rightarrow> string" where
  "TrimSpace s = rev (dropWhile is_space (rev (dropWhile is_space s)))"

definition HasPrefix :: "string \<Rightarrow> string \<Rightarrow> bool" where
  "HasPrefix s p = (take (length p) s = p)"

definition HasSuffix :: "string \<Rightarrow> string \<Rightarrow> bool" where
  "HasSuffix s p = HasPrefix (rev s) (rev p)"

definition TrimPrefix :: "string \<Rightarrow> string \<Rightarrow> string" where
  "TrimPrefix s p = (if HasPrefix s p then drop (length p) s else s)"

definition TrimSuffix :: "string \<Rightarrow> string \<Rightarrow> string" where
  "TrimSuffix s p = (if HasSuffix s p then take (length s - length p) s else s)"

text \<open>\<^verbatim>\<open>strings.Split\<close> and \<^verbatim>\<open>strings.Cut\<close> with a separator of one byte, the only use
  in the code.\<close>

fun Split :: "char \<Rightarrow> string \<Rightarrow> string list" where
  "Split c [] = [[]]"
| "Split c (x # xs) =
     (if x = c then [] # Split c xs
      else (case Split c xs of [] \<Rightarrow> [[x]] | y # ys \<Rightarrow> (x # y) # ys))"

fun Join :: "string list \<Rightarrow> string \<Rightarrow> string" where
  "Join [] sep = []"
| "Join [x] sep = x"
| "Join (x # y # ys) sep = x @ sep @ Join (y # ys) sep"

fun Cut :: "char \<Rightarrow> string \<Rightarrow> string \<times> string \<times> bool" where
  "Cut c [] = ([], [], False)"
| "Cut c (x # xs) =
     (if x = c then ([], xs, True)
      else (case Cut c xs of (b, a, f) \<Rightarrow> (x # b, a, f)))"

definition lower_char :: "char \<Rightarrow> char" where
  "lower_char c = (let n = of_char c :: nat in if 65 \<le> n \<and> n \<le> 90 then char_of (n + 32) else c)"

definition ToLower :: "string \<Rightarrow> string" where
  "ToLower s = map lower_char s"

definition is_digit :: "char \<Rightarrow> bool" where
  "is_digit c = (48 \<le> (of_char c :: nat) \<and> (of_char c :: nat) \<le> 57)"

definition digit_val :: "char \<Rightarrow> int" where
  "digit_val c = of_char c - 48"

definition atoi_digits :: "string \<Rightarrow> int option" where
  "atoi_digits s =
     (if s = [] \<or> \<not> list_all is_digit s then None
      else Some (foldl (\<lambda>n c. 10 * n + digit_val c) 0 s))"

text \<open>\<^verbatim>\<open>strconv.Atoi\<close>: an optional sign, decimal digits, and the range of a 64-bit
  \<^verbatim>\<open>int\<close>; \<^const>\<open>None\<close> is the error.\<close>

definition in_int64 :: "int \<Rightarrow> bool" where
  "in_int64 n = (- (2 ^ 63) \<le> n \<and> n < 2 ^ 63)"

definition Atoi :: "string \<Rightarrow> int option" where
  "Atoi s =
     (let r = (case s of
                 [] \<Rightarrow> None
               | c # cs \<Rightarrow>
                   if c = CHR ''-'' then map_option uminus (atoi_digits cs)
                   else if c = CHR ''+'' then atoi_digits cs
                   else atoi_digits s)
      in case r of None \<Rightarrow> None | Some n \<Rightarrow> if in_int64 n then Some n else None)"

text \<open>The \<^verbatim>\<open>%d\<close> verb on a non-negative number.\<close>

fun Itoa :: "nat \<Rightarrow> string" where
  "Itoa n = (if n < 10 then [char_of (48 + n)] else Itoa (n div 10) @ [char_of (48 + n mod 10)])"

declare Itoa.simps [simp del]

subsection \<open>Decimal numerals\<close>

lemma of_char_digit: "(d :: nat) < 10 \<Longrightarrow> (of_char (char_of (48 + d) :: char) :: nat) = 48 + d"
  by simp

lemma digit_val_char: "(d :: nat) < 10 \<Longrightarrow> digit_val (char_of (48 + d)) = int d"
proof -
  assume "d < 10"
  then have "(of_char (char_of (48 + d) :: char) :: int) = int (48 + d)"
    by (metis of_char_digit of_nat_of_char)
  then show ?thesis by (simp add: digit_val_def)
qed

lemma is_digit_char: "(d :: nat) < 10 \<Longrightarrow> is_digit (char_of (48 + d))"
  by (simp add: is_digit_def)

lemma Itoa_digits: "list_all is_digit (Itoa n)"
proof (induction n rule: Itoa.induct)
  case (1 n)
  then show ?case
    by (subst Itoa.simps) (auto simp: is_digit_char list_all_iff)
qed

lemma Itoa_nonempty [simp]: "Itoa n \<noteq> []"
  by (subst Itoa.simps) simp

lemma Itoa_foldl: "foldl (\<lambda>n c. 10 * n + digit_val c) 0 (Itoa n) = int n"
proof (induction n rule: Itoa.induct)
  case (1 n)
  show ?case
  proof (cases "n < 10")
    case True
    then show ?thesis by (simp add: Itoa.simps [of n] digit_val_char)
  next
    case False
    with 1 have "foldl (\<lambda>n c. 10 * n + digit_val c) 0 (Itoa (n div 10)) = int (n div 10)"
      by simp
    moreover have "10 * int (n div 10) + int (n mod 10) = int n"
      by (simp add: zdiv_int zmod_int)
    ultimately show ?thesis
      using False by (simp add: Itoa.simps [of n] digit_val_char)
  qed
qed

lemma atoi_digits_Itoa: "atoi_digits (Itoa n) = Some (int n)"
  by (simp add: atoi_digits_def Itoa_digits Itoa_foldl)

lemma Itoa_head:
  assumes "Itoa n = c # cs"
  shows "c \<noteq> CHR ''-'' \<and> c \<noteq> CHR ''+''"
  using Itoa_digits [of n] unfolding assms by (auto simp: is_digit_def)

lemma Atoi_Itoa: "int n < 2 ^ 63 \<Longrightarrow> Atoi (Itoa n) = Some (int n)"
  using atoi_digits_Itoa [of n] Itoa_head [of n]
  by (cases "Itoa n") (auto simp: Atoi_def in_int64_def)

lemma Itoa_inj: "Itoa m = Itoa n \<Longrightarrow> m = n"
  by (metis atoi_digits_Itoa of_nat_eq_iff option.inject)

lemma non_digit_notin_Itoa: "\<not> is_digit c \<Longrightarrow> c \<notin> set (Itoa n)"
  using Itoa_digits [of n] by (auto simp: list_all_iff)

subsection \<open>Splitting\<close>

lemma Split_nonempty [simp]: "Split c s \<noteq> []"
  by (cases s) (auto split: list.splits)

lemma Split_no_sep: "c \<notin> set s \<Longrightarrow> Split c s = [s]"
  by (induction s) auto

lemma Split_append: "c \<notin> set s \<Longrightarrow> Split c (s @ c # t) = s # Split c t"
  by (induction s) auto

lemma Cut_no_sep: "c \<notin> set s \<Longrightarrow> Cut c s = (s, [], False)"
  by (induction s) auto

lemma Cut_append: "c \<notin> set s \<Longrightarrow> Cut c (s @ c # t) = (s, t, True)"
  by (induction s) auto

lemma Cut_SomeD: "Cut c s = (b, a, True) \<Longrightarrow> s = b @ c # a \<and> c \<notin> set b"
  by (induction s arbitrary: b) (auto split: if_splits prod.splits)

end
