(* ===== verification/Versions.thy ===== *)
theory Versions
  imports GoStrings
begin

text \<open>
  Build versions, \<^verbatim>\<open>internal/pkgutil/version/compare.go\<close>: parsing of \<^verbatim>\<open>git describe\<close>
  output and the partial order on versions that the upgrade planner and
  \<^verbatim>\<open>Store.ClusterVersionRange\<close> use.
\<close>

record Parsed =
  Major :: int
  Minor :: int
  Patch :: int
  Ahead :: int
  Unknown :: bool

definition unknown_version :: Parsed where
  "unknown_version = \<lparr>Major = 0, Minor = 0, Patch = 0, Ahead = 0, Unknown = True\<rparr>"

text \<open>The loop over the dotted components: at most three are read, and any that is not a number
  makes the version unknown.\<close>

fun parse_nums :: "nat \<Rightarrow> string list \<Rightarrow> Parsed \<Rightarrow> Parsed" where
  "parse_nums i [] out = out"
| "parse_nums i (n # ns) out =
     (if i > 2 then out
      else case Atoi n of
             None \<Rightarrow> unknown_version
           | Some val \<Rightarrow>
               parse_nums (Suc i) ns
                 (if i = 0 then out\<lparr>Major := val\<rparr>
                  else if i = 1 then out\<lparr>Minor := val\<rparr>
                  else out\<lparr>Patch := val\<rparr>))"

definition split_describe :: "string \<Rightarrow> string \<times> int" where
  "split_describe raw =
     (let parts = Split (CHR ''-'') raw; l = length parts
      in if l \<ge> 3 \<and> HasPrefix (parts ! (l - 1)) ''g''
         then case Atoi (parts ! (l - 2)) of
                None \<Rightarrow> (raw, 0)
              | Some n \<Rightarrow> (Join (take (l - 2) parts) ''-'', n)
         else (raw, 0))"

definition Parse :: "string \<Rightarrow> Parsed" where
  "Parse v =
     (let raw = TrimPrefix (TrimSuffix (TrimSpace v) ''-dirty'') ''v''
      in if raw = [] then unknown_version
         else case split_describe raw of (core0, ahead) \<Rightarrow>
           (let core = fst (Cut (CHR ''+'') (fst (Cut (CHR ''-'') core0)));
                nums = Split (CHR ''.'') core
            in if nums ! 0 = [] then unknown_version
               else parse_nums 0 nums
                      \<lparr>Major = 0, Minor = 0, Patch = 0, Ahead = ahead, Unknown = False\<rparr>))"

fun compare_pairs :: "(int \<times> int) list \<Rightarrow> int" where
  "compare_pairs [] = 0"
| "compare_pairs ((a, b) # ps) =
     (if a \<noteq> b then (if a < b then - 1 else 1) else compare_pairs ps)"

definition Compare :: "string \<Rightarrow> string \<Rightarrow> int \<times> bool" where
  "Compare a b =
     (let pa = Parse a; pb = Parse b
      in if Unknown pa \<or> Unknown pb then (0, False)
         else (compare_pairs [(Major pa, Major pb), (Minor pa, Minor pb), (Patch pa, Patch pb),
                              (Ahead pa, Ahead pb)], True))"

definition Older :: "string \<Rightarrow> string \<Rightarrow> bool" where
  "Older a b = (case Compare a b of (c, ok) \<Rightarrow> ok \<and> c < 0)"

subsection \<open>The order on versions\<close>

text \<open>The specification: known versions are ordered lexicographically on four numbers.\<close>

definition version_key :: "string \<Rightarrow> int list" where
  "version_key v = (let p = Parse v in [Major p, Minor p, Patch p, Ahead p])"

definition known :: "string \<Rightarrow> bool" where
  "known v = (\<not> Unknown (Parse v))"

lemma Older_iff: "Older a b \<longleftrightarrow> known a \<and> known b \<and> version_key a < version_key b"
  by (auto simp: Older_def Compare_def known_def version_key_def Let_def)

lemma Compare_iff:
  "Compare a b =
     (if \<not> known a \<or> \<not> known b then (0, False)
      else (if version_key a < version_key b then - 1
            else if version_key b < version_key a then 1 else 0, True))"
  by (auto simp: Compare_def known_def version_key_def Let_def)

text \<open>
  Versions, safety: \<open>Older\<close> is a strict partial order, total on known versions up to equal
  version numbers, and an unknown version is neither older nor newer than any other.
\<close>

theorem Older_strict_order:
  "\<not> Older a a
   \<and> (Older a b \<and> Older b c \<longrightarrow> Older a c)
   \<and> (known a \<and> known b \<longrightarrow> Older a b \<or> Older b a \<or> Compare a b = (0, True))
   \<and> (\<not> known a \<longrightarrow> \<not> Older a b \<and> \<not> Older b a)"
  by (auto simp: Older_iff Compare_iff)

theorem Older_strict_order_witness:
  "Older ''v0.3.1'' ''v0.3.1-4-gabc1234'' \<and> Older ''v0.3.1-4-gabc1234'' ''v0.4.0''
   \<and> Older ''v0.3.1'' ''v0.4.0'' \<and> \<not> Older ''dev'' ''v0.4.0''"
proof -
  have "Older ''v0.3.1'' ''v0.3.1-4-gabc1234''" "Older ''v0.3.1-4-gabc1234'' ''v0.4.0''" "\<not> known ''dev''"
    by code_simp+
  then show ?thesis
    using Older_strict_order [of "''v0.3.1''" "''v0.3.1-4-gabc1234''" "''v0.4.0''"]
      Older_strict_order [of "''dev''" "''v0.4.0''"] by blast
qed

subsection \<open>Printed versions parse back\<close>

lemma TrimSpace_id: "list_all (\<lambda>c. \<not> is_space c) s \<Longrightarrow> TrimSpace s = s"
proof -
  assume s: "list_all (\<lambda>c. \<not> is_space c) s"
  have "dropWhile is_space t = t" if "list_all (\<lambda>c. \<not> is_space c) t" for t
    using that by (cases t) auto
  with s show ?thesis by (simp add: TrimSpace_def)
qed

lemma not_HasSuffix: "s \<noteq> [] \<Longrightarrow> p \<noteq> [] \<Longrightarrow> last s \<noteq> last p \<Longrightarrow> \<not> HasSuffix s p"
  by (cases s rule: rev_cases; cases p rule: rev_cases) (auto simp: HasSuffix_def HasPrefix_def)

lemma digit_facts: "is_digit c \<Longrightarrow> \<not> is_space c \<and> c \<notin> {CHR ''.'', CHR ''-'', CHR ''+'', CHR ''y''}"
  by (auto simp: is_digit_def is_space_def)

lemma Itoa_chars: "c \<in> set (Itoa n) \<Longrightarrow> is_digit c"
  using Itoa_digits [of n] by (simp add: list_all_iff)

definition release_tag :: "nat \<Rightarrow> nat \<Rightarrow> nat \<Rightarrow> string" where
  "release_tag a b c = Itoa a @ ''.'' @ Itoa b @ ''.'' @ Itoa c"

lemma release_tag_chars:
  assumes "x \<in> set (release_tag a b c)"
  shows "\<not> is_space x \<and> x \<notin> {CHR ''-'', CHR ''+'', CHR ''y''}"
  using assms digit_facts Itoa_chars by (auto simp: release_tag_def is_space_def)

lemma Split_release_tag: "Split (CHR ''.'') (release_tag a b c) = [Itoa a, Itoa b, Itoa c]"
proof -
  have "CHR ''.'' \<notin> set (Itoa n)" for n
    using digit_facts Itoa_chars by blast
  then show ?thesis by (simp add: release_tag_def Split_append Split_no_sep)
qed

lemma parse_core_release_tag:
  assumes "int a < 2 ^ 63" and "int b < 2 ^ 63" and "int c < 2 ^ 63"
  shows "parse_nums 0 (Split (CHR ''.'')
           (fst (Cut (CHR ''+'') (fst (Cut (CHR ''-'') (release_tag a b c))))))
           \<lparr>Major = 0, Minor = 0, Patch = 0, Ahead = n, Unknown = False\<rparr>
         = \<lparr>Major = int a, Minor = int b, Patch = int c, Ahead = n, Unknown = False\<rparr>"
proof -
  have "CHR ''-'' \<notin> set (release_tag a b c)" and "CHR ''+'' \<notin> set (release_tag a b c)"
    using release_tag_chars by blast+
  then show ?thesis
    using assms by (simp add: Cut_no_sep Split_release_tag Atoi_Itoa)
qed

lemma trim_version:
  assumes "list_all (\<lambda>c. \<not> is_space c) s" and "s \<noteq> []" and "last s \<noteq> CHR ''y''"
  shows "TrimPrefix (TrimSuffix (TrimSpace (CHR ''v'' # s)) ''-dirty'') ''v'' = s"
proof -
  have "TrimSpace (CHR ''v'' # s) = CHR ''v'' # s"
    using assms(1) by (intro TrimSpace_id) (simp add: is_space_def)
  moreover have "\<not> HasSuffix (CHR ''v'' # s) ''-dirty''"
    using assms(2,3) by (intro not_HasSuffix) auto
  ultimately show ?thesis by (simp add: TrimSuffix_def TrimPrefix_def HasPrefix_def)
qed

lemma release_tag_nonempty [simp]: "release_tag a b c \<noteq> []"
  by (simp add: release_tag_def)

lemma last_release_tag: "last (release_tag a b c) \<noteq> CHR ''y''"
  using release_tag_chars [of "last (release_tag a b c)" a b c] by auto

text \<open>Versions, round trip: \<open>Parse\<close> reads back the numbers of a release tag \<^verbatim>\<open>vX.Y.Z\<close>,
  for all numbers an \<^verbatim>\<open>int\<close> holds.
\<close>

theorem Parse_release_tag:
  assumes "int a < 2 ^ 63" and "int b < 2 ^ 63" and "int c < 2 ^ 63"
  shows "Parse (''v'' @ release_tag a b c) =
           \<lparr>Major = int a, Minor = int b, Patch = int c, Ahead = 0, Unknown = False\<rparr>"
proof -
  let ?t = "release_tag a b c"
  have sp: "list_all (\<lambda>x. \<not> is_space x) ?t" and nd: "CHR ''-'' \<notin> set ?t" and np: "CHR ''+'' \<notin> set ?t"
    using release_tag_chars by (auto simp: list_all_iff)
  have "split_describe ?t = (?t, 0)"
    by (simp add: split_describe_def Split_no_sep [OF nd])
  then show ?thesis
    using trim_version [OF sp release_tag_nonempty last_release_tag]
      parse_core_release_tag [OF assms] Itoa_nonempty [of a]
    by (simp add: Parse_def Let_def Cut_no_sep nd np Split_release_tag)
qed

theorem Parse_release_tag_witness:
  "Parse (''v'' @ release_tag 0 3 1) =
     \<lparr>Major = 0, Minor = 3, Patch = 1, Ahead = 0, Unknown = False\<rparr>"
  using Parse_release_tag [of 0 3 1] by simp

lemma Parse_unknown_examples:
  "Unknown (Parse ''dev'') \<and> Unknown (Parse '''') \<and> Unknown (Parse ''v1.x.2'')"
  by code_simp

lemma Parse_describe_example:
  "Parse ''v0.3.1-4-gabc1234-dirty'' =
     \<lparr>Major = 0, Minor = 3, Patch = 1, Ahead = 4, Unknown = False\<rparr>"
  by code_simp

end
