(* ===== verification/StoreInfra.thy ===== *)
theory StoreInfra
  imports Store Versions
begin

text \<open>
  The rest of the replicated state, \<^verbatim>\<open>internal/state/accessors_infra.go\<close>: nodes, join tokens,
  assignments, API tokens, domains, the key-value store with compare-and-swap, volumes, backups,
  network allocations, jobs, alerts, and the bounded histories.
\<close>

definition timestampFromUnixMs :: "int \<Rightarrow> time" where
  "timestampFromUnixMs ms = ms * Millisecond"

lemma UnixMilli_timestampFromUnixMs [simp]: "UnixMilli (timestampFromUnixMs ms) = ms"
  by (simp add: UnixMilli_def timestampFromUnixMs_def Millisecond_def)

subsection \<open>Nodes and join tokens\<close>

definition PutNode :: "Node \<Rightarrow> Store \<Rightarrow> Store" where [store_defs]:
  "PutNode n s = touch KindNode (node_id n) (s\<lparr>nodes := mput (node_id n) n (nodes s)\<rparr>)"

definition DeleteNode :: "string \<Rightarrow> Store \<Rightarrow> Store" where [store_defs]:
  "DeleteNode i s =
     (if mhas (nodes s) i then touch KindNode i (s\<lparr>nodes := mdel i (nodes s)\<rparr>) else s)"

definition Node :: "string \<Rightarrow> Store \<Rightarrow> Node option" where
  "Node i s = map_of (nodes s) i"

fun version_range :: "Node list \<Rightarrow> string \<times> string \<times> bool \<Rightarrow> string \<times> string \<times> bool" where
  "version_range [] acc = acc"
| "version_range (n # ns) (mn, mx, anyUnknown) =
     (let v = node_binary_version n
      in if Unknown (Parse v) then version_range ns (mn, mx, True)
         else version_range ns
                (if mn = '''' \<or> Older v mn then v else mn,
                 if mx = '''' \<or> Older mx v then v else mx, anyUnknown))"

definition ClusterVersionRange :: "Store \<Rightarrow> string \<times> string \<times> bool" where
  "ClusterVersionRange s = version_range (mvals (nodes s)) ('''', '''', False)"

definition ListNodes :: "Store \<Rightarrow> Node list" where
  "ListNodes s = sortByID node_id (mvals (nodes s))"

definition PutJoinToken :: "JoinToken \<Rightarrow> Store \<Rightarrow> Store" where [store_defs]:
  "PutJoinToken t s = touch KindJoinToken (jt_id t) (s\<lparr>joinTokens := mput (jt_id t) t (joinTokens s)\<rparr>)"

definition ListJoinTokens :: "Store \<Rightarrow> JoinToken list" where
  "ListJoinTokens s = sortByID jt_id (mvals (joinTokens s))"

subsection \<open>Assignments\<close>

definition putAssignmentLocked :: "Assignment \<Rightarrow> Store \<Rightarrow> Store" where [store_defs]:
  "putAssignmentLocked a s =
     (let i = asg_id a;
          byNode0 = (case map_of (assignments s) i of
                       Some prev \<Rightarrow>
                         if asg_node_id prev \<noteq> asg_node_id a \<and> mhas (assignmentsByNode s) (asg_node_id prev)
                         then mput (asg_node_id prev)
                                (mdel i (inner (assignmentsByNode s) (asg_node_id prev)))
                                (assignmentsByNode s)
                         else assignmentsByNode s
                     | None \<Rightarrow> assignmentsByNode s)
      in touch KindAssignment i
           (s\<lparr>assignments := mput i a (assignments s),
              assignmentsByNode :=
                mput (asg_node_id a) (mput i () (inner byNode0 (asg_node_id a))) byNode0\<rparr>))"

definition PutAssignment :: "Assignment \<Rightarrow> Store \<Rightarrow> Store" where
  "PutAssignment a s = putAssignmentLocked a s"

definition PutAssignments :: "Assignment list \<Rightarrow> Store \<Rightarrow> Store" where
  "PutAssignments as s = fold putAssignmentLocked as s"

definition deleteAssignmentLocked :: "string \<Rightarrow> Store \<Rightarrow> Store" where [store_defs]:
  "deleteAssignmentLocked i s =
     (case map_of (assignments s) i of
        None \<Rightarrow> s
      | Some prev \<Rightarrow>
          touch KindAssignment i
            (s\<lparr>assignmentsByNode :=
                 (if mhas (assignmentsByNode s) (asg_node_id prev)
                  then mput (asg_node_id prev)
                         (mdel i (inner (assignmentsByNode s) (asg_node_id prev)))
                         (assignmentsByNode s)
                  else assignmentsByNode s),
               assignments := mdel i (assignments s)\<rparr>))"

definition DeleteAssignments :: "string list \<Rightarrow> Store \<Rightarrow> Store" where
  "DeleteAssignments ids s = fold deleteAssignmentLocked ids s"

definition Assignment :: "string \<Rightarrow> Store \<Rightarrow> Assignment option" where
  "Assignment i s = map_of (assignments s) i"

text \<open>One report of an agent merged into the assignment it names.\<close>

definition merge_observed :: "AssignmentObserved \<Rightarrow> Assignment \<Rightarrow> Assignment" where
  "merge_observed obs a =
     (let cur = obs_state (asg_observed a);
          next' = (if obs_state obs = INSTANCE_STATE_RUNNING
                      \<and> (cur = INSTANCE_STATE_HEALTHY \<or> cur = INSTANCE_STATE_UNHEALTHY)
                   then obs\<lparr>obs_state := cur\<rparr> else obs);
          a1 = a\<lparr>asg_observed := next'\<rparr>
      in if length (obs_mesh_port_bindings obs) > 0
         then a1\<lparr>asg_mesh_port_bindings := obs_mesh_port_bindings obs\<rparr>
         else a1)"

definition observeLocked :: "string \<Rightarrow> string \<times> AssignmentObserved \<Rightarrow> Store \<Rightarrow> Store" where [store_defs]:
  "observeLocked nodeID = (\<lambda>(i, obs) s.
     case map_of (assignments s) i of
       None \<Rightarrow> s
     | Some a \<Rightarrow>
         if asg_node_id a \<noteq> nodeID then s
         else touch KindAssignment i
                (s\<lparr>assignments := mput i (merge_observed obs a) (assignments s)\<rparr>))"

definition SetAssignmentObserved ::
  "string \<Rightarrow> (string, AssignmentObserved) gomap \<Rightarrow> Store \<Rightarrow> Store" where
  "SetAssignmentObserved nodeID observed s = fold (observeLocked nodeID) observed s"

definition opt_asg_id :: "Assignment option \<Rightarrow> string" where
  "opt_asg_id x = (case x of None \<Rightarrow> '''' | Some a \<Rightarrow> asg_id a)"

definition ListAssignmentsByNode :: "string \<Rightarrow> Store \<Rightarrow> Assignment option list" where
  "ListAssignmentsByNode nodeID s =
     sortByID opt_asg_id
       (map (\<lambda>p. map_of (assignments s) (fst p)) (inner (assignmentsByNode s) nodeID))"

definition ListAssignments :: "string \<Rightarrow> Store \<Rightarrow> Assignment list" where
  "ListAssignments envID s =
     sortByID asg_id
       (filter (\<lambda>a. envID = '''' \<or> asg_environment_id a = envID) (mvals (assignments s)))"

subsection \<open>API tokens\<close>

definition PutToken :: "Token \<Rightarrow> Store \<Rightarrow> Store" where [store_defs]:
  "PutToken t s =
     (let i = token_id t;
          byHash = (case map_of (tokens s) i of
                      Some prev \<Rightarrow> mdel (token_secret_hash prev) (tokensByHash s)
                    | None \<Rightarrow> tokensByHash s)
      in touch KindToken i
           (s\<lparr>tokens := mput i t (tokens s), tokensByHash := mput (token_secret_hash t) i byHash\<rparr>))"

definition DeleteToken :: "string \<Rightarrow> Store \<Rightarrow> Store" where [store_defs]:
  "DeleteToken i s =
     (case map_of (tokens s) i of
        None \<Rightarrow> s
      | Some prev \<Rightarrow>
          touch KindToken i
            (s\<lparr>tokensByHash := mdel (token_secret_hash prev) (tokensByHash s),
               tokens := mdel i (tokens s)\<rparr>))"

definition TokenByHash :: "string \<Rightarrow> Store \<Rightarrow> Token option option" where
  "TokenByHash hash s =
     (case map_of (tokensByHash s) hash of
        None \<Rightarrow> None
      | Some i \<Rightarrow> Some (map_of (tokens s) i))"

definition Token :: "string \<Rightarrow> Store \<Rightarrow> Token option" where
  "Token i s = map_of (tokens s) i"

definition ListTokens :: "string \<Rightarrow> Store \<Rightarrow> Token list" where
  "ListTokens userID s =
     sortByID token_id
       (filter (\<lambda>t. userID = '''' \<or> token_user_id t = userID) (mvals (tokens s)))"

definition touchTokenLocked :: "string \<times> int \<Rightarrow> Store \<Rightarrow> Store" where [store_defs]:
  "touchTokenLocked = (\<lambda>(i, unixMs) s.
     case map_of (tokens s) i of
       None \<Rightarrow> s
     | Some t \<Rightarrow>
         if token_last_used_at t = None \<or> UnixMilli (AsTime (token_last_used_at t)) < unixMs
         then touch KindToken i
                (s\<lparr>tokens := mput i (t\<lparr>token_last_used_at := Some (timestampFromUnixMs unixMs)\<rparr>)
                                  (tokens s)\<rparr>)
         else s)"

definition TouchTokens :: "(string, int) gomap \<Rightarrow> Store \<Rightarrow> Store" where
  "TouchTokens lastUsed s = fold touchTokenLocked lastUsed s"

subsection \<open>Domains\<close>

definition indexDomain ::
  "Domain \<Rightarrow> (string, (string, bool) gomap) gomap \<Rightarrow> (string, (string, bool) gomap) gomap" where
  "indexDomain d ix = mput (dom_hostname d) (mput (dom_id d) True (inner ix (dom_hostname d))) ix"

definition unindexDomain ::
  "Domain \<Rightarrow> (string, (string, bool) gomap) gomap \<Rightarrow> (string, (string, bool) gomap) gomap" where
  "unindexDomain d ix =
     (case map_of ix (dom_hostname d) of
        None \<Rightarrow> ix
      | Some ids \<Rightarrow>
          (let ids' = mdel (dom_id d) ids
           in if length ids' = 0 then mdel (dom_hostname d) ix else mput (dom_hostname d) ids' ix))"

definition PutDomain :: "Domain \<Rightarrow> Store \<Rightarrow> Store" where [store_defs]:
  "PutDomain d s =
     (let i = dom_id d;
          ix = (case map_of (domains s) i of
                  Some prev \<Rightarrow> unindexDomain prev (domainsByHostname s)
                | None \<Rightarrow> domainsByHostname s)
      in touch KindDomain i
           (s\<lparr>domains := mput i d (domains s), domainsByHostname := indexDomain d ix\<rparr>))"

definition DeleteDomain :: "string \<Rightarrow> Store \<Rightarrow> Store" where [store_defs]:
  "DeleteDomain i s =
     (case map_of (domains s) i of
        None \<Rightarrow> s
      | Some prev \<Rightarrow>
          touch KindDomain i
            (s\<lparr>domainsByHostname := unindexDomain prev (domainsByHostname s),
               domains := mdel i (domains s)\<rparr>))"

definition Domain :: "string \<Rightarrow> Store \<Rightarrow> Domain option" where
  "Domain i s = map_of (domains s) i"

definition DomainByHostname :: "string \<Rightarrow> Store \<Rightarrow> Domain option option" where
  "DomainByHostname hostname s =
     (case inner (domainsByHostname s) hostname of
        [] \<Rightarrow> None
      | p # _ \<Rightarrow> Some (map_of (domains s) (fst p)))"

definition opt_path_prefix :: "Domain option \<Rightarrow> string" where
  "opt_path_prefix x = (case x of None \<Rightarrow> '''' | Some d \<Rightarrow> dom_path_prefix d)"

definition opt_dom_id :: "Domain option \<Rightarrow> string" where
  "opt_dom_id x = (case x of None \<Rightarrow> '''' | Some d \<Rightarrow> dom_id d)"

text \<open>The comparison "longer prefix first, then by id" is the stable sort by the first after the
  sort by the second.\<close>

definition DomainsByHostname :: "string \<Rightarrow> Store \<Rightarrow> Domain option list" where
  "DomainsByHostname hostname s =
     sort_key (\<lambda>d. - int (length (opt_path_prefix d)))
       (sort_key opt_dom_id
         (map (\<lambda>p. map_of (domains s) (fst p)) (inner (domainsByHostname s) hostname)))"

definition DomainByRoute :: "string \<Rightarrow> string \<Rightarrow> Store \<Rightarrow> Domain option option" where
  "DomainByRoute hostname pathPrefix s =
     find (\<lambda>d. opt_path_prefix d = pathPrefix)
       (map (\<lambda>p. map_of (domains s) (fst p)) (inner (domainsByHostname s) hostname))"

definition ListDomains :: "string \<Rightarrow> Store \<Rightarrow> Domain list" where
  "ListDomains projectID s =
     sortByID dom_id
       (filter (\<lambda>d. projectID = '''' \<or> dom_project_id d = projectID) (mvals (domains s)))"

subsection \<open>Replicated key-value store\<close>

datatype kv_error = ErrKVConflict

definition PutKV :: "string \<Rightarrow> bytes \<Rightarrow> int \<Rightarrow> int \<Rightarrow> Store \<Rightarrow> (kv_error + int) \<times> Store" where [store_defs]:
  "PutKV key value expectedVersion expiresAtUnixMs s =
     (let cur = map_of (kv s) key;
          curVersion = (case cur of None \<Rightarrow> 0 | Some e \<Rightarrow> kv_version e)
      in if expectedVersion \<ge> 0 \<and> curVersion \<noteq> expectedVersion then (Inl ErrKVConflict, s)
         else let next' = wrap_int64 (curVersion + 1)
              in (Inr next',
                  touch KindKV key
                    (s\<lparr>kv := mput key \<lparr>kv_value = value, kv_version = next',
                                       kv_expiresAt = expiresAtUnixMs\<rparr> (kv s)\<rparr>)))"

definition DeleteKV :: "string \<Rightarrow> int \<Rightarrow> Store \<Rightarrow> kv_error option \<times> Store" where [store_defs]:
  "DeleteKV key expectedVersion s =
     (case map_of (kv s) key of
        None \<Rightarrow> (None, s)
      | Some cur \<Rightarrow>
          if expectedVersion \<ge> 0 \<and> kv_version cur \<noteq> expectedVersion then (Some ErrKVConflict, s)
          else (None, touch KindKV key (s\<lparr>kv := mdel key (kv s)\<rparr>)))"

definition KV :: "string \<Rightarrow> Store \<Rightarrow> (bytes \<times> int \<times> int) option" where
  "KV key s = map_option (\<lambda>e. (kv_value e, kv_version e, kv_expiresAt e)) (map_of (kv s) key)"

definition ListKVPrefix :: "string \<Rightarrow> Store \<Rightarrow> string list" where
  "ListKVPrefix prefix s = sort (filter (\<lambda>k. HasPrefix k prefix) (map fst (kv s)))"

subsection \<open>DNS providers, volumes, snapshots, backups\<close>

definition PutDNSProvider :: "DNSProviderConfig \<Rightarrow> Store \<Rightarrow> Store" where [store_defs]:
  "PutDNSProvider p s =
     touch KindDNSProvider (dns_id p) (s\<lparr>dnsProviders := mput (dns_id p) p (dnsProviders s)\<rparr>)"

definition DeleteDNSProvider :: "string \<Rightarrow> Store \<Rightarrow> Store" where [store_defs]:
  "DeleteDNSProvider i s =
     (if mhas (dnsProviders s) i
      then touch KindDNSProvider i (s\<lparr>dnsProviders := mdel i (dnsProviders s)\<rparr>) else s)"

definition ListDNSProviders :: "Store \<Rightarrow> DNSProviderConfig list" where
  "ListDNSProviders s = sortByID dns_id (mvals (dnsProviders s))"

definition PutVolume :: "Volume \<Rightarrow> Store \<Rightarrow> Store" where [store_defs]:
  "PutVolume v s = touch KindVolume (vol_id v) (s\<lparr>volumes := mput (vol_id v) v (volumes s)\<rparr>)"

definition DeleteVolume :: "string \<Rightarrow> Store \<Rightarrow> Store" where [store_defs]:
  "DeleteVolume i s =
     (if mhas (volumes s) i then touch KindVolume i (s\<lparr>volumes := mdel i (volumes s)\<rparr>) else s)"

definition Volume :: "string \<Rightarrow> Store \<Rightarrow> Volume option" where
  "Volume i s = map_of (volumes s) i"

definition VolumeByName :: "string \<Rightarrow> string \<Rightarrow> string \<Rightarrow> Store \<Rightarrow> Volume option" where
  "VolumeByName projectID envID name s =
     find (\<lambda>v. vol_project_id v = projectID \<and> vol_environment_id v = envID \<and> vol_name v = name)
       (mvals (volumes s))"

definition ListVolumes :: "string \<Rightarrow> Store \<Rightarrow> Volume list" where
  "ListVolumes projectID s =
     sortByID vol_id
       (filter (\<lambda>v. projectID = '''' \<or> vol_project_id v = projectID) (mvals (volumes s)))"

definition SetVolumeLease :: "string \<Rightarrow> VolumeLease option \<Rightarrow> Store \<Rightarrow> Store" where [store_defs]:
  "SetVolumeLease volumeID lease s =
     (case map_of (volumes s) volumeID of
        None \<Rightarrow> s
      | Some v \<Rightarrow>
          touch KindVolume volumeID
            (s\<lparr>volumes := mput volumeID (v\<lparr>vol_lease := lease\<rparr>) (volumes s)\<rparr>))"

definition PutVolumeSnapshot :: "VolumeSnapshot \<Rightarrow> Store \<Rightarrow> Store" where [store_defs]:
  "PutVolumeSnapshot v s =
     touch KindVolumeSnapshot (vs_id v) (s\<lparr>volumeSnapshots := mput (vs_id v) v (volumeSnapshots s)\<rparr>)"

definition DeleteVolumeSnapshot :: "string \<Rightarrow> Store \<Rightarrow> Store" where [store_defs]:
  "DeleteVolumeSnapshot i s =
     (if mhas (volumeSnapshots s) i
      then touch KindVolumeSnapshot i (s\<lparr>volumeSnapshots := mdel i (volumeSnapshots s)\<rparr>) else s)"

definition ListVolumeSnapshots :: "string \<Rightarrow> Store \<Rightarrow> VolumeSnapshot list" where
  "ListVolumeSnapshots volumeID s =
     sortByID vs_id
       (filter (\<lambda>v. volumeID = '''' \<or> vs_volume_id v = volumeID) (mvals (volumeSnapshots s)))"

definition SetBackupConfig :: "BackupConfig \<Rightarrow> Store \<Rightarrow> Store" where [store_defs]:
  "SetBackupConfig c s = touch KindBackup ''config'' (s\<lparr>backupConfig := Some c\<rparr>)"

definition BackupConfig :: "Store \<Rightarrow> BackupConfig option" where
  "BackupConfig s = backupConfig s"

definition PutBackupRecord :: "BackupRecord \<Rightarrow> Store \<Rightarrow> Store" where [store_defs]:
  "PutBackupRecord r s =
     touch KindBackup (br_id r) (s\<lparr>backupRecords := mput (br_id r) r (backupRecords s)\<rparr>)"

definition ListBackupRecords :: "Store \<Rightarrow> BackupRecord list" where
  "ListBackupRecords s = sortByID br_id (mvals (backupRecords s))"

subsection \<open>Network allocations and service VIPs\<close>

definition networkAllocKey :: "string \<Rightarrow> string \<Rightarrow> string \<Rightarrow> string" where
  "networkAllocKey projectID envID nodeID = projectID @ ''/'' @ envID @ ''/'' @ nodeID"

definition na_key :: "NetworkAllocation \<Rightarrow> string" where
  "na_key a = networkAllocKey (na_project_id a) (na_environment_id a) (na_node_id a)"

definition SetNetworkAllocation :: "string \<Rightarrow> string \<Rightarrow> string \<Rightarrow> string \<Rightarrow> Store \<Rightarrow> Store" where [store_defs]:
  "SetNetworkAllocation projectID envID nodeID subnetCIDR s =
     (let key = networkAllocKey projectID envID nodeID
      in touch KindNetworkAlloc key
           (s\<lparr>networkAllocs :=
                (if subnetCIDR = '''' then mdel key (networkAllocs s)
                 else mput key \<lparr>na_project_id = projectID, na_environment_id = envID,
                               na_node_id = nodeID, na_subnet_cidr = subnetCIDR\<rparr>
                        (networkAllocs s))\<rparr>))"

definition NetworkAllocation :: "string \<Rightarrow> string \<Rightarrow> string \<Rightarrow> Store \<Rightarrow> string option" where
  "NetworkAllocation projectID envID nodeID s =
     map_option na_subnet_cidr (map_of (networkAllocs s) (networkAllocKey projectID envID nodeID))"

definition ListNetworkAllocations :: "Store \<Rightarrow> NetworkAllocation list" where
  "ListNetworkAllocations s = sort_key na_key (mvals (networkAllocs s))"

definition SetServiceVIP :: "string \<Rightarrow> string \<Rightarrow> Store \<Rightarrow> Store" where [store_defs]:
  "SetServiceVIP envID vip s =
     touch KindServiceVIP envID
       (s\<lparr>serviceVIPs := (if vip = '''' then mdel envID (serviceVIPs s)
                          else mput envID vip (serviceVIPs s))\<rparr>)"

definition ServiceVIP :: "string \<Rightarrow> Store \<Rightarrow> string option" where
  "ServiceVIP envID s = map_of (serviceVIPs s) envID"

definition ListServiceVIPs :: "Store \<Rightarrow> (string, string) gomap" where
  "ListServiceVIPs s = serviceVIPs s"

subsection \<open>Jobs and alerts\<close>

definition PutJob :: "Job \<Rightarrow> Store \<Rightarrow> Store" where [store_defs]:
  "PutJob j s = touch KindJob (job_id j) (s\<lparr>jobs := mput (job_id j) j (jobs s)\<rparr>)"

definition Job :: "string \<Rightarrow> Store \<Rightarrow> Job option" where
  "Job i s = map_of (jobs s) i"

definition ListJobs :: "string \<Rightarrow> string \<Rightarrow> Store \<Rightarrow> Job list" where
  "ListJobs projectID envID s =
     sortByID job_id
       (filter (\<lambda>j. \<not> (projectID \<noteq> '''' \<and> job_project_id j \<noteq> projectID)
                   \<and> \<not> (envID \<noteq> '''' \<and> job_environment_id j \<noteq> envID)) (mvals (jobs s)))"

definition PutAlertRule :: "AlertRule \<Rightarrow> Store \<Rightarrow> Store" where [store_defs]:
  "PutAlertRule r s = touch KindAlertRule (ar_id r) (s\<lparr>alertRules := mput (ar_id r) r (alertRules s)\<rparr>)"

definition DeleteAlertRule :: "string \<Rightarrow> Store \<Rightarrow> Store" where [store_defs]:
  "DeleteAlertRule i s =
     (if mhas (alertRules s) i
      then touch KindAlertRule i (s\<lparr>alertRules := mdel i (alertRules s)\<rparr>) else s)"

definition ListAlertRules :: "Store \<Rightarrow> AlertRule list" where
  "ListAlertRules s = sortByID ar_id (mvals (alertRules s))"

definition PutNotificationChannel :: "NotificationChannel \<Rightarrow> Store \<Rightarrow> Store" where [store_defs]:
  "PutNotificationChannel c s =
     touch KindNotifyChannel (nc_id c) (s\<lparr>notifyChannels := mput (nc_id c) c (notifyChannels s)\<rparr>)"

definition DeleteNotificationChannel :: "string \<Rightarrow> Store \<Rightarrow> Store" where [store_defs]:
  "DeleteNotificationChannel i s =
     (if mhas (notifyChannels s) i
      then touch KindNotifyChannel i (s\<lparr>notifyChannels := mdel i (notifyChannels s)\<rparr>) else s)"

definition ListNotificationChannels :: "Store \<Rightarrow> NotificationChannel list" where
  "ListNotificationChannels s = sortByID nc_id (mvals (notifyChannels s))"

subsection \<open>Event and audit rings\<close>

text \<open>The tail of a history that keeps at most \<open>cap\<close> entries.\<close>

definition ring_trim :: "nat \<Rightarrow> 'a list \<Rightarrow> 'a list" where
  "ring_trim cap xs = (if length xs > cap then drop (length xs - cap) xs else xs)"

definition appendEvent :: "Event \<Rightarrow> Store \<Rightarrow> Store" where [store_defs]:
  "appendEvent e s = touch KindEvent (Id (event_meta e)) (s\<lparr>events := events s @ [e]\<rparr>)"

definition AppendEvents :: "Event list \<Rightarrow> Store \<Rightarrow> Store" where [store_defs]:
  "AppendEvents es s =
     (let s1 = fold appendEvent es s in s1\<lparr>events := ring_trim eventRingCap (events s1)\<rparr>)"

definition ListEvents :: "int \<Rightarrow> Store \<Rightarrow> Event list" where
  "ListEvents limit s =
     (let n = length (events s);
          l = (if limit \<le> 0 \<or> limit > int n then n else nat limit)
      in drop (n - l) (events s))"

definition AuditSince :: "int \<Rightarrow> Store \<Rightarrow> AuditEntry list" where
  "AuditSince sinceMs s =
     filter (\<lambda>e. UnixMilli (AsTime (CreatedAt (audit_meta e))) \<ge> sinceMs) (audit s)"

definition EventsSince :: "int \<Rightarrow> Store \<Rightarrow> Event list" where
  "EventsSince sinceMs s =
     filter (\<lambda>e. UnixMilli (AsTime (CreatedAt (event_meta e))) \<ge> sinceMs) (events s)"

text \<open>The backward scan of \<^verbatim>\<open>QueryEvents\<close> and \<^verbatim>\<open>QueryAudit\<close>; a nil filter accepts
  everything.\<close>

definition query_ring :: "('a \<Rightarrow> bool) option \<Rightarrow> int \<Rightarrow> 'a list \<Rightarrow> 'a list" where
  "query_ring flt limit xs =
     (let l = (if limit \<le> 0 then 100 else nat limit)
      in take l (filter (\<lambda>x. case flt of None \<Rightarrow> True | Some p \<Rightarrow> p x) (rev xs)))"

definition QueryEvents :: "(Event \<Rightarrow> bool) option \<Rightarrow> int \<Rightarrow> Store \<Rightarrow> Event list" where
  "QueryEvents flt limit s = query_ring flt limit (events s)"

definition AppendAudit :: "AuditEntry list \<Rightarrow> Store \<Rightarrow> Store" where [store_defs]:
  "AppendAudit entries s =
     touch KindEvent ''audit'' (s\<lparr>audit := ring_trim auditRingCap (audit s @ entries)\<rparr>)"

definition QueryAudit :: "(AuditEntry \<Rightarrow> bool) option \<Rightarrow> int \<Rightarrow> Store \<Rightarrow> AuditEntry list" where
  "QueryAudit flt limit s = query_ring flt limit (audit s)"

subsection \<open>The applied-request ring\<close>

definition MarkApplied :: "string \<Rightarrow> uint64 \<Rightarrow> Store \<Rightarrow> bool \<times> Store" where [store_defs]:
  "MarkApplied requestID raftIndex s =
     (if mhas (appliedSet s) requestID then (False, s)
      else let set1 = mput requestID () (appliedSet s);
               reqs = appliedRequests s @ [\<lparr>ar_request_id = requestID, ar_raft_index = raftIndex\<rparr>];
               over = length reqs - appliedRingCap
           in if over > 0
              then (True, s\<lparr>appliedSet := fold (\<lambda>old. mdel (ar_request_id old)) (take over reqs) set1,
                            appliedRequests := drop over reqs\<rparr>)
              else (True, s\<lparr>appliedSet := set1, appliedRequests := reqs\<rparr>))"

text \<open>The ring's bound as an integer: the same operation, evaluated without counting the capacity down.\<close>

lemma MarkApplied_code [code]:
  "MarkApplied requestID raftIndex s =
     (if mhas (appliedSet s) requestID then (False, s)
      else let set1 = mput requestID () (appliedSet s);
               reqs = appliedRequests s @ [\<lparr>ar_request_id = requestID, ar_raft_index = raftIndex\<rparr>];
               over = int (length reqs) - 8192
           in if over > 0
              then (True, s\<lparr>appliedSet := fold (\<lambda>old. mdel (ar_request_id old)) (take (nat over) reqs) set1,
                            appliedRequests := drop (nat over) reqs\<rparr>)
              else (True, s\<lparr>appliedSet := set1, appliedRequests := reqs\<rparr>))"
proof -
  have "nat (int m - 8192) = m - appliedRingCap" "0 < int m - 8192 \<longleftrightarrow> 0 < m - appliedRingCap" for m
    by (auto simp: appliedRingCap_def)
  then show ?thesis by (simp only: MarkApplied_def Let_def)
qed

end
