(* ===== verification/Resources.thy ===== *)
theory Resources
  imports StoreInfra
begin

text \<open>
  The contracts of the state store's collections, as locales, and their interpretations on the
  operations of \<^verbatim>\<open>internal/state\<close>. \<open>resource\<close> is a collection with an id-keyed put, get,
  delete and an id-ordered listing; \<open>unique_index\<close> is a collection with a lookup through a
  secondary key (users by email, tokens by secret hash); \<open>multi_index\<close> is the set-valued index
  of domains by hostname and of assignments by node.
\<close>

subsection \<open>Collections\<close>

locale stored =
  fixes coll :: "Store \<Rightarrow> (string, 'v) gomap"
    and vid :: "'v \<Rightarrow> string"
    and put :: "'v \<Rightarrow> Store \<Rightarrow> Store"
    and get :: "string \<Rightarrow> Store \<Rightarrow> 'v option"
    and lst :: "'q \<Rightarrow> Store \<Rightarrow> 'v list"
    and sel :: "'q \<Rightarrow> 'v \<Rightarrow> bool"
  assumes put_coll: "coll (put v s) = mput (vid v) v (coll s)"
    and get_coll: "get i s = map_of (coll s) i"
    and lst_coll: "lst q s = sort_key vid (filter (sel q) (mvals (coll s)))"
begin

lemma get_put: "get i (put v s) = (if i = vid v then Some v else get i s)"
  by (simp add: get_coll put_coll)

lemma keyed_put: "keyed vid (coll s) \<Longrightarrow> keyed vid (coll (put v s))"
  by (simp add: put_coll)

lemma in_list_iff: "keyed vid (coll s) \<Longrightarrow> v \<in> set (lst q s) \<longleftrightarrow> get (vid v) s = Some v \<and> sel q v"
  by (simp only: lst_coll get_coll in_sorted_listing_iff)

lemma list_sorted: "sorted (map vid (lst q s))"
  by (simp add: lst_coll)

lemma list_distinct: "keyed vid (coll s) \<Longrightarrow> distinct (lst q s)"
  by (simp add: lst_coll keyed_distinct_mvals)

lemma list_order_free:
  "keyed vid (coll s) \<Longrightarrow> meq (coll s) (coll t) \<Longrightarrow> lst q s = lst q t"
  by (simp add: lst_coll keyed_sorted_listing)

lemma list_put:
  assumes "keyed vid (coll s)"
  shows "set (lst q (put v s)) =
           {w \<in> set (lst q s). vid w \<noteq> vid v} \<union> (if sel q v then {v} else {})"
  using assms keyed_put [OF assms, of v] by (auto simp: in_list_iff get_put split: if_splits)

end

locale resource = stored +
  fixes del :: "string \<Rightarrow> Store \<Rightarrow> Store"
  assumes del_coll: "coll (del i s) = mdel i (coll s)"
begin

lemma get_del: "get i (del j s) = (if i = j then None else get i s)"
  by (simp add: get_coll del_coll)

lemma keyed_del: "keyed vid (coll s) \<Longrightarrow> keyed vid (coll (del i s))"
  by (simp add: del_coll)

lemma list_del:
  assumes "keyed vid (coll s)"
  shows "set (lst q (del i s)) = {w \<in> set (lst q s). vid w \<noteq> i}"
  using assms keyed_del [OF assms, of i] by (auto simp: in_list_iff get_del split: if_splits)

end

lemma mdel_absent: "map_of m k = None \<Longrightarrow> mdel k m = m"
  by (induction m) (auto split: if_splits)

lemma mdel_absent' [simp]: "\<not> mhas m k \<Longrightarrow> mdel k m = m"
  by (rule mdel_absent) auto

lemmas resource_defs =
  store_defs sortByID_def mdel_absent

interpretation user_rc: resource users user_id PutUser User "\<lambda>_::unit. ListUsers" "\<lambda>_ _. True" DeleteUser
  by unfold_locales
    (auto simp: resource_defs User_def ListUsers_def Let_def split: option.splits)

interpretation project_rc: resource projects project_id PutProject Project
    "\<lambda>_::unit. ListProjects" "\<lambda>_ _. True" DeleteProject
  by unfold_locales (auto simp: resource_defs Project_def ListProjects_def)

interpretation app_rc: resource apps app_id PutApp App ListApps
    "\<lambda>p a. p = '''' \<or> app_project_id a = p" DeleteApp
  by unfold_locales (auto simp: resource_defs App_def ListApps_def)

interpretation env_rc: resource environments env_id PutEnvironment Environment
    "\<lambda>(p, a). ListEnvironments p a"
    "\<lambda>(p, a) e. \<not> (a \<noteq> '''' \<and> env_app_id e \<noteq> a) \<and> \<not> (p \<noteq> '''' \<and> env_project_id e \<noteq> p)"
    DeleteEnvironment
  by unfold_locales (auto simp: resource_defs Environment_def ListEnvironments_def)

interpretation node_rc: resource nodes node_id PutNode Node "\<lambda>_::unit. ListNodes" "\<lambda>_ _. True" DeleteNode
  by unfold_locales (auto simp: resource_defs Node_def ListNodes_def)

interpretation token_rc: resource tokens token_id PutToken Token ListTokens
    "\<lambda>u t. u = '''' \<or> token_user_id t = u" DeleteToken
  by unfold_locales
    (auto simp: resource_defs Token_def ListTokens_def Let_def split: option.splits)

interpretation domain_rc: resource domains dom_id PutDomain Domain ListDomains
    "\<lambda>p d. p = '''' \<or> dom_project_id d = p" DeleteDomain
  by unfold_locales
    (auto simp: resource_defs Domain_def ListDomains_def Let_def split: option.splits)

interpretation volume_rc: resource volumes vol_id PutVolume Volume ListVolumes
    "\<lambda>p v. p = '''' \<or> vol_project_id v = p" DeleteVolume
  by unfold_locales (auto simp: resource_defs Volume_def ListVolumes_def)

interpretation deployment_rc: stored deployments dep_id PutDeployment Deployment ListDeployments
    "\<lambda>e d. e = '''' \<or> dep_environment_id d = e"
  by unfold_locales (auto simp: resource_defs Deployment_def ListDeployments_def)

interpretation build_rc: stored builds build_id PutBuild Build ListBuilds
    "\<lambda>a b. a = '''' \<or> build_app_id b = a"
  by unfold_locales (auto simp: resource_defs Build_def ListBuilds_def)

interpretation job_rc: stored jobs job_id PutJob Job "\<lambda>(p, e). ListJobs p e"
    "\<lambda>(p, e) j. \<not> (p \<noteq> '''' \<and> job_project_id j \<noteq> p) \<and> \<not> (e \<noteq> '''' \<and> job_environment_id j \<noteq> e)"
  by unfold_locales (auto simp: resource_defs Job_def ListJobs_def)

interpretation assignment_rc: stored assignments asg_id putAssignmentLocked Assignment ListAssignments
    "\<lambda>e a. e = '''' \<or> asg_environment_id a = e"
  by unfold_locales (auto simp: resource_defs Assignment_def ListAssignments_def Let_def)

subsection \<open>Unique secondary keys\<close>

text \<open>\<open>idx_sound\<close> is what the store keeps in every state: an index entry names a stored object
  with that key. That every object is indexed needs the keys to be unique, which the FSM does not
  check.\<close>

definition idx_sound :: "('v \<Rightarrow> string) \<Rightarrow> (string, 'v) gomap \<Rightarrow> (string, string) gomap \<Rightarrow> bool" where
  "idx_sound key prim idx =
     (mwf idx \<and> (\<forall>k i. map_of idx k = Some i \<longrightarrow> (\<exists>v. map_of prim i = Some v \<and> key v = k)))"

definition idx_complete :: "('v \<Rightarrow> string) \<Rightarrow> (string, 'v) gomap \<Rightarrow> (string, string) gomap \<Rightarrow> bool" where
  "idx_complete key prim idx =
     (\<forall>i v. map_of prim i = Some v \<longrightarrow> map_of idx (key v) = Some i)"

lemma idx_complete_code [code]:
  "idx_complete key prim idx =
     list_all (\<lambda>i. case map_of prim i of None \<Rightarrow> True | Some v \<Rightarrow> map_of idx (key v) = Some i) (map fst prim)"
proof -
  have "i \<in> fst ` set prim" if "map_of prim i = Some v" for i v
    using that by (metis domI dom_map_of_conv_image_fst)
  then show ?thesis
    unfolding idx_complete_def list_all_iff set_map by (auto split: option.split)
qed

locale unique_index = resource +
  fixes idx :: "Store \<Rightarrow> (string, string) gomap"
    and key :: "'a \<Rightarrow> string"
    and by_key :: "string \<Rightarrow> Store \<Rightarrow> 'a option option"
  assumes put_idx: "idx (put v s) =
      mput (key v) (vid v)
        (case map_of (coll s) (vid v) of Some p \<Rightarrow> mdel (key p) (idx s) | None \<Rightarrow> idx s)"
    and del_idx: "idx (del i s) =
      (case map_of (coll s) i of Some p \<Rightarrow> mdel (key p) (idx s) | None \<Rightarrow> idx s)"
    and by_key_def: "by_key k s =
      (case map_of (idx s) k of None \<Rightarrow> None | Some i \<Rightarrow> Some (map_of (coll s) i))"
begin

lemma put_sound:
  assumes "idx_sound key (coll s) (idx s)"
  shows "idx_sound key (coll (put v s)) (idx (put v s))"
  using assms by (fastforce simp: idx_sound_def put_coll put_idx split: option.splits)

lemma del_sound:
  assumes "idx_sound key (coll s) (idx s)"
  shows "idx_sound key (coll (del i s)) (idx (del i s))"
  using assms by (fastforce simp: idx_sound_def del_coll del_idx split: option.splits)

lemma by_key_sound:
  assumes "idx_sound key (coll s) (idx s)" and "by_key k s = Some x"
  shows "\<exists>v i. x = Some v \<and> key v = k \<and> get i s = Some v"
  using assms by (fastforce simp: idx_sound_def by_key_def get_coll split: option.splits)

lemma by_key_put: "by_key (key v) (put v s) = Some (Some v)"
  by (simp add: by_key_def put_idx put_coll)

lemma del_complete:
  assumes "idx_complete key (coll s) (idx s)"
  shows "idx_complete key (coll (del i s)) (idx (del i s))"
  using assms
  by (auto simp: idx_complete_def del_coll del_idx split: option.splits) (metis option.inject)

lemma put_complete:
  assumes "idx_complete key (coll s) (idx s)"
    and "\<And>i w. map_of (coll s) i = Some w \<Longrightarrow> key w = key v \<Longrightarrow> i = vid v"
  shows "idx_complete key (coll (put v s)) (idx (put v s))"
  using assms
  by (auto simp: idx_complete_def put_coll put_idx split: option.splits) (metis option.inject)+

lemma by_key_complete:
  assumes "idx_complete key (coll s) (idx s)" and "get i s = Some v"
  shows "by_key (key v) s = Some (Some v)"
  using assms by (simp add: idx_complete_def by_key_def get_coll)

end

interpretation user_ix: unique_index users user_id PutUser User "\<lambda>_::unit. ListUsers" "\<lambda>_ _. True"
    DeleteUser usersByEmail user_email UserByEmail
  by unfold_locales
    (auto simp: store_defs UserByEmail_def Let_def split: option.splits)

interpretation token_ix: unique_index tokens token_id PutToken Token ListTokens
    "\<lambda>u t. u = '''' \<or> token_user_id t = u" DeleteToken tokensByHash token_secret_hash TokenByHash
  by unfold_locales
    (auto simp: store_defs TokenByHash_def Let_def split: option.splits)

subsection \<open>Set-valued indexes\<close>

definition midx_exact ::
  "('v \<Rightarrow> string) \<Rightarrow> (string, 'v) gomap \<Rightarrow> (string, (string, 'b) gomap) gomap \<Rightarrow> bool" where
  "midx_exact key prim idx =
     (mwf idx \<and> (\<forall>k. mwf (inner idx k))
      \<and> (\<forall>k i. mhas (inner idx k) i \<longleftrightarrow> (\<exists>v. map_of prim i = Some v \<and> key v = k)))"

locale multi_index =
  fixes coll :: "Store \<Rightarrow> (string, 'v) gomap"
    and vid :: "'v \<Rightarrow> string"
    and put :: "'v \<Rightarrow> Store \<Rightarrow> Store"
    and del :: "string \<Rightarrow> Store \<Rightarrow> Store"
    and idx :: "Store \<Rightarrow> (string, (string, 'b) gomap) gomap"
    and key :: "'v \<Rightarrow> string"
  assumes put_coll: "coll (put v s) = mput (vid v) v (coll s)"
    and del_coll: "coll (del i s) = mdel i (coll s)"
    and put_wf: "mwf (idx s) \<Longrightarrow> mwf (idx (put v s))"
    and del_wf: "mwf (idx s) \<Longrightarrow> mwf (idx (del i s))"
    and put_inner_wf: "mwf (inner (idx s) k) \<Longrightarrow> mwf (inner (idx (put v s)) k)"
    and del_inner_wf: "mwf (inner (idx s) k) \<Longrightarrow> mwf (inner (idx (del i s)) k)"
    and put_has: "keyed vid (coll s) \<Longrightarrow> mhas (inner (idx (put v s)) k) i \<longleftrightarrow>
      k = key v \<and> i = vid v
      \<or> mhas (inner (idx s) k) i \<and> \<not> (i = vid v \<and> (\<exists>p. map_of (coll s) i = Some p \<and> key p = k))"
    and del_has: "keyed vid (coll s) \<Longrightarrow> mhas (inner (idx (del j s)) k) i \<longleftrightarrow>
      mhas (inner (idx s) k) i \<and> \<not> (i = j \<and> (\<exists>p. map_of (coll s) i = Some p \<and> key p = k))"
begin

lemma put_exact:
  assumes "keyed vid (coll s)" and "midx_exact key (coll s) (idx s)"
  shows "midx_exact key (coll (put v s)) (idx (put v s))"
  unfolding midx_exact_def
proof (intro conjI allI)
  fix k i
  show "mhas (inner (idx (put v s)) k) i \<longleftrightarrow> (\<exists>w. map_of (coll (put v s)) i = Some w \<and> key w = k)"
    using assms(2) unfolding put_has [OF assms(1)] put_coll midx_exact_def by auto
qed (use assms(2) in \<open>simp_all add: midx_exact_def put_wf put_inner_wf\<close>)

lemma del_exact:
  assumes "keyed vid (coll s)" and "midx_exact key (coll s) (idx s)"
  shows "midx_exact key (coll (del j s)) (idx (del j s))"
  unfolding midx_exact_def
proof (intro conjI allI)
  fix k i
  show "mhas (inner (idx (del j s)) k) i \<longleftrightarrow> (\<exists>w. map_of (coll (del j s)) i = Some w \<and> key w = k)"
    using assms(2) unfolding del_has [OF assms(1)] del_coll midx_exact_def by auto
qed (use assms(2) in \<open>simp_all add: midx_exact_def del_wf del_inner_wf\<close>)

lemma inner_keys:
  assumes "midx_exact key (coll s) (idx s)"
  shows "fst ` set (inner (idx s) k) = {i. \<exists>v. map_of (coll s) i = Some v \<and> key v = k}"
proof -
  have "i \<in> fst ` set (inner (idx s) k) \<longleftrightarrow> mhas (inner (idx s) k) i" for i
    by (metis map_of_eq_None_iff mhas_def)
  with assms show ?thesis by (auto simp: midx_exact_def)
qed

end

lemma mwf_single [simp]: "mwf [p]"
  by (simp add: mwf_def)

lemma inner_some: "map_of m k = Some x \<Longrightarrow> inner m k = x"
  by (simp add: inner_def)

lemma inner_none: "map_of m k = None \<Longrightarrow> inner m k = []"
  by (simp add: inner_def)

lemma mwf_unindexDomain: "mwf ix \<Longrightarrow> mwf (unindexDomain d ix)"
  by (simp add: unindexDomain_def Let_def split: option.splits)

lemma inner_unindexDomain:
  "inner (unindexDomain d ix) k = (if k = dom_hostname d then mdel (dom_id d) (inner ix k) else inner ix k)"
  by (auto simp: unindexDomain_def Let_def inner_some inner_none split: option.splits)

interpretation domain_ix: multi_index domains dom_id PutDomain DeleteDomain domainsByHostname dom_hostname
  by unfold_locales
    (auto simp: store_defs Let_def indexDomain_def mwf_unindexDomain inner_unindexDomain mdel_absent
       split: option.splits if_splits dest: keyedD)

interpretation assignment_ix: multi_index assignments asg_id putAssignmentLocked
    deleteAssignmentLocked assignmentsByNode asg_node_id
  by unfold_locales
    (auto simp: store_defs Let_def mdel_absent inner_none split: option.splits if_splits dest: keyedD)

end
