(* ===== verification/Commands.thy ===== *)
theory Commands
  imports Proto
begin

text \<open>
  The replicated commands, \<^verbatim>\<open>zattera/cluster/v1/fsm.proto\<close> as the Go switch of
  \<^verbatim>\<open>internal/daemon/raftstore/apply.go\<close> sees them: a \<open>Command\<close> carries one \<open>Mutation\<close>,
  with one constructor per case of the oneof; \<open>Command_nil\<close> is a command without a mutation and
  \<open>Command_unknown\<close> one that a newer binary proposed. A wrapper message of a single field is
  inlined.
\<close>

record SetDeploymentPhase =
  sdp_deployment_id :: string
  sdp_phase :: DeploymentPhase
  sdp_error :: string
  sdp_promoted_at :: "time option"
  sdp_drain_deadline :: "time option"

record PromoteRelease =
  pr_environment_id :: string
  pr_release_id :: string
  pr_deployment_id :: string

record SetNodeStatus =
  sns_node_id :: string
  sns_status :: NodeStatus
  sns_last_heartbeat_at :: "time option"
  sns_schedulable_set :: bool
  sns_schedulable :: bool

datatype (plugins only: code) Mutation =
    Command_PutOrg Org
  | Command_PutUser User
  | Command_DeleteUser string
  | Command_PutProject Project
  | Command_DeleteProject string
  | Command_PutProjectMember ProjectMember
  | Command_DeleteProjectMember string string
  | Command_PutApp App
  | Command_DeleteApp string
  | Command_PutEnvironment Environment
  | Command_DeleteEnvironment string
  | Command_SetEnvVars string "(string, EncryptedValue) gomap" "string list"
  | Command_PutRelease Release
  | Command_DeleteRelease string
  | Command_PutDeployment Deployment
  | Command_SetDeploymentPhase SetDeploymentPhase
  | Command_PromoteRelease PromoteRelease
  | Command_PutBuild Build
  | Command_PutNode Node
  | Command_DeleteNode string
  | Command_SetNodeStatus SetNodeStatus
  | Command_PutJoinToken JoinToken
  | Command_ConsumeJoinToken string
  | Command_PutAssignments "Assignment list"
  | Command_DeleteAssignments "string list"
  | Command_SetAssignmentsObserved string "(string, AssignmentObserved) gomap"
  | Command_PutToken Token
  | Command_DeleteToken string
  | Command_TouchTokens "(string, time) gomap"
  | Command_PutClusterKeyMaterial ClusterKeyMaterial
  | Command_PutDomain Domain
  | Command_DeleteDomain string
  | Command_PutKv string bytes int "time option"
  | Command_DeleteKv string int
  | Command_PutDnsProvider DNSProviderConfig
  | Command_DeleteDnsProvider string
  | Command_PutVolume Volume
  | Command_DeleteVolume string
  | Command_PutVolumeLease string "VolumeLease option"
  | Command_PutVolumeSnapshot VolumeSnapshot
  | Command_DeleteVolumeSnapshot string
  | Command_PutBackupConfig BackupConfig
  | Command_PutBackupRecord BackupRecord
  | Command_PutNetworkAllocation string string string string
  | Command_PutServiceVip string string
  | Command_PutJob Job
  | Command_PutAlertRule AlertRule
  | Command_DeleteAlertRule string
  | Command_PutNotificationChannel NotificationChannel
  | Command_DeleteNotificationChannel string
  | Command_AppendEvents "Event list"
  | Command_AppendAudit "AuditEntry list"
  | Command_nil
  | Command_unknown

record Command =
  RequestId :: string
  Actor :: string
  Time :: "time option"
  Mutation :: Mutation

end
