(* ===== verification/FSM.thy ===== *)
theory FSM
  imports Resources Commands
begin

text \<open>
  The Raft state machine, \<^verbatim>\<open>internal/daemon/raftstore/apply.go\<close> and \<^verbatim>\<open>fsm.go\<close>. A
  \<^verbatim>\<open>Command\<close> is a record with one \<open>Mutation\<close>; \<open>apply\<close> is the dispatch over the
  oneof, with one equation per case of the Go switch. A log entry is the raw command after
  \<^verbatim>\<open>proto.Unmarshal\<close>: \<open>None\<close> is an undecodable entry. Every \<^verbatim>\<open>fmt.Errorf\<close> is a
  constructor of \<open>fsm_error\<close>.
\<close>

datatype fsm_error =
    KVConflict
  | DeploymentNotFound string
  | EnvironmentNotFound string
  | ReleaseNotFound string
  | NodeNotFound string
  | JoinTokenUsed string
  | JoinTokenNotFound string
  | NoMutation string
  | UnknownMutation
  | UndecodableCommand

subsection \<open>Handlers that read before they write\<close>

definition applySetDeploymentPhase ::
  "time option \<Rightarrow> SetDeploymentPhase \<Rightarrow> Store \<Rightarrow> fsm_error option \<times> Store" where [fsm_defs]:
  "applySetDeploymentPhase now m s =
     (case Deployment (sdp_deployment_id m) s of
        None \<Rightarrow> (Some (DeploymentNotFound (sdp_deployment_id m)), s)
      | Some d \<Rightarrow>
          (let d1 = (if now \<noteq> None then d\<lparr>dep_meta := (dep_meta d)\<lparr>UpdatedAt := now\<rparr>\<rparr> else d);
               d2 = d1\<lparr>dep_phase := sdp_phase m\<rparr>;
               d3 = (if sdp_error m \<noteq> '''' then d2\<lparr>dep_error := sdp_error m\<rparr> else d2);
               d4 = (if sdp_promoted_at m \<noteq> None then d3\<lparr>dep_promoted_at := sdp_promoted_at m\<rparr> else d3);
               d5 = (if sdp_drain_deadline m \<noteq> None
                     then d4\<lparr>dep_drain_deadline := sdp_drain_deadline m\<rparr> else d4)
           in (None, PutDeployment d5 s)))"

definition applyPromoteRelease :: "PromoteRelease \<Rightarrow> Store \<Rightarrow> fsm_error option \<times> Store" where [fsm_defs]:
  "applyPromoteRelease m s =
     (case Environment (pr_environment_id m) s of
        None \<Rightarrow> (Some (EnvironmentNotFound (pr_environment_id m)), s)
      | Some env \<Rightarrow>
          (case Release (pr_release_id m) s of
             None \<Rightarrow> (Some (ReleaseNotFound (pr_release_id m)), s)
           | Some _ \<Rightarrow>
               (None, PutEnvironment
                        (env\<lparr>env_active_release_id := pr_release_id m,
                             env_route_generation := env_route_generation env + 1\<rparr>) s)))"

definition applySetNodeStatus :: "SetNodeStatus \<Rightarrow> Store \<Rightarrow> fsm_error option \<times> Store" where [fsm_defs]:
  "applySetNodeStatus m s =
     (case Node (sns_node_id m) s of
        None \<Rightarrow> (Some (NodeNotFound (sns_node_id m)), s)
      | Some n \<Rightarrow>
          (let n1 = n\<lparr>node_status := sns_status m\<rparr>;
               n2 = (if sns_last_heartbeat_at m \<noteq> None
                     then n1\<lparr>node_last_heartbeat_at := sns_last_heartbeat_at m\<rparr> else n1);
               n3 = (if sns_schedulable_set m then n2\<lparr>node_schedulable := sns_schedulable m\<rparr> else n2)
           in (None, PutNode n3 s)))"

definition applyConsumeJoinToken :: "string \<Rightarrow> Store \<Rightarrow> fsm_error option \<times> Store" where [fsm_defs]:
  "applyConsumeJoinToken tokenID s =
     (case find (\<lambda>t. jt_id t = tokenID) (ListJoinTokens s) of
        None \<Rightarrow> (Some (JoinTokenNotFound tokenID), s)
      | Some t \<Rightarrow>
          if jt_single_use t \<and> jt_used t then (Some (JoinTokenUsed tokenID), s)
          else (None, PutJoinToken (t\<lparr>jt_used := True\<rparr>) s))"

subsection \<open>Dispatch\<close>

definition kv_result :: "(kv_error + int) \<times> Store \<Rightarrow> fsm_error option \<times> Store" where [fsm_defs]:
  "kv_result r = (case r of (Inl ErrKVConflict, s) \<Rightarrow> (Some KVConflict, s) | (Inr _, s) \<Rightarrow> (None, s))"

primrec apply_mutation :: "string \<Rightarrow> time option \<Rightarrow> Mutation \<Rightarrow> Store \<Rightarrow> fsm_error option \<times> Store" where
  "apply_mutation rid now (Command_PutOrg o') s = (None, SetOrg o' s)"
| "apply_mutation rid now (Command_PutUser u) s = (None, PutUser u s)"
| "apply_mutation rid now (Command_DeleteUser i) s = (None, DeleteUser i s)"
| "apply_mutation rid now (Command_PutProject p) s = (None, PutProject p s)"
| "apply_mutation rid now (Command_DeleteProject i) s = (None, DeleteProject i s)"
| "apply_mutation rid now (Command_PutProjectMember m) s = (None, PutProjectMember m s)"
| "apply_mutation rid now (Command_DeleteProjectMember p u) s = (None, DeleteProjectMember p u s)"
| "apply_mutation rid now (Command_PutApp a) s = (None, PutApp a s)"
| "apply_mutation rid now (Command_DeleteApp i) s = (None, DeleteApp i s)"
| "apply_mutation rid now (Command_PutEnvironment e) s = (None, PutEnvironment e s)"
| "apply_mutation rid now (Command_DeleteEnvironment i) s = (None, DeleteEnvironment i s)"
| "apply_mutation rid now (Command_SetEnvVars e st us) s = (None, SetEnvVars e st us s)"
| "apply_mutation rid now (Command_PutRelease r) s = (None, PutRelease r s)"
| "apply_mutation rid now (Command_DeleteRelease i) s = (None, DeleteRelease i s)"
| "apply_mutation rid now (Command_PutDeployment d) s = (None, PutDeployment d s)"
| "apply_mutation rid now (Command_SetDeploymentPhase m) s = applySetDeploymentPhase now m s"
| "apply_mutation rid now (Command_PromoteRelease m) s = applyPromoteRelease m s"
| "apply_mutation rid now (Command_PutBuild b) s = (None, PutBuild b s)"
| "apply_mutation rid now (Command_PutNode n) s = (None, PutNode n s)"
| "apply_mutation rid now (Command_DeleteNode i) s = (None, DeleteNode i s)"
| "apply_mutation rid now (Command_SetNodeStatus m) s = applySetNodeStatus m s"
| "apply_mutation rid now (Command_PutJoinToken t) s = (None, PutJoinToken t s)"
| "apply_mutation rid now (Command_ConsumeJoinToken i) s = applyConsumeJoinToken i s"
| "apply_mutation rid now (Command_PutAssignments as) s = (None, PutAssignments as s)"
| "apply_mutation rid now (Command_DeleteAssignments is) s = (None, DeleteAssignments is s)"
| "apply_mutation rid now (Command_SetAssignmentsObserved n obs) s = (None, SetAssignmentObserved n obs s)"
| "apply_mutation rid now (Command_PutToken t) s = (None, PutToken t s)"
| "apply_mutation rid now (Command_DeleteToken i) s = (None, DeleteToken i s)"
| "apply_mutation rid now (Command_TouchTokens m) s =
     (None, TouchTokens (map (\<lambda>(i, ts). (i, UnixMilli ts)) m) s)"
| "apply_mutation rid now (Command_PutClusterKeyMaterial m) s = (None, SetClusterKeyMaterial m s)"
| "apply_mutation rid now (Command_PutDomain d) s = (None, PutDomain d s)"
| "apply_mutation rid now (Command_DeleteDomain i) s = (None, DeleteDomain i s)"
| "apply_mutation rid now (Command_PutKv k v ver exp) s =
     kv_result (PutKV k v ver (case exp of None \<Rightarrow> 0 | Some t \<Rightarrow> UnixMilli t) s)"
| "apply_mutation rid now (Command_DeleteKv k ver) s =
     (case DeleteKV k ver s of (r, s') \<Rightarrow> (map_option (\<lambda>_. KVConflict) r, s'))"
| "apply_mutation rid now (Command_PutDnsProvider p) s = (None, PutDNSProvider p s)"
| "apply_mutation rid now (Command_DeleteDnsProvider i) s = (None, DeleteDNSProvider i s)"
| "apply_mutation rid now (Command_PutVolume v) s = (None, PutVolume v s)"
| "apply_mutation rid now (Command_DeleteVolume i) s = (None, DeleteVolume i s)"
| "apply_mutation rid now (Command_PutVolumeLease v l) s = (None, SetVolumeLease v l s)"
| "apply_mutation rid now (Command_PutVolumeSnapshot v) s = (None, PutVolumeSnapshot v s)"
| "apply_mutation rid now (Command_DeleteVolumeSnapshot i) s = (None, DeleteVolumeSnapshot i s)"
| "apply_mutation rid now (Command_PutBackupConfig c) s = (None, SetBackupConfig c s)"
| "apply_mutation rid now (Command_PutBackupRecord r) s = (None, PutBackupRecord r s)"
| "apply_mutation rid now (Command_PutNetworkAllocation p e n c) s = (None, SetNetworkAllocation p e n c s)"
| "apply_mutation rid now (Command_PutServiceVip e v) s = (None, SetServiceVIP e v s)"
| "apply_mutation rid now (Command_PutJob j) s = (None, PutJob j s)"
| "apply_mutation rid now (Command_PutAlertRule r) s = (None, PutAlertRule r s)"
| "apply_mutation rid now (Command_DeleteAlertRule i) s = (None, DeleteAlertRule i s)"
| "apply_mutation rid now (Command_PutNotificationChannel c) s = (None, PutNotificationChannel c s)"
| "apply_mutation rid now (Command_DeleteNotificationChannel i) s = (None, DeleteNotificationChannel i s)"
| "apply_mutation rid now (Command_AppendEvents es) s = (None, AppendEvents es s)"
| "apply_mutation rid now (Command_AppendAudit es) s = (None, AppendAudit es s)"
| "apply_mutation rid now Command_nil s = (Some (NoMutation rid), s)"
| "apply_mutation rid now Command_unknown s = (Some UnknownMutation, s)"

definition fsm_apply :: "Command \<Rightarrow> Store \<Rightarrow> fsm_error option \<times> Store" where
  "fsm_apply cmd s = apply_mutation (RequestId cmd) (Time cmd) (Mutation cmd) s"

subsection \<open>Apply: one log entry\<close>

record ApplyResult =
  res_Err :: "fsm_error option"
  res_Duplicate :: bool

record log_entry =
  entry_index :: uint64
  entry_data :: "Command option"

definition FSM_Apply :: "log_entry \<Rightarrow> Store \<Rightarrow> ApplyResult \<times> Store" where
  "FSM_Apply entry s =
     (case entry_data entry of
        None \<Rightarrow> (\<lparr>res_Err = Some UndecodableCommand, res_Duplicate = False\<rparr>, s)
      | Some cmd \<Rightarrow>
          (let (fresh, s1) = (if RequestId cmd \<noteq> ''''
                              then MarkApplied (RequestId cmd) (entry_index entry) s else (True, s))
           in if \<not> fresh then (\<lparr>res_Err = None, res_Duplicate = True\<rparr>, s1)
              else case fsm_apply cmd s1 of
                     (err, s2) \<Rightarrow> (\<lparr>res_Err = err, res_Duplicate = False\<rparr>, s2)))"

primrec run_log :: "log_entry list \<Rightarrow> Store \<Rightarrow> Store" where
  "run_log [] s = s"
| "run_log (e # es) s = run_log es (snd (FSM_Apply e s))"

end
