(* ===== verification/StoreInv.thy ===== *)
theory StoreInv
  imports FSM
begin

text \<open>
  The well-formedness invariant of the replicated state and its preservation by every command.
  It has four groups: the collections are keyed by the id of their objects (\<open>inv_coll\<close>), nested
  maps agree with the keys they sit under (\<open>inv_nested\<close>), the secondary indexes agree with the
  collections (\<open>inv_index\<close>), and the histories stay within their capacity, with the set of
  applied requests equal to the ring (\<open>inv_ring\<close>).
\<close>

definition inv_coll :: "Store \<Rightarrow> bool" where [inv_defs]:
  "inv_coll s =
     (keyed user_id (users s) \<and> keyed project_id (projects s) \<and> keyed app_id (apps s)
      \<and> keyed env_id (environments s) \<and> keyed rel_id (releases s) \<and> keyed dep_id (deployments s)
      \<and> keyed build_id (builds s) \<and> keyed node_id (nodes s) \<and> keyed jt_id (joinTokens s)
      \<and> keyed asg_id (assignments s) \<and> keyed token_id (tokens s) \<and> keyed dom_id (domains s)
      \<and> keyed dns_id (dnsProviders s) \<and> keyed vol_id (volumes s) \<and> keyed vs_id (volumeSnapshots s)
      \<and> keyed br_id (backupRecords s) \<and> keyed na_key (networkAllocs s) \<and> keyed job_id (jobs s)
      \<and> keyed ar_id (alertRules s) \<and> keyed nc_id (notifyChannels s)
      \<and> mwf (kv s) \<and> mwf (serviceVIPs s))"

definition inv_nested :: "Store \<Rightarrow> bool" where [inv_defs]:
  "inv_nested s =
     (mwf (projectMembers s) \<and> mwf (envVars s)
      \<and> (\<forall>p. keyed pm_user_id (inner (projectMembers s) p))
      \<and> (\<forall>p. list_all (\<lambda>m. pm_project_id m = p) (mvals (inner (projectMembers s) p)))
      \<and> (\<forall>e. mwf (inner (envVars s) e)))"

text \<open>The set-valued index of the hostnames is a map to booleans that only ever holds true.\<close>

definition idx_true :: "(string, (string, bool) gomap) gomap \<Rightarrow> bool" where
  "idx_true ix = (\<forall>h. list_all (\<lambda>b. b) (mvals (inner ix h)))"

definition inv_index :: "Store \<Rightarrow> bool" where
  "inv_index s =
     (idx_sound user_email (users s) (usersByEmail s)
      \<and> idx_sound token_secret_hash (tokens s) (tokensByHash s)
      \<and> midx_exact dom_hostname (domains s) (domainsByHostname s)
      \<and> idx_true (domainsByHostname s)
      \<and> midx_exact asg_node_id (assignments s) (assignmentsByNode s))"

definition inv_ring :: "Store \<Rightarrow> bool" where [inv_defs]:
  "inv_ring s =
     (length (events s) \<le> eventRingCap \<and> length (audit s) \<le> auditRingCap
      \<and> length (appliedRequests s) \<le> appliedRingCap
      \<and> distinct (map ar_request_id (appliedRequests s))
      \<and> mwf (appliedSet s)
      \<and> (\<forall>r. mhas (appliedSet s) r \<longleftrightarrow> r \<in> ar_request_id ` set (appliedRequests s)))"

definition store_inv :: "Store \<Rightarrow> bool" where
  "store_inv s = (inv_coll s \<and> inv_nested s \<and> inv_index s \<and> inv_ring s)"

lemma store_inv_New: "store_inv New"
  by (simp add: store_inv_def inv_defs inv_index_def New_def idx_sound_def midx_exact_def idx_true_def mvals_def)

subsection \<open>Folded batches\<close>

lemma fold_inv: "(\<And>x s. I s \<Longrightarrow> I (f x s)) \<Longrightarrow> I s \<Longrightarrow> I (fold f xs s)"
  by (induction xs arbitrary: s) auto

lemma fold_frame: "(\<And>x s. g (f x s) = g s) \<Longrightarrow> g (fold f xs s) = g s"
  by (induction xs arbitrary: s) auto

lemma merge_observed_frame [simp]:
  "asg_meta (merge_observed obs a) = asg_meta a"
  "asg_node_id (merge_observed obs a) = asg_node_id a"
  "asg_environment_id (merge_observed obs a) = asg_environment_id a"
  "asg_release_id (merge_observed obs a) = asg_release_id a"
  "asg_deployment_id (merge_observed obs a) = asg_deployment_id a"
  "asg_desired (merge_observed obs a) = asg_desired a"
  "asg_job_id (merge_observed obs a) = asg_job_id a"
  by (simp_all add: merge_observed_def Let_def)

subsection \<open>Collections\<close>

lemma inv_coll_putAssignment: "inv_coll s \<Longrightarrow> inv_coll (putAssignmentLocked a s)"
  by (simp add: inv_coll_def putAssignmentLocked_def touch_def Let_def)

lemma inv_coll_deleteAssignment: "inv_coll s \<Longrightarrow> inv_coll (deleteAssignmentLocked i s)"
  by (simp add: inv_coll_def deleteAssignmentLocked_def touch_def split: option.split)

lemma keyed_mput_same:
  "keyed f m \<Longrightarrow> map_of m k = Some v \<Longrightarrow> f w = f v \<Longrightarrow> keyed f (mput k w m)"
  by (simp add: keyed_def)

lemma inv_coll_observe: "inv_coll s \<Longrightarrow> inv_coll (observeLocked n x s)"
  by (cases x) (auto simp: inv_coll_def observeLocked_def touch_def
    intro: keyed_mput_same split: option.split)

lemma inv_coll_touchToken: "inv_coll s \<Longrightarrow> inv_coll (touchTokenLocked x s)"
  by (cases x) (auto simp: inv_coll_def touchTokenLocked_def touch_def
    intro: keyed_mput_same split: option.split)

lemma inv_coll_appendEvent: "inv_coll s \<Longrightarrow> inv_coll (appendEvent e s)"
  by (simp add: inv_coll_def appendEvent_def touch_def)

lemma inv_coll_events: "inv_coll (s\<lparr>events := es\<rparr>) = inv_coll s"
  by (simp add: inv_coll_def)

lemma inv_coll_AppendEvents: "inv_coll s \<Longrightarrow> inv_coll (AppendEvents es s)"
  by (simp add: AppendEvents_def Let_def inv_coll_events fold_inv [where I = inv_coll] inv_coll_appendEvent)

lemmas batch_defs = PutAssignments_def DeleteAssignments_def SetAssignmentObserved_def TouchTokens_def

lemmas inv_coll_batch =
  fold_inv [where I = inv_coll, OF inv_coll_putAssignment]
  fold_inv [where I = inv_coll, OF inv_coll_deleteAssignment]
  fold_inv [where I = inv_coll, OF inv_coll_observe]
  fold_inv [where I = inv_coll, OF inv_coll_touchToken]
  inv_coll_AppendEvents

lemma find_joinToken:
  assumes "keyed jt_id (joinTokens s)"
  shows "find (\<lambda>t. jt_id t = i) (ListJoinTokens s) = map_of (joinTokens s) i"
proof (cases "map_of (joinTokens s) i")
  case None
  with assms show ?thesis
    by (auto simp: find_None_iff ListJoinTokens_def sortByID_def in_mvals_iff keyed_mwf dest: keyedD)
next
  case (Some t)
  have "find (\<lambda>t. jt_id t = i) (ListJoinTokens s) \<noteq> None"
    using assms Some
    by (auto simp: find_None_iff ListJoinTokens_def sortByID_def in_mvals_iff keyed_mwf dest: keyedD)
  then obtain u where u: "find (\<lambda>t. jt_id t = i) (ListJoinTokens s) = Some u" by blast
  then have "u \<in> set (mvals (joinTokens s))" and "jt_id u = i"
    by (auto dest!: find_SomeD simp: ListJoinTokens_def sortByID_def)
  with assms have "map_of (joinTokens s) i = Some u"
    by (auto simp: in_mvals_iff keyed_mwf dest: keyedD)
  with u show ?thesis by simp
qed

lemmas getter_defs = Deployment_def Environment_def Release_def Node_def

lemma inv_coll_setPhase: "inv_coll s \<Longrightarrow> inv_coll (snd (applySetDeploymentPhase now m s))"
  by (auto simp: inv_coll_def applySetDeploymentPhase_def PutDeployment_def touch_def Let_def
    split: option.split)

lemma inv_coll_promote: "inv_coll s \<Longrightarrow> inv_coll (snd (applyPromoteRelease m s))"
  by (auto simp: inv_coll_def applyPromoteRelease_def PutEnvironment_def touch_def split: option.split)

lemma inv_coll_setNodeStatus: "inv_coll s \<Longrightarrow> inv_coll (snd (applySetNodeStatus m s))"
  by (auto simp: inv_coll_def applySetNodeStatus_def PutNode_def touch_def Let_def split: option.split)

lemma inv_coll_consume: "inv_coll s \<Longrightarrow> inv_coll (snd (applyConsumeJoinToken i s))"
  by (auto simp: inv_coll_def applyConsumeJoinToken_def PutJoinToken_def touch_def split: option.split)

lemma inv_coll_users:
  "inv_coll s \<Longrightarrow> inv_coll (PutUser u s)" "inv_coll s \<Longrightarrow> inv_coll (DeleteUser i s)"
  "inv_coll s \<Longrightarrow> inv_coll (PutToken t s)" "inv_coll s \<Longrightarrow> inv_coll (DeleteToken i s)"
  "inv_coll s \<Longrightarrow> inv_coll (PutDomain d s)" "inv_coll s \<Longrightarrow> inv_coll (DeleteDomain i s)"
  by (simp_all add: inv_coll_def PutUser_def DeleteUser_def PutToken_def DeleteToken_def
    PutDomain_def DeleteDomain_def touch_def Let_def split: option.split)

lemma inv_coll_lease: "inv_coll s \<Longrightarrow> inv_coll (SetVolumeLease v l s)"
  by (auto simp: inv_coll_def SetVolumeLease_def touch_def intro: keyed_mput_same split: option.split)

lemma inv_coll_members:
  "inv_coll s \<Longrightarrow> inv_coll (PutProjectMember m s)" "inv_coll s \<Longrightarrow> inv_coll (DeleteProjectMember p u s)"
  by (simp_all add: inv_coll_def PutProjectMember_def DeleteProjectMember_def touch_def Let_def
    split: option.split)

lemma inv_coll_kv:
  "inv_coll s \<Longrightarrow> inv_coll (snd (kv_result (PutKV k v ver exp s)))"
  "inv_coll s \<Longrightarrow> inv_coll (snd (DeleteKV k ver s))"
  by (simp_all add: inv_coll_def PutKV_def DeleteKV_def kv_result_def touch_def Let_def
    split: option.split sum.split kv_error.split)

lemma inv_coll_alloc: "inv_coll s \<Longrightarrow> inv_coll (SetNetworkAllocation p e n c s)"
  by (simp add: inv_coll_def SetNetworkAllocation_def touch_def Let_def na_key_def)

lemmas inv_coll_steps =
  inv_coll_batch inv_coll_setPhase inv_coll_promote inv_coll_setNodeStatus inv_coll_consume
  inv_coll_users inv_coll_lease inv_coll_members inv_coll_kv inv_coll_alloc

lemma DeleteKV_command:
  "snd (apply_mutation rid now (Command_DeleteKv k ver) s) = snd (DeleteKV k ver s)"
  by (simp split: prod.split)

lemma inv_coll_apply: "inv_coll s \<Longrightarrow> inv_coll (snd (apply_mutation rid now m s))"
  by (cases m)
    (simp_all add: inv_coll_steps batch_defs DeleteKV_command del: apply_mutation.simps(34),
     simp_all add: inv_coll_def store_defs Let_def)

subsection \<open>Frames\<close>

text \<open>The batch handlers and the read-modify-write handlers leave the fields they do not own.\<close>

lemma locked_frames:
  "projectMembers (putAssignmentLocked a s) = projectMembers s" "envVars (putAssignmentLocked a s) = envVars s"
  "projectMembers (deleteAssignmentLocked i s) = projectMembers s" "envVars (deleteAssignmentLocked i s) = envVars s"
  "projectMembers (observeLocked n x s) = projectMembers s" "envVars (observeLocked n x s) = envVars s"
  "projectMembers (touchTokenLocked y s) = projectMembers s" "envVars (touchTokenLocked y s) = envVars s"
  "projectMembers (appendEvent e s) = projectMembers s" "envVars (appendEvent e s) = envVars s"
  by (auto simp: store_defs Let_def split: option.split prod.split)

lemma batch_frames:
  "projectMembers (PutAssignments as s) = projectMembers s" "envVars (PutAssignments as s) = envVars s"
  "projectMembers (DeleteAssignments is s) = projectMembers s" "envVars (DeleteAssignments is s) = envVars s"
  "projectMembers (SetAssignmentObserved n obs s) = projectMembers s"
  "envVars (SetAssignmentObserved n obs s) = envVars s"
  "projectMembers (TouchTokens m s) = projectMembers s" "envVars (TouchTokens m s) = envVars s"
  "projectMembers (AppendEvents es s) = projectMembers s" "envVars (AppendEvents es s) = envVars s"
  by (simp_all add: batch_defs AppendEvents_def Let_def
    fold_frame [where g = projectMembers] fold_frame [where g = envVars] locked_frames)

lemma inv_nested_cong:
  "projectMembers t = projectMembers s \<Longrightarrow> envVars t = envVars s \<Longrightarrow> inv_nested t = inv_nested s"
  by (simp add: inv_nested_def)

lemma mwf_fold_mput: "mwf m \<Longrightarrow> mwf (fold (\<lambda>(k, v). mput k v) xs m)"
  by (induction xs arbitrary: m) (auto split: prod.split)

lemma mwf_fold_mdel: "mwf m \<Longrightarrow> mwf (fold mdel ks m)"
  by (induction ks arbitrary: m) auto

lemma list_all_mput: "list_all P (mvals m) \<Longrightarrow> P v \<Longrightarrow> list_all P (mvals (mput k v m))"
  by (induction m) (auto simp: mvals_def)

lemma list_all_mdel: "list_all P (mvals m) \<Longrightarrow> list_all P (mvals (mdel k m))"
  by (auto simp: mvals_def mdel_def list_all_iff)

lemma mvals_Nil [simp]: "mvals [] = []"
  by (simp add: mvals_def)

lemma inv_nested_batch:
  "inv_nested (PutAssignments as s) = inv_nested s" "inv_nested (DeleteAssignments is s) = inv_nested s"
  "inv_nested (SetAssignmentObserved n obs s) = inv_nested s"
  "inv_nested (TouchTokens tm s) = inv_nested s" "inv_nested (AppendEvents es s) = inv_nested s"
  by (rule inv_nested_cong; simp add: batch_frames)+

lemma inv_nested_PutProjectMember: "inv_nested s \<Longrightarrow> inv_nested (PutProjectMember m s)"
  by (simp add: inv_nested_def PutProjectMember_def touch_def Let_def list_all_mput)

lemma inv_nested_DeleteProjectMember:
  assumes "inv_nested s"
  shows "inv_nested (DeleteProjectMember p u s)"
proof (cases "map_of (projectMembers s) p")
  case None
  with assms show ?thesis by (simp add: DeleteProjectMember_def)
next
  case (Some x)
  then have x: "x = inner (projectMembers s) p" by (simp add: inner_some)
  from assms Some show ?thesis
    by (simp add: inv_nested_def DeleteProjectMember_def touch_def x list_all_mdel)
qed

lemma inv_nested_vars:
  "inv_nested s \<Longrightarrow> inv_nested (SetEnvVars e st us s)" "inv_nested s \<Longrightarrow> inv_nested (DeleteProject i s)"
  "inv_nested s \<Longrightarrow> inv_nested (DeleteEnvironment j s)"
  by (simp_all add: inv_nested_def SetEnvVars_def DeleteProject_def DeleteEnvironment_def touch_def
    Let_def mwf_fold_mput mwf_fold_mdel)

lemmas inv_nested_steps =
  inv_nested_batch inv_nested_PutProjectMember inv_nested_DeleteProjectMember inv_nested_vars

lemma inv_nested_frame:
  "inv_nested s \<Longrightarrow> projectMembers t = projectMembers s \<Longrightarrow> envVars t = envVars s \<Longrightarrow> inv_nested t"
  by (simp add: inv_nested_def)

lemma inv_nested_apply: "inv_nested s \<Longrightarrow> inv_nested (snd (apply_mutation rid now m s))"
  by (cases m)
    (simp_all add: inv_nested_steps,
     (erule inv_nested_frame; simp add: store_defs fsm_defs Let_def
       split: option.split sum.split kv_error.split prod.split)+)

subsection \<open>Secondary indexes\<close>

text \<open>The invariant of the indexes needs the assignments and domains keyed, so it is carried
  together with \<open>inv_coll\<close>.\<close>

lemma idx_sound_same:
  assumes "idx_sound key prim idx" and "map_of prim i = Some v" and "key w = key v"
  shows "idx_sound key (mput i w prim) idx"
  using assms by (fastforce simp: idx_sound_def)

lemma midx_exact_same:
  assumes "midx_exact key prim idx" and "map_of prim i = Some v" and "key w = key v"
  shows "midx_exact key (mput i w prim) idx"
  using assms by (auto simp: midx_exact_def)

lemma inv_index_frame:
  "inv_index s \<Longrightarrow> users t = users s \<Longrightarrow> usersByEmail t = usersByEmail s
   \<Longrightarrow> tokens t = tokens s \<Longrightarrow> tokensByHash t = tokensByHash s
   \<Longrightarrow> domains t = domains s \<Longrightarrow> domainsByHostname t = domainsByHostname s
   \<Longrightarrow> assignments t = assignments s \<Longrightarrow> assignmentsByNode t = assignmentsByNode s \<Longrightarrow> inv_index t"
  by (simp add: inv_index_def)

lemma inv_index_touch [simp]: "inv_index (touch k i s) = inv_index s"
  by (simp add: inv_index_def touch_def)

lemma inv_index_putAssignment:
  assumes "inv_coll s" "inv_index s"
  shows "inv_index (putAssignmentLocked a s)"
  using assms assignment_ix.put_exact [of s a]
  by (simp add: inv_index_def inv_coll_def)
    (simp add: putAssignmentLocked_def touch_def Let_def)

lemma inv_index_deleteAssignment:
  assumes "inv_coll s" "inv_index s"
  shows "inv_index (deleteAssignmentLocked i s)"
  using assms assignment_ix.del_exact [of s i]
  by (simp add: inv_index_def inv_coll_def)
    (simp add: deleteAssignmentLocked_def touch_def Let_def split: option.split)

lemma inv_index_observe: "inv_index s \<Longrightarrow> inv_index (observeLocked n x s)"
  by (cases x) (auto simp: inv_index_def observeLocked_def touch_def
    intro: midx_exact_same split: option.split)

lemma inv_index_touchToken: "inv_index s \<Longrightarrow> inv_index (touchTokenLocked x s)"
  by (cases x) (auto simp: inv_index_def touchTokenLocked_def touch_def
    intro: idx_sound_same split: option.split)

lemma inv_index_events: "inv_index s \<Longrightarrow> inv_index (AppendEvents es s)"
proof -
  assume "inv_index s"
  then have "inv_index (fold appendEvent es s)"
    by (rule fold_inv [where I = inv_index, rotated]) (simp add: appendEvent_def, simp add: inv_index_def)
  then show ?thesis by (simp add: AppendEvents_def Let_def inv_index_def)
qed

lemma inv_index_users:
  assumes "inv_index s"
  shows "inv_index (PutUser u s)" "inv_index (DeleteUser i s)"
  using assms user_ix.put_sound [of s u] user_ix.del_sound [of s i]
  by (simp_all add: inv_index_def)
    (simp_all add: PutUser_def DeleteUser_def touch_def Let_def split: option.split)

lemma inv_index_tokens:
  assumes "inv_index s"
  shows "inv_index (PutToken u s)" "inv_index (DeleteToken i s)"
  using assms token_ix.put_sound [of s u] token_ix.del_sound [of s i]
  by (simp_all add: inv_index_def)
    (simp_all add: PutToken_def DeleteToken_def touch_def Let_def split: option.split)

lemma idx_true_domain:
  "idx_true ix \<Longrightarrow> idx_true (indexDomain d ix)" "idx_true ix \<Longrightarrow> idx_true (unindexDomain d ix)"
  by (simp_all add: idx_true_def indexDomain_def inner_unindexDomain list_all_mput list_all_mdel)

lemma inv_index_domains:
  assumes "inv_coll s" "inv_index s"
  shows "inv_index (PutDomain u s)" "inv_index (DeleteDomain i s)"
  using assms domain_ix.put_exact [of s u] domain_ix.del_exact [of s i]
  by (simp_all add: inv_index_def inv_coll_def)
    (simp_all add: PutDomain_def DeleteDomain_def touch_def Let_def idx_true_domain split: option.split)

lemma inv_index_batch:
  assumes "inv_coll s" "inv_index s"
  shows "inv_index (PutAssignments as s)" "inv_index (DeleteAssignments is s)"
    "inv_index (SetAssignmentObserved n obs s)" "inv_index (TouchTokens m s)"
  using assms
  fold_inv [where I = "\<lambda>s. inv_coll s \<and> inv_index s" and f = putAssignmentLocked and xs = as and s = s]
  fold_inv [where I = "\<lambda>s. inv_coll s \<and> inv_index s" and f = deleteAssignmentLocked and xs = "is" and s = s]
  by (simp_all add: batch_defs inv_coll_putAssignment inv_index_putAssignment
    inv_coll_deleteAssignment inv_index_deleteAssignment
    fold_inv [where I = inv_index, OF inv_index_observe]
    fold_inv [where I = inv_index, OF inv_index_touchToken])

lemmas inv_index_steps =
  inv_index_batch inv_index_events inv_index_users inv_index_tokens inv_index_domains

lemma inv_index_apply: "inv_coll s \<Longrightarrow> inv_index s \<Longrightarrow> inv_index (snd (apply_mutation rid now m s))"
  by (cases m)
    (simp_all add: inv_index_steps,
     (erule inv_index_frame; simp add: store_defs fsm_defs Let_def
       split: option.split sum.split kv_error.split prod.split)+)

subsection \<open>Bounded histories\<close>

lemma length_ring_trim: "length (ring_trim cap xs) = min cap (length xs)"
  by (simp add: ring_trim_def)

lemma ring_trim_suffix: "\<exists>ys. xs = ys @ ring_trim cap xs"
  by (auto simp: ring_trim_def intro: exI [of _ "take (length xs - cap) xs"])

lemma inv_ring_frame:
  "inv_ring s \<Longrightarrow> events t = events s \<Longrightarrow> audit t = audit s
   \<Longrightarrow> appliedRequests t = appliedRequests s \<Longrightarrow> appliedSet t = appliedSet s \<Longrightarrow> inv_ring t"
  by (simp add: inv_ring_def)

lemma ring_frames:
  "events (putAssignmentLocked a s) = events s" "audit (putAssignmentLocked a s) = audit s"
  "appliedRequests (putAssignmentLocked a s) = appliedRequests s" "appliedSet (putAssignmentLocked a s) = appliedSet s"
  "events (deleteAssignmentLocked i s) = events s" "audit (deleteAssignmentLocked i s) = audit s"
  "appliedRequests (deleteAssignmentLocked i s) = appliedRequests s" "appliedSet (deleteAssignmentLocked i s) = appliedSet s"
  "events (observeLocked n x s) = events s" "audit (observeLocked n x s) = audit s"
  "appliedRequests (observeLocked n x s) = appliedRequests s" "appliedSet (observeLocked n x s) = appliedSet s"
  "events (touchTokenLocked y s) = events s" "audit (touchTokenLocked y s) = audit s"
  "appliedRequests (touchTokenLocked y s) = appliedRequests s" "appliedSet (touchTokenLocked y s) = appliedSet s"
  "audit (appendEvent e s) = audit s"
  "appliedRequests (appendEvent e s) = appliedRequests s" "appliedSet (appendEvent e s) = appliedSet s"
  by (auto simp: store_defs Let_def split: option.split prod.split)

lemma inv_ring_fold:
  assumes "inv_ring s"
    and "\<And>x s. events (f x s) = events s" "\<And>x s. audit (f x s) = audit s"
      "\<And>x s. appliedRequests (f x s) = appliedRequests s" "\<And>x s. appliedSet (f x s) = appliedSet s"
  shows "inv_ring (fold f xs s)"
  using assms(1) by (rule inv_ring_frame) (simp_all add: fold_frame assms)

lemma inv_ring_batch:
  assumes "inv_ring s"
  shows "inv_ring (PutAssignments as s)" "inv_ring (DeleteAssignments is s)"
    "inv_ring (SetAssignmentObserved n obs s)" "inv_ring (TouchTokens m s)"
  unfolding batch_defs by (rule inv_ring_fold [OF assms]; simp add: ring_frames)+

lemma inv_ring_events: "inv_ring s \<Longrightarrow> inv_ring (AppendEvents es s)"
  by (simp add: inv_ring_def AppendEvents_def Let_def length_ring_trim
    fold_frame [where g = audit] fold_frame [where g = appliedRequests]
    fold_frame [where g = appliedSet] ring_frames)

lemma inv_ring_audit: "inv_ring s \<Longrightarrow> inv_ring (AppendAudit es s)"
  by (simp add: inv_ring_def AppendAudit_def touch_def length_ring_trim)

lemma inv_ring_apply: "inv_ring s \<Longrightarrow> inv_ring (snd (apply_mutation rid now m s))"
  by (cases m)
    (simp_all add: inv_ring_batch inv_ring_events inv_ring_audit,
     (erule inv_ring_frame; simp add: store_defs fsm_defs Let_def
       split: option.split sum.split kv_error.split prod.split)+)


subsection \<open>The applied-request ring\<close>

lemma map_of_fold_mdel: "map_of (fold (\<lambda>x. mdel (f x)) xs m) k = (if k \<in> f ` set xs then None else map_of m k)"
  by (induction xs arbitrary: m) auto

lemma mwf_fold_mdel_key: "mwf m \<Longrightarrow> mwf (fold (\<lambda>x. mdel (f x)) xs m)"
  by (induction xs arbitrary: m) auto

lemma distinct_take_drop:
  assumes "distinct (map f xs)"
  shows "f ` set (drop n xs) = f ` set xs - f ` set (take n xs)"
proof -
  have "f ` set xs = f ` set (take n xs) \<union> f ` set (drop n xs)"
    by (metis append_take_drop_id image_Un set_append)
  moreover have "f ` set (take n xs) \<inter> f ` set (drop n xs) = {}"
    using assms append_take_drop_id [of n xs] distinct_append map_append set_map by metis
  ultimately show ?thesis by auto
qed

lemma inv_ring_MarkApplied: "inv_ring s \<Longrightarrow> inv_ring (snd (MarkApplied r i s))"
proof (cases "mhas (appliedSet s) r")
  case False
  assume inv: "inv_ring s"
  define reqs where "reqs = appliedRequests s @ [\<lparr>ar_request_id = r, ar_raft_index = i\<rparr>]"
  define over where "over = length reqs - appliedRingCap"
  have new: "r \<notin> ar_request_id ` set (appliedRequests s)"
    using inv False unfolding inv_ring_def by blast
  have d: "distinct (map ar_request_id reqs)"
    using inv new by (simp add: inv_ring_def reqs_def)
  have mem: "mhas (mput r () (appliedSet s)) k \<longleftrightarrow> k \<in> ar_request_id ` set reqs" for k
    using inv unfolding inv_ring_def reqs_def by auto
  have "snd (MarkApplied r i s) =
      s\<lparr>appliedSet := fold (\<lambda>old. mdel (ar_request_id old)) (take over reqs) (mput r () (appliedSet s)),
        appliedRequests := drop over reqs\<rparr>"
    using False by (simp add: MarkApplied_def Let_def reqs_def over_def)
  moreover have "mhas (fold (\<lambda>old. mdel (ar_request_id old)) (take over reqs) (mput r () (appliedSet s))) k
      \<longleftrightarrow> k \<in> ar_request_id ` set (drop over reqs)" for k
    unfolding mhas_def map_of_fold_mdel distinct_take_drop [OF d] using mem [of k] by (simp add: mhas_def)
  ultimately show ?thesis
    using inv d unfolding inv_ring_def
    by (simp add: over_def mwf_fold_mdel_key distinct_drop flip: drop_map del: mhas_iff)
qed (simp add: MarkApplied_def)

subsection \<open>Every command and every log keeps the invariant\<close>

lemma store_inv_apply: "store_inv s \<Longrightarrow> store_inv (snd (apply_mutation rid now m s))"
  by (simp add: store_inv_def inv_coll_apply inv_nested_apply inv_index_apply inv_ring_apply)

lemma MarkApplied_frame:
  "inv_coll (snd (MarkApplied r i s)) = inv_coll s"
  "inv_nested (snd (MarkApplied r i s)) = inv_nested s"
  "inv_index (snd (MarkApplied r i s)) = inv_index s"
  by (simp_all add: MarkApplied_def Let_def inv_coll_def inv_nested_def inv_index_def)

lemma store_inv_MarkApplied: "store_inv s \<Longrightarrow> store_inv (snd (MarkApplied r i s))"
  by (simp add: store_inv_def MarkApplied_frame inv_ring_MarkApplied)

lemma MarkApplied_fst: "fst (MarkApplied r i s) \<longleftrightarrow> \<not> mhas (appliedSet s) r"
  by (simp add: MarkApplied_def Let_def)

text \<open>The three outcomes of a log entry: it cannot be decoded, its request was applied before, or
  it is applied after its request is recorded.\<close>

definition recorded :: "log_entry \<Rightarrow> Command \<Rightarrow> Store \<Rightarrow> Store" where
  "recorded e cmd s =
     (if RequestId cmd \<noteq> '''' then snd (MarkApplied (RequestId cmd) (entry_index e) s) else s)"

lemma FSM_Apply_undecodable:
  "entry_data e = None \<Longrightarrow> FSM_Apply e s = (\<lparr>res_Err = Some UndecodableCommand, res_Duplicate = False\<rparr>, s)"
  by (simp add: FSM_Apply_def)

lemma FSM_Apply_duplicate:
  "entry_data e = Some cmd \<Longrightarrow> RequestId cmd \<noteq> '''' \<Longrightarrow> mhas (appliedSet s) (RequestId cmd) \<Longrightarrow>
   FSM_Apply e s = (\<lparr>res_Err = None, res_Duplicate = True\<rparr>, s)"
  by (auto simp: FSM_Apply_def MarkApplied_def)

lemma FSM_Apply_fresh:
  "entry_data e = Some cmd \<Longrightarrow> RequestId cmd = '''' \<or> \<not> mhas (appliedSet s) (RequestId cmd) \<Longrightarrow>
   FSM_Apply e s = (\<lparr>res_Err = fst (fsm_apply cmd (recorded e cmd s)), res_Duplicate = False\<rparr>,
                    snd (fsm_apply cmd (recorded e cmd s)))"
  using MarkApplied_fst [of "RequestId cmd" "entry_index e" s]
  by (auto simp: FSM_Apply_def recorded_def split: prod.split)

lemma FSM_Apply_cases:
  obtains (undecodable) "entry_data e = None"
  | (duplicate) cmd where "entry_data e = Some cmd" "RequestId cmd \<noteq> ''''" "mhas (appliedSet s) (RequestId cmd)"
  | (fresh) cmd where "entry_data e = Some cmd" "RequestId cmd = '''' \<or> \<not> mhas (appliedSet s) (RequestId cmd)"
  by (cases "entry_data e") auto

lemma store_inv_recorded: "store_inv s \<Longrightarrow> store_inv (recorded e cmd s)"
  by (simp add: recorded_def store_inv_MarkApplied)

lemma store_inv_FSM_Apply:
  assumes "store_inv s"
  shows "store_inv (snd (FSM_Apply e s))"
proof (cases rule: FSM_Apply_cases [where e = e and s = s])
  case undecodable
  with assms show ?thesis by (simp add: FSM_Apply_undecodable)
next
  case duplicate
  with assms show ?thesis by (simp add: FSM_Apply_duplicate)
next
  case fresh
  with assms show ?thesis
    by (simp only: FSM_Apply_fresh snd_conv fsm_apply_def store_inv_recorded store_inv_apply)
qed

lemma store_inv_run_log: "store_inv s \<Longrightarrow> store_inv (run_log es s)"
  by (induction es arbitrary: s) (auto intro: store_inv_FSM_Apply)

end
