(* ===== verification/Samples.thy ===== *)
theory Samples
  imports FSM
begin

text \<open>
  Zero values of the messages, as Go's \<^verbatim>\<open>&T{}\<close>, and log entries built from them. The
  components that create messages start from these values, and the witnesses evaluate on them.
\<close>

definition meta_of :: "string \<Rightarrow> Meta" where
  "meta_of i = \<lparr>Id = i, CreatedAt = None, UpdatedAt = None\<rparr>"

definition zero_user :: User where
  "zero_user = \<lparr>user_meta = meta_of '''', user_email = '''', user_display_name = '''',
     user_password_hash = '''', user_org_id = '''', user_org_role = ROLE_UNSPECIFIED\<rparr>"

definition zero_limits :: ResourceLimits where
  "zero_limits = \<lparr>cpu_millis = 0, memory_mb = 0\<rparr>"

definition zero_health :: HealthCheck where
  "zero_health = \<lparr>hc_type = HEALTH_CHECK_TYPE_UNSPECIFIED, hc_path = '''', hc_port = 0,
     hc_command = '''', hc_interval = 0, hc_timeout = 0, hc_grace_period = 0, hc_unhealthy_threshold = 0\<rparr>"

definition zero_spec :: ServiceSpec where
  "zero_spec = \<lparr>svc_replicas = \<lparr>replicas_min = 0, replicas_max = 0\<rparr>,
     svc_autoscale = \<lparr>target_cpu_percent = 0, target_memory_percent = 0, target_rps_per_replica = 0\<rparr>,
     svc_resources = zero_limits, svc_ports = [], svc_healthcheck = zero_health,
     svc_scale_to_zero = False, svc_max_concurrency = 0, svc_stateful = False, svc_volumes = [],
     svc_cron = [], svc_stop_grace = 0, svc_command = '''', svc_placement_constraints = [],
     svc_rate_limit = None\<rparr>"

definition zero_env :: Environment where
  "zero_env = \<lparr>env_meta = meta_of '''', env_app_id = '''', env_project_id = '''', env_name = '''',
     env_type = ENVIRONMENT_TYPE_UNSPECIFIED, env_service = zero_spec, env_active_release_id = '''',
     env_route_generation = 0, env_preview_pr_number = 0, env_preview_expires_at = None,
     env_effective_replicas = 0, env_idle_timeout = 0\<rparr>"

definition zero_source :: ReleaseSource where
  "zero_source = \<lparr>src_git_sha = '''', src_git_branch = '''', src_git_message = '''',
     src_tarball_digest = '''', src_build_id = ''''\<rparr>"

definition zero_release :: Release where
  "zero_release = \<lparr>rel_meta = meta_of '''', rel_environment_id = '''', rel_app_id = '''',
     rel_project_id = '''', rel_version = 0, rel_image_ref = '''', rel_config_hash = '''',
     rel_service = zero_spec, rel_source = zero_source, rel_created_by_user_id = '''', rel_platforms = []\<rparr>"

definition zero_deployment :: Deployment where
  "zero_deployment = \<lparr>dep_meta = meta_of '''', dep_environment_id = '''', dep_app_id = '''',
     dep_project_id = '''', dep_release_id = '''', dep_previous_release_id = '''',
     dep_phase = DEPLOYMENT_PHASE_UNSPECIFIED, dep_error = '''', dep_is_rollback = False,
     dep_build_id = '''', dep_promoted_at = None, dep_drain_deadline = None, dep_created_by_user_id = ''''\<rparr>"

definition zero_node :: Node where
  "zero_node = \<lparr>node_meta = meta_of '''', node_name = '''', node_roles = [], node_labels = [],
     node_mesh_ip = '''', node_wireguard_public_key = '''', node_public_endpoints = [],
     node_capacity = zero_limits, node_capacity_disk_mb = 0, node_status = NODE_STATUS_UNSPECIFIED,
     node_schedulable = False, node_autoprovisioned = False, node_binary_version = '''',
     node_last_heartbeat_at = None, node_os_arch = ''''\<rparr>"

definition zero_observed :: AssignmentObserved where
  "zero_observed = \<lparr>obs_state = INSTANCE_STATE_UNSPECIFIED, obs_container_id = '''', obs_restarts = 0,
     obs_exit_code = 0, obs_message = '''', obs_updated_at = None, obs_mesh_port_bindings = []\<rparr>"

definition zero_assignment :: Assignment where
  "zero_assignment = \<lparr>asg_meta = meta_of '''', asg_node_id = '''', asg_project_id = '''', asg_app_id = '''',
     asg_environment_id = '''', asg_release_id = '''', asg_deployment_id = '''',
     asg_desired = ASSIGNMENT_DESIRED_UNSPECIFIED, asg_config_hash = '''', asg_mesh_port_bindings = [],
     asg_observed = zero_observed, asg_job_id = ''''\<rparr>"

definition zero_join_token :: JoinToken where
  "zero_join_token = \<lparr>jt_meta = meta_of '''', jt_secret_hash = '''', jt_single_use = False, jt_used = False,
     jt_expires_at = None, jt_roles = [], jt_created_by_user_id = ''''\<rparr>"

definition zero_domain :: Domain where
  "zero_domain = \<lparr>dom_meta = meta_of '''', dom_project_id = '''', dom_app_id = '''',
     dom_environment_id = '''', dom_hostname = '''', dom_path_prefix = '''', dom_middleware = [],
     dom_cert_status = CERT_STATUS_UNSPECIFIED, dom_cluster_subdomain = False, dom_port_name = ''''\<rparr>"

definition zero_job :: Job where
  "zero_job = \<lparr>job_meta = meta_of '''', job_project_id = '''', job_app_id = '''', job_environment_id = '''',
     job_release_id = '''', job_command = '''', job_cron_name = '''', job_status = JOB_STATUS_UNSPECIFIED,
     job_node_id = '''', job_exit_code = 0, job_attempt = 0, job_max_retries = 0, job_error = '''',
     job_started_at = None, job_finished_at = None, job_created_by_user_id = ''''\<rparr>"

definition zero_volume :: Volume where
  "zero_volume = \<lparr>vol_meta = meta_of '''', vol_project_id = '''', vol_environment_id = '''', vol_name = '''',
     vol_node_id = '''', vol_status = VOLUME_STATUS_UNSPECIFIED, vol_lease = None,
     vol_snapshot_policy = None, vol_size_bytes_observed = 0\<rparr>"

definition entry :: "uint64 \<Rightarrow> string \<Rightarrow> Mutation \<Rightarrow> log_entry" where
  "entry i rid m = \<lparr>entry_index = i,
     entry_data = Some \<lparr>RequestId = rid, Actor = '''', Time = None, Mutation = m\<rparr>\<rparr>"

lemmas sample_defs =
  meta_of_def zero_user_def zero_limits_def zero_health_def zero_spec_def zero_env_def zero_source_def
  zero_release_def zero_deployment_def zero_node_def zero_observed_def zero_assignment_def
  zero_join_token_def zero_domain_def zero_job_def zero_volume_def entry_def

end
