(* ===== verification/StoreFacts.thy ===== *)
theory StoreFacts
  imports StoreInv Samples
begin

text \<open>
  The functional behaviour of the store's operations: what each batch does to every object, what
  the index lookups return in a reachable state, compare-and-swap, the bounded histories, and the
  read-modify-write handlers of the FSM.
\<close>

subsection \<open>Batches, object by object\<close>

lemma assignments_frames:
  "tokens (observeLocked n x s) = tokens s" "assignments (touchTokenLocked y s) = assignments s"
  by (auto simp: store_defs split: option.split prod.split)

lemma observe_one:
  "map_of (assignments (observeLocked n (j, x) s)) i =
     (if i = j then map_option (\<lambda>a. if asg_node_id a = n then merge_observed x a else a) (map_of (assignments s) i)
      else map_of (assignments s) i)"
  by (auto simp: observeLocked_def touch_def split: option.split)

lemma observed_map_of:
  assumes "mwf obs"
  shows "map_of (assignments (SetAssignmentObserved n obs s)) i =
    (case map_of obs i of
       None \<Rightarrow> map_of (assignments s) i
     | Some x \<Rightarrow> map_option (\<lambda>a. if asg_node_id a = n then merge_observed x a else a) (map_of (assignments s) i))"
  using assms unfolding SetAssignmentObserved_def
proof (induction obs arbitrary: s)
  case (Cons p obs)
  obtain j x where p: "p = (j, x)" by (cases p)
  from Cons.prems p have "map_of obs j = None" and wf: "mwf obs"
    by (auto simp: mwf_def map_of_eq_None_iff)
  then show ?case
    by (simp add: p Cons.IH [OF wf] observe_one split: option.split)
qed simp

definition touched_token :: "int \<Rightarrow> Token \<Rightarrow> Token" where
  "touched_token ms t =
     (if token_last_used_at t = None \<or> UnixMilli (AsTime (token_last_used_at t)) < ms
      then t\<lparr>token_last_used_at := Some (timestampFromUnixMs ms)\<rparr> else t)"

lemma touch_one:
  "map_of (tokens (touchTokenLocked (j, ms) s)) i =
     (if i = j then map_option (touched_token ms) (map_of (tokens s) i) else map_of (tokens s) i)"
  by (auto simp: touchTokenLocked_def touched_token_def touch_def split: option.split)

lemma touched_map_of:
  assumes "mwf m"
  shows "map_of (tokens (TouchTokens m s)) i =
    (case map_of m i of
       None \<Rightarrow> map_of (tokens s) i
     | Some ms \<Rightarrow> map_option (touched_token ms) (map_of (tokens s) i))"
  using assms unfolding TouchTokens_def
proof (induction m arbitrary: s)
  case (Cons p m)
  obtain j x where p: "p = (j, x)" by (cases p)
  from Cons.prems p have "map_of m j = None" and wf: "mwf m"
    by (auto simp: mwf_def map_of_eq_None_iff)
  then show ?case
    by (simp add: p Cons.IH [OF wf] touch_one split: option.split)
qed simp

lemma fold_mput_map_of: "mwf xs \<Longrightarrow> map_of (fold (\<lambda>(k, v). mput k v) xs m) = map_of m ++ map_of xs"
proof (induction xs arbitrary: m)
  case (Cons p xs)
  then have "mwf xs" and "map_of xs (fst p) = None"
    by (auto simp: mwf_def map_of_eq_None_iff)
  with Cons.IH show ?case
    by (cases p) (auto simp: map_add_def fun_eq_iff split: option.split)
qed simp

lemma fold_mdel_map_of: "map_of (fold mdel ks m) k = (if k \<in> set ks then None else map_of m k)"
  using map_of_fold_mdel [of "\<lambda>x. x" ks m k] by simp

lemma EnvVars_SetEnvVars:
  assumes "mwf st"
  shows "map_of (EnvVars e (SetEnvVars e' st us s)) k =
    (if e \<noteq> e' then map_of (EnvVars e s) k
     else if k \<in> set us then None
     else (case map_of st k of Some v \<Rightarrow> Some v | None \<Rightarrow> map_of (EnvVars e s) k))"
  using assms
  by (auto simp: EnvVars_def SetEnvVars_def touch_def Let_def fold_mdel_map_of fold_mput_map_of
    map_add_def split: option.split)

subsection \<open>Index lookups\<close>

lemma reachable_inv: "store_inv (run_log es New)"
  by (rule store_inv_run_log [OF store_inv_New])

lemma reachable_parts:
  "inv_coll (run_log es New)" "inv_nested (run_log es New)" "inv_index (run_log es New)" "inv_ring (run_log es New)"
  using reachable_inv [of es] by (simp_all add: store_inv_def)

lemma fst_mhas: "i \<in> fst ` set m \<longleftrightarrow> mhas m i"
  by (metis map_of_eq_None_iff mhas_def)

lemma midx_listing:
  assumes "keyed f prim" and "midx_exact key prim idx"
  shows "(\<lambda>p. map_of prim (fst p)) ` set (inner idx k) = Some ` {v. map_of prim (f v) = Some v \<and> key v = k}"
proof -
  have "fst ` set (inner idx k) = {i. \<exists>v. map_of prim i = Some v \<and> key v = k}"
    using assms(2) unfolding midx_exact_def by (intro set_eqI) (simp only: fst_mhas mem_Collect_eq)
  then have "(\<lambda>p. map_of prim (fst p)) ` set (inner idx k) = map_of prim ` {i. \<exists>v. map_of prim i = Some v \<and> key v = k}"
    by (metis image_image)
  also have "\<dots> = Some ` {v. map_of prim (f v) = Some v \<and> key v = k}"
    using keyedD [OF assms(1)] by (fastforce simp: image_iff)
  finally show ?thesis .
qed

lemma distinct_map_fst: "distinct (map fst m) \<Longrightarrow> inj_on g (fst ` set m) \<Longrightarrow> distinct (map (\<lambda>p. g (fst p)) m)"
  by (metis (no_types, lifting) distinct_map list.map_comp comp_def list.set_map map_eq_conv)

lemma midx_listing_distinct:
  assumes "keyed f prim" and "midx_exact key prim idx"
  shows "distinct (map (\<lambda>p. map_of prim (fst p)) (inner idx k))"
proof (rule distinct_map_fst)
  show "distinct (map fst (inner idx k))" using assms(2) by (simp add: midx_exact_def mwf_def)
  show "inj_on (map_of prim) (fst ` set (inner idx k))"
  proof (rule inj_onI)
    fix i j
    assume "i \<in> fst ` set (inner idx k)" "j \<in> fst ` set (inner idx k)" "map_of prim i = map_of prim j"
    moreover from this(1) obtain v where "map_of prim i = Some v"
      using assms(2) unfolding fst_mhas midx_exact_def by blast
    ultimately show "i = j" using keyedD [OF assms(1)] by metis
  qed
qed

text \<open>A stable sort by one key of a list sorted by another is the lexicographic order.\<close>

lemma insort_key_lexicographic:
  fixes f :: "'a \<Rightarrow> int" and g :: "'a \<Rightarrow> 'b::linorder"
  assumes "sorted_wrt (\<lambda>x y. f x < f y \<or> f x = f y \<and> g x \<le> g y) zs" and "\<forall>z \<in> set zs. g x \<le> g z"
  shows "sorted_wrt (\<lambda>x y. f x < f y \<or> f x = f y \<and> g x \<le> g y) (insort_key f x zs)"
  using assms by (induction zs) (auto simp: set_insort_key)

lemma sort_key_lexicographic_aux:
  fixes f :: "'a \<Rightarrow> int" and g :: "'a \<Rightarrow> 'b::linorder"
  assumes "sorted (map g xs)"
  shows "sorted_wrt (\<lambda>x y. f x < f y \<or> f x = f y \<and> g x \<le> g y) (sort_key f xs)"
  using assms by (induction xs) (auto intro!: insort_key_lexicographic)

lemma sort_key_lexicographic:
  fixes f :: "'a \<Rightarrow> int" and g :: "'a \<Rightarrow> 'b::linorder"
  shows "sorted_wrt (\<lambda>x y. f x < f y \<or> f x = f y \<and> g x \<le> g y) (sort_key f (sort_key g xs))"
  by (rule sort_key_lexicographic_aux) simp

lemma store_keyed:


  assumes "store_inv s"
  shows "keyed user_id (users s)" "keyed token_id (tokens s)" "keyed dom_id (domains s)"
    "keyed asg_id (assignments s)" "keyed node_id (nodes s)" "keyed env_id (environments s)"
    "keyed rel_id (releases s)" "keyed dep_id (deployments s)" "keyed jt_id (joinTokens s)"
    "keyed vol_id (volumes s)" "keyed job_id (jobs s)"
  using assms by (simp_all add: store_inv_def inv_coll_def)

lemma store_indexed:
  assumes "store_inv s"
  shows "idx_sound user_email (users s) (usersByEmail s)"
    "idx_sound token_secret_hash (tokens s) (tokensByHash s)"
    "midx_exact dom_hostname (domains s) (domainsByHostname s)"
    "midx_exact asg_node_id (assignments s) (assignmentsByNode s)"
  using assms by (simp_all add: store_inv_def inv_index_def)

lemma keyed_self: "keyed f m \<Longrightarrow> map_of m i = Some v \<Longrightarrow> map_of m (f v) = Some v"
  by (auto dest: keyedD)

lemma user_lookup:
  assumes "store_inv s" and "UserByEmail email s = Some x"
  shows "\<exists>u. x = Some u \<and> user_email u = email \<and> User (user_id u) s = Some u"
  using user_ix.by_key_sound [OF store_indexed(1) [OF assms(1)] assms(2)] keyed_self [OF store_keyed(1) [OF assms(1)]]
  by (auto simp: User_def)

lemma token_lookup:
  assumes "store_inv s" and "TokenByHash hash s = Some x"
  shows "\<exists>t. x = Some t \<and> token_secret_hash t = hash \<and> Token (token_id t) s = Some t"
  using token_ix.by_key_sound [OF store_indexed(2) [OF assms(1)] assms(2)] keyed_self [OF store_keyed(2) [OF assms(1)]]
  by (auto simp: Token_def)

text \<open>Index soundness: in every reachable state a lookup by email or by token hash never
  returns a dangling entry: what it returns is a stored user or token with that email or hash.\<close>

theorem index_lookups_sound:
  fixes es :: "log_entry list"
  defines "s \<equiv> run_log es New"
  shows "(case UserByEmail email s of
            None \<Rightarrow> True
          | Some x \<Rightarrow> \<exists>u. x = Some u \<and> user_email u = email \<and> User (user_id u) s = Some u)
    \<and> (case TokenByHash hash s of
         None \<Rightarrow> True
       | Some y \<Rightarrow> \<exists>t. y = Some t \<and> token_secret_hash t = hash \<and> Token (token_id t) s = Some t)"
  unfolding s_def
  using user_lookup [OF reachable_inv, of email es] token_lookup [OF reachable_inv, of hash es]
  by (auto split: option.split)

text \<open>C32 (assignments of a node): in every reachable state the listing of a node's assignments,
  which the agents act on, is exactly the assignments placed on that node, each once, in id order.\<close>

theorem ListAssignmentsByNode_exact:
  fixes es :: "log_entry list"
  defines "s \<equiv> run_log es New"
  shows "set (ListAssignmentsByNode n s) = Some ` {a. Assignment (asg_id a) s = Some a \<and> asg_node_id a = n}
    \<and> distinct (ListAssignmentsByNode n s)
    \<and> sorted (map opt_asg_id (ListAssignmentsByNode n s))"
  using midx_listing [OF store_keyed(4) store_indexed(4), OF reachable_inv reachable_inv, of es n]
    midx_listing_distinct [OF store_keyed(4) store_indexed(4), OF reachable_inv reachable_inv, of es n]
  by (simp add: s_def ListAssignmentsByNode_def sortByID_def Assignment_def)

text \<open>Domains of a hostname: in every reachable state the domains of a hostname are exactly
  the stored ones with that hostname, each once, with the longest path prefix first and equal
  lengths in id order.\<close>

theorem DomainsByHostname_exact:
  fixes es :: "log_entry list"
  defines "s \<equiv> run_log es New"
  shows "set (DomainsByHostname h s) = Some ` {d. Domain (dom_id d) s = Some d \<and> dom_hostname d = h}
    \<and> distinct (DomainsByHostname h s)
    \<and> sorted_wrt (\<lambda>d e. length (opt_path_prefix d) > length (opt_path_prefix e)
                        \<or> length (opt_path_prefix d) = length (opt_path_prefix e) \<and> opt_dom_id d \<le> opt_dom_id e)
        (DomainsByHostname h s)"
proof -
  let ?xs = "map (\<lambda>p. map_of (domains s) (fst p)) (inner (domainsByHostname s) h)"
  have "sorted_wrt (\<lambda>d e. length (opt_path_prefix d) > length (opt_path_prefix e)
        \<or> length (opt_path_prefix d) = length (opt_path_prefix e) \<and> opt_dom_id d \<le> opt_dom_id e)
      (sort_key (\<lambda>d. - int (length (opt_path_prefix d))) (sort_key opt_dom_id ?xs))"
    by (rule sorted_wrt_mono_rel [OF _ sort_key_lexicographic [where f = "\<lambda>d. - int (length (opt_path_prefix d))" and g = opt_dom_id]]) auto
  then show ?thesis
    using midx_listing [OF store_keyed(3) store_indexed(3), OF reachable_inv reachable_inv, of es h]
      midx_listing_distinct [OF store_keyed(3) store_indexed(3), OF reachable_inv reachable_inv, of es h]
    by (simp add: s_def DomainsByHostname_def Domain_def)
qed

subsection \<open>Commands\<close>


text \<open>C30 (rejected commands): a command that the state machine answers with an error changes
  nothing, so a business error never leaves a half-applied mutation behind.\<close>

theorem rejected_command_changes_nothing:
  assumes "fst (fsm_apply cmd s) = Some err"
  shows "snd (fsm_apply cmd s) = s"
proof -
  have "fst (apply_mutation rid now m s) = Some err \<Longrightarrow> snd (apply_mutation rid now m s) = s" for rid now m
    by (cases m)
      (simp_all add: fsm_defs PutKV_def DeleteKV_def Let_def
        split: option.split_asm option.split sum.split_asm prod.split if_splits)
  then show ?thesis using assms by (simp add: fsm_apply_def)
qed

theorem rejected_command_changes_nothing_witness:
  "let cmd = \<lparr>RequestId = ''r'', Actor = '''', Time = None, Mutation = Command_PutKv ''k'' [] 3 None\<rparr>
   in fst (fsm_apply cmd New) = Some KVConflict \<and> snd (fsm_apply cmd New) = New"
  using rejected_command_changes_nothing
    [of "\<lparr>RequestId = ''r'', Actor = '''', Time = None, Mutation = Command_PutKv ''k'' [] 3 None\<rparr>" New KVConflict]
  by (simp add: fsm_apply_def PutKV_def kv_result_def New_def Let_def)

text \<open>
  Compare and swap: a put with an expected version succeeds exactly when the key is at that
  version (an absent key is at version 0), it stores the value under the next version, and a second
  put that expects the same version is refused and changes nothing, so of several writers that
  read one version at most one wins.\<close>

theorem PutKV_compare_and_swap:
  fixes s :: Store and key :: string
  defines "cur \<equiv> (case map_of (kv s) key of None \<Rightarrow> 0 | Some e \<Rightarrow> kv_version e)"
  assumes "0 \<le> expected" and "expected < 2 ^ 63 - 1"
  shows "(fst (PutKV key v expected exp s) = Inr (expected + 1)) = (cur = expected)
    \<and> (cur \<noteq> expected \<longrightarrow> PutKV key v expected exp s = (Inl ErrKVConflict, s))
    \<and> (cur = expected \<longrightarrow>
         KV key (snd (PutKV key v expected exp s)) = Some (v, expected + 1, exp)
         \<and> PutKV key w expected exp' (snd (PutKV key v expected exp s)) =
             (Inl ErrKVConflict, snd (PutKV key v expected exp s)))"
proof -
  have "wrap_int64 (expected + 1) = expected + 1"
    using assms(2,3) by (intro wrap_int64_id) auto
  then show ?thesis
    using assms(2) by (auto simp: PutKV_def KV_def Let_def touch_def cur_def)
qed

theorem PutKV_compare_and_swap_witness:
  "fst (PutKV ''k'' [1] 0 0 New) = Inr 1
   \<and> PutKV ''k'' [2] 0 0 (snd (PutKV ''k'' [1] 0 0 New)) = (Inl ErrKVConflict, snd (PutKV ''k'' [1] 0 0 New))"
  using PutKV_compare_and_swap [of 0 "''k''" "[1]" 0 New "[2]" 0] by (simp add: New_def)

subsection \<open>Exactly-once application\<close>

text \<open>A request recorded with at most \<open>k\<close> later requests behind it in the ring.\<close>

definition recent :: "string \<Rightarrow> nat \<Rightarrow> Store \<Rightarrow> bool" where
  "recent r k s = (\<exists>xs x ys. appliedRequests s = xs @ x # ys \<and> ar_request_id x = r \<and> length ys \<le> k)"

lemma recent_mhas: "inv_ring s \<Longrightarrow> recent r k s \<Longrightarrow> mhas (appliedSet s) r"
  unfolding inv_ring_def recent_def by fastforce

lemma applied_frame: "appliedRequests (snd (apply_mutation rid now m s)) = appliedRequests s"
proof -
  have "appliedRequests (snd (applySetDeploymentPhase now dp s)) = appliedRequests s"
    "appliedRequests (snd (applyPromoteRelease pr s)) = appliedRequests s"
    "appliedRequests (snd (applySetNodeStatus ns s)) = appliedRequests s"
    "appliedRequests (snd (applyConsumeJoinToken i s)) = appliedRequests s" for dp pr ns i
    by (simp_all add: fsm_defs store_defs Let_def split: option.split)
  moreover have "appliedRequests (AppendEvents es s) = appliedRequests s"
    "appliedRequests (PutAssignments as s) = appliedRequests s"
    "appliedRequests (DeleteAssignments is s) = appliedRequests s"
    "appliedRequests (SetAssignmentObserved n obs s) = appliedRequests s"
    "appliedRequests (TouchTokens tm s) = appliedRequests s" for es as "is" n obs tm
    by (simp_all add: AppendEvents_def batch_defs Let_def fold_frame [where g = appliedRequests] ring_frames)
  ultimately show ?thesis
    by (cases m)
      (simp_all, simp_all add: store_defs fsm_defs Let_def
        split: option.split sum.split kv_error.split prod.split)
qed

lemma recent_recorded:
  assumes "recent r k s" and "k < appliedRingCap - 1"
  shows "recent r (Suc k) (recorded e cmd s)"
proof -
  from assms(1) obtain xs x ys where ring: "appliedRequests s = xs @ x # ys"
    and x: "ar_request_id x = r" and k: "length ys \<le> k"
    by (auto simp: recent_def)
  show ?thesis
  proof (cases "RequestId cmd = '''' \<or> mhas (appliedSet s) (RequestId cmd)")
    case True
    then have "appliedRequests (recorded e cmd s) = appliedRequests s"
      by (auto simp: recorded_def MarkApplied_def simp del: mhas_iff)
    with ring x k show ?thesis unfolding recent_def by (metis le_Suc_eq)
  next
    case False
    let ?new = "\<lparr>ar_request_id = RequestId cmd, ar_raft_index = entry_index e\<rparr>"
    let ?over = "length (appliedRequests s @ [?new]) - appliedRingCap"
    have "appliedRequests (recorded e cmd s) = drop ?over (appliedRequests s @ [?new])"
      using False by (auto simp: recorded_def MarkApplied_def Let_def simp del: mhas_iff)
    also have "\<dots> = drop ?over xs @ x # (ys @ [?new])"
      using ring k assms(2) by simp
    finally show ?thesis using x k unfolding recent_def
      by (intro exI [of _ "drop ?over xs"] exI [of _ x] exI [of _ "ys @ [?new]"]) simp
  qed
qed

lemma recent_mono: "recent r k s \<Longrightarrow> k \<le> l \<Longrightarrow> recent r l s"
  unfolding recent_def by (metis order_trans)

lemma recent_cong: "appliedRequests t = appliedRequests s \<Longrightarrow> recent r k t = recent r k s"
  by (simp add: recent_def)

lemma recent_step:
  assumes "recent r k s" and "k < appliedRingCap - 1"
  shows "recent r (Suc k) (snd (FSM_Apply e s))"
proof (cases rule: FSM_Apply_cases [where e = e and s = s])
  case undecodable
  with assms show ?thesis by (simp add: FSM_Apply_undecodable recent_mono)
next
  case duplicate
  with assms show ?thesis by (simp add: FSM_Apply_duplicate recent_mono)
next
  case (fresh cmd)
  with recent_recorded [OF assms, of e cmd] show ?thesis
    by (simp add: FSM_Apply_fresh fsm_apply_def applied_frame recent_cong [OF applied_frame] del: mhas_iff)
qed

lemma run_log_append: "run_log (es @ fs) s = run_log fs (run_log es s)"
  by (induction es arbitrary: s) simp_all

lemma recent_run:
  "recent r k s \<Longrightarrow> k + length es < appliedRingCap \<Longrightarrow> recent r (k + length es) (run_log es s)"
proof (induction es arbitrary: k s)
  case (Cons e es)
  then have "recent r (Suc k) (snd (FSM_Apply e s))" by (intro recent_step) simp_all
  with Cons.IH [of "Suc k"] Cons.prems show ?case by simp
qed simp

lemma recent_fresh:
  assumes "entry_data e = Some cmd" and "RequestId cmd \<noteq> ''''" and "\<not> mhas (appliedSet s) (RequestId cmd)"
  shows "recent (RequestId cmd) 0 (snd (FSM_Apply e s))"
proof -
  let ?new = "\<lparr>ar_request_id = RequestId cmd, ar_raft_index = entry_index e\<rparr>"
  let ?over = "length (appliedRequests s @ [?new]) - appliedRingCap"
  have "appliedRequests (recorded e cmd s) = drop ?over (appliedRequests s @ [?new])"
    using assms by (simp add: recorded_def MarkApplied_def Let_def)
  also have "\<dots> = drop ?over (appliedRequests s) @ [?new]"
    by (simp add: appliedRingCap_def)
  finally show ?thesis
    using assms
    by (simp add: FSM_Apply_fresh fsm_apply_def recent_cong [OF applied_frame] del: mhas_iff)
      (auto simp: recent_def)
qed

text \<open>C15 (exactly once): once a request was applied, a later log entry with the same request id is
  skipped and changes nothing, as long as fewer than 8192 entries lie between them. A client may
  therefore retry a proposal whose outcome it does not know.\<close>

theorem duplicate_request_skipped:
  assumes "entry_data e = Some cmd" and "entry_data e' = Some cmd'"
    and "RequestId cmd = RequestId cmd'" and "RequestId cmd \<noteq> ''''"
    and "\<not> mhas (appliedSet (run_log pre New)) (RequestId cmd)"
    and "length between < 8192"
  shows "FSM_Apply e' (run_log (pre @ e # between) New) =
    (\<lparr>res_Err = None, res_Duplicate = True\<rparr>, run_log (pre @ e # between) New)"
proof -
  have run: "run_log (pre @ e # between) New = run_log between (snd (FSM_Apply e (run_log pre New)))"
    by (simp add: run_log_append)
  have "recent (RequestId cmd) (0 + length between) (run_log between (snd (FSM_Apply e (run_log pre New))))"
    using assms by (intro recent_run recent_fresh) (simp_all add: appliedRingCap_def)
  then have "mhas (appliedSet (run_log (pre @ e # between) New)) (RequestId cmd)"
    unfolding run [symmetric] by (rule recent_mhas [OF reachable_parts(4)])
  with assms show ?thesis by (simp add: FSM_Apply_duplicate del: mhas_iff)
qed

theorem duplicate_request_skipped_witness:
  "let e = entry 1 ''r1'' (Command_DeleteUser ''u''); f = entry 2 ''r2'' (Command_DeleteUser ''v'')
   in FSM_Apply e (run_log [e, f] New) = (\<lparr>res_Err = None, res_Duplicate = True\<rparr>, run_log [e, f] New)"
  using duplicate_request_skipped
    [of "entry 1 ''r1'' (Command_DeleteUser ''u'')" "the (entry_data (entry 1 ''r1'' (Command_DeleteUser ''u'')))"
        "entry 1 ''r1'' (Command_DeleteUser ''u'')" "the (entry_data (entry 1 ''r1'' (Command_DeleteUser ''u'')))"
        "[]" "[entry 2 ''r2'' (Command_DeleteUser ''v'')]"]
  by (simp add: entry_def New_def Let_def)

subsection \<open>Observed state, promotion, join tokens\<close>

text \<open>
  Agent reports: a batch of observed states from a node changes exactly the assignments it
  names that are placed on that node, in any iteration order of the batch. A report that merely says
  running does not take an instance out of the healthy or unhealthy state its probes put it in,
  and empty port bindings keep the recorded ones. Everything the scheduler owns stays.\<close>

theorem SetAssignmentObserved_exact:
  assumes "mwf obs" and "Assignment i s = Some a"
  shows "\<exists>a'. Assignment i (SetAssignmentObserved n obs s) = Some a'
    \<and> (map_of obs i = None \<or> asg_node_id a \<noteq> n \<longrightarrow> a' = a)
    \<and> (\<forall>x. map_of obs i = Some x \<and> asg_node_id a = n \<longrightarrow>
         obs_state (asg_observed a') =
           (if obs_state x = INSTANCE_STATE_RUNNING
               \<and> obs_state (asg_observed a) \<in> {INSTANCE_STATE_HEALTHY, INSTANCE_STATE_UNHEALTHY}
            then obs_state (asg_observed a) else obs_state x)
         \<and> asg_mesh_port_bindings a' =
             (if obs_mesh_port_bindings x = [] then asg_mesh_port_bindings a else obs_mesh_port_bindings x))
    \<and> asg_desired a' = asg_desired a \<and> asg_node_id a' = asg_node_id a
    \<and> asg_deployment_id a' = asg_deployment_id a \<and> asg_release_id a' = asg_release_id a"
  using assms observed_map_of [OF assms(1), of n s i]
  by (auto simp: Assignment_def merge_observed_def Let_def split: option.split)

definition sample_assigned :: Store where
  "sample_assigned = putAssignmentLocked (zero_assignment\<lparr>asg_meta := meta_of ''a'', asg_node_id := ''n'',
     asg_observed := zero_observed\<lparr>obs_state := INSTANCE_STATE_HEALTHY\<rparr>\<rparr>) New"

theorem SetAssignmentObserved_exact_witness:
  "let s' = SetAssignmentObserved ''n'' [(''a'', zero_observed\<lparr>obs_state := INSTANCE_STATE_RUNNING\<rparr>)] sample_assigned
   in \<exists>a'. Assignment ''a'' s' = Some a' \<and> obs_state (asg_observed a') = INSTANCE_STATE_HEALTHY"
proof -
  have "Assignment ''a'' sample_assigned = Some (zero_assignment\<lparr>asg_meta := meta_of ''a'', asg_node_id := ''n'',
      asg_observed := zero_observed\<lparr>obs_state := INSTANCE_STATE_HEALTHY\<rparr>\<rparr>)"
    by (simp add: sample_assigned_def Assignment_def putAssignmentLocked_def New_def touch_def meta_of_def Let_def)
  from SetAssignmentObserved_exact
    [OF _ this, of "[(''a'', zero_observed\<lparr>obs_state := INSTANCE_STATE_RUNNING\<rparr>)]" "''n''"]
  show ?thesis by (auto simp: Let_def)
qed

text \<open>
  Promotion: a promotion succeeds exactly when the environment and the release exist. It
  switches the active release and advances the route generation of that environment in one step,
  and changes nothing else of it and no other environment.\<close>

theorem applyPromoteRelease_atomic:
  "(fst (applyPromoteRelease m s) = None) =
     (Environment (pr_environment_id m) s \<noteq> None \<and> Release (pr_release_id m) s \<noteq> None)
   \<and> (\<forall>env. Environment (pr_environment_id m) s = Some env \<and> env_id env = pr_environment_id m
            \<and> fst (applyPromoteRelease m s) = None \<longrightarrow>
        Environment (pr_environment_id m) (snd (applyPromoteRelease m s)) =
          Some (env\<lparr>env_active_release_id := pr_release_id m,
                    env_route_generation := env_route_generation env + 1\<rparr>)
        \<and> (\<forall>i. (i \<noteq> pr_environment_id m \<longrightarrow>
                Environment i (snd (applyPromoteRelease m s)) = Environment i s)
             \<and> Release i (snd (applyPromoteRelease m s)) = Release i s
             \<and> Assignment i (snd (applyPromoteRelease m s)) = Assignment i s))"
  by (auto simp: applyPromoteRelease_def Environment_def Release_def Assignment_def PutEnvironment_def
    touch_def split: option.split)

definition sample_released :: Store where
  "sample_released = PutRelease (zero_release\<lparr>rel_meta := meta_of ''rel''\<rparr>)
     (PutEnvironment (zero_env\<lparr>env_meta := meta_of ''env''\<rparr>) New)"

definition sample_promotion :: PromoteRelease where
  "sample_promotion = \<lparr>pr_environment_id = ''env'', pr_release_id = ''rel'', pr_deployment_id = ''dep''\<rparr>"

theorem applyPromoteRelease_atomic_witness:
  "fst (applyPromoteRelease sample_promotion sample_released) = None
   \<and> (\<exists>env. Environment ''env'' (snd (applyPromoteRelease sample_promotion sample_released)) = Some env
          \<and> env_active_release_id env = ''rel'' \<and> env_route_generation env = 1)"
  using applyPromoteRelease_atomic [of sample_promotion sample_released]
  by (auto simp: sample_promotion_def sample_released_def Environment_def Release_def PutRelease_def
    PutEnvironment_def touch_def New_def meta_of_def zero_env_def zero_release_def)

text \<open>
  Join tokens: a single-use join token is consumed at most once. A first consumption marks
  it used, every later one is refused with the used error and changes nothing.\<close>

theorem join_token_single_use:
  assumes "store_inv s" and "map_of (joinTokens s) i = Some t" and "jt_single_use t"
    and "fst (applyConsumeJoinToken i s) = None"
  defines "s' \<equiv> snd (applyConsumeJoinToken i s)"
  shows "\<not> jt_used t \<and> map_of (joinTokens s') i = Some (t\<lparr>jt_used := True\<rparr>)
    \<and> applyConsumeJoinToken i s' = (Some (JoinTokenUsed i), s')"
proof -
  note k = store_keyed(9) [OF assms(1)]
  have "jt_id t = i" using k assms(2) by (rule keyedD)
  then have used: "\<not> jt_used t" and s': "s' = PutJoinToken (t\<lparr>jt_used := True\<rparr>) s"
    using assms(2-4) by (auto simp: s'_def applyConsumeJoinToken_def find_joinToken [OF k] split: if_splits)
  with \<open>jt_id t = i\<close> have look: "map_of (joinTokens s') i = Some (t\<lparr>jt_used := True\<rparr>)"
    and "keyed jt_id (joinTokens s')"
    using k by (simp_all add: PutJoinToken_def touch_def)
  with used assms(3) show ?thesis by (simp add: applyConsumeJoinToken_def find_joinToken)
qed

definition sample_token :: JoinToken where
  "sample_token = zero_join_token\<lparr>jt_meta := meta_of ''t'', jt_single_use := True\<rparr>"

theorem join_token_single_use_witness:
  "let s' = snd (applyConsumeJoinToken ''t'' (run_log [entry 1 ''r'' (Command_PutJoinToken sample_token)] New))
   in applyConsumeJoinToken ''t'' s' = (Some (JoinTokenUsed ''t''), s')"
proof -
  let ?s = "run_log [entry 1 ''r'' (Command_PutJoinToken sample_token)] New"
  have "map_of (joinTokens ?s) ''t'' = Some sample_token" "fst (applyConsumeJoinToken ''t'' ?s) = None"
    "jt_single_use sample_token"
    by (simp_all add: entry_def FSM_Apply_def fsm_apply_def MarkApplied_def PutJoinToken_def touch_def
      New_def sample_token_def zero_join_token_def meta_of_def appliedRingCap_def Let_def
      applyConsumeJoinToken_def ListJoinTokens_def sortByID_def mvals_def)
  with join_token_single_use [OF reachable_inv] show ?thesis unfolding Let_def by blast
qed

subsection \<open>Versions of the cluster, release numbers, histories\<close>

definition range_of :: "string set \<Rightarrow> string \<times> string \<times> bool \<Rightarrow> bool" where
  "range_of V = (\<lambda>(mn, mx, u).
     (u \<longleftrightarrow> (\<exists>v \<in> V. \<not> known v))
     \<and> (if \<exists>v \<in> V. known v
        then mn \<in> V \<and> known mn \<and> mx \<in> V \<and> known mx
             \<and> (\<forall>v \<in> V. known v \<longrightarrow> \<not> Older v mn \<and> \<not> Older mx v)
        else mn = '''' \<and> mx = ''''))"

lemma known_Nil [simp]: "\<not> known ''''"
  by code_simp

lemma range_of_known:
  assumes "known mn" and "known mx"
  shows "(\<forall>v \<in> V. known v \<longrightarrow> \<not> Older v mn \<and> \<not> Older mx v) \<longleftrightarrow>
    (\<forall>v \<in> V. known v \<longrightarrow> version_key mn \<le> version_key v \<and> version_key v \<le> version_key mx)"
  using assms by (auto simp: Older_iff not_less)

lemma range_ofI:
  assumes "u \<longleftrightarrow> (\<exists>v \<in> V. \<not> known v)" and "mn \<in> V" "known mn" "mx \<in> V" "known mx"
    and "\<forall>v \<in> V. known v \<longrightarrow> \<not> Older v mn \<and> \<not> Older mx v"
  shows "range_of V (mn, mx, u)"
  using assms unfolding range_of_def case_prod_conv by (metis (no_types, lifting))

lemma range_of_step:
  assumes "range_of V (mn, mx, u)"
  shows "range_of (insert v V)
    (if \<not> known v then (mn, mx, True)
     else (if mn = '''' \<or> Older v mn then v else mn, if mx = '''' \<or> Older mx v then v else mx, u))"
proof (cases "\<exists>w \<in> V. known w")
  case True
  with assms have mm: "mn \<in> V" "mx \<in> V" "known mn" "known mx" and u: "u \<longleftrightarrow> (\<exists>v \<in> V. \<not> known v)"
    and le: "\<And>w. w \<in> V \<Longrightarrow> known w \<Longrightarrow> version_key mn \<le> version_key w \<and> version_key w \<le> version_key mx"
    using range_of_known [of mn mx V] by (auto simp: range_of_def)
  show ?thesis
  proof (cases "known v")
    case True
    let ?mn = "if mn = '''' \<or> Older v mn then v else mn" and ?mx = "if mx = '''' \<or> Older mx v then v else mx"
    have k: "known ?mn" "known ?mx" "?mn \<in> insert v V" "?mx \<in> insert v V" using True mm by auto
    have "version_key ?mn \<le> version_key w \<and> version_key w \<le> version_key ?mx"
      if "w \<in> insert v V" "known w" for w
      using that True mm le [of w] le [of mn]
      by (cases "w = v") (auto simp: Older_iff not_less intro: order_trans less_imp_le)
    then have "\<forall>w \<in> insert v V. known w \<longrightarrow> \<not> Older w ?mn \<and> \<not> Older ?mx w"
      unfolding range_of_known [OF k(1,2)] by blast
    with k u True have "range_of (insert v V) (?mn, ?mx, u)" by (intro range_ofI) auto
    with True show ?thesis by simp
  next
    case False
    with mm u le show ?thesis using range_of_known [of mn mx V]
      by (auto simp: range_of_def Older_iff not_less)
  qed
next
  case False
  with assms show ?thesis by (auto simp: range_of_def Older_iff)
qed

lemma version_range_range:
  "range_of V acc \<Longrightarrow> range_of (V \<union> node_binary_version ` set ns) (version_range ns acc)"
proof (induction ns acc arbitrary: V rule: version_range.induct)
  case (2 n ns mn mx u)
  let ?v = "node_binary_version n"
  have "range_of (insert ?v V)
    (if \<not> known ?v then (mn, mx, True)
     else (if mn = '''' \<or> Older ?v mn then ?v else mn, if mx = '''' \<or> Older mx ?v then ?v else mx, u))"
    using 2(3) by (rule range_of_step)
  with 2(1,2) [OF refl, of "insert ?v V"] show ?case
    by (cases "known ?v") (simp_all add: known_def Let_def)
qed simp

text \<open>Version skew: the range over the nodes reports an unknown version exactly when some node
  has one; its bounds are versions of nodes, and no node with a known version is older than the
  minimum or newer than the maximum.\<close>

theorem ClusterVersionRange_bounds:
  "range_of (node_binary_version ` set (mvals (nodes s))) (ClusterVersionRange s)"
  using version_range_range [of "{}" "('''', '''', False)" "mvals (nodes s)"]
  by (simp add: ClusterVersionRange_def range_of_def)

lemma word_less_Suc_max:
  fixes r m :: "'a::len word"
  assumes "m < - 1" and "r \<le> m"
  shows "r < m + 1"
proof -
  have "m + 1 \<noteq> 0" using assms(1) by (metis add_eq_0_iff2 order_less_irrefl)
  then have "unat (m + 1) = Suc (unat m)" using unatSuc [of m] by (simp add: add.commute)
  with assms(2) show ?thesis by (simp add: word_less_nat_alt word_le_nat_alt)
qed

lemma fold_max_version:
  fixes rs :: "Release list" and e :: string
  defines "f \<equiv> \<lambda>r m. if rel_environment_id r = e \<and> rel_version r > m then rel_version r else m"
  shows "fold f rs m \<ge> m \<and> (\<forall>r \<in> set rs. rel_environment_id r = e \<longrightarrow> rel_version r \<le> fold f rs m)
    \<and> (fold f rs m = m \<or> (\<exists>r \<in> set rs. rel_environment_id r = e \<and> rel_version r = fold f rs m))"
proof (induction rs arbitrary: m)
  case (Cons r rs)
  have "f r m \<ge> m" "rel_environment_id r = e \<longrightarrow> rel_version r \<le> f r m"
    "f r m = m \<or> rel_environment_id r = e \<and> rel_version r = f r m"
    by (auto simp: f_def)
  with Cons.IH [of "f r m"] show ?case by fastforce
qed simp

text \<open>Release versions: the next release version of an environment is larger than every
  version stored for it, so a release number is never reused while its release is stored, unless
  the 64-bit counter is exhausted.\<close>

theorem NextReleaseVersion_fresh:
  assumes "store_inv s" and "\<forall>r \<in> set (ListReleases e s). rel_version r < - 1" and "e \<noteq> ''''"
    and "Release i s = Some r" and "rel_environment_id r = e"
  shows "rel_version r < NextReleaseVersion e s"
proof -
  let ?f = "\<lambda>r m. if rel_environment_id r = e \<and> rel_version r > m then rel_version r else m"
  let ?m = "fold ?f (mvals (releases s)) 0"
  have listed: "r' \<in> set (mvals (releases s)) \<and> rel_environment_id r' = e \<Longrightarrow> r' \<in> set (ListReleases e s)" for r'
    using assms(3) by (simp add: ListReleases_def)
  have "r \<in> set (mvals (releases s))"
    using store_keyed(7) [OF assms(1)] assms(4) by (auto simp: in_mvals_iff [OF keyed_mwf] Release_def)
  then have "rel_version r \<le> ?m"
    using fold_max_version [where e = e and rs = "mvals (releases s)" and m = 0] assms(5) by blast
  moreover have "?m = 0 \<or> (\<exists>r' \<in> set (mvals (releases s)). rel_environment_id r' = e \<and> rel_version r' = ?m)"
    using fold_max_version [where e = e and rs = "mvals (releases s)" and m = 0] by blast
  then have "?m < - 1"
  proof
    assume "?m = 0"
    moreover have "(0 :: 64 word) < - 1" by (simp add: word_gt_0)
    ultimately show ?thesis by simp
  next
    assume "\<exists>r' \<in> set (mvals (releases s)). rel_environment_id r' = e \<and> rel_version r' = ?m"
    with listed assms(2) show ?thesis by metis
  qed
  ultimately show ?thesis by (simp add: NextReleaseVersion_def word_less_Suc_max)
qed

theorem NextReleaseVersion_fresh_witness:
  "let s = run_log [entry 1 ''r'' (Command_PutRelease (zero_release\<lparr>rel_meta := meta_of ''x'',
               rel_environment_id := ''e'', rel_version := 7\<rparr>))] New
   in 7 < NextReleaseVersion ''e'' s"
proof -
  let ?r = "zero_release\<lparr>rel_meta := meta_of ''x'', rel_environment_id := ''e'', rel_version := 7\<rparr>"
  let ?s = "run_log [entry 1 ''r'' (Command_PutRelease ?r)] New"
  have "ListReleases ''e'' ?s = [?r]" "Release ''x'' ?s = Some ?r"
    by (simp_all add: entry_def FSM_Apply_def fsm_apply_def MarkApplied_def PutRelease_def touch_def
      New_def zero_release_def meta_of_def appliedRingCap_def Let_def ListReleases_def Release_def mvals_def)
  with NextReleaseVersion_fresh [OF reachable_inv, of "''e''" "[entry 1 ''r'' (Command_PutRelease ?r)]" "''x''" ?r]
  show ?thesis by (simp add: Let_def)
qed

lemma ring_trim_last: "ring_trim cap xs = drop (length xs - cap) xs"
  by (simp add: ring_trim_def)

lemma fold_appendEvent: "events (fold appendEvent es s) = events s @ es"
  by (induction es arbitrary: s) (simp_all add: appendEvent_def touch_def)

text \<open>Histories: appending keeps the newest entries: the event history is the last 10000 of all
  events appended so far, the audit history the last 50000.\<close>

theorem histories_keep_newest:
  "events (AppendEvents es s) = drop (length (events s) + length es - 10000) (events s @ es)
   \<and> audit (AppendAudit as s) = drop (length (audit s) + length as - 50000) (audit s @ as)
   \<and> length (events (AppendEvents es s)) \<le> 10000 \<and> length (audit (AppendAudit as s)) \<le> 50000"
  by (simp add: AppendEvents_def AppendAudit_def touch_def Let_def fold_appendEvent ring_trim_last
    eventRingCap_def auditRingCap_def) arith

end
