(* ===== verification/Replica.thy ===== *)
theory Replica
  imports StoreFacts
begin

text \<open>
  Agreement of replicas. Two replicas hold the same replicated state when every collection has the
  same entries (\<open>store_eq\<close>): the order of Go maps, the notification hub and the local change
  counter are not part of it. Every command takes replicas with the same state to replicas with the
  same state and gives the same result on both, whatever order each of them iterates the maps of
  the command in.
\<close>

definition store_eq :: "Store \<Rightarrow> Store \<Rightarrow> bool" where
  "store_eq s t =
     (org s = org t \<and> clusterKey s = clusterKey t \<and> backupConfig s = backupConfig t
      \<and> events s = events t \<and> audit s = audit t \<and> appliedRequests s = appliedRequests t
      \<and> meq (users s) (users t) \<and> meq (usersByEmail s) (usersByEmail t)
      \<and> meq (projects s) (projects t) \<and> meq2 (projectMembers s) (projectMembers t)
      \<and> meq (apps s) (apps t) \<and> meq (environments s) (environments t)
      \<and> meq2 (envVars s) (envVars t) \<and> meq (releases s) (releases t)
      \<and> meq (deployments s) (deployments t) \<and> meq (builds s) (builds t)
      \<and> meq (nodes s) (nodes t) \<and> meq (joinTokens s) (joinTokens t)
      \<and> meq (assignments s) (assignments t) \<and> meq2 (assignmentsByNode s) (assignmentsByNode t)
      \<and> meq (tokens s) (tokens t) \<and> meq (tokensByHash s) (tokensByHash t)
      \<and> meq (domains s) (domains t) \<and> meq2 (domainsByHostname s) (domainsByHostname t)
      \<and> meq (kv s) (kv t) \<and> meq (dnsProviders s) (dnsProviders t)
      \<and> meq (volumes s) (volumes t) \<and> meq (volumeSnapshots s) (volumeSnapshots t)
      \<and> meq (backupRecords s) (backupRecords t) \<and> meq (networkAllocs s) (networkAllocs t)
      \<and> meq (serviceVIPs s) (serviceVIPs t) \<and> meq (jobs s) (jobs t)
      \<and> meq (alertRules s) (alertRules t) \<and> meq (notifyChannels s) (notifyChannels t)
      \<and> meq (appliedSet s) (appliedSet t))"

lemma store_eq_sym: "store_eq s t \<Longrightarrow> store_eq t s"
  by (simp add: store_eq_def meq_sym meq2_sym)

lemma store_eq_trans: "store_eq r s \<Longrightarrow> store_eq s t \<Longrightarrow> store_eq r t"
  unfolding store_eq_def by (auto intro: meq_trans meq2_trans)

lemma meq2_refl: "mwf m \<Longrightarrow> (\<And>k. mwf (inner m k)) \<Longrightarrow> meq2 m m"
  by (simp add: meq2_def meq_refl)

lemma store_eq_refl: "store_inv s \<Longrightarrow> store_eq s s"
  by (auto simp: store_eq_def store_inv_def inv_defs inv_index_def idx_sound_def midx_exact_def
    intro!: meq_refl meq2_refl intro: keyed_mwf)

lemma store_eq_touch [simp]: "store_eq (touch k i s) (touch k i t) = store_eq s t"
  by (simp add: store_eq_def touch_def)

text \<open>The same lookups on both sides.\<close>

lemma store_eq_lookup:
  assumes "store_eq s t"
  shows "map_of (users t) = map_of (users s)" "map_of (projects t) = map_of (projects s)"
    "map_of (apps t) = map_of (apps s)" "map_of (environments t) = map_of (environments s)"
    "map_of (releases t) = map_of (releases s)" "map_of (deployments t) = map_of (deployments s)"
    "map_of (nodes t) = map_of (nodes s)" "map_of (joinTokens t) = map_of (joinTokens s)"
    "map_of (assignments t) = map_of (assignments s)" "map_of (tokens t) = map_of (tokens s)"
    "map_of (domains t) = map_of (domains s)" "map_of (kv t) = map_of (kv s)"
    "map_of (dnsProviders t) = map_of (dnsProviders s)" "map_of (volumes t) = map_of (volumes s)"
    "map_of (volumeSnapshots t) = map_of (volumeSnapshots s)"
    "map_of (alertRules t) = map_of (alertRules s)"
    "map_of (notifyChannels t) = map_of (notifyChannels s)"
    "map_of (appliedSet t) = map_of (appliedSet s)"
  using assms by (simp_all add: store_eq_def meq_def)

subsection \<open>Commands with the same content\<close>

inductive mutation_eq :: "Mutation \<Rightarrow> Mutation \<Rightarrow> bool" where
  same: "mutation_eq m m"
| vars: "meq st st' \<Longrightarrow> mutation_eq (Command_SetEnvVars e st us) (Command_SetEnvVars e st' us)"
| observed: "meq obs obs' \<Longrightarrow>
    mutation_eq (Command_SetAssignmentsObserved n obs) (Command_SetAssignmentsObserved n obs')"
| touched: "meq m m' \<Longrightarrow> mutation_eq (Command_TouchTokens m) (Command_TouchTokens m')"

subsection \<open>Batches\<close>

lemma store_eq_fold:
  "(\<And>x s t. store_eq s t \<Longrightarrow> store_eq (f x s) (f x t)) \<Longrightarrow> store_eq s t \<Longrightarrow> store_eq (fold f xs s) (fold f xs t)"
  by (induction xs arbitrary: s t) auto

definition idx_drop :: "'k \<Rightarrow> 'i \<Rightarrow> ('k, ('i, 'v) gomap) gomap \<Rightarrow> ('k, ('i, 'v) gomap) gomap" where
  "idx_drop k i m = (if mhas m k then mput k (mdel i (inner m k)) m else m)"

lemma inner_idx_drop: "inner (idx_drop k i m) k' = (if k' = k then mdel i (inner m k') else inner m k')"
  by (auto simp: idx_drop_def inner_none)

lemma mwf_idx_drop: "mwf m \<Longrightarrow> mwf (idx_drop k i m)"
  by (simp add: idx_drop_def)

lemma meq2_drop: "meq2 m n \<Longrightarrow> meq2 (idx_drop k i m) (idx_drop k i n)"
  by (simp add: meq2_def inner_idx_drop mwf_idx_drop meq_mdel)

lemma meq2_add: "meq2 m n \<Longrightarrow> meq2 (mput k (mput i v (inner m k)) m) (mput k (mput i v (inner n k)) n)"
  by (simp add: meq2_mput meq_mput meq2_inner)

lemma meq2_unindex: "meq2 m n \<Longrightarrow> meq2 (unindexDomain d m) (unindexDomain d n)"
  by (simp add: meq2_def mwf_unindexDomain inner_unindexDomain meq_mdel)

lemma meq2_index: "meq2 m n \<Longrightarrow> meq2 (indexDomain d m) (indexDomain d n)"
  by (simp add: indexDomain_def meq2_add)

lemma putAssignmentLocked_alt:
  "putAssignmentLocked a s =
     (let b = (case map_of (assignments s) (asg_id a) of
                 Some p \<Rightarrow> if asg_node_id p \<noteq> asg_node_id a
                            then idx_drop (asg_node_id p) (asg_id a) (assignmentsByNode s)
                            else assignmentsByNode s
               | None \<Rightarrow> assignmentsByNode s)
      in touch KindAssignment (asg_id a)
           (s\<lparr>assignments := mput (asg_id a) a (assignments s),
              assignmentsByNode := mput (asg_node_id a) (mput (asg_id a) () (inner b (asg_node_id a))) b\<rparr>))"
  by (auto simp: putAssignmentLocked_def idx_drop_def Let_def split: option.split)

lemma store_eq_putAssignment:
  assumes "store_eq s t" shows "store_eq (putAssignmentLocked a s) (putAssignmentLocked a t)"
  using assms store_eq_lookup [OF assms]
  by (simp add: putAssignmentLocked_alt Let_def)
    (simp add: store_eq_def meq_mput meq2_add meq2_drop split: option.split)

lemma deleteAssignmentLocked_alt:
  "deleteAssignmentLocked i s =
     (case map_of (assignments s) i of
        None \<Rightarrow> s
      | Some p \<Rightarrow> touch KindAssignment i
          (s\<lparr>assignmentsByNode := idx_drop (asg_node_id p) i (assignmentsByNode s),
             assignments := mdel i (assignments s)\<rparr>))"
  by (simp add: deleteAssignmentLocked_def idx_drop_def split: option.split)

lemma store_eq_deleteAssignment:
  assumes "store_eq s t" shows "store_eq (deleteAssignmentLocked i s) (deleteAssignmentLocked i t)"
proof (cases "map_of (assignments s) i")
  case (Some p)
  with assms store_eq_lookup [OF assms] show ?thesis
    by (simp add: deleteAssignmentLocked_alt) (simp add: store_eq_def meq_mdel meq2_drop)
qed (use assms store_eq_lookup [OF assms] in \<open>simp add: deleteAssignmentLocked_alt\<close>)

lemma store_eq_appendEvent: "store_eq s t \<Longrightarrow> store_eq (appendEvent e s) (appendEvent e t)"
  by (simp add: appendEvent_def) (simp add: store_eq_def)

lemma store_eq_AppendEvents:
  assumes "store_eq s t" shows "store_eq (AppendEvents es s) (AppendEvents es t)"
proof -
  have "store_eq (fold appendEvent es s) (fold appendEvent es t)"
    using assms by (rule store_eq_fold [rotated]) (rule store_eq_appendEvent)
  then show ?thesis by (simp add: AppendEvents_def Let_def store_eq_def)
qed

lemma store_eq_users:
  assumes "store_eq s t"
  shows "store_eq (PutUser u s) (PutUser u t)" "store_eq (DeleteUser i s) (DeleteUser i t)"
    "store_eq (PutToken k s) (PutToken k t)" "store_eq (DeleteToken i s) (DeleteToken i t)"
    "store_eq (PutDomain d s) (PutDomain d t)" "store_eq (DeleteDomain i s) (DeleteDomain i t)"
  using assms
  by (simp_all add: PutUser_def DeleteUser_def PutToken_def DeleteToken_def PutDomain_def DeleteDomain_def
       Let_def store_eq_lookup [OF assms] split: option.split)
    (simp_all add: store_eq_def meq_mput meq_mdel meq2_index meq2_unindex)

lemma meq2_mput_of: "meq2 m n \<Longrightarrow> (meq (inner m k) (inner n k) \<Longrightarrow> meq v w) \<Longrightarrow> meq2 (mput k v m) (mput k w n)"
  by (simp add: meq2_mput meq2_inner)

lemma DeleteProjectMember_alt:
  "DeleteProjectMember p u s =
     (if mhas (inner (projectMembers s) p) u
      then touch KindProjectMember (p @ ''/'' @ u)
             (s\<lparr>projectMembers := mput p (mdel u (inner (projectMembers s) p)) (projectMembers s)\<rparr>)
      else s)"
  by (simp add: DeleteProjectMember_def inner_def split: option.split)

lemma store_eq_members:
  assumes "store_eq s t"
  shows "store_eq (PutProjectMember m s) (PutProjectMember m t)"
    "store_eq (DeleteProjectMember p u s) (DeleteProjectMember p u t)"
proof -
  have m: "meq2 (projectMembers s) (projectMembers t)" using assms by (simp add: store_eq_def)
  then have "map_of (inner (projectMembers t) p) = map_of (inner (projectMembers s) p)"
    by (metis meq2_inner meq_map_of)
  then show "store_eq (DeleteProjectMember p u s) (DeleteProjectMember p u t)"
    using assms by (simp add: DeleteProjectMember_alt) (simp add: store_eq_def meq2_mput meq_mdel meq2_inner)
  show "store_eq (PutProjectMember m s) (PutProjectMember m t)"
    using assms by (simp add: PutProjectMember_def Let_def) (simp add: store_eq_def meq2_add)
qed

lemma meq_vars:
  assumes "meq st st'" and "meq m n"
  shows "meq (fold mdel us (fold (\<lambda>(k, v). mput k v) st m)) (fold mdel us (fold (\<lambda>(k, v). mput k v) st' n))"
  using assms
  by (auto simp: meq_def fold_mput_map_of fold_mdel_map_of mwf_fold_mdel mwf_fold_mput intro!: ext)

lemma store_eq_SetEnvVars:
  assumes "store_eq s t" and "meq st st'"
  shows "store_eq (SetEnvVars e st us s) (SetEnvVars e st' us t)"
  using assms
  by (simp add: SetEnvVars_def Let_def) (simp add: store_eq_def meq2_mput meq_vars meq2_inner)

lemma meq_SetEnvVars_same:
  assumes "meq m n"
  shows "meq (fold mdel us (fold (\<lambda>(k, v). mput k v) st m)) (fold mdel us (fold (\<lambda>(k, v). mput k v) st n))"
proof -
  have "meq (fold (\<lambda>(k, v). mput k v) st m) (fold (\<lambda>(k, v). mput k v) st n)"
    using assms by (induction st arbitrary: m n) (auto simp: meq_mput)
  then show ?thesis
    by (induction us arbitrary: m n st) (auto simp: meq_def mwf_fold_mdel fold_mdel_map_of fun_eq_iff)
qed

lemma store_eq_SetEnvVars_same:
  "store_eq s t \<Longrightarrow> store_eq (SetEnvVars e st us s) (SetEnvVars e st us t)"
  by (simp add: SetEnvVars_def Let_def) (simp add: store_eq_def meq2_mput meq_SetEnvVars_same meq2_inner)

text \<open>A batch that writes one collection: the rest of the store is its frame.\<close>

abbreviation no_assignments :: "Store \<Rightarrow> Store" where
  "no_assignments s \<equiv> s\<lparr>version := 0, assignments := [], hub := newHub\<rparr>"

abbreviation no_tokens :: "Store \<Rightarrow> Store" where
  "no_tokens s \<equiv> s\<lparr>version := 0, tokens := [], hub := newHub\<rparr>"

lemma store_eq_split:
  "store_eq s t \<longleftrightarrow> meq (assignments s) (assignments t) \<and> store_eq (no_assignments s) (no_assignments t)"
  "store_eq s t \<longleftrightarrow> meq (tokens s) (tokens t) \<and> store_eq (no_tokens s) (no_tokens t)"
  by (auto simp: store_eq_def)

lemma observed_shape: "no_assignments (SetAssignmentObserved n obs s) = no_assignments s"
  unfolding SetAssignmentObserved_def
  by (rule fold_frame [where g = no_assignments])
    (auto simp: observeLocked_def touch_def split: option.split prod.split)

lemma touched_shape: "no_tokens (TouchTokens m s) = no_tokens s"
  unfolding TouchTokens_def
  by (rule fold_frame [where g = no_tokens])
    (auto simp: touchTokenLocked_def touch_def split: option.split prod.split)

lemma mwf_observed: "mwf (assignments s) \<Longrightarrow> mwf (assignments (SetAssignmentObserved n obs s))"
  unfolding SetAssignmentObserved_def
  by (rule fold_inv [where I = "\<lambda>s. mwf (assignments s)"])
    (auto simp: observeLocked_def touch_def split: option.split prod.split)

lemma mwf_touched: "mwf (tokens s) \<Longrightarrow> mwf (tokens (TouchTokens m s))"
  unfolding TouchTokens_def
  by (rule fold_inv [where I = "\<lambda>s. mwf (tokens s)"])
    (auto simp: touchTokenLocked_def touch_def split: option.split prod.split)

lemma store_eq_observed:
  assumes "store_eq s t" and "meq obs obs'"
  shows "store_eq (SetAssignmentObserved n obs s) (SetAssignmentObserved n obs' t)"
proof -
  have "mwf obs" "mwf obs'" "map_of obs' = map_of obs"
    using assms(2) by (simp_all add: meq_def)
  moreover have "mwf (assignments s)" "mwf (assignments t)"
    using assms(1) by (simp_all add: store_eq_def meq_def)
  ultimately have "meq (assignments (SetAssignmentObserved n obs s)) (assignments (SetAssignmentObserved n obs' t))"
    unfolding meq_def
    by (intro conjI ext) (simp_all add: mwf_observed observed_map_of store_eq_lookup(9) [OF assms(1)] split: option.split)
  with assms(1) show ?thesis
    by (simp only: store_eq_split(1) [of "SetAssignmentObserved n obs s"] store_eq_split(1) [of s] observed_shape)
qed

lemma store_eq_touched:
  assumes "store_eq s t" and "meq m m'"
  shows "store_eq (TouchTokens m s) (TouchTokens m' t)"
proof -
  have "mwf m" "mwf m'" "map_of m' = map_of m"
    using assms(2) by (simp_all add: meq_def)
  moreover have "mwf (tokens s)" "mwf (tokens t)"
    using assms(1) by (simp_all add: store_eq_def meq_def)
  ultimately have "meq (tokens (TouchTokens m s)) (tokens (TouchTokens m' t))"
    unfolding meq_def
    by (intro conjI ext) (simp_all add: mwf_touched touched_map_of store_eq_lookup(10) [OF assms(1)] split: option.split)
  with assms(1) show ?thesis
    by (simp only: store_eq_split(2) [of "TouchTokens m s"] store_eq_split(2) [of s] touched_shape)
qed

lemma store_eq_observe1: "store_eq s t \<Longrightarrow> store_eq (observeLocked n x s) (observeLocked n x t)"
  using store_eq_observed [of s t "[x]" "[x]" n] by (simp add: SetAssignmentObserved_def meq_refl)

lemma store_eq_touch1: "store_eq s t \<Longrightarrow> store_eq (touchTokenLocked x s) (touchTokenLocked x t)"
  using store_eq_touched [of s t "[x]" "[x]"] by (simp add: TouchTokens_def meq_refl)

lemma store_eq_batch:
  assumes "store_eq s t"
  shows "store_eq (PutAssignments as s) (PutAssignments as t)"
    "store_eq (DeleteAssignments is s) (DeleteAssignments is t)"
    "store_eq (SetAssignmentObserved n obs s) (SetAssignmentObserved n obs t)"
    "store_eq (TouchTokens m s) (TouchTokens m t)"
  using assms unfolding batch_defs
  by (auto intro: store_eq_fold store_eq_putAssignment store_eq_deleteAssignment store_eq_observe1 store_eq_touch1)

subsection \<open>Handlers\<close>

lemma store_eq_kv:
  assumes "store_eq s t"
  shows "fst (PutKV k v ver exp s) = fst (PutKV k v ver exp t)"
    "store_eq (snd (PutKV k v ver exp s)) (snd (PutKV k v ver exp t))"
    "fst (DeleteKV k ver s) = fst (DeleteKV k ver t)"
    "store_eq (snd (DeleteKV k ver s)) (snd (DeleteKV k ver t))"
  using assms
  by (simp_all add: PutKV_def DeleteKV_def Let_def store_eq_lookup [OF assms] split: option.split)
    (simp_all add: store_eq_def meq_mput meq_mdel)

lemma kv_result_parts:
  "fst (kv_result r) = (case fst r of Inl ErrKVConflict \<Rightarrow> Some KVConflict | Inr _ \<Rightarrow> None)"
  "snd (kv_result r) = snd r"
  by (auto simp: kv_result_def split: prod.split sum.split kv_error.split)

lemma store_eq_handlers:
  assumes "store_eq s t" and "store_inv s" and "store_inv t"
  shows "fst (applySetDeploymentPhase now dp s) = fst (applySetDeploymentPhase now dp t)"
    "store_eq (snd (applySetDeploymentPhase now dp s)) (snd (applySetDeploymentPhase now dp t))"
    "fst (applyPromoteRelease pr s) = fst (applyPromoteRelease pr t)"
    "store_eq (snd (applyPromoteRelease pr s)) (snd (applyPromoteRelease pr t))"
    "fst (applySetNodeStatus ns s) = fst (applySetNodeStatus ns t)"
    "store_eq (snd (applySetNodeStatus ns s)) (snd (applySetNodeStatus ns t))"
    "fst (applyConsumeJoinToken i s) = fst (applyConsumeJoinToken i t)"
    "store_eq (snd (applyConsumeJoinToken i s)) (snd (applyConsumeJoinToken i t))"
proof -
  have "keyed jt_id (joinTokens s)" "keyed jt_id (joinTokens t)"
    using assms by (simp_all add: store_inv_def inv_coll_def)
  note find = this [THEN find_joinToken]
  show "fst (applyConsumeJoinToken i s) = fst (applyConsumeJoinToken i t)"
    "store_eq (snd (applyConsumeJoinToken i s)) (snd (applyConsumeJoinToken i t))"
    using assms(1)
    by (simp_all add: applyConsumeJoinToken_def PutJoinToken_def find store_eq_lookup [OF assms(1)]
         split: option.split)
      (simp add: store_eq_def meq_mput)
qed (use assms(1) in \<open>simp_all add: applySetDeploymentPhase_def applyPromoteRelease_def
       applySetNodeStatus_def getter_defs PutDeployment_def PutEnvironment_def PutNode_def Let_def
       store_eq_lookup [OF assms(1)] split: option.split\<close>,
     simp_all add: store_eq_def meq_mput)

lemma store_eq_volume_lease:
  assumes "store_eq s t" shows "store_eq (SetVolumeLease v l s) (SetVolumeLease v l t)"
  using assms
  by (simp add: SetVolumeLease_def store_eq_lookup [OF assms] split: option.split)
    (simp add: store_eq_def meq_mput)

lemma store_eq_deletes:
  assumes "store_eq s t"
  shows "store_eq (DeleteProject i s) (DeleteProject i t)" "store_eq (DeleteApp i s) (DeleteApp i t)"
    "store_eq (DeleteEnvironment i s) (DeleteEnvironment i t)" "store_eq (DeleteNode i s) (DeleteNode i t)"
    "store_eq (DeleteDNSProvider i s) (DeleteDNSProvider i t)" "store_eq (DeleteVolume i s) (DeleteVolume i t)"
    "store_eq (DeleteVolumeSnapshot i s) (DeleteVolumeSnapshot i t)"
    "store_eq (DeleteAlertRule i s) (DeleteAlertRule i t)"
    "store_eq (DeleteNotificationChannel i s) (DeleteNotificationChannel i t)"
    "store_eq (DeleteRelease i s) (DeleteRelease i t)"
  using assms
  by (simp_all add: DeleteProject_def DeleteApp_def DeleteEnvironment_def DeleteNode_def
       DeleteDNSProvider_def DeleteVolume_def DeleteVolumeSnapshot_def DeleteAlertRule_def
       DeleteNotificationChannel_def DeleteRelease_def store_eq_lookup [OF assms])
    (simp_all add: store_eq_def meq_mdel meq2_mdel)

lemmas store_eq_steps =
  store_eq_batch store_eq_AppendEvents store_eq_users store_eq_members store_eq_SetEnvVars_same
  store_eq_kv store_eq_handlers store_eq_volume_lease store_eq_deletes

lemma store_eq_apply_same:
  assumes "store_eq s t" and "store_inv s" and "store_inv t"
  shows "fst (apply_mutation rid now m s) = fst (apply_mutation rid now m t)
    \<and> store_eq (snd (apply_mutation rid now m s)) (snd (apply_mutation rid now m t))"
  using assms
  by (cases m; simp add: store_eq_steps kv_result_parts split_def)
    (simp_all add: SetOrg_def PutProject_def PutApp_def PutEnvironment_def PutRelease_def PutDeployment_def
       PutBuild_def PutNode_def PutJoinToken_def SetClusterKeyMaterial_def PutDNSProvider_def PutVolume_def
       PutVolumeSnapshot_def SetBackupConfig_def PutBackupRecord_def SetNetworkAllocation_def
       SetServiceVIP_def PutJob_def PutAlertRule_def PutNotificationChannel_def AppendAudit_def Let_def,
     simp_all add: store_eq_def meq_mput meq_mdel)

lemma map_fst_map_values: "map fst (map (\<lambda>(k, v). (k, f v)) xs) = map fst xs"
  by (induction xs) auto

lemma meq_map_values: "meq x y \<Longrightarrow> meq (map (\<lambda>(k, v). (k, f v)) x) (map (\<lambda>(k, v). (k, f v)) y)"
  unfolding meq_def mwf_def map_fst_map_values by (simp add: map_of_map)

lemma store_eq_apply:
  assumes "mutation_eq m m'" and "store_eq s t" and "store_inv s" and "store_inv t"
  shows "fst (apply_mutation rid now m s) = fst (apply_mutation rid now m' t)
    \<and> store_eq (snd (apply_mutation rid now m s)) (snd (apply_mutation rid now m' t))"
  using assms(1)
proof cases
  case same
  with store_eq_apply_same [OF assms(2-4)] show ?thesis by simp
next
  case (touched x y)
  then have "meq (map (\<lambda>(i, ts). (i, UnixMilli ts)) x) (map (\<lambda>(i, ts). (i, UnixMilli ts)) y)"
    by (simp add: meq_map_values)
  with touched assms(2) show ?thesis by (simp add: store_eq_touched)
qed (use assms in \<open>simp_all add: store_eq_SetEnvVars store_eq_observed\<close>)

subsection \<open>Log entries\<close>

text \<open>The same entry on two replicas: the decoded maps of a command may be iterated in different
  orders.\<close>

definition command_eq :: "Command \<Rightarrow> Command \<Rightarrow> bool" where
  "command_eq c c' =
     (RequestId c = RequestId c' \<and> Time c = Time c' \<and> mutation_eq (Mutation c) (Mutation c'))"

definition entry_eq :: "log_entry \<Rightarrow> log_entry \<Rightarrow> bool" where
  "entry_eq e e' = (entry_index e = entry_index e' \<and> rel_option command_eq (entry_data e) (entry_data e'))"

lemma meq_fold_mdel: "meq m n \<Longrightarrow> meq (fold (\<lambda>x. mdel (f x)) xs m) (fold (\<lambda>x. mdel (f x)) xs n)"
  by (auto simp: meq_def mwf_fold_mdel_key map_of_fold_mdel intro!: ext)

lemma store_eq_recorded:
  assumes "store_eq s t" and "entry_index e = entry_index e'" and "RequestId c = RequestId c'"
  shows "store_eq (recorded e c s) (recorded e' c' t)"
  using assms
  by (simp add: recorded_def MarkApplied_def Let_def store_eq_lookup [OF assms(1)])
    (simp add: store_eq_def meq_mput meq_fold_mdel)

lemma FSM_Apply_respects:
  assumes "entry_eq e e'" and "store_eq s t" and "store_inv s" and "store_inv t"
  shows "fst (FSM_Apply e s) = fst (FSM_Apply e' t) \<and> store_eq (snd (FSM_Apply e s)) (snd (FSM_Apply e' t))"
proof (cases rule: FSM_Apply_cases [where e = e and s = s])
  case undecodable
  with assms show ?thesis by (simp add: entry_eq_def FSM_Apply_undecodable)
next
  case (duplicate cmd)
  with assms(1) obtain cmd' where "entry_data e' = Some cmd'" "RequestId cmd' = RequestId cmd"
    by (auto simp: entry_eq_def command_eq_def option_rel_Some1)
  with duplicate assms(2) show ?thesis
    using store_eq_lookup(18) [OF assms(2)] by (simp add: FSM_Apply_duplicate mhas_def)
next
  case (fresh cmd)
  with assms(1) obtain cmd' where cmd': "entry_data e' = Some cmd'" "command_eq cmd cmd'"
    by (auto simp: entry_eq_def option_rel_Some1)
  then have "RequestId cmd' = '''' \<or> \<not> mhas (appliedSet t) (RequestId cmd')"
    using fresh store_eq_lookup(18) [OF assms(2)] by (simp add: command_eq_def mhas_def)
  moreover have "store_eq (recorded e cmd s) (recorded e' cmd' t)"
    using assms cmd' by (intro store_eq_recorded) (simp_all add: entry_eq_def command_eq_def)
  ultimately show ?thesis
    using fresh cmd' assms
    by (simp add: FSM_Apply_fresh fsm_apply_def command_eq_def store_eq_apply store_inv_recorded
      del: mhas_iff)
qed

end
