(* ===== verification/Snapshot.thy ===== *)
theory Snapshot
  imports Replica
begin

text \<open>
  Snapshots of the replicated state, \<^verbatim>\<open>internal/state/snapshot.go\<close> and the snapshot half of
  \<^verbatim>\<open>internal/daemon/raftstore/fsm.go\<close>. A snapshot lists every collection in the iteration order
  of its map, without the secondary indexes; restoring rebuilds the collections and the indexes.
  Each loop of \<^verbatim>\<open>RestoreProto\<close> writes only its own maps, so the loops are written field by
  field. The protobuf codec is a parameter.
\<close>

record EnvVarEntry =
  eve_environment_id :: string
  eve_key :: string
  eve_value :: EncryptedValue

record KVEntry =
  kve_key :: string
  kve_value :: bytes
  kve_version :: int
  kve_expires_at :: "time option"

record ServiceVIP =
  svip_environment_id :: string
  svip_vip :: string

record Snapshot =
  snap_fsm_index :: uint64
  snap_org :: "Org option"
  snap_cluster_key_material :: "ClusterKeyMaterial option"
  snap_users :: "User list"
  snap_projects :: "Project list"
  snap_project_members :: "ProjectMember list"
  snap_apps :: "App list"
  snap_environments :: "Environment list"
  snap_env_vars :: "EnvVarEntry list"
  snap_releases :: "Release list"
  snap_deployments :: "Deployment list"
  snap_builds :: "Build list"
  snap_nodes :: "Node list"
  snap_join_tokens :: "JoinToken list"
  snap_assignments :: "Assignment list"
  snap_tokens :: "Token list"
  snap_domains :: "Domain list"
  snap_kv :: "KVEntry list"
  snap_dns_providers :: "DNSProviderConfig list"
  snap_volumes :: "Volume list"
  snap_volume_snapshots :: "VolumeSnapshot list"
  snap_backup_config :: "BackupConfig option"
  snap_backup_records :: "BackupRecord list"
  snap_network_allocations :: "NetworkAllocation list"
  snap_service_vips :: "ServiceVIP list"
  snap_jobs :: "Job list"
  snap_alert_rules :: "AlertRule list"
  snap_notification_channels :: "NotificationChannel list"
  snap_events :: "Event list"
  snap_audit :: "AuditEntry list"
  snap_applied_requests :: "AppliedRequest list"

definition resetLocked :: "Store \<Rightarrow> Store" where
  "resetLocked s = New\<lparr>version := version s, hub := hub s\<rparr>"

definition snap_kv_entry :: "string \<times> kvEntry \<Rightarrow> KVEntry" where
  "snap_kv_entry = (\<lambda>(k, e). \<lparr>kve_key = k, kve_value = kv_value e, kve_version = kv_version e,
     kve_expires_at = (if kv_expiresAt e \<noteq> 0 then Some (timestampFromUnixMs (kv_expiresAt e)) else None)\<rparr>)"

definition SnapshotProto :: "uint64 \<Rightarrow> Store \<Rightarrow> Snapshot" where
  "SnapshotProto fsmIndex s =
     \<lparr>snap_fsm_index = fsmIndex, snap_org = org s, snap_cluster_key_material = clusterKey s,
      snap_users = mvals (users s), snap_projects = mvals (projects s),
      snap_project_members = concat (map (\<lambda>(p, byUser). mvals byUser) (projectMembers s)),
      snap_apps = mvals (apps s), snap_environments = mvals (environments s),
      snap_env_vars =
        concat (map (\<lambda>(envID, vars). map (\<lambda>(k, v). \<lparr>eve_environment_id = envID, eve_key = k, eve_value = v\<rparr>) vars)
                    (envVars s)),
      snap_releases = mvals (releases s), snap_deployments = mvals (deployments s),
      snap_builds = mvals (builds s), snap_nodes = mvals (nodes s),
      snap_join_tokens = mvals (joinTokens s), snap_assignments = mvals (assignments s),
      snap_tokens = mvals (tokens s), snap_domains = mvals (domains s),
      snap_kv = map snap_kv_entry (kv s), snap_dns_providers = mvals (dnsProviders s),
      snap_volumes = mvals (volumes s), snap_volume_snapshots = mvals (volumeSnapshots s),
      snap_backup_config = backupConfig s, snap_backup_records = mvals (backupRecords s),
      snap_network_allocations = mvals (networkAllocs s),
      snap_service_vips = map (\<lambda>(e, v). \<lparr>svip_environment_id = e, svip_vip = v\<rparr>) (serviceVIPs s),
      snap_jobs = mvals (jobs s), snap_alert_rules = mvals (alertRules s),
      snap_notification_channels = mvals (notifyChannels s), snap_events = events s,
      snap_audit = audit s, snap_applied_requests = appliedRequests s\<rparr>"

subsection \<open>Restoring\<close>

text \<open>The loops of \<^verbatim>\<open>RestoreProto\<close>: into a map, and into a map of maps.\<close>

definition load :: "('x \<Rightarrow> 'k) \<Rightarrow> ('x \<Rightarrow> 'v) \<Rightarrow> 'x list \<Rightarrow> ('k, 'v) gomap" where
  "load key val xs = fold (\<lambda>x. mput (key x) (val x)) xs []"

definition load2 :: "('x \<Rightarrow> 'k) \<Rightarrow> ('x \<Rightarrow> 'i) \<Rightarrow> ('x \<Rightarrow> 'v) \<Rightarrow> 'x list \<Rightarrow> ('k, ('i, 'v) gomap) gomap" where
  "load2 outer key val xs =
     fold (\<lambda>x m. mput (outer x) (mput (key x) (val x) (inner m (outer x))) m) xs []"

definition restoredKinds :: "Kind list" where
  "restoredKinds =
     [KindOrg, KindUser, KindProject, KindProjectMember, KindApp, KindEnvironment,
      KindEnvVar, KindRelease, KindDeployment, KindBuild, KindNode, KindJoinToken,
      KindAssignment, KindToken, KindDomain, KindKV, KindDNSProvider, KindVolume,
      KindVolumeSnapshot, KindBackup, KindNetworkAlloc, KindServiceVIP, KindJob,
      KindAlertRule, KindNotifyChannel, KindEvent, KindClusterKey]"

definition restore_kv :: "KVEntry \<Rightarrow> kvEntry" where
  "restore_kv e = \<lparr>kv_value = kve_value e, kv_version = kve_version e,
     kv_expiresAt = (case kve_expires_at e of None \<Rightarrow> 0 | Some t \<Rightarrow> UnixMilli t)\<rparr>"

definition RestoreProto :: "Snapshot \<Rightarrow> Store \<Rightarrow> Store" where
  "RestoreProto snap s =
     fold (\<lambda>k. touch k ''*'') restoredKinds
       ((resetLocked s)
        \<lparr>org := snap_org snap, clusterKey := snap_cluster_key_material snap,
         users := load user_id id (snap_users snap),
         usersByEmail := load user_email user_id (snap_users snap),
         projects := load project_id id (snap_projects snap),
         projectMembers := load2 pm_project_id pm_user_id id (snap_project_members snap),
         apps := load app_id id (snap_apps snap),
         environments := load env_id id (snap_environments snap),
         envVars := load2 eve_environment_id eve_key eve_value (snap_env_vars snap),
         releases := load rel_id id (snap_releases snap),
         deployments := load dep_id id (snap_deployments snap),
         builds := load build_id id (snap_builds snap),
         nodes := load node_id id (snap_nodes snap),
         joinTokens := load jt_id id (snap_join_tokens snap),
         assignments := load asg_id id (snap_assignments snap),
         assignmentsByNode := load2 asg_node_id asg_id (\<lambda>_. ()) (snap_assignments snap),
         tokens := load token_id id (snap_tokens snap),
         tokensByHash := load token_secret_hash token_id (snap_tokens snap),
         domains := load dom_id id (snap_domains snap),
         domainsByHostname := fold indexDomain (snap_domains snap) [],
         kv := load kve_key restore_kv (snap_kv snap),
         dnsProviders := load dns_id id (snap_dns_providers snap),
         volumes := load vol_id id (snap_volumes snap),
         volumeSnapshots := load vs_id id (snap_volume_snapshots snap),
         backupConfig := snap_backup_config snap,
         backupRecords := load br_id id (snap_backup_records snap),
         networkAllocs := load na_key id (snap_network_allocations snap),
         serviceVIPs := load svip_environment_id svip_vip (snap_service_vips snap),
         jobs := load job_id id (snap_jobs snap),
         alertRules := load ar_id id (snap_alert_rules snap),
         notifyChannels := load nc_id id (snap_notification_channels snap),
         events := snap_events snap, audit := snap_audit snap,
         appliedRequests := snap_applied_requests snap,
         appliedSet := load ar_request_id (\<lambda>_. ()) (snap_applied_requests snap)\<rparr>)"

text \<open>\<^verbatim>\<open>FSM.Snapshot\<close>, \<^verbatim>\<open>Persist\<close> and \<^verbatim>\<open>Restore\<close> over a codec; a snapshot that
  does not decode leaves the store alone.\<close>

definition Persist :: "(Snapshot \<Rightarrow> bytes option) \<Rightarrow> Store \<Rightarrow> bytes option" where
  "Persist marshal s = marshal (SnapshotProto 0 s)"

definition FSM_Restore :: "(bytes \<Rightarrow> Snapshot option) \<Rightarrow> bytes \<Rightarrow> Store \<Rightarrow> bool \<times> Store" where
  "FSM_Restore unmarshal data s =
     (case unmarshal data of None \<Rightarrow> (False, s) | Some snap \<Rightarrow> (True, RestoreProto snap s))"

subsection \<open>What a load rebuilds\<close>

lemma load_alt: "load key val xs = fold (\<lambda>(k, v). mput k v) (map (\<lambda>x. (key x, val x)) xs) []"
  by (simp add: load_def fold_map comp_def)

lemma mwf_load [simp]: "mwf (load key val xs)"
  by (simp add: load_alt mwf_fold_mput)

lemma load_map_of: "distinct (map key xs) \<Longrightarrow> map_of (load key val xs) = map_of (map (\<lambda>x. (key x, val x)) xs)"
  by (simp add: load_alt fold_mput_map_of mwf_def comp_def)

lemma keyed_pairs: "keyed f m \<Longrightarrow> map (\<lambda>x. (f x, x)) (mvals m) = m"
  unfolding mvals_def map_map by (rule map_idI) (auto simp: keyed_def mwf_def)

lemma keyed_distinct_keys: "keyed f m \<Longrightarrow> distinct (map f (mvals m))"
  by (metis keyed_distinct_mvals keyed_inj_on distinct_map)

lemma meq_load_pairs:
  assumes "mwf m" and "map key xs = map fst m" and "map (\<lambda>x. (key x, val x)) xs = m"
  shows "meq m (load key val xs)"
proof -
  have "distinct (map key xs)" using assms(1,2) by (simp add: mwf_def)
  with assms(1,3) show ?thesis by (simp add: meq_def load_map_of)
qed

lemma meq_load: "keyed f m \<Longrightarrow> meq m (load f id (mvals m))"
  by (simp add: meq_def keyed_mwf load_map_of keyed_distinct_keys keyed_pairs)

lemma idx_keys_distinct:
  assumes "keyed f prim" and "idx_complete key prim idx"
  shows "distinct (map key (mvals prim))"
proof -
  have "inj_on key (set (mvals prim))"
    using assms unfolding inj_on_def idx_complete_def
    by (auto simp: in_mvals_iff keyed_mwf) (metis option.inject)
  then show ?thesis by (simp add: distinct_map keyed_distinct_mvals [OF assms(1)])
qed

lemma in_mvals_keyed: "keyed f m \<Longrightarrow> v \<in> set (mvals m) \<longleftrightarrow> map_of m (f v) = Some v"
  by (auto simp: in_mvals_iff keyed_mwf dest: keyedD)

lemma keyed_ex:
  assumes "keyed f m"
  shows "(\<exists>v \<in> set (mvals m). k = key v \<and> i = f v) \<longleftrightarrow> (\<exists>v. map_of m i = Some v \<and> key v = k)"
proof
  assume "\<exists>v \<in> set (mvals m). k = key v \<and> i = f v"
  then show "\<exists>v. map_of m i = Some v \<and> key v = k" by (auto simp: in_mvals_keyed [OF assms])
next
  assume "\<exists>v. map_of m i = Some v \<and> key v = k"
  then obtain v where v: "map_of m i = Some v" "key v = k" by blast
  then have "f v = i" using keyedD [OF assms] by blast
  with v show "\<exists>v \<in> set (mvals m). k = key v \<and> i = f v"
    by (intro bexI [of _ v]) (simp_all add: in_mvals_keyed [OF assms])
qed

lemma option_eqI: "(\<And>i. (a = Some i) = (b = Some i)) \<Longrightarrow> a = b"
  by (cases a; cases b) auto

lemma meq_load_index:
  assumes "keyed f prim" and "idx_sound key prim idx" and "idx_complete key prim idx"
  shows "meq idx (load key f (mvals prim))"
proof -
  let ?ps = "map (\<lambda>x. (key x, f x)) (mvals prim)"
  have d: "distinct (map key (mvals prim))" using assms by (simp add: idx_keys_distinct)
  have "map_of idx k = Some i \<longleftrightarrow> (\<exists>v. map_of prim i = Some v \<and> key v = k)" for k i
    using assms(2,3) unfolding idx_sound_def idx_complete_def by blast
  moreover have "(k, i) \<in> set ?ps \<longleftrightarrow> (\<exists>v. map_of prim i = Some v \<and> key v = k)" for k i
  proof -
    have "(k, i) \<in> set ?ps \<longleftrightarrow> (\<exists>v \<in> set (mvals prim). k = key v \<and> i = f v)" by auto
    also have "\<dots> \<longleftrightarrow> (\<exists>v. map_of prim i = Some v \<and> key v = k)"
      by (rule keyed_ex [OF assms(1)])
    finally show ?thesis .
  qed
  moreover have "map_of ?ps k = Some i \<longleftrightarrow> (k, i) \<in> set ?ps" for k i
    using d by (simp add: map_of_eq_Some_iff comp_def)
  ultimately have "map_of idx = map_of ?ps"
    by (intro ext option_eqI) simp
  with d assms(2) show ?thesis by (simp add: meq_def load_map_of idx_sound_def)
qed

lemma load2_fold_inner:
  "inner (fold (\<lambda>x m. mput (outer x) (mput (key x) (val x) (inner m (outer x))) m) xs m0) k =
   fold (\<lambda>x. mput (key x) (val x)) (filter (\<lambda>x. outer x = k) xs) (inner m0 k)"
  by (induction xs arbitrary: m0) auto

lemma inner_load2: "inner (load2 outer key val xs) k = load key val (filter (\<lambda>x. outer x = k) xs)"
  by (simp add: load2_def load_def load2_fold_inner)

lemma mwf_load2 [simp]: "mwf (load2 outer key val xs)"
  unfolding load2_def by (rule fold_inv [where I = mwf]) simp_all

lemma filter_nested:
  assumes "mwf m" and "\<And>p. list_all (\<lambda>x. outer x = p) (f p (inner m p))" and "\<And>p. f p [] = []"
  shows "filter (\<lambda>x. outer x = k) (concat (map (\<lambda>(p, y). f p y) m)) = f k (inner m k)"
proof -
  have *: "filter (\<lambda>x. outer x = k) (f p y) = (if p = k then f p y else [])" if "(p, y) \<in> set m" for p y
    using assms(1) assms(2) [of p] that
    by (auto simp: list_all_iff filter_id_conv filter_empty_conv mwf_def inner_def)
  then have "filter (\<lambda>x. outer x = k) (concat (map (\<lambda>(p, y). f p y) m)) =
      concat (map (\<lambda>(p, y). if p = k then f p y else []) m)"
    by (induction m) auto
  also have "\<dots> = f k (inner m k)"
    using assms(1,3)
  proof (induction m)
    case (Cons q m)
    then have wf: "mwf m" and "fst q = k \<Longrightarrow> map_of m k = None" by (auto simp: mwf_def map_of_eq_None_iff)
    with Cons.IH [OF wf] Cons.prems(2) show ?case by (cases q) (auto simp: inner_def)
  qed simp
  finally show ?thesis .
qed

lemma meq2_members:
  assumes "inv_nested s"
  shows "meq2 (projectMembers s)
    (load2 pm_project_id pm_user_id id (concat (map (\<lambda>(p, byUser). mvals byUser) (projectMembers s))))"
proof -
  have "filter (\<lambda>x. pm_project_id x = k) (concat (map (\<lambda>(p, y). mvals y) (projectMembers s))) =
      mvals (inner (projectMembers s) k)" for k
    using assms by (intro filter_nested) (simp_all add: inv_nested_def)
  with assms show ?thesis
    by (simp add: meq2_def inner_load2 meq_load inv_nested_def)
qed

lemma meq2_envVars:
  assumes "inv_nested s"
  shows "meq2 (envVars s) (load2 eve_environment_id eve_key eve_value
    (concat (map (\<lambda>(envID, vars). map (\<lambda>(k, v). \<lparr>eve_environment_id = envID, eve_key = k, eve_value = v\<rparr>) vars)
                 (envVars s))))"
proof -
  let ?f = "\<lambda>envID vars. map (\<lambda>(k, v). \<lparr>eve_environment_id = envID, eve_key = k, eve_value = v\<rparr>) vars"
  have flt: "filter (\<lambda>x. eve_environment_id x = e) (concat (map (\<lambda>(p, y). ?f p y) (envVars s))) =
      ?f e (inner (envVars s) e)" for e
    using assms by (intro filter_nested) (auto simp: inv_nested_def list_all_iff)
  have "meq m (load eve_key eve_value (?f e m))" if "mwf m" for e m
  proof -
    have keys: "map eve_key (?f e m) = map fst m" by (induction m) auto
    have "map (\<lambda>x. (eve_key x, eve_value x)) (?f e m) = m" by (induction m) auto
    with that keys show ?thesis by (rule meq_load_pairs)
  qed
  with assms show ?thesis
    by (simp add: meq2_def inner_load2 flt inv_nested_def)
qed

lemma meq_kv:
  assumes "mwf m"
  shows "meq m (load kve_key restore_kv (map snap_kv_entry m))"
proof -
  have "map kve_key (map snap_kv_entry m) = map fst m"
    by (induction m) (auto simp: snap_kv_entry_def)
  moreover have "map (\<lambda>x. (kve_key x, restore_kv x)) (map snap_kv_entry m) = m"
    by (induction m) (auto simp: snap_kv_entry_def restore_kv_def)
  ultimately show ?thesis using assms by (intro meq_load_pairs)
qed

lemma meq_vips:
  assumes "mwf m"
  shows "meq m (load svip_environment_id svip_vip (map (\<lambda>(e, v). \<lparr>svip_environment_id = e, svip_vip = v\<rparr>) m))"
proof -
  let ?xs = "map (\<lambda>(e, v). \<lparr>svip_environment_id = e, svip_vip = v\<rparr>) m"
  have "map svip_environment_id ?xs = map fst m" by (induction m) auto
  moreover have "map (\<lambda>x. (svip_environment_id x, svip_vip x)) ?xs = m" by (induction m) auto
  ultimately show ?thesis using assms by (intro meq_load_pairs)
qed

lemma load_const_map_of:
  "map_of (fold (\<lambda>x. mput (key x) c) xs m) k = (if k \<in> key ` set xs then Some c else map_of m k)"
  by (induction xs arbitrary: m) auto

lemma meq2_load_index:
  assumes "keyed f prim" and "midx_exact key prim idx" and "\<And>k i b. map_of (inner idx k) i = Some b \<Longrightarrow> b = c"
  shows "meq2 idx (load2 key f (\<lambda>_. c) (mvals prim))"
  unfolding meq2_def
proof (intro conjI allI)
  fix k
  have keys: "i \<in> f ` set (filter (\<lambda>x. key x = k) (mvals prim)) \<longleftrightarrow> mhas (inner idx k) i" for i
    using assms(1,2) by (force simp: midx_exact_def in_mvals_iff keyed_mwf dest: keyedD)
  have "map_of (inner idx k) i = map_of (load f (\<lambda>_. c) (filter (\<lambda>x. key x = k) (mvals prim))) i" for i
    using keys [of i] assms(3) [of k i]
    by (auto simp: load_def load_const_map_of mhas_def simp del: mhas_iff)
  then show "meq (inner idx k) (inner (load2 key f (\<lambda>_. c) (mvals prim)) k)"
    using assms(2) by (simp add: meq_def inner_load2 midx_exact_def fun_eq_iff)
qed (use assms(2) in \<open>simp_all add: midx_exact_def\<close>)

lemma meq_applied:
  assumes "inv_ring s"
  shows "meq (appliedSet s) (load ar_request_id (\<lambda>_. ()) (appliedRequests s))"
proof -
  have "map_of (appliedSet s) r = (if r \<in> ar_request_id ` set (appliedRequests s) then Some () else None)" for r
    using assms unfolding inv_ring_def mhas_def by (metis not_Some_eq unit.exhaust)
  then have "map_of (appliedSet s) = map_of (load ar_request_id (\<lambda>_. ()) (appliedRequests s))"
    by (intro ext) (simp add: load_def load_const_map_of)
  with assms show ?thesis by (simp add: meq_def inv_ring_def)
qed

lemma load2_indexDomain: "fold indexDomain ds [] = load2 dom_hostname dom_id (\<lambda>_. True) ds"
  unfolding load2_def by (intro arg_cong2 [where f = "\<lambda>g m. fold g ds m"]) (auto simp: indexDomain_def fun_eq_iff)

subsection \<open>Round trip\<close>

definition indexes_complete :: "Store \<Rightarrow> bool" where
  "indexes_complete s =
     (idx_complete user_email (users s) (usersByEmail s)
      \<and> idx_complete token_secret_hash (tokens s) (tokensByHash s))"

lemma store_eq_touches: "store_eq s (fold (\<lambda>k. touch k i) ks t) = store_eq s t"
proof (induction ks arbitrary: t)
  case (Cons k ks)
  then show ?case by (simp add: store_eq_def touch_def)
qed simp

lemma idx_true_value: "idx_true ix \<Longrightarrow> map_of (inner ix h) i = Some b \<Longrightarrow> b = True"
  by (force simp: idx_true_def list_all_iff mvals_def dest: map_of_SomeD)

lemma snapshot_restore_eq:
  assumes "store_inv s" and "indexes_complete s"
  shows "store_eq s (RestoreProto (SnapshotProto n s) t)"
proof -
  note inv = assms(1) [unfolded store_inv_def]
  have coll: "inv_coll s" and nested: "inv_nested s" and ix: "inv_index s" and ring: "inv_ring s"
    using inv by simp_all
  have "meq (usersByEmail s) (load user_email user_id (mvals (users s)))"
    "meq (tokensByHash s) (load token_secret_hash token_id (mvals (tokens s)))"
    using coll ix assms(2) by (auto simp: inv_coll_def inv_index_def indexes_complete_def intro!: meq_load_index)
  moreover have "meq2 (assignmentsByNode s) (load2 asg_node_id asg_id (\<lambda>_. ()) (mvals (assignments s)))"
    "meq2 (domainsByHostname s) (fold indexDomain (mvals (domains s)) [])"
    using coll ix unfolding load2_indexDomain
    by (auto simp: inv_coll_def inv_index_def intro!: meq2_load_index dest: idx_true_value)
  ultimately show ?thesis
    using coll meq2_members [OF nested] meq2_envVars [OF nested] meq_applied [OF ring]
    unfolding RestoreProto_def store_eq_touches
    by (simp add: store_eq_def SnapshotProto_def inv_coll_def meq_load meq_kv meq_vips)
qed

end
