(* ===== verification/Replication.thy ===== *)
theory Replication
  imports Snapshot
begin

text \<open>
  The contract of a replicated state machine and its interpretation on the FSM: a deterministic
  step that respects state equivalence, and snapshots that restore to an equivalent state. The
  locale's lemmas are the agreement of replicas and catching up from a snapshot.
\<close>

primrec replay :: "('e \<Rightarrow> 's \<Rightarrow> 'r \<times> 's) \<Rightarrow> 'e list \<Rightarrow> 's \<Rightarrow> 'r list \<times> 's" where
  "replay step [] s = ([], s)"
| "replay step (e # es) s =
     (case step e s of (r, s1) \<Rightarrow> case replay step es s1 of (rs, s2) \<Rightarrow> (r # rs, s2))"

lemma replay_append:
  "replay step (es @ fs) s =
     (case replay step es s of (rs, s1) \<Rightarrow> case replay step fs s1 of (rs', s2) \<Rightarrow> (rs @ rs', s2))"
  by (induction es arbitrary: s) (simp_all add: split_def)

lemma replay_run_log: "snd (replay FSM_Apply es s) = run_log es s"
  by (induction es arbitrary: s) (simp_all add: split_def)

locale state_machine =
  fixes step :: "'e \<Rightarrow> 's \<Rightarrow> 'r \<times> 's"
    and inv :: "'s \<Rightarrow> bool"
    and same :: "'s \<Rightarrow> 's \<Rightarrow> bool"
    and entry_same :: "'e \<Rightarrow> 'e \<Rightarrow> bool"
  assumes step_inv: "inv s \<Longrightarrow> inv (snd (step e s))"
    and step_same: "entry_same e e' \<Longrightarrow> same s t \<Longrightarrow> inv s \<Longrightarrow> inv t \<Longrightarrow>
      fst (step e s) = fst (step e' t) \<and> same (snd (step e s)) (snd (step e' t))"
    and same_inv: "inv s \<Longrightarrow> same s t \<Longrightarrow> inv t"
begin

lemma replay_inv: "inv s \<Longrightarrow> inv (snd (replay step es s))"
proof (induction es arbitrary: s)
  case (Cons e es)
  then show ?case using step_inv [of s e] by (simp add: split_def)
qed simp

lemma replay_same:
  assumes "list_all2 entry_same es es'" and "same s t" and "inv s"
  shows "fst (replay step es s) = fst (replay step es' t)
    \<and> same (snd (replay step es s)) (snd (replay step es' t))"
  using assms
proof (induction arbitrary: s t rule: list_all2_induct)
  case (Cons e es e' es')
  have "inv t" using Cons.prems same_inv by blast
  with Cons have "fst (step e s) = fst (step e' t)" "same (snd (step e s)) (snd (step e' t))"
    "inv (snd (step e s))"
    using step_same step_inv by blast+
  with Cons.IH show ?case by (simp add: split_def)
qed simp

end

locale snapshotting = state_machine +
  fixes snapshot :: "'b \<Rightarrow> 'p"
    and restore :: "'p \<Rightarrow> 'b \<Rightarrow> 'b"
    and exact :: "'b \<Rightarrow> bool"
  assumes restore_same: "inv s \<Longrightarrow> exact s \<Longrightarrow> same s (restore (snapshot s) t)"
begin

lemma catch_up:
  assumes "inv s0" and "exact (snd (replay step pre s0))" and "list_all2 entry_same post post'"
  shows "fst (replay step (pre @ post) s0) =
      fst (replay step pre s0) @ fst (replay step post' (restore (snapshot (snd (replay step pre s0))) t))
    \<and> same (snd (replay step (pre @ post) s0))
        (snd (replay step post' (restore (snapshot (snd (replay step pre s0))) t)))"
proof -
  have "inv (snd (replay step pre s0))" using assms(1) by (rule replay_inv)
  moreover from this assms(2)
  have "same (snd (replay step pre s0)) (restore (snapshot (snd (replay step pre s0))) t)"
    by (rule restore_same)
  ultimately show ?thesis
    using replay_same [OF assms(3)] by (simp add: replay_append split_def)
qed

end

subsection \<open>The invariant under equivalence\<close>

lemma keyed_meq: "keyed f m \<Longrightarrow> meq m n \<Longrightarrow> keyed f n"
  by (simp add: keyed_def meq_def)

lemma idx_sound_meq: "idx_sound key p i \<Longrightarrow> meq p q \<Longrightarrow> meq i j \<Longrightarrow> idx_sound key q j"
  by (simp add: idx_sound_def meq_def)

lemma meq2_D: "meq2 i j \<Longrightarrow> mwf j \<and> (\<forall>k. mwf (inner j k)) \<and> (\<forall>k. map_of (inner j k) = map_of (inner i k))"
  by (simp add: meq2_def meq_def)

lemma midx_exact_meq: "midx_exact key p i \<Longrightarrow> meq p q \<Longrightarrow> meq2 i j \<Longrightarrow> midx_exact key q j"
  by (drule meq2_D) (simp add: midx_exact_def meq_def)

lemma meq_set_mvals: "meq m n \<Longrightarrow> set (mvals n) = set (mvals m)"
  by (simp add: mvals_def meq_set)

lemma list_all_meq: "list_all P (mvals m) \<Longrightarrow> meq m n \<Longrightarrow> list_all P (mvals n)"
  by (simp add: list_all_iff meq_set_mvals)

lemma store_inv_cong:
  assumes "store_inv s" and "store_eq s t"
  shows "store_inv t"
proof -
  have "inv_coll t"
    using assms by (auto simp: store_inv_def inv_coll_def store_eq_def intro: keyed_meq) (auto simp: meq_def)
  moreover have "inv_nested t"
  proof -
    have "meq2 (projectMembers s) (projectMembers t)" "meq2 (envVars s) (envVars t)"
      using assms(2) by (simp_all add: store_eq_def)
    then show ?thesis
      using assms(1) meq2_inner [of "projectMembers s" "projectMembers t"]
      by (auto simp: store_inv_def inv_nested_def meq2_def meq_def intro: keyed_meq list_all_meq)
  qed
  moreover have "inv_index t"
    using assms unfolding store_inv_def inv_index_def store_eq_def idx_true_def
    by (blast intro: idx_sound_meq midx_exact_meq list_all_meq meq2_inner)
  moreover have "inv_ring t"
    using assms by (simp add: store_inv_def inv_ring_def store_eq_def meq_def)
  ultimately show ?thesis by (simp add: store_inv_def)
qed

interpretation fsm: state_machine FSM_Apply store_inv store_eq entry_eq
proof
  fix s t e e'
  assume "entry_eq e e'" "store_eq s t" "store_inv s" "store_inv t"
  then show "fst (FSM_Apply e s) = fst (FSM_Apply e' t) \<and> store_eq (snd (FSM_Apply e s)) (snd (FSM_Apply e' t))"
    by (rule FSM_Apply_respects)
qed (auto intro: store_inv_FSM_Apply store_inv_cong)

interpretation fsm_snapshot: snapshotting FSM_Apply store_inv store_eq entry_eq
    "SnapshotProto 0" RestoreProto indexes_complete
  by unfold_locales (rule snapshot_restore_eq)

subsection \<open>Properties\<close>

text \<open>C2 (replica agreement): two replicas that apply the same committed log, from the empty store,
  report the same result for every entry and end with the same replicated state, whatever order
  each of them iterates the maps of the decoded commands in.\<close>

theorem replicas_agree:
  assumes "list_all2 entry_eq es es'"
  shows "fst (replay FSM_Apply es New) = fst (replay FSM_Apply es' New)
    \<and> store_eq (run_log es New) (run_log es' New)"
  using fsm.replay_same [OF assms store_eq_refl [OF store_inv_New] store_inv_New]
  by (simp add: replay_run_log)

definition sample_value :: "uint32 \<Rightarrow> EncryptedValue" where
  "sample_value k = \<lparr>ev_nonce = [], ev_ciphertext = [], ev_key_version = k\<rparr>"

definition sample_vars :: "(string, EncryptedValue) gomap \<Rightarrow> log_entry list" where
  "sample_vars m =
     [entry 1 ''r1'' (Command_PutUser (zero_user\<lparr>user_meta := meta_of ''u'', user_email := ''a@b''\<rparr>)),
      entry 2 ''r2'' (Command_SetEnvVars ''env'' m [''C'']),
      entry 3 ''r2'' (Command_SetEnvVars ''env'' m [])]"

lemma sample_vars_eq:
  "list_all2 entry_eq (sample_vars [(''A'', sample_value 1), (''B'', sample_value 2)])
                      (sample_vars [(''B'', sample_value 2), (''A'', sample_value 1)])"
proof -
  have "meq [(''A'', sample_value 1), (''B'', sample_value 2)] [(''B'', sample_value 2), (''A'', sample_value 1)]"
    by (auto simp: meq_def mwf_def)
  then show ?thesis
    by (auto simp: sample_vars_def entry_def entry_eq_def command_eq_def intro: mutation_eq.intros)
qed

theorem replicas_agree_witness:
  "store_eq (run_log (sample_vars [(''A'', sample_value 1), (''B'', sample_value 2)]) New)
            (run_log (sample_vars [(''B'', sample_value 2), (''A'', sample_value 1)]) New)"
  using replicas_agree [OF sample_vars_eq] by simp


definition sample_users :: "log_entry list" where
  "sample_users =
     [entry 1 ''r1'' (Command_PutUser (zero_user\<lparr>user_meta := meta_of ''u'', user_email := ''a@b''\<rparr>)),
      entry 2 ''r2'' (Command_PutUser (zero_user\<lparr>user_meta := meta_of ''v'', user_email := ''c@d''\<rparr>)),
      entry 3 ''r3'' (Command_DeleteUser ''u'')]"

definition sample_marshal :: "Snapshot \<Rightarrow> bytes option" where
  "sample_marshal p = (if p = SnapshotProto 0 (run_log sample_users New) then Some [1] else None)"

definition sample_unmarshal :: "bytes \<Rightarrow> Snapshot option" where
  "sample_unmarshal d = (if d = [1] then Some (SnapshotProto 0 (run_log sample_users New)) else None)"


definition sample_duplicate_users :: "log_entry list" where
  "sample_duplicate_users =
     [entry 1 ''r1'' (Command_PutUser (zero_user\<lparr>user_meta := meta_of ''u'', user_email := ''a@b''\<rparr>)),
      entry 2 ''r2'' (Command_PutUser (zero_user\<lparr>user_meta := meta_of ''v'', user_email := ''a@b''\<rparr>)),
      entry 3 ''r3'' (Command_DeleteUser ''v'')]"

text \<open>The user index is not rebuilt to what it was when two
  users were stored with one email and the second was deleted. The replica that applied the log no
  longer finds the first user by email, the one that restored its snapshot does. The API checks
  the email before it proposes the command, so two concurrent requests can get there.\<close>

lemma duplicate_email_diverges:
  "User ''u'' (run_log sample_duplicate_users New) \<noteq> None
   \<and> UserByEmail ''a@b'' (run_log sample_duplicate_users New) = None
   \<and> UserByEmail ''a@b'' (RestoreProto (SnapshotProto 0 (run_log sample_duplicate_users New)) New) \<noteq> None"
  by (simp add: sample_duplicate_users_def entry_def FSM_Apply_def fsm_apply_def MarkApplied_def
      appliedRingCap_def New_def PutUser_def DeleteUser_def touch_def Let_def zero_user_def meta_of_def
      User_def UserByEmail_def RestoreProto_def SnapshotProto_def restoredKinds_def resetLocked_def load_def mvals_def)

end
