(* ===== verification/Platform.thy ===== *)
theory Platform
  imports GoStrings
begin

text \<open>
  OCI platform strings, \<^verbatim>\<open>internal/pkgutil/platform/platform.go\<close>. \<open>Normalize\<close> returns the
  error as a constructor of \<open>platform_error\<close> on the left of a sum.
\<close>

datatype platform_error = NotAPair string | UnknownOS string string | UnknownArch string string

definition archAliases :: "(string, string) gomap" where
  "archAliases =
     [(''x86_64'', ''amd64''), (''x86-64'', ''amd64''), (''aarch64'', ''arm64''),
      (''arm64/v8'', ''arm64''), (''armv7l'', ''arm''), (''arm/v7'', ''arm'')]"

definition knownOS :: "string list" where
  "knownOS = [''linux'', ''darwin'', ''windows'', ''freebsd'']"

definition knownArch :: "string list" where
  "knownArch = [''amd64'', ''arm64'', ''arm'', ''386'', ''riscv64'', ''ppc64le'', ''s390x'']"

definition Normalize :: "string \<Rightarrow> platform_error + string" where
  "Normalize s =
     (let p = ToLower (TrimSpace s)
      in case Cut (CHR ''/'') p of (osPart, arch0, ok) \<Rightarrow>
         if \<not> ok \<or> osPart = [] \<or> arch0 = [] then Inl (NotAPair s)
         else let archPart = (case map_of archAliases arch0 of Some a \<Rightarrow> a | None \<Rightarrow> arch0)
              in if osPart \<notin> set knownOS then Inl (UnknownOS osPart s)
                 else if archPart \<notin> set knownArch then Inl (UnknownArch archPart s)
                 else Inr (osPart @ ''/'' @ archPart))"

definition loose :: "string \<Rightarrow> string" where
  "loose s = (case Normalize s of Inr n \<Rightarrow> n | Inl _ \<Rightarrow> ToLower (TrimSpace s))"

definition Supports :: "string \<Rightarrow> string list \<Rightarrow> bool" where
  "Supports nodeArch platforms =
     (if platforms = [] then True
      else let node = loose nodeArch in list_ex (\<lambda>p. loose p = node) platforms)"

subsection \<open>Canonical platforms\<close>

definition canonical :: "string list" where
  "canonical = [os @ ''/'' @ arch. os \<leftarrow> knownOS, arch \<leftarrow> knownArch]"

lemma Normalize_canonical_all: "list_all (\<lambda>p. Normalize p = Inr p) canonical"
  by code_simp

lemma Normalize_range: "Normalize s = Inr p \<Longrightarrow> p \<in> set canonical"
  by (auto simp: Normalize_def canonical_def Let_def split: prod.splits if_splits)

text \<open>Platforms, functional: \<open>Normalize\<close> only returns the 28 canonical platforms, and is the
  identity on them, so normalising twice changes nothing.
\<close>

theorem Normalize_idempotent:
  assumes "Normalize s = Inr p"
  shows "p \<in> set canonical \<and> Normalize p = Inr p"
  using Normalize_range [OF assms] Normalize_canonical_all by (simp add: list_all_iff)

theorem Normalize_idempotent_witness:
  "''linux/arm64'' \<in> set canonical \<and> Normalize ''linux/arm64'' = Inr ''linux/arm64''"
proof (rule Normalize_idempotent)
  show "Normalize '' Linux/AArch64'' = Inr ''linux/arm64''" by code_simp
qed

lemma loose_Normalize: "Normalize s = Inr p \<Longrightarrow> loose s = p"
  by (simp add: loose_def)

lemma Supports_iff: "Supports n ps \<longleftrightarrow> ps = [] \<or> loose n \<in> loose ` set ps"
  by (auto simp: Supports_def Let_def list_ex_iff image_iff) (metis)

end
