(* ===== verification/Placement.thy ===== *)
theory Placement
  imports StoreFacts Platform
begin

text \<open>
  Placement, \<^verbatim>\<open>internal/daemon/scheduler/placement.go\<close>, with the release and node predicates
  of \<^verbatim>\<open>helpers.go\<close> it uses. Reservations are 32-bit words and wrap as in Go. A Go map with
  integer or struct values that is read with the zero value for an absent key is read through
  \<open>mget\<close>. \<^verbatim>\<open>int\<close> counters, which count objects held in memory, are unbounded integers.
\<close>

definition mget :: "'v \<Rightarrow> ('k, 'v) gomap \<Rightarrow> 'k \<Rightarrow> 'v" where
  "mget z m k = (case map_of m k of None \<Rightarrow> z | Some v \<Rightarrow> v)"

lemma mget_mput [simp]: "mget z (mput k v m) k' = (if k' = k then v else mget z m k')"
  by (simp add: mget_def)

lemma mget_Nil [simp]: "mget z [] k = z"
  by (simp add: mget_def)

subsection \<open>Reservations\<close>

definition defaultReserveCPUMillis :: uint32 where "defaultReserveCPUMillis = 100"
definition defaultReserveMemoryMB :: uint32 where "defaultReserveMemoryMB = 256"

record resources =
  res_cpuMillis :: uint32
  res_memoryMB :: uint32

definition no_resources :: resources where
  "no_resources = \<lparr>res_cpuMillis = 0, res_memoryMB = 0\<rparr>"

definition resources_add :: "resources \<Rightarrow> resources \<Rightarrow> resources" where
  "resources_add r q = \<lparr>res_cpuMillis = res_cpuMillis r + res_cpuMillis q,
                        res_memoryMB = res_memoryMB r + res_memoryMB q\<rparr>"

definition effectiveResources :: "ServiceSpec option \<Rightarrow> resources" where
  "effectiveResources spec =
     (let cpu = (case spec of None \<Rightarrow> 0 | Some x \<Rightarrow> cpu_millis (svc_resources x));
          mem = (case spec of None \<Rightarrow> 0 | Some x \<Rightarrow> memory_mb (svc_resources x))
      in \<lparr>res_cpuMillis = (if cpu = 0 then defaultReserveCPUMillis else cpu),
          res_memoryMB = (if mem = 0 then defaultReserveMemoryMB else mem)\<rparr>)"

definition reservationsByNode :: "Store \<Rightarrow> (string, resources) gomap" where
  "reservationsByNode st =
     fold (\<lambda>a out.
       if asg_desired a \<noteq> ASSIGNMENT_DESIRED_RUN then out
       else mput (asg_node_id a)
              (resources_add (mget no_resources out (asg_node_id a))
                 (effectiveResources (map_option rel_service (Release (asg_release_id a) st)))) out)
       (ListAssignments '''' st) []"

definition fits :: "resources \<Rightarrow> resources \<Rightarrow> ResourceLimits \<Rightarrow> bool" where
  "fits cur need cap =
     (if cpu_millis cap \<noteq> 0 \<and> res_cpuMillis cur + res_cpuMillis need > cpu_millis cap then False
      else if memory_mb cap \<noteq> 0 \<and> res_memoryMB cur + res_memoryMB need > memory_mb cap then False
      else True)"

definition MaxInt64 :: int where "MaxInt64 = 2 ^ 63 - 1"

definition freeMemory :: "ResourceLimits \<Rightarrow> resources \<Rightarrow> int" where
  "freeMemory cap cur =
     (if memory_mb cap = 0 then MaxInt64
      else let free = uint (memory_mb cap) - uint (res_memoryMB cur)
           in if free < 0 then 0 else free)"

definition regionOf :: "Node \<Rightarrow> string" where
  "regionOf n = mget '''' (node_labels n) ''region''"

definition labelsMatch :: "(string, string) gomap \<Rightarrow> (string, string) gomap \<Rightarrow> bool" where
  "labelsMatch nodeLabels constraints = list_all (\<lambda>(k, v). mget '''' nodeLabels k = v) constraints"

definition formatConstraints :: "(string, string) gomap \<Rightarrow> string" where
  "formatConstraints c = Join (sort (map (\<lambda>(k, v). k @ ''='' @ v) c)) '',''"

definition pinnedNodeID :: "Store \<Rightarrow> ServiceSpec \<Rightarrow> string \<Rightarrow> string" where
  "pinnedNodeID st spec envID =
     (if \<not> svc_stateful spec \<or> svc_volumes spec = [] then ''''
      else case Environment envID st of
             None \<Rightarrow> ''''
           | Some env \<Rightarrow>
               (case find (\<lambda>vm. case VolumeByName (env_project_id env) envID (vm_volume_name vm) st of
                                  None \<Rightarrow> False | Some v \<Rightarrow> vol_node_id v \<noteq> '''')
                      (svc_volumes spec) of
                  None \<Rightarrow> ''''
                | Some vm \<Rightarrow>
                    (case VolumeByName (env_project_id env) envID (vm_volume_name vm) st of
                       None \<Rightarrow> '''' | Some v \<Rightarrow> vol_node_id v)))"

subsection \<open>Scores\<close>

datatype scoreKey = ScoreKey (envReplicas: int) (regionReplicas: int) (negFreeMem: int) (key_nodeID: string)

definition score_less :: "scoreKey \<Rightarrow> scoreKey \<Rightarrow> bool" where
  "score_less k q =
     (if envReplicas k \<noteq> envReplicas q then envReplicas k < envReplicas q
      else if regionReplicas k \<noteq> regionReplicas q then regionReplicas k < regionReplicas q
      else if negFreeMem k \<noteq> negFreeMem q then negFreeMem k < negFreeMem q
      else key_nodeID k < key_nodeID q)"

text \<open>\<^verbatim>\<open>scoreKey.less\<close> is the order of the type.\<close>

instantiation scoreKey :: linorder
begin

definition less_scoreKey :: "scoreKey \<Rightarrow> scoreKey \<Rightarrow> bool" where
  "less_scoreKey k q = score_less k q"

definition less_eq_scoreKey :: "scoreKey \<Rightarrow> scoreKey \<Rightarrow> bool" where
  "less_eq_scoreKey k q = (k = q \<or> k < q)"

instance
  by standard (auto simp: less_scoreKey_def score_less_def less_eq_scoreKey_def scoreKey.expand split: if_splits)

end

subsection \<open>Candidates\<close>

definition excluded :: "(string, bool) gomap \<Rightarrow> string \<Rightarrow> bool" where
  "excluded exclude i = mget False exclude i"

definition eligible :: "Store \<Rightarrow> Release \<Rightarrow> string \<Rightarrow> (string, bool) gomap \<Rightarrow> Node \<Rightarrow> bool" where
  "eligible st rel envID exclude node =
     (\<not> excluded exclude (node_id node)
      \<and> node_status node = NODE_STATUS_ALIVE \<and> node_schedulable node
      \<and> Supports (node_os_arch node) (rel_platforms rel)
      \<and> labelsMatch (node_labels node) (svc_placement_constraints (rel_service rel))
      \<and> (pinnedNodeID st (rel_service rel) envID = '''' \<or> node_id node = pinnedNodeID st (rel_service rel) envID))"

text \<open>The filter loop: the candidates and whether some node was turned down for its architecture or
  its labels.\<close>

fun candidates ::
  "string list \<Rightarrow> (string, string) gomap \<Rightarrow> string \<Rightarrow> (string, bool) gomap \<Rightarrow> Node list \<Rightarrow> Node list \<times> bool \<times> bool" where
  "candidates platforms constraints pinned exclude [] = ([], False, False)"
| "candidates platforms constraints pinned exclude (node # ns) =
     (case candidates platforms constraints pinned exclude ns of (cands, archRejected, labelRejected) \<Rightarrow>
        if excluded exclude (node_id node) then (cands, archRejected, labelRejected)
        else if node_status node \<noteq> NODE_STATUS_ALIVE \<or> \<not> node_schedulable node
        then (cands, archRejected, labelRejected)
        else if \<not> Supports (node_os_arch node) platforms then (cands, True, labelRejected)
        else if \<not> labelsMatch (node_labels node) constraints then (cands, archRejected, True)
        else if pinned \<noteq> '''' \<and> node_id node \<noteq> pinned then (cands, archRejected, labelRejected)
        else (node # cands, archRejected, labelRejected))"

subsection \<open>Greedy picking\<close>

definition envByNode :: "string \<Rightarrow> Store \<Rightarrow> (string, int) gomap" where
  "envByNode envID st =
     fold (\<lambda>a m. if asg_desired a = ASSIGNMENT_DESIRED_RUN
                 then mput (asg_node_id a) (mget 0 m (asg_node_id a) + 1) m else m)
       (ListAssignments envID st) []"

definition envByRegion :: "Store \<Rightarrow> (string, int) gomap \<Rightarrow> (string, int) gomap" where
  "envByRegion st byNode =
     fold (\<lambda>(n, c) m. case Node n st of
                         None \<Rightarrow> m
                       | Some node \<Rightarrow> mput (regionOf node) (mget 0 m (regionOf node) + c) m) byNode []"

record picker =
  pk_picked :: "string list"
  pk_addRes :: "(string, resources) gomap"
  pk_pickEnv :: "(string, int) gomap"
  pk_pickRegion :: "(string, int) gomap"

record place_ctx =
  pc_need :: resources
  pc_reserved :: "(string, resources) gomap"
  pc_envByNode :: "(string, int) gomap"
  pc_envByRegion :: "(string, int) gomap"
  pc_cands :: "Node list"

definition cur_reserved :: "place_ctx \<Rightarrow> picker \<Rightarrow> string \<Rightarrow> resources" where
  "cur_reserved c pk i = resources_add (mget no_resources (pc_reserved c) i) (mget no_resources (pk_addRes pk) i)"

definition score :: "place_ctx \<Rightarrow> picker \<Rightarrow> Node \<Rightarrow> scoreKey" where
  "score c pk node =
     ScoreKey (mget 0 (pc_envByNode c) (node_id node) + mget 0 (pk_pickEnv pk) (node_id node))
       (mget 0 (pc_envByRegion c) (regionOf node) + mget 0 (pk_pickRegion pk) (regionOf node))
       (- freeMemory (node_capacity node) (cur_reserved c pk (node_id node)))
       (node_id node)"

definition placeable :: "place_ctx \<Rightarrow> picker \<Rightarrow> Node \<Rightarrow> bool" where
  "placeable c pk node = fits (cur_reserved c pk (node_id node)) (pc_need c) (node_capacity node)"

fun best_node :: "place_ctx \<Rightarrow> picker \<Rightarrow> Node list \<Rightarrow> Node option \<Rightarrow> Node option" where
  "best_node c pk [] best = best"
| "best_node c pk (node # ns) best =
     (if \<not> placeable c pk node then best_node c pk ns best
      else case best of
             None \<Rightarrow> best_node c pk ns (Some node)
           | Some b \<Rightarrow> if score c pk node < score c pk b then best_node c pk ns (Some node)
                       else best_node c pk ns best)"

definition pick :: "place_ctx \<Rightarrow> Node \<Rightarrow> picker \<Rightarrow> picker" where
  "pick c best pk =
     (let i = node_id best; r = regionOf best
      in \<lparr>pk_picked = pk_picked pk @ [i],
          pk_addRes = mput i (resources_add (mget no_resources (pk_addRes pk) i) (pc_need c)) (pk_addRes pk),
          pk_pickEnv = mput i (mget 0 (pk_pickEnv pk) i + 1) (pk_pickEnv pk),
          pk_pickRegion = mput r (mget 0 (pk_pickRegion pk) r + 1) (pk_pickRegion pk)\<rparr>)"

fun pick_loop :: "place_ctx \<Rightarrow> nat \<Rightarrow> picker \<Rightarrow> picker" where
  "pick_loop c 0 pk = pk"
| "pick_loop c (Suc n) pk =
     (case best_node c pk (pc_cands c) None of
        None \<Rightarrow> pk
      | Some best \<Rightarrow> pick_loop c n (pick c best pk))"

definition no_picks :: picker where
  "no_picks = \<lparr>pk_picked = [], pk_addRes = [], pk_pickEnv = [], pk_pickRegion = []\<rparr>"

datatype placement_error =
    UnsupportedArch "string list" string
  | UnmatchedConstraints "(string, string) gomap" string
  | PartiallyPlaced int int string

definition place_ctx_of :: "Store \<Rightarrow> Release \<Rightarrow> string \<Rightarrow> Node list \<Rightarrow> place_ctx" where
  "place_ctx_of st rel envID cands =
     \<lparr>pc_need = effectiveResources (Some (rel_service rel)),
      pc_reserved = reservationsByNode st,
      pc_envByNode = envByNode envID st,
      pc_envByRegion = envByRegion st (envByNode envID st),
      pc_cands = cands\<rparr>"

definition Place ::
  "Store \<Rightarrow> Release \<Rightarrow> string \<Rightarrow> int \<Rightarrow> (string, bool) gomap \<Rightarrow> string list \<times> placement_error option" where
  "Place st rel envID n exclude =
     (if n \<le> 0 then ([], None)
      else
        let spec = rel_service rel;
            pinned = pinnedNodeID st spec envID
        in case candidates (rel_platforms rel) (svc_placement_constraints spec) pinned exclude (ListNodes st) of
             (cands, archRejected, labelRejected) \<Rightarrow>
               if cands = [] \<and> archRejected then ([], Some (UnsupportedArch (rel_platforms rel) envID))
               else if cands = [] \<and> labelRejected
               then ([], Some (UnmatchedConstraints (svc_placement_constraints spec) envID))
               else let picked = pk_picked (pick_loop (place_ctx_of st rel envID cands) (nat n) no_picks)
                    in if int (length picked) < n then (picked, Some (PartiallyPlaced (int (length picked)) n envID))
                       else (picked, None))"

subsection \<open>What the loops compute\<close>

lemma candidates_filter:
  "fst (candidates (rel_platforms rel) (svc_placement_constraints (rel_service rel))
          (pinnedNodeID st (rel_service rel) envID) exclude ns) =
   filter (eligible st rel envID exclude) ns"
  by (induction ns) (auto simp: eligible_def split_def)

lemma best_node_Some:
  assumes "best_node c pk ns best = Some b" and "\<And>x. best = Some x \<Longrightarrow> x \<in> A \<and> placeable c pk x"
  shows "b \<in> A \<union> set ns \<and> placeable c pk b
    \<and> (\<forall>x \<in> set ns. placeable c pk x \<longrightarrow> score c pk b \<le> score c pk x)
    \<and> (\<forall>x. best = Some x \<longrightarrow> score c pk b \<le> score c pk x)"
  using assms
proof (induction c pk ns best arbitrary: A rule: best_node.induct)
  case (2 c pk node ns best)
  show ?case
  proof (cases "placeable c pk node")
    case False
    with 2(1) [OF False, of A] 2(5,6) show ?thesis by auto
  next
    case True
    show ?thesis
    proof (cases best)
      case None
      with 2(2) [of "insert node A"] True 2(5) show ?thesis by auto
    next
      case (Some y)
      show ?thesis
      proof (cases "score c pk node < score c pk y")
        case less: True
        with 2(3) [of y "insert node A"] True Some 2(5,6) show ?thesis
          by (auto dest: less_imp_le intro: order_trans)
      next
        case False
        with 2(4) [of y A] True Some 2(5,6)
        have ih: "b \<in> A \<union> set ns" "placeable c pk b" "score c pk b \<le> score c pk y"
          "\<forall>x \<in> set ns. placeable c pk x \<longrightarrow> score c pk b \<le> score c pk x"
          by simp_all
        moreover have "score c pk b \<le> score c pk node"
          using ih(3) False by (simp add: not_less order_trans)
        ultimately show ?thesis using Some by auto
      qed
    qed
  qed
qed auto

lemma best_node_None: "best_node c pk ns best = None \<longleftrightarrow> best = None \<and> (\<forall>x \<in> set ns. \<not> placeable c pk x)"
  by (induction c pk ns best rule: best_node.induct) (auto split: option.splits)

text \<open>The greedy loop as a relation: each pick takes a candidate that fits and scores lowest.\<close>

inductive picks :: "place_ctx \<Rightarrow> picker \<Rightarrow> picker \<Rightarrow> bool" for c where
  start: "picks c pk pk"
| more: "picks c pk pk' \<Longrightarrow> b \<in> set (pc_cands c) \<Longrightarrow> placeable c pk' b \<Longrightarrow>
    (\<forall>x \<in> set (pc_cands c). placeable c pk' x \<longrightarrow> score c pk' b \<le> score c pk' x) \<Longrightarrow>
    picks c pk (pick c b pk')"

lemma picks_trans: "picks c q r \<Longrightarrow> picks c p q \<Longrightarrow> picks c p r"
  by (induction rule: picks.induct) (auto intro: picks.intros)

lemma pick_loop_picks: "picks c pk (pick_loop c n pk)"
proof (induction c n pk rule: pick_loop.induct)
  case (2 c n pk)
  show ?case
  proof (cases "best_node c pk (pc_cands c) None")
    case (Some b)
    from best_node_Some [OF this, of "{}"] have "picks c pk (pick c b pk)"
      by (auto intro: picks.more picks.start)
    with 2 Some show ?thesis by (auto intro: picks_trans)
  qed (auto intro: picks.start)
qed (auto intro: picks.start)

lemma length_pick [simp]: "length (pk_picked (pick c b pk)) = Suc (length (pk_picked pk))"
  by (simp add: pick_def Let_def)

lemma pick_loop_length:
  "length (pk_picked (pick_loop c n pk)) \<le> length (pk_picked pk) + n
   \<and> (length (pk_picked (pick_loop c n pk)) < length (pk_picked pk) + n \<longrightarrow>
        (\<forall>x \<in> set (pc_cands c). \<not> placeable c (pick_loop c n pk) x))"
proof (induction c n pk rule: pick_loop.induct)
  case (2 c n pk)
  show ?case
  proof (cases "best_node c pk (pc_cands c) None")
    case None
    then show ?thesis using best_node_None [of c pk "pc_cands c" None] by simp
  next
    case (Some b)
    with 2 [OF Some] show ?thesis by (auto simp del: length_pick) (simp_all)
  qed
qed simp

lemma picks_cands:
  "picks c pk pk' \<Longrightarrow> set (pk_picked pk') \<subseteq> set (pk_picked pk) \<union> node_id ` set (pc_cands c)"
  by (induction rule: picks.induct) (auto simp: pick_def Let_def)

subsection \<open>Capacity\<close>

definition res_times :: "nat \<Rightarrow> resources \<Rightarrow> resources" where
  "res_times k r = \<lparr>res_cpuMillis = of_nat k * res_cpuMillis r, res_memoryMB = of_nat k * res_memoryMB r\<rparr>"

definition within :: "resources \<Rightarrow> ResourceLimits \<Rightarrow> bool" where
  "within r cap = ((cpu_millis cap = 0 \<or> res_cpuMillis r \<le> cpu_millis cap)
                   \<and> (memory_mb cap = 0 \<or> res_memoryMB r \<le> memory_mb cap))"

lemma fits_within: "fits cur need cap = within (resources_add cur need) cap"
  by (auto simp: fits_def within_def resources_add_def not_less)

lemma res_times_Suc: "resources_add (res_times k r) r = res_times (Suc k) r"
  by (simp add: res_times_def resources_add_def algebra_simps)

lemma resources_add_assoc: "resources_add (resources_add a b) c = resources_add a (resources_add b c)"
  by (simp add: resources_add_def add.assoc)

lemma count_pick:
  "count_list (pk_picked (pick c b pk)) i = count_list (pk_picked pk) i + (if i = node_id b then 1 else 0)"
  by (simp add: pick_def Let_def)

lemma picks_addRes:
  assumes "picks c no_picks pk"
  shows "mget no_resources (pk_addRes pk) i = res_times (count_list (pk_picked pk) i) (pc_need c)"
  using assms
proof (induction no_picks pk rule: picks.induct)
  case start
  show ?case by (simp add: no_picks_def res_times_def no_resources_def)
next
  case (more pk' b)
  then show ?case
    by (cases "i = node_id b") (simp_all add: count_pick, simp_all add: pick_def Let_def res_times_Suc)
qed

lemma picks_capacity:
  assumes "picks c no_picks pk" and "inj_on node_id (set (pc_cands c))"
    and "node \<in> set (pc_cands c)" and "node_id node \<in> set (pk_picked pk)"
  shows "within (resources_add (mget no_resources (pc_reserved c) (node_id node))
           (res_times (count_list (pk_picked pk) (node_id node)) (pc_need c))) (node_capacity node)"
  using assms
proof (induction no_picks pk rule: picks.induct)
  case start
  then show ?case by (simp add: no_picks_def)
next
  case (more pk' b)
  let ?cur = "mget no_resources (pc_reserved c) (node_id node)"
  show ?case
  proof (cases "node_id node = node_id b")
    case True
    then have "b = node" using more by (auto dest: inj_onD)
    with more(4) picks_addRes [OF more(1)]
    have "within (resources_add (resources_add ?cur (res_times (count_list (pk_picked pk') (node_id node)) (pc_need c)))
      (pc_need c)) (node_capacity node)"
      by (simp add: placeable_def fits_within cur_reserved_def)
    with True show ?thesis by (simp add: resources_add_assoc res_times_Suc count_pick)
  next
    case False
    with more show ?thesis by (simp add: count_pick) (simp add: pick_def Let_def)
  qed
qed

lemma unat_add_times:
  fixes r q :: uint32
  assumes "unat r + k * unat q < 2 ^ 32"
  shows "unat (r + of_nat k * q) = unat r + k * unat q"
proof -
  have "r + of_nat k * q = of_nat (unat r + k * unat q)" by simp
  with assms show ?thesis by (simp only: unat_of_nat) (simp add: take_bit_nat_eq_self)
qed

subsection \<open>Properties of a placement\<close>

lemma pick_loop_from_none:
  "length (pk_picked (pick_loop c n no_picks)) \<le> n"
  "length (pk_picked (pick_loop c n no_picks)) < n \<Longrightarrow>
     x \<in> set (pc_cands c) \<Longrightarrow> \<not> placeable c (pick_loop c n no_picks) x"
  using pick_loop_length [where c = c and n = n and pk = no_picks] by (simp_all add: no_picks_def)

definition picker_of :: "Store \<Rightarrow> Release \<Rightarrow> string \<Rightarrow> int \<Rightarrow> (string, bool) gomap \<Rightarrow> picker" where
  "picker_of st rel envID n exclude =
     pick_loop (place_ctx_of st rel envID (filter (eligible st rel envID exclude) (ListNodes st))) (nat n) no_picks"

lemma Place_cases:
  fixes st rel envID n exclude
  defines "picked \<equiv> pk_picked (picker_of st rel envID n exclude)"
  obtains (none) "n \<le> 0" "Place st rel envID n exclude = ([], None)"
  | (filtered) e where "0 < n" "filter (eligible st rel envID exclude) (ListNodes st) = []"
      "Place st rel envID n exclude = ([], Some e)"
  | (short) "0 < n" "int (length picked) < n"
      "Place st rel envID n exclude = (picked, Some (PartiallyPlaced (int (length picked)) n envID))"
  | (full) "0 < n" "int (length picked) = n" "Place st rel envID n exclude = (picked, None)"
proof -
  let ?cands = "filter (eligible st rel envID exclude) (ListNodes st)"
  obtain ar lr where cand: "candidates (rel_platforms rel) (svc_placement_constraints (rel_service rel))
      (pinnedNodeID st (rel_service rel) envID) exclude (ListNodes st) = (?cands, ar, lr)"
    using candidates_filter [of rel st envID exclude "ListNodes st"] by (metis prod.collapse)
  consider "n \<le> 0" | "0 < n" "?cands = []" "ar \<or> lr" | "0 < n" "\<not> (?cands = [] \<and> (ar \<or> lr))" by linarith
  then show thesis
  proof cases
    case 1
    then show ?thesis by (intro none) (simp_all add: Place_def)
  next
    case 2
    then show ?thesis by (cases ar) (auto simp: Place_def cand intro!: filtered simp del: filter_empty_conv)
  next
    case 3
    have "int (length picked) \<le> n"
      using pick_loop_from_none(1) [of "place_ctx_of st rel envID ?cands" "nat n"] 3(1)
      by (simp add: picked_def picker_of_def le_nat_iff)
    moreover have "Place st rel envID n exclude =
        (if int (length picked) < n then (picked, Some (PartiallyPlaced (int (length picked)) n envID)) else (picked, None))"
      using 3 by (auto simp: Place_def cand Let_def picked_def picker_of_def simp del: filter_empty_conv)
    ultimately show ?thesis using short full 3(1) by (cases "int (length picked) < n") auto
  qed
qed

lemma Place_picked:
  "fst (Place st rel envID n exclude) = [] \<or>
   fst (Place st rel envID n exclude) = pk_picked (picker_of st rel envID n exclude)"
  by (rule Place_cases [of n st rel envID exclude]) auto

lemma ListNodes_iff: "store_inv st \<Longrightarrow> node \<in> set (ListNodes st) \<longleftrightarrow> Node (node_id node) st = Some node"
  using node_rc.in_list_iff [OF store_keyed(5)] by blast

lemma ListNodes_inj: "store_inv st \<Longrightarrow> inj_on node_id (set (ListNodes st))"
  using keyed_inj_on [OF store_keyed(5)] by (simp add: ListNodes_def sortByID_def)

lemma picker_of_eligible:
  assumes "store_inv st" and "i \<in> set (pk_picked (picker_of st rel envID n exclude))"
  shows "\<exists>node. Node i st = Some node \<and> eligible st rel envID exclude node"
proof -
  let ?c = "place_ctx_of st rel envID (filter (eligible st rel envID exclude) (ListNodes st))"
  have "i \<in> node_id ` set (pc_cands ?c)"
    using picks_cands [OF pick_loop_picks [of ?c no_picks "nat n"]] assms(2)
    by (auto simp: no_picks_def picker_of_def)
  then show ?thesis using ListNodes_iff [OF assms(1)] by (auto simp: place_ctx_of_def)
qed

lemma Place_spec:
  assumes "store_inv st"
  shows "(\<forall>i \<in> set (fst (Place st rel envID n exclude)).
            \<exists>node. Node i st = Some node \<and> eligible st rel envID exclude node)
    \<and> int (length (fst (Place st rel envID n exclude))) \<le> max 0 n
    \<and> (snd (Place st rel envID n exclude) = None) = (int (length (fst (Place st rel envID n exclude))) = max 0 n)"
proof -
  have "\<exists>node. Node i st = Some node \<and> eligible st rel envID exclude node"
    if "i \<in> set (fst (Place st rel envID n exclude))" for i
    using that picker_of_eligible [OF assms] Place_picked [of st rel envID n exclude] by fastforce
  then show ?thesis
    by (cases rule: Place_cases [of n st rel envID exclude]) auto
qed

text \<open>C29 (placement is sound): every node a placement returns is stored, alive, schedulable, not
  excluded, of a supported architecture and with the required labels, and is the volume's node for
  a pinned service; at most the requested number is returned, and exactly that number when there is
  no error.\<close>

theorem Place_sound:
  assumes "store_inv st"
  shows "(\<forall>i \<in> set (fst (Place st rel envID n exclude)).
            \<exists>node. Node i st = Some node \<and> eligible st rel envID exclude node)
    \<and> int (length (fst (Place st rel envID n exclude))) \<le> max 0 n
    \<and> (snd (Place st rel envID n exclude) = None) = (int (length (fst (Place st rel envID n exclude))) = max 0 n)"
  by (rule Place_spec [OF assms])

definition sample_place_node :: "string \<Rightarrow> Node" where
  "sample_place_node i = zero_node\<lparr>node_meta := meta_of i, node_status := NODE_STATUS_ALIVE, node_schedulable := True,
     node_capacity := \<lparr>cpu_millis = 1000, memory_mb = 512\<rparr>\<rparr>"

definition sample_place_log :: "log_entry list" where
  "sample_place_log = [entry 1 ''r1'' (Command_PutNode (sample_place_node ''n1'')),
                       entry 2 ''r2'' (Command_PutNode (sample_place_node ''n2''))]"

lemma sample_place_nodes:
  "ListNodes (run_log sample_place_log New) = [sample_place_node ''n1'', sample_place_node ''n2'']"
  "Node ''n1'' (run_log sample_place_log New) = Some (sample_place_node ''n1'')"
  "assignments (run_log sample_place_log New) = []"
  by (simp_all add: sample_place_log_def entry_def FSM_Apply_def fsm_apply_def MarkApplied_def appliedRingCap_def
    New_def PutNode_def touch_def Let_def sample_place_node_def zero_node_def meta_of_def ListNodes_def
    sortByID_def mvals_def Node_def)

definition sample_spread_log :: "log_entry list" where
  "sample_spread_log =
     [entry 1 ''r1'' (Command_PutNode ((sample_place_node ''n1'')\<lparr>node_capacity := zero_limits\<rparr>)),
      entry 2 ''r2'' (Command_PutNode ((sample_place_node ''n2'')\<lparr>node_capacity := zero_limits\<rparr>))]"

lemma sample_place_eval:
  "Place (run_log sample_place_log New) zero_release ''e'' 3 [] = ([''n1'', ''n2'', ''n1''], None)
   \<and> Place (run_log sample_place_log New) zero_release ''e'' 5 [] =
       ([''n1'', ''n2'', ''n1'', ''n2''], Some (PartiallyPlaced 4 5 ''e''))
   \<and> Place (run_log sample_spread_log New) zero_release ''e'' 3 [] = ([''n1'', ''n2'', ''n1''], None)
   \<and> Node ''n1'' (run_log sample_spread_log New) = Some ((sample_place_node ''n1'')\<lparr>node_capacity := zero_limits\<rparr>)
   \<and> Node ''n2'' (run_log sample_spread_log New) = Some ((sample_place_node ''n2'')\<lparr>node_capacity := zero_limits\<rparr>)
   \<and> eligible (run_log sample_spread_log New) zero_release ''e'' [] ((sample_place_node ''n2'')\<lparr>node_capacity := zero_limits\<rparr>)"
  by code_simp

lemma sample_place:
  "Place (run_log sample_place_log New) zero_release ''e'' 3 [] = ([''n1'', ''n2'', ''n1''], None)"
  using sample_place_eval by (elim conjE)

theorem Place_sound_witness:
  "\<exists>node. Node ''n1'' (run_log sample_place_log New) = Some node
     \<and> eligible (run_log sample_place_log New) zero_release ''e'' [] node"
  using Place_sound [OF reachable_inv, of sample_place_log zero_release "''e''" 3 "[]"]
  by (simp add: sample_place)

text \<open>C28 (placement respects capacity): after a placement, the declared reservations of a picked node
  plus what the new replicas reserve stay within its capacity in each reported dimension, as long as
  the sums fit 32 bits.\<close>

theorem Place_capacity:
  fixes st rel envID n exclude i
  defines "picked \<equiv> fst (Place st rel envID n exclude)"
  defines "need \<equiv> effectiveResources (Some (rel_service rel))"
  defines "res \<equiv> mget no_resources (reservationsByNode st) i"
  assumes "store_inv st" and "Node i st = Some node" and "i \<in> set picked"
    and "unat (res_cpuMillis res) + count_list picked i * unat (res_cpuMillis need) < 2 ^ 32"
    and "unat (res_memoryMB res) + count_list picked i * unat (res_memoryMB need) < 2 ^ 32"
  shows "(cpu_millis (node_capacity node) \<noteq> 0 \<longrightarrow>
            unat (res_cpuMillis res) + count_list picked i * unat (res_cpuMillis need)
              \<le> unat (cpu_millis (node_capacity node)))
    \<and> (memory_mb (node_capacity node) \<noteq> 0 \<longrightarrow>
            unat (res_memoryMB res) + count_list picked i * unat (res_memoryMB need)
              \<le> unat (memory_mb (node_capacity node)))"
proof -
  let ?cands = "filter (eligible st rel envID exclude) (ListNodes st)"
  let ?c = "place_ctx_of st rel envID ?cands"
  let ?pk = "picker_of st rel envID n exclude"
  have picked: "picked = pk_picked ?pk"
    using Place_picked [of st rel envID n exclude] assms(6) by (auto simp: picked_def)
  have node: "node_id node = i"
    using keyedD [OF store_keyed(5) [OF assms(4)]] assms(5) by (simp add: Node_def)
  have "node \<in> set (pc_cands ?c)"
    using picker_of_eligible [OF assms(4), of i rel envID n exclude] assms(5,6) picked node ListNodes_iff [OF assms(4)]
    by (auto simp: place_ctx_of_def)
  moreover have "inj_on node_id (set (pc_cands ?c))"
    using ListNodes_inj [OF assms(4)] by (auto simp: place_ctx_of_def inj_on_def)
  moreover have "picks ?c no_picks ?pk" by (simp add: picker_of_def pick_loop_picks)
  ultimately have "within (resources_add res (res_times (count_list picked i) need)) (node_capacity node)"
    using picks_capacity [of ?c ?pk node] assms(6) node picked
    by (simp add: place_ctx_of_def res_def need_def)
  with assms(7,8) show ?thesis
    by (auto simp: within_def resources_add_def res_times_def word_le_nat_alt unat_add_times)
qed

theorem Place_capacity_witness:
  "unat (memory_mb (node_capacity (sample_place_node ''n1''))) \<ge> 2 * 256"
  using Place_capacity [OF reachable_inv, of "''n1''" sample_place_log "sample_place_node ''n1''" zero_release "''e''" 3 "[]"]
    sample_place sample_place_nodes(2)
  by (simp add: reservationsByNode_def ListAssignments_def sortByID_def sample_place_nodes effectiveResources_def
    zero_release_def zero_spec_def zero_limits_def defaultReserveCPUMillis_def defaultReserveMemoryMB_def
    no_resources_def sample_place_node_def)

text \<open>Placement gives up only when nothing fits: a placement reports a shortage only when no
  eligible node has room for one more replica on top of its reservations and the replicas already
  picked for it.\<close>

theorem Place_shortage:
  assumes "store_inv st" and "snd (Place st rel envID n exclude) = Some (PartiallyPlaced k m e)"
    and "Node (node_id node) st = Some node" and "eligible st rel envID exclude node"
  shows "k < n \<and> \<not> fits (resources_add (mget no_resources (reservationsByNode st) (node_id node))
               (res_times (count_list (fst (Place st rel envID n exclude)) (node_id node))
                  (effectiveResources (Some (rel_service rel)))))
             (effectiveResources (Some (rel_service rel))) (node_capacity node)"
proof -
  let ?cands = "filter (eligible st rel envID exclude) (ListNodes st)"
  let ?c = "place_ctx_of st rel envID ?cands"
  have cand: "node \<in> set (pc_cands ?c)"
    using assms ListNodes_iff [OF assms(1)] by (simp add: place_ctx_of_def)
  show ?thesis
  proof (cases rule: Place_cases [of n st rel envID exclude])
    case (filtered e)
    with cand show ?thesis by (simp add: place_ctx_of_def)
  next
    case short
    have "picks ?c no_picks (picker_of st rel envID n exclude)" by (simp add: picker_of_def pick_loop_picks)
    note add = picks_addRes [OF this, of "node_id node"]
    have "\<not> placeable ?c (picker_of st rel envID n exclude) node"
      using pick_loop_from_none(2) [OF _ cand, of "nat n"] short(1,2) by (simp add: picker_of_def)
    with short assms(2) add show ?thesis
      by (auto simp: placeable_def cur_reserved_def place_ctx_of_def)
  qed (use assms(2) in auto)
qed

lemma sample_shortage:
  "Place (run_log sample_place_log New) zero_release ''e'' 5 [] =
     ([''n1'', ''n2'', ''n1'', ''n2''], Some (PartiallyPlaced 4 5 ''e''))"
  using sample_place_eval by (elim conjE)

theorem Place_shortage_witness:
  "\<not> fits (res_times 2 \<lparr>res_cpuMillis = 100, res_memoryMB = 256\<rparr>) \<lparr>res_cpuMillis = 100, res_memoryMB = 256\<rparr>
       (node_capacity (sample_place_node ''n1''))"
proof -
  let ?s = "run_log sample_place_log New"
  have "Node (node_id (sample_place_node ''n1'')) ?s = Some (sample_place_node ''n1'')"
    "eligible ?s zero_release ''e'' [] (sample_place_node ''n1'')"
    "effectiveResources (Some (rel_service zero_release)) = \<lparr>res_cpuMillis = 100, res_memoryMB = 256\<rparr>"
    "node_id (sample_place_node ''n1'') = ''n1''"
    by (simp_all add: sample_place_nodes sample_place_node_def meta_of_def eligible_def excluded_def Supports_def
      labelsMatch_def zero_release_def zero_spec_def pinnedNodeID_def effectiveResources_def zero_limits_def
      defaultReserveCPUMillis_def defaultReserveMemoryMB_def zero_node_def)
  moreover have "reservationsByNode ?s = []"
    by (simp add: reservationsByNode_def ListAssignments_def sortByID_def sample_place_nodes)
  ultimately show ?thesis
    using Place_shortage [OF reachable_inv, of sample_place_log zero_release "''e''" 5 "[]" 4 5 "''e''" "sample_place_node ''n1''"]
    by (simp add: sample_shortage no_resources_def resources_add_def res_times_def)
qed

subsection \<open>Spread\<close>

lemma score_le_env: "score c pk x \<le> score c pk y \<Longrightarrow> envReplicas (score c pk x) \<le> envReplicas (score c pk y)"
  by (auto simp: less_eq_scoreKey_def less_scoreKey_def score_less_def split: if_splits)

lemma pickEnv_mono: "mget 0 (pk_pickEnv pk) i \<le> mget 0 (pk_pickEnv (pick c b pk)) i"
  by (simp add: pick_def Let_def)

lemma picks_pickEnv:
  "picks c no_picks pk \<Longrightarrow> mget 0 (pk_pickEnv pk) i = int (count_list (pk_picked pk) i)"
  by (induction no_picks pk rule: picks.induct) (auto simp: no_picks_def pick_def Let_def)

lemma picks_spread:
  assumes "picks c no_picks pk" and "x \<in> set (pc_cands c)" and "y \<in> set (pc_cands c)"
    and "inj_on node_id (set (pc_cands c))" and "node_capacity y = \<lparr>cpu_millis = 0, memory_mb = 0\<rparr>"
    and "node_id x \<in> set (pk_picked pk)"
  shows "mget 0 (pc_envByNode c) (node_id x) + mget 0 (pk_pickEnv pk) (node_id x)
    \<le> mget 0 (pc_envByNode c) (node_id y) + mget 0 (pk_pickEnv pk) (node_id y) + 1"
  using assms
proof (induction no_picks pk rule: picks.induct)
  case start
  then show ?case by (simp add: no_picks_def)
next
  case (more pk' b)
  have mono: "mget 0 (pk_pickEnv pk') (node_id y) \<le> mget 0 (pk_pickEnv (pick c b pk')) (node_id y)"
    by (rule pickEnv_mono)
  show ?case
  proof (cases "node_id b = node_id x")
    case True
    then have "b = x" using more by (auto dest: inj_onD)
    moreover have "placeable c pk' y" using more by (simp add: placeable_def fits_def)
    ultimately have "envReplicas (score c pk' x) \<le> envReplicas (score c pk' y)"
      using more by (intro score_le_env) auto
    with \<open>b = x\<close> mono show ?thesis by (simp add: score_def) (simp add: pick_def Let_def)
  next
    case False
    with more mono show ?thesis by (simp add: pick_def Let_def)
  qed
qed

text \<open>
  Placement spreads: a placement never puts a replica on a node while another eligible node
  with unreported capacity would have at least two replicas of the environment fewer afterwards.\<close>

theorem Place_spread:
  fixes st rel envID n exclude
  defines "picked \<equiv> fst (Place st rel envID n exclude)"
  assumes "store_inv st" and "Node x st = Some nx" and "Node y st = Some ny"
    and "eligible st rel envID exclude ny" and "node_capacity ny = \<lparr>cpu_millis = 0, memory_mb = 0\<rparr>"
    and "x \<in> set picked"
  shows "mget 0 (envByNode envID st) x + int (count_list picked x)
    \<le> mget 0 (envByNode envID st) y + int (count_list picked y) + 1"
proof -
  let ?cands = "filter (eligible st rel envID exclude) (ListNodes st)"
  let ?c = "place_ctx_of st rel envID ?cands"
  let ?pk = "picker_of st rel envID n exclude"
  have picked: "picked = pk_picked ?pk"
    using Place_picked [of st rel envID n exclude] assms(7) by (auto simp: picked_def)
  have ids: "node_id nx = x" "node_id ny = y"
    using keyedD [OF store_keyed(5) [OF assms(2)]] assms(3,4) by (simp_all add: Node_def)
  have "nx \<in> set (pc_cands ?c)"
    using picker_of_eligible [OF assms(2), of x rel envID n exclude] assms(3,7) picked ids ListNodes_iff [OF assms(2)]
    by (auto simp: place_ctx_of_def)
  moreover have "ny \<in> set (pc_cands ?c)"
    using assms ids ListNodes_iff [OF assms(2)] by (simp add: place_ctx_of_def)
  moreover have "inj_on node_id (set (pc_cands ?c))"
    using ListNodes_inj [OF assms(2)] by (auto simp: place_ctx_of_def inj_on_def)
  moreover have p: "picks ?c no_picks ?pk" by (simp add: picker_of_def pick_loop_picks)
  ultimately show ?thesis
    using picks_spread [of ?c ?pk nx ny] assms(6,7) ids picked picks_pickEnv [OF p]
    by (simp add: place_ctx_of_def)
qed

lemma sample_spread:
  "Place (run_log sample_spread_log New) zero_release ''e'' 3 [] = ([''n1'', ''n2'', ''n1''], None)"
  "Node ''n1'' (run_log sample_spread_log New) = Some ((sample_place_node ''n1'')\<lparr>node_capacity := zero_limits\<rparr>)"
  "Node ''n2'' (run_log sample_spread_log New) = Some ((sample_place_node ''n2'')\<lparr>node_capacity := zero_limits\<rparr>)"
  "eligible (run_log sample_spread_log New) zero_release ''e'' [] ((sample_place_node ''n2'')\<lparr>node_capacity := zero_limits\<rparr>)"
  using sample_place_eval by blast+

theorem Place_spread_witness:
  "mget 0 (envByNode ''e'' (run_log sample_spread_log New)) ''n1'' + 2
   \<le> mget 0 (envByNode ''e'' (run_log sample_spread_log New)) ''n2'' + 1 + 1"
  using Place_spread [OF reachable_inv sample_spread(2,3,4), of 3] by (simp add: sample_spread(1) zero_limits_def)

text \<open>Without the bound on the sums a demand near the 32-bit limit wraps and is taken to fit: a node
  with 512 MB of which 256 MB are reserved accepts a replica that asks for 4294967295 MB.\<close>

lemma fits_wraps:
  "fits \<lparr>res_cpuMillis = 0, res_memoryMB = 256\<rparr> \<lparr>res_cpuMillis = 100, res_memoryMB = 4294967295\<rparr>
     \<lparr>cpu_millis = 1000, memory_mb = 512\<rparr>"
  by code_simp

subsection \<open>Messages\<close>

definition itoa_int :: "int \<Rightarrow> string" where
  "itoa_int n = (if n < 0 then ''-'' @ Itoa (nat (- n)) else Itoa (nat n))"

definition placement_error_string :: "placement_error \<Rightarrow> string" where
  "placement_error_string e =
     (case e of
        UnsupportedArch ps envID \<Rightarrow>
          ''placement: no node with a supported architecture (need one of '' @ Join ps '', '' @ '') for env '' @ envID
      | UnmatchedConstraints cs envID \<Rightarrow>
          ''placement: no node matches constraints '' @ formatConstraints cs @ '' for env '' @ envID
      | PartiallyPlaced k n envID \<Rightarrow>
          ''placement: only '' @ itoa_int k @ '' of '' @ itoa_int n @ '' replicas placeable for env '' @ envID
            @ '' (constraints/capacity)'')"

definition errString :: "placement_error option \<Rightarrow> string" where
  "errString e = (case e of None \<Rightarrow> ''unknown'' | Some x \<Rightarrow> placement_error_string x)"

end
