(* ===== verification/RaftStore.thy ===== *)
theory RaftStore
  imports StoreFacts
begin

text \<open>
  The leader's side of the replicated store, \<^verbatim>\<open>internal/daemon/raftstore/store.go\<close>: a control
  loop proposes a command and waits. What the Raft library answers is a parameter: the \<open>n\<close>-th
  proposal has the outcome \<open>raft_net ctl n\<close>, which may be that the command was applied although
  the call reports an error. Identifiers come from \<^verbatim>\<open>ids.New\<close>, the parameter \<open>new_id\<close>; a
  pass of a control loop runs at one instant, \<open>clock_now\<close>. The state a control loop works on is
  the store, the last log index, and the counters of identifiers and proposals.
\<close>

datatype raft_outcome =
    Committed
  | NotLeader
  | LeadershipLost bool
  | ProposalFailed bool

datatype apply_error = ErrNotLeader | ErrApply | ErrBusiness fsm_error

record Control =
  new_id :: "nat \<Rightarrow> string"
  raft_net :: "nat \<Rightarrow> raft_outcome"
  is_leader :: bool
  clock_now :: time
  drainDur :: duration

record World =
  w_state :: Store
  w_index :: uint64
  w_ids :: nat
  w_proposals :: nat

type_synonym action = "World \<Rightarrow> apply_error option \<times> World"

definition commit :: "Command \<Rightarrow> World \<Rightarrow> ApplyResult \<times> World" where
  "commit cmd w =
     (case FSM_Apply \<lparr>entry_index = w_index w + 1, entry_data = Some cmd\<rparr> (w_state w) of
        (res, s) \<Rightarrow> (res, w\<lparr>w_state := s, w_index := w_index w + 1\<rparr>))"

definition Store_Apply :: "Control \<Rightarrow> Command \<Rightarrow> action" where
  "Store_Apply ctl cmd w =
     (let w1 = w\<lparr>w_proposals := w_proposals w + 1\<rparr>;
          (res, w2) = commit cmd w1
      in case raft_net ctl (w_proposals w) of
           Committed \<Rightarrow> (map_option ErrBusiness (res_Err res), w2)
         | NotLeader \<Rightarrow> (Some ErrNotLeader, w1)
         | LeadershipLost applied \<Rightarrow> (Some ErrNotLeader, if applied then w2 else w1)
         | ProposalFailed applied \<Rightarrow> (Some ErrApply, if applied then w2 else w1))"

definition fresh_id :: "Control \<Rightarrow> World \<Rightarrow> string \<times> World" where
  "fresh_id ctl w = (new_id ctl (w_ids w), w\<lparr>w_ids := w_ids w + 1\<rparr>)"

text \<open>The \<^verbatim>\<open>apply\<close> helper every loop has: it stamps the command, proposes it, and passes on only
  the loss of leadership.\<close>

definition propose :: "Control \<Rightarrow> string \<Rightarrow> Mutation \<Rightarrow> action" where
  "propose ctl actor m w =
     (case fresh_id ctl w of (rid, w1) \<Rightarrow>
        (case Store_Apply ctl \<lparr>RequestId = rid, Actor = actor, Time = Some (clock_now ctl), Mutation = m\<rparr> w1 of
           (e, w2) \<Rightarrow> (if e = Some ErrNotLeader then Some ErrNotLeader else None, w2)))"

text \<open>Statement sequencing with the early return on an error.\<close>

definition and_then :: "action \<Rightarrow> action \<Rightarrow> action" where
  "and_then f g w = (case f w of (Some e, w') \<Rightarrow> (Some e, w') | (None, w') \<Rightarrow> g w')"

definition ret :: action where
  "ret w = (None, w)"

definition ignore :: "action \<Rightarrow> action" where
  "ignore f w = (None, snd (f w))"

subsection \<open>What a proposal can do\<close>

definition stamped :: "Control \<Rightarrow> string \<Rightarrow> Mutation \<Rightarrow> World \<Rightarrow> Command" where
  "stamped ctl actor m w =
     \<lparr>RequestId = new_id ctl (w_ids w), Actor = actor, Time = Some (clock_now ctl), Mutation = m\<rparr>"

definition applied :: "Control \<Rightarrow> string \<Rightarrow> Mutation \<Rightarrow> World \<Rightarrow> Store" where
  "applied ctl actor m w =
     snd (FSM_Apply \<lparr>entry_index = w_index w + 1, entry_data = Some (stamped ctl actor m w)\<rparr> (w_state w))"

lemma propose_state:
  "w_state (snd (propose ctl actor m w)) = w_state w \<or> w_state (snd (propose ctl actor m w)) = applied ctl actor m w"
  by (simp add: propose_def fresh_id_def Store_Apply_def commit_def applied_def stamped_def Let_def split_def
    split: raft_outcome.split)

lemma propose_committed:
  "raft_net ctl (w_proposals w) = Committed \<Longrightarrow>
     fst (propose ctl actor m w) = None \<and> w_state (snd (propose ctl actor m w)) = applied ctl actor m w
     \<and> w_ids (snd (propose ctl actor m w)) = w_ids w + 1
     \<and> w_proposals (snd (propose ctl actor m w)) = w_proposals w + 1"
  by (simp add: propose_def fresh_id_def Store_Apply_def commit_def applied_def stamped_def Let_def split_def)

lemma applied_inv: "store_inv (w_state w) \<Longrightarrow> store_inv (applied ctl actor m w)"
  by (simp add: applied_def store_inv_FSM_Apply)

lemma propose_inv: "store_inv (w_state w) \<Longrightarrow> store_inv (w_state (snd (propose ctl actor m w)))"
  using propose_state [of ctl actor m w] applied_inv [of w ctl actor m] by auto

subsection \<open>Effects of commands on the scheduler's tables\<close>

text \<open>The tables the control loops decide on, as finite maps, and the effect of each command on them.
  A command touches a table exactly as its effect says.\<close>

abbreviation asgs :: "Store \<Rightarrow> string \<Rightarrow> Assignment option" where "asgs s \<equiv> map_of (assignments s)"
abbreviation deps :: "Store \<Rightarrow> string \<Rightarrow> Deployment option" where "deps s \<equiv> map_of (deployments s)"
abbreviation envs :: "Store \<Rightarrow> string \<Rightarrow> Environment option" where "envs s \<equiv> map_of (environments s)"
abbreviation rels :: "Store \<Rightarrow> string \<Rightarrow> Release option" where "rels s \<equiv> map_of (releases s)"

lemma recorded_tables [simp]:
  "assignments (recorded e c s) = assignments s" "deployments (recorded e c s) = deployments s"
  "environments (recorded e c s) = environments s" "releases (recorded e c s) = releases s"
  "nodes (recorded e c s) = nodes s" "volumes (recorded e c s) = volumes s" "jobs (recorded e c s) = jobs s"
  "builds (recorded e c s) = builds s" "serviceVIPs (recorded e c s) = serviceVIPs s"
  by (simp_all add: recorded_def MarkApplied_def Let_def)

lemma applied_cases:
  "applied ctl actor m w = w_state w
   \<or> (\<exists>e. applied ctl actor m w =
        snd (apply_mutation (new_id ctl (w_ids w)) (Some (clock_now ctl)) m
               (recorded e (stamped ctl actor m w) (w_state w))))"
proof (cases rule: FSM_Apply_cases [where s = "w_state w"
    and e = "\<lparr>entry_index = w_index w + 1, entry_data = Some (stamped ctl actor m w)\<rparr>"])
  case (duplicate cmd)
  then show ?thesis by (simp add: applied_def FSM_Apply_duplicate)
next
  case (fresh cmd)
  then have "applied ctl actor m w = snd (apply_mutation (new_id ctl (w_ids w)) (Some (clock_now ctl)) m
      (recorded \<lparr>entry_index = w_index w + 1, entry_data = Some (stamped ctl actor m w)\<rparr> (stamped ctl actor m w) (w_state w)))"
    unfolding applied_def by (subst FSM_Apply_fresh) (auto simp: fsm_apply_def stamped_def)
  then show ?thesis by blast
qed simp

lemma propose_cases:
  obtains (nothing) "w_state (snd (propose ctl actor m w)) = w_state w"
  | (performed) e where "w_state (snd (propose ctl actor m w)) =
        snd (apply_mutation (new_id ctl (w_ids w)) (Some (clock_now ctl)) m
               (recorded e (stamped ctl actor m w) (w_state w)))"
  using propose_state [of ctl actor m w] applied_cases [of ctl actor m w] by metis

end
