(* ===== verification/Orchestrator.thy ===== *)
theory Orchestrator
  imports Placement RaftStore
begin

text \<open>
  The red/green deployment orchestrator, \<^verbatim>\<open>internal/daemon/scheduler/deployment.go\<close>, the
  stop-then-start variant for stateful services, \<^verbatim>\<open>stateful.go\<close>, and the deployment half of
  \<^verbatim>\<open>helpers.go\<close>. Every arm is an action over the world: it reads the live store and proposes
  commands. A deployment, environment or release that the code read before is passed as a value,
  as the Go code holds a clone.
\<close>

subsection \<open>Helpers\<close>

definition drainWindow :: duration where "drainWindow = 10 * Minute"
definition defaultHealthGrace :: duration where "defaultHealthGrace = 60 * Second"
definition healthDeadlineExtra :: duration where "healthDeadlineExtra = 60 * Second"

definition drainWindowDur :: "Control \<Rightarrow> duration" where
  "drainWindowDur ctl = (if drainDur ctl > 0 then drainDur ctl else drainWindow)"

definition isTerminalPhase :: "DeploymentPhase \<Rightarrow> bool" where
  "isTerminalPhase p =
     (p \<in> {DEPLOYMENT_PHASE_SUCCEEDED, DEPLOYMENT_PHASE_FAILED, DEPLOYMENT_PHASE_ROLLED_BACK,
           DEPLOYMENT_PHASE_SUPERSEDED, DEPLOYMENT_PHASE_UNSPECIFIED})"

definition newAssignment :: "Control \<Rightarrow> Environment \<Rightarrow> Release \<Rightarrow> string \<Rightarrow> World \<Rightarrow> Assignment \<times> World" where
  "newAssignment ctl env rel nodeID w =
     (case fresh_id ctl w of (i, w1) \<Rightarrow>
        (zero_assignment
           \<lparr>asg_meta := \<lparr>Id = i, CreatedAt = Some (clock_now ctl), UpdatedAt = Some (clock_now ctl)\<rparr>,
            asg_node_id := nodeID, asg_project_id := env_project_id env, asg_app_id := env_app_id env,
            asg_environment_id := env_id env, asg_release_id := rel_id rel,
            asg_desired := ASSIGNMENT_DESIRED_RUN, asg_config_hash := rel_config_hash rel\<rparr>, w1))"

definition greenAssignment ::
  "Control \<Rightarrow> Environment \<Rightarrow> Release \<Rightarrow> string \<Rightarrow> string \<Rightarrow> World \<Rightarrow> Assignment \<times> World" where
  "greenAssignment ctl env rel nodeID deploymentID w =
     (case newAssignment ctl env rel nodeID w of (a, w1) \<Rightarrow> (a\<lparr>asg_deployment_id := deploymentID\<rparr>, w1))"

text \<open>The loop that builds one assignment per picked node.\<close>

fun build_all :: "(string \<Rightarrow> World \<Rightarrow> Assignment \<times> World) \<Rightarrow> string list \<Rightarrow> World \<Rightarrow> Assignment list \<times> World" where
  "build_all mk [] w = ([], w)"
| "build_all mk (n # ns) w =
     (case mk n w of (a, w1) \<Rightarrow> case build_all mk ns w1 of (as, w2) \<Rightarrow> (a # as, w2))"

definition greenAssignments :: "Store \<Rightarrow> Deployment \<Rightarrow> Assignment list" where
  "greenAssignments st d =
     filter (\<lambda>a. asg_deployment_id a = dep_id d \<and> asg_desired a = ASSIGNMENT_DESIRED_RUN)
       (ListAssignments (dep_environment_id d) st)"

definition blueAssignments :: "Store \<Rightarrow> Deployment \<Rightarrow> Assignment list" where
  "blueAssignments st d =
     (if dep_previous_release_id d = '''' then []
      else filter (\<lambda>a. asg_release_id a = dep_previous_release_id d \<and> asg_deployment_id a \<noteq> dep_id d
                       \<and> asg_desired a = ASSIGNMENT_DESIRED_RUN)
             (ListAssignments (dep_environment_id d) st))"

definition deployReplicas :: "Environment \<Rightarrow> Release \<Rightarrow> int" where
  "deployReplicas env rel =
     (if env_effective_replicas env > 0 then uint (env_effective_replicas env)
      else uint (replicas_min (svc_replicas (rel_service rel))))"

definition healthDeadline :: "Release \<Rightarrow> duration" where
  "healthDeadline rel =
     (let g = hc_grace_period (svc_healthcheck (rel_service rel));
          grace = (if g > 0 then g else defaultHealthGrace)
      in 2 * grace + healthDeadlineExtra)"

definition anyFailed :: "Assignment list \<Rightarrow> bool" where
  "anyFailed as = list_ex (\<lambda>a. obs_state (asg_observed a) = INSTANCE_STATE_FAILED) as"

definition nodeSet :: "Assignment list \<Rightarrow> (string, bool) gomap" where
  "nodeSet as = fold (\<lambda>a. mput (asg_node_id a) True) as []"

definition deploymentNewer :: "Deployment \<Rightarrow> Deployment \<Rightarrow> bool" where
  "deploymentNewer a b =
     (let at = AsTime (CreatedAt (dep_meta a)); bt = AsTime (CreatedAt (dep_meta b))
      in if at \<noteq> bt then at > bt else dep_id a > dep_id b)"

definition isStateful :: "Release \<Rightarrow> bool" where
  "isStateful rel = svc_stateful (rel_service rel)"

definition oldInstances :: "Store \<Rightarrow> Deployment \<Rightarrow> Assignment list" where
  "oldInstances st d =
     (if dep_previous_release_id d = '''' then []
      else filter (\<lambda>a. asg_release_id a = dep_previous_release_id d \<and> asg_deployment_id a \<noteq> dep_id d)
             (ListAssignments (dep_environment_id d) st))"

definition stillRunning :: "Assignment list \<Rightarrow> bool" where
  "stillRunning as =
     list_ex (\<lambda>a. obs_state (asg_observed a) \<notin>
                    {INSTANCE_STATE_STOPPED, INSTANCE_STATE_FAILED, INSTANCE_STATE_UNSPECIFIED}) as"

definition superseded :: "Store \<Rightarrow> Deployment \<Rightarrow> bool" where
  "superseded st d =
     list_ex (\<lambda>other. \<not> (dep_id other = dep_id d \<or> isTerminalPhase (dep_phase other)) \<and> deploymentNewer other d)
       (ListDeployments (dep_environment_id d) st)"

definition warmEnough :: "Store \<Rightarrow> Environment \<Rightarrow> Release \<Rightarrow> Deployment \<Rightarrow> bool" where
  "warmEnough st env rel d =
     (let want = deployReplicas env rel
      in if want = 0 then False
         else int (length (filter (\<lambda>a. asg_release_id a = dep_release_id d
                                     \<and> asg_desired a = ASSIGNMENT_DESIRED_RUN
                                     \<and> obs_state (asg_observed a) = INSTANCE_STATE_HEALTHY)
                            (ListAssignments (env_id env) st))) \<ge> want)"

subsection \<open>Commands of the orchestrator\<close>

definition o_apply :: "Control \<Rightarrow> Mutation \<Rightarrow> action" where
  "o_apply ctl m = propose ctl ''system:deploy'' m"

definition setPhase :: "Control \<Rightarrow> Deployment \<Rightarrow> DeploymentPhase \<Rightarrow> string \<Rightarrow> action" where
  "setPhase ctl d phase errMsg =
     o_apply ctl (Command_SetDeploymentPhase
       \<lparr>sdp_deployment_id = dep_id d, sdp_phase = phase, sdp_error = errMsg,
        sdp_promoted_at = None, sdp_drain_deadline = None\<rparr>)"

definition o_emitEvent :: "Control \<Rightarrow> Deployment \<Rightarrow> string \<Rightarrow> string \<Rightarrow> string \<Rightarrow> action" where
  "o_emitEvent ctl d kind severity msg w =
     (case fresh_id ctl w of (i, w1) \<Rightarrow>
        ignore (o_apply ctl (Command_AppendEvents
          [\<lparr>event_meta = \<lparr>Id = i, CreatedAt = Some (clock_now ctl), UpdatedAt = None\<rparr>,
            event_kind = kind, event_severity = severity, event_project_id = dep_project_id d,
            event_app_id = dep_app_id d, event_environment_id = dep_environment_id d, event_node_id = '''',
            event_message = msg, event_fields = []\<rparr>])) w1)"

definition reapGreen :: "Control \<Rightarrow> Deployment \<Rightarrow> action" where
  "reapGreen ctl d w =
     (let green = greenAssignments (w_state w) d
      in if green = [] then ret w
         else o_apply ctl (Command_DeleteAssignments (map asg_id green)) w)"

definition abort :: "Control \<Rightarrow> Deployment \<Rightarrow> string \<Rightarrow> action" where
  "abort ctl d reason =
     and_then (reapGreen ctl d)
       (and_then (o_emitEvent ctl d ''deploy.failed'' ''error'' reason)
          (setPhase ctl d DEPLOYMENT_PHASE_FAILED reason))"

definition checkBuild :: "Control \<Rightarrow> Release \<Rightarrow> Deployment \<Rightarrow> DeploymentPhase \<Rightarrow> action" where
  "checkBuild ctl rel d next' w =
     (case Build (dep_build_id d) (w_state w) of
        None \<Rightarrow> abort ctl d ''build not found'' w
      | Some b \<Rightarrow>
          if build_status b = BUILD_STATUS_SUCCEEDED
          then if build_image_ref b = '''' then abort ctl d ''build produced no image'' w
               else and_then
                      (if rel_image_ref rel \<noteq> build_image_ref b
                       then o_apply ctl (Command_PutRelease
                              (rel\<lparr>rel_image_ref := build_image_ref b, rel_platforms := build_platforms b\<rparr>))
                       else ret)
                      (setPhase ctl d next' '''') w
          else if build_status b \<in> {BUILD_STATUS_FAILED, BUILD_STATUS_CANCELED}
          then abort ctl d (''build failed: '' @ build_error b) w
          else ret w)"

definition place :: "Control \<Rightarrow> Environment \<Rightarrow> Release \<Rightarrow> Deployment \<Rightarrow> action" where
  "place ctl env rel d w =
     (let green = greenAssignments (w_state w) d;
          desired = deployReplicas env rel
      in and_then
           (\<lambda>w. if int (length green) < desired
                then let picks = fst (Place (w_state w) rel (env_id env) (desired - int (length green)) (nodeSet green));
                         (puts, w1) = build_all (\<lambda>n. greenAssignment ctl env rel n (dep_id d)) picks w
                     in if puts \<noteq> [] then o_apply ctl (Command_PutAssignments puts) w1 else ret w1
                else ret w)
           (\<lambda>w. if int (length (greenAssignments (w_state w) d)) \<ge> desired
                then setPhase ctl d DEPLOYMENT_PHASE_STARTING '''' w
                else ret w) w)"

definition checkStarting :: "Control \<Rightarrow> Deployment \<Rightarrow> action" where
  "checkStarting ctl d w =
     (let green = greenAssignments (w_state w) d
      in if anyFailed green then abort ctl d ''a green instance failed to start'' w
         else if list_ex (\<lambda>a. obs_state (asg_observed a) \<noteq> INSTANCE_STATE_RUNNING
                              \<and> obs_state (asg_observed a) \<noteq> INSTANCE_STATE_HEALTHY) green
         then ret w
         else setPhase ctl d DEPLOYMENT_PHASE_HEALTHCHECKING '''' w)"

definition checkHealth :: "Control \<Rightarrow> Release \<Rightarrow> Deployment \<Rightarrow> action" where
  "checkHealth ctl rel d w =
     (let green = greenAssignments (w_state w) d
      in if anyFailed green then abort ctl d ''a green instance became unhealthy'' w
         else if list_all (\<lambda>a. obs_state (asg_observed a) = INSTANCE_STATE_HEALTHY) green
         then setPhase ctl d DEPLOYMENT_PHASE_PROMOTING '''' w
         else if clock_now ctl > AsTime (UpdatedAt (dep_meta d)) + healthDeadline rel
         then abort ctl d ''green instances did not become healthy in time'' w
         else ret w)"

definition promotion :: "Deployment \<Rightarrow> Mutation" where
  "promotion d = Command_PromoteRelease
     \<lparr>pr_environment_id = dep_environment_id d, pr_release_id = dep_release_id d, pr_deployment_id = dep_id d\<rparr>"

definition promote :: "Control \<Rightarrow> Deployment \<Rightarrow> action" where
  "promote ctl d =
     and_then (o_apply ctl (promotion d))
       (o_apply ctl (Command_SetDeploymentPhase
          \<lparr>sdp_deployment_id = dep_id d, sdp_phase = DEPLOYMENT_PHASE_DRAINING_OLD, sdp_error = '''',
           sdp_promoted_at = Some (clock_now ctl),
           sdp_drain_deadline = Some (clock_now ctl + drainWindowDur ctl)\<rparr>))"

definition completeDrain :: "Control \<Rightarrow> Deployment \<Rightarrow> action" where
  "completeDrain ctl d =
     and_then
       (\<lambda>w. let puts = map (\<lambda>a. a\<lparr>asg_desired := ASSIGNMENT_DESIRED_STOP\<rparr>) (blueAssignments (w_state w) d)
            in if puts \<noteq> [] then o_apply ctl (Command_PutAssignments puts) w else ret w)
       (setPhase ctl d DEPLOYMENT_PHASE_SUCCEEDED '''')"

definition drain :: "Control \<Rightarrow> Deployment \<Rightarrow> action" where
  "drain ctl d w =
     (if (case dep_drain_deadline d of None \<Rightarrow> False | Some dl \<Rightarrow> clock_now ctl < dl) then ret w
      else completeDrain ctl d w)"

subsection \<open>Stateful services\<close>

definition stopOld :: "Control \<Rightarrow> Deployment \<Rightarrow> action" where
  "stopOld ctl d w =
     (let old = oldInstances (w_state w) d;
          stopPuts = map (\<lambda>a. a\<lparr>asg_desired := ASSIGNMENT_DESIRED_STOP\<rparr>)
                       (filter (\<lambda>a. asg_desired a = ASSIGNMENT_DESIRED_RUN) old)
      in if stopPuts \<noteq> []
         then and_then (o_apply ctl (Command_PutAssignments stopPuts))
                (o_emitEvent ctl d ''deploy.maintenance_start'' ''warning''
                   ''stateful update: stopping the current instance (brief downtime)'') w
         else if stillRunning old then ret w
         else setPhase ctl d DEPLOYMENT_PHASE_STARTING '''' w)"

definition statefulFail :: "Control \<Rightarrow> Deployment \<Rightarrow> string \<Rightarrow> action" where
  "statefulFail ctl d reason =
     and_then (reapGreen ctl d)
       (and_then
          (\<lambda>w. let restart = map (\<lambda>a. a\<lparr>asg_desired := ASSIGNMENT_DESIRED_RUN\<rparr>)
                               (filter (\<lambda>a. asg_desired a \<noteq> ASSIGNMENT_DESIRED_RUN) (oldInstances (w_state w) d))
               in if restart \<noteq> []
                  then and_then (o_apply ctl (Command_PutAssignments restart))
                         (o_emitEvent ctl d ''deploy.rolled_back'' ''warning''
                            ''stateful update failed; restarted the previous instance'') w
                  else ret w)
          (and_then (o_emitEvent ctl d ''deploy.failed'' ''error'' reason)
             (setPhase ctl d DEPLOYMENT_PHASE_FAILED reason)))"

definition ensureDeployVolume :: "Control \<Rightarrow> Environment \<Rightarrow> string \<Rightarrow> VolumeMount \<Rightarrow> action" where
  "ensureDeployVolume ctl env node vm w =
     (case VolumeByName (env_project_id env) (env_id env) (vm_volume_name vm) (w_state w) of
        Some _ \<Rightarrow> ret w
      | None \<Rightarrow>
          (case fresh_id ctl w of (i, w1) \<Rightarrow>
             o_apply ctl (Command_PutVolume
               (zero_volume
                  \<lparr>vol_meta := \<lparr>Id = i, CreatedAt = Some (clock_now ctl), UpdatedAt = Some (clock_now ctl)\<rparr>,
                   vol_project_id := env_project_id env, vol_environment_id := env_id env,
                   vol_name := vm_volume_name vm, vol_node_id := node, vol_status := VOLUME_STATUS_ACTIVE\<rparr>)) w1))"

primrec in_turn :: "('x \<Rightarrow> action) \<Rightarrow> 'x list \<Rightarrow> action" where
  "in_turn f [] = ret"
| "in_turn f (x # xs) = and_then (f x) (in_turn f xs)"

definition ensureDeployVolumes :: "Control \<Rightarrow> Environment \<Rightarrow> Release \<Rightarrow> string \<Rightarrow> action" where
  "ensureDeployVolumes ctl env rel node =
     in_turn (ensureDeployVolume ctl env node) (svc_volumes (rel_service rel))"

definition statefulStart :: "Control \<Rightarrow> Environment \<Rightarrow> Release \<Rightarrow> Deployment \<Rightarrow> action" where
  "statefulStart ctl env rel d w =
     (let green = greenAssignments (w_state w) d
      in if green = []
         then (case Place (w_state w) rel (env_id env) 1 [] of (nodes', err) \<Rightarrow>
                 if nodes' = []
                 then statefulFail ctl d (''no node available for the stateful instance: '' @ errString err) w
                 else and_then (ensureDeployVolumes ctl env rel (hd nodes'))
                        (\<lambda>w. case greenAssignment ctl env rel (hd nodes') (dep_id d) w of
                               (put, w1) \<Rightarrow> o_apply ctl (Command_PutAssignments [put]) w1) w)
         else if anyFailed green then statefulFail ctl d ''the new instance failed to start'' w
         else if list_ex (\<lambda>a. obs_state (asg_observed a) \<noteq> INSTANCE_STATE_RUNNING
                              \<and> obs_state (asg_observed a) \<noteq> INSTANCE_STATE_HEALTHY) green
         then ret w
         else setPhase ctl d DEPLOYMENT_PHASE_HEALTHCHECKING '''' w)"

definition statefulHealth :: "Control \<Rightarrow> Release \<Rightarrow> Deployment \<Rightarrow> action" where
  "statefulHealth ctl rel d w =
     (let green = greenAssignments (w_state w) d
      in if anyFailed green then statefulFail ctl d ''the new instance became unhealthy'' w
         else if green \<noteq> [] \<and> list_all (\<lambda>a. obs_state (asg_observed a) = INSTANCE_STATE_HEALTHY) green
         then setPhase ctl d DEPLOYMENT_PHASE_PROMOTING '''' w
         else if clock_now ctl > AsTime (UpdatedAt (dep_meta d)) + healthDeadline rel
         then statefulFail ctl d ''the new instance did not become healthy in time'' w
         else ret w)"

definition statefulPromote :: "Control \<Rightarrow> Deployment \<Rightarrow> action" where
  "statefulPromote ctl d =
     and_then (o_apply ctl (promotion d))
       (and_then (o_emitEvent ctl d ''deploy.maintenance_end'' ''info''
                    ''stateful update: new instance healthy and promoted'')
          (setPhase ctl d DEPLOYMENT_PHASE_SUCCEEDED ''''))"

definition reconcileStateful :: "Control \<Rightarrow> Environment \<Rightarrow> Release \<Rightarrow> Deployment \<Rightarrow> action" where
  "reconcileStateful ctl env rel d =
     (case dep_phase d of
        DEPLOYMENT_PHASE_PENDING \<Rightarrow>
          if dep_build_id d \<noteq> '''' \<and> rel_image_ref rel = '''' then setPhase ctl d DEPLOYMENT_PHASE_BUILDING ''''
          else if rel_image_ref rel = '''' then abort ctl d ''release has no image ref''
          else setPhase ctl d DEPLOYMENT_PHASE_STOPPING_OLD ''''
      | DEPLOYMENT_PHASE_BUILDING \<Rightarrow> checkBuild ctl rel d DEPLOYMENT_PHASE_STOPPING_OLD
      | DEPLOYMENT_PHASE_STOPPING_OLD \<Rightarrow> stopOld ctl d
      | DEPLOYMENT_PHASE_STARTING \<Rightarrow> statefulStart ctl env rel d
      | DEPLOYMENT_PHASE_HEALTHCHECKING \<Rightarrow> statefulHealth ctl rel d
      | DEPLOYMENT_PHASE_PROMOTING \<Rightarrow> statefulPromote ctl d
      | _ \<Rightarrow> ret)"

subsection \<open>One deployment, all deployments\<close>

text \<open>The switch of \<^verbatim>\<open>reconcile\<close> over the phase of a red/green deployment.\<close>

definition reconcileRedGreen :: "Control \<Rightarrow> Environment \<Rightarrow> Release \<Rightarrow> Deployment \<Rightarrow> action" where
  "reconcileRedGreen ctl env rel d =
     (case dep_phase d of
        DEPLOYMENT_PHASE_PENDING \<Rightarrow>
          if dep_build_id d \<noteq> '''' \<and> rel_image_ref rel = '''' then setPhase ctl d DEPLOYMENT_PHASE_BUILDING ''''
          else if rel_image_ref rel = '''' then abort ctl d ''release has no image ref''
          else (\<lambda>w. if dep_is_rollback d \<and> warmEnough (w_state w) env rel d
                    then setPhase ctl d DEPLOYMENT_PHASE_PROMOTING '''' w
                    else setPhase ctl d DEPLOYMENT_PHASE_PLACING '''' w)
      | DEPLOYMENT_PHASE_BUILDING \<Rightarrow> checkBuild ctl rel d DEPLOYMENT_PHASE_PLACING
      | DEPLOYMENT_PHASE_PLACING \<Rightarrow> place ctl env rel d
      | DEPLOYMENT_PHASE_STARTING \<Rightarrow> checkStarting ctl d
      | DEPLOYMENT_PHASE_HEALTHCHECKING \<Rightarrow> checkHealth ctl rel d
      | DEPLOYMENT_PHASE_PROMOTING \<Rightarrow> promote ctl d
      | DEPLOYMENT_PHASE_DRAINING_OLD \<Rightarrow> drain ctl d
      | _ \<Rightarrow> ret)"

definition supersede :: "Control \<Rightarrow> Deployment \<Rightarrow> action" where
  "supersede ctl d =
     (if dep_phase d = DEPLOYMENT_PHASE_DRAINING_OLD then setPhase ctl d DEPLOYMENT_PHASE_SUCCEEDED ''''
      else and_then (reapGreen ctl d)
             (setPhase ctl d DEPLOYMENT_PHASE_SUPERSEDED ''superseded by a newer deployment''))"

definition reconcile :: "Control \<Rightarrow> Deployment \<Rightarrow> action" where
  "reconcile ctl d w =
     (if isTerminalPhase (dep_phase d) then ret w
      else case Environment (dep_environment_id d) (w_state w) of
        None \<Rightarrow> abort ctl d ''environment not found'' w
      | Some env \<Rightarrow>
        (case Release (dep_release_id d) (w_state w) of
           None \<Rightarrow> abort ctl d ''release not found'' w
         | Some rel \<Rightarrow>
             if superseded (w_state w) d then supersede ctl d w
             else if isStateful rel then reconcileStateful ctl env rel d w
             else reconcileRedGreen ctl env rel d w))"

definition reconcileAll :: "Control \<Rightarrow> action" where
  "reconcileAll ctl w =
     (if \<not> is_leader ctl then (Some ErrNotLeader, w)
      else in_turn (\<lambda>d. if isTerminalPhase (dep_phase d) then ret else reconcile ctl d)
             (ListDeployments '''' (w_state w)) w)"

end
