(* ===== verification/DeploymentProps.thy ===== *)
theory DeploymentProps
  imports Orchestrator
begin

text \<open>
  Correctness of the deployment orchestrator: legal phase transitions, when traffic switches, what
  happens to the instances of other releases, and the single-writer barrier of stateful services.
  The lemmas state the effect of every command the orchestrator proposes on the tables of
  assignments, deployments, environments and releases, for every outcome of the proposal.
\<close>

subsection \<open>Effects of commands\<close>

definition put_all :: "Assignment list \<Rightarrow> (string \<Rightarrow> Assignment option) \<Rightarrow> string \<Rightarrow> Assignment option" where
  "put_all as f = fold (\<lambda>a g. g(asg_id a \<mapsto> a)) as f"

definition del_all :: "string list \<Rightarrow> (string \<Rightarrow> Assignment option) \<Rightarrow> string \<Rightarrow> Assignment option" where
  "del_all is f = fold (\<lambda>i g. g(i := None)) is f"

lemma asgs_putAssignment [simp]: "asgs (putAssignmentLocked a s) = (asgs s)(asg_id a \<mapsto> a)"
  by (simp add: putAssignmentLocked_def touch_def Let_def)

lemma asgs_deleteAssignment [simp]: "asgs (deleteAssignmentLocked i s) = (asgs s)(i := None)"
  by (auto simp: deleteAssignmentLocked_def touch_def split: option.split)

lemma asgs_PutAssignments: "asgs (PutAssignments as s) = put_all as (asgs s)"
  unfolding PutAssignments_def put_all_def by (induction as arbitrary: s) auto

lemma asgs_DeleteAssignments: "asgs (DeleteAssignments is s) = del_all is (asgs s)"
  unfolding DeleteAssignments_def del_all_def by (induction "is" arbitrary: s) auto

lemma del_all_apply: "del_all is f i = (if i \<in> set is then None else f i)"
  unfolding del_all_def by (induction "is" arbitrary: f) auto

lemma put_all_other: "i \<notin> asg_id ` set as \<Longrightarrow> put_all as f i = f i"
  unfolding put_all_def by (induction as arbitrary: f) auto

lemma put_all_in: "distinct (map asg_id as) \<Longrightarrow> a \<in> set as \<Longrightarrow> put_all as f (asg_id a) = Some a"
proof (induction as arbitrary: f)
  case (Cons b as)
  then show ?case
    using put_all_other [of "asg_id b" as "f(asg_id b \<mapsto> b)"] by (auto simp: put_all_def)
qed simp

definition same_but_assignments :: "Store \<Rightarrow> Store \<Rightarrow> bool" where
  "same_but_assignments s t =
     (deps t = deps s \<and> envs t = envs s \<and> rels t = rels s \<and> nodes t = nodes s \<and> volumes t = volumes s
      \<and> jobs t = jobs s \<and> serviceVIPs t = serviceVIPs s \<and> builds t = builds s)"

lemma locked_tables:
  "deployments (putAssignmentLocked a s) = deployments s" "environments (putAssignmentLocked a s) = environments s"
  "releases (putAssignmentLocked a s) = releases s" "nodes (putAssignmentLocked a s) = nodes s"
  "volumes (putAssignmentLocked a s) = volumes s" "jobs (putAssignmentLocked a s) = jobs s"
  "serviceVIPs (putAssignmentLocked a s) = serviceVIPs s" "builds (putAssignmentLocked a s) = builds s"
  "deployments (deleteAssignmentLocked i s) = deployments s" "environments (deleteAssignmentLocked i s) = environments s"
  "releases (deleteAssignmentLocked i s) = releases s" "nodes (deleteAssignmentLocked i s) = nodes s"
  "volumes (deleteAssignmentLocked i s) = volumes s" "jobs (deleteAssignmentLocked i s) = jobs s"
  "serviceVIPs (deleteAssignmentLocked i s) = serviceVIPs s" "builds (deleteAssignmentLocked i s) = builds s"
  "deployments (appendEvent e s) = deployments s" "environments (appendEvent e s) = environments s"
  "releases (appendEvent e s) = releases s" "nodes (appendEvent e s) = nodes s" "volumes (appendEvent e s) = volumes s"
  "jobs (appendEvent e s) = jobs s" "serviceVIPs (appendEvent e s) = serviceVIPs s" "builds (appendEvent e s) = builds s"
  "assignments (appendEvent e s) = assignments s"
  by (simp_all add: putAssignmentLocked_def deleteAssignmentLocked_def appendEvent_def touch_def Let_def
    split: option.split)

lemma batch_tables:
  "same_but_assignments s (PutAssignments as s)" "same_but_assignments s (DeleteAssignments is s)"
  "same_but_assignments s (AppendEvents es s)" "assignments (AppendEvents es s) = assignments s"
  by (simp_all add: same_but_assignments_def PutAssignments_def DeleteAssignments_def AppendEvents_def Let_def
    fold_frame [where g = deployments] fold_frame [where g = environments] fold_frame [where g = releases]
    fold_frame [where g = nodes] fold_frame [where g = volumes] fold_frame [where g = jobs]
    fold_frame [where g = serviceVIPs] fold_frame [where g = builds] fold_frame [where g = assignments] locked_tables)

lemma same_but_assignments_recorded:
  "same_but_assignments (recorded e c s) t \<Longrightarrow> same_but_assignments s t"
  by (simp add: same_but_assignments_def)

lemma propose_rel:
  assumes "R (w_state w) (w_state w)"
    and "\<And>rid now e c. R (w_state w) (snd (apply_mutation rid (Some now) m (recorded e c (w_state w))))"
  shows "R (w_state w) (w_state (snd (propose ctl actor m w)))"
  by (cases rule: propose_cases [of ctl actor m w]) (simp_all add: assms)

lemma same_but_assignments_refl [simp]: "same_but_assignments s s"
  by (simp add: same_but_assignments_def)

definition puts_rel :: "Assignment list \<Rightarrow> Store \<Rightarrow> Store \<Rightarrow> bool" where
  "puts_rel as s t = (same_but_assignments s t \<and> (asgs t = asgs s \<or> asgs t = put_all as (asgs s)))"

definition dels_rel :: "string list \<Rightarrow> Store \<Rightarrow> Store \<Rightarrow> bool" where
  "dels_rel is s t = (same_but_assignments s t \<and> (asgs t = asgs s \<or> asgs t = del_all is (asgs s)))"

definition tables_eq :: "Store \<Rightarrow> Store \<Rightarrow> bool" where
  "tables_eq s t = (same_but_assignments s t \<and> asgs t = asgs s)"

lemma propose_PutAssignments:
  "puts_rel as (w_state w) (w_state (snd (propose ctl actor (Command_PutAssignments as) w)))"
  by (rule propose_rel)
    (simp_all add: puts_rel_def asgs_PutAssignments same_but_assignments_recorded [OF batch_tables(1)])

lemma propose_DeleteAssignments:
  "dels_rel is (w_state w) (w_state (snd (propose ctl actor (Command_DeleteAssignments is) w)))"
  by (rule propose_rel)
    (simp_all add: dels_rel_def asgs_DeleteAssignments same_but_assignments_recorded [OF batch_tables(2)])

lemma propose_AppendEvents:
  "tables_eq (w_state w) (w_state (snd (propose ctl actor (Command_AppendEvents es) w)))"
  by (rule propose_rel)
    (simp_all add: tables_eq_def batch_tables(4) same_but_assignments_recorded [OF batch_tables(3)])

text \<open>A phase change: the deployment moves to one of the given phases and keeps its identity, or
  nothing happens.\<close>

definition phase_to :: "string \<Rightarrow> DeploymentPhase set \<Rightarrow> Store \<Rightarrow> Store \<Rightarrow> bool" where
  "phase_to i P s t =
     (deps t = deps s
      \<or> (\<exists>d d'. deps s i = Some d \<and> deps t = (deps s)(i \<mapsto> d') \<and> dep_phase d' \<in> P
              \<and> dep_id d' = dep_id d \<and> dep_environment_id d' = dep_environment_id d
              \<and> dep_release_id d' = dep_release_id d \<and> dep_previous_release_id d' = dep_previous_release_id d
              \<and> CreatedAt (dep_meta d') = CreatedAt (dep_meta d)))"

lemma phase_to_mono: "phase_to i P s t \<Longrightarrow> P \<subseteq> Q \<Longrightarrow> phase_to i Q s t"
  unfolding phase_to_def by blast

definition phased :: "time option \<Rightarrow> SetDeploymentPhase \<Rightarrow> Deployment \<Rightarrow> Deployment" where
  "phased now m d =
     d\<lparr>dep_meta := (if now = None then dep_meta d else (dep_meta d)\<lparr>UpdatedAt := now\<rparr>),
       dep_phase := sdp_phase m,
       dep_error := (if sdp_error m = '''' then dep_error d else sdp_error m),
       dep_promoted_at := (if sdp_promoted_at m = None then dep_promoted_at d else sdp_promoted_at m),
       dep_drain_deadline := (if sdp_drain_deadline m = None then dep_drain_deadline d else sdp_drain_deadline m)\<rparr>"

lemma phased_fields [simp]:
  "dep_phase (phased now m d) = sdp_phase m" "dep_id (phased now m d) = dep_id d"
  "dep_environment_id (phased now m d) = dep_environment_id d" "dep_release_id (phased now m d) = dep_release_id d"
  "dep_previous_release_id (phased now m d) = dep_previous_release_id d"
  "CreatedAt (dep_meta (phased now m d)) = CreatedAt (dep_meta d)"
  by (simp_all add: phased_def)

lemma applySetDeploymentPhase_alt:
  "snd (applySetDeploymentPhase now m s) =
     (case deps s (sdp_deployment_id m) of None \<Rightarrow> s | Some d \<Rightarrow> PutDeployment (phased now m d) s)"
proof (cases "deps s (sdp_deployment_id m)")
  case (Some d)
  then show ?thesis
    by (cases d) (simp add: applySetDeploymentPhase_def Deployment_def phased_def Let_def)
qed (simp add: applySetDeploymentPhase_def Deployment_def)

lemma propose_phase:
  assumes "store_inv (w_state w)"
  shows "phase_to (sdp_deployment_id m) {sdp_phase m} (w_state w)
      (w_state (snd (propose ctl actor (Command_SetDeploymentPhase m) w)))"
proof (rule propose_rel)
  fix rid now e c
  show "phase_to (sdp_deployment_id m) {sdp_phase m} (w_state w)
     (snd (apply_mutation rid (Some now) (Command_SetDeploymentPhase m) (recorded e c (w_state w))))"
  proof (cases "deps (w_state w) (sdp_deployment_id m)")
    case (Some d)
    then have "dep_id d = sdp_deployment_id m"
      using keyedD [OF store_keyed(8) [OF assms]] by blast
    with Some show ?thesis
      unfolding phase_to_def
      by (intro disjI2 exI [of _ d] exI [of _ "phased (Some now) m d"])
        (simp add: applySetDeploymentPhase_alt PutDeployment_def touch_def)
  qed (simp add: phase_to_def applySetDeploymentPhase_alt)
qed (simp add: phase_to_def)

definition promoted_rel :: "PromoteRelease \<Rightarrow> Store \<Rightarrow> Store \<Rightarrow> bool" where
  "promoted_rel m s t =
     (deps t = deps s \<and> asgs t = asgs s \<and> rels t = rels s
      \<and> (envs t = envs s
         \<or> (\<exists>env. envs s (pr_environment_id m) = Some env \<and> rels s (pr_release_id m) \<noteq> None
               \<and> envs t = (envs s)(pr_environment_id m \<mapsto>
                   env\<lparr>env_active_release_id := pr_release_id m,
                        env_route_generation := env_route_generation env + 1\<rparr>))))"

lemma propose_promote:
  assumes "store_inv (w_state w)"
  shows "promoted_rel m (w_state w) (w_state (snd (propose ctl actor (Command_PromoteRelease m) w)))"
proof (rule propose_rel)
  fix rid now e c
  have key: "envs (w_state w) (pr_environment_id m) = Some d \<Longrightarrow> env_id d = pr_environment_id m" for d
    using keyedD [OF store_keyed(6) [OF assms]] by blast
  show "promoted_rel m (w_state w)
     (snd (apply_mutation rid (Some now) (Command_PromoteRelease m) (recorded e c (w_state w))))"
    using key
    by (auto simp: promoted_rel_def applyPromoteRelease_def Environment_def Release_def PutEnvironment_def touch_def
      split: option.split)
qed (simp add: promoted_rel_def)

lemma propose_phase_tables:
  "let s = w_state w; t = w_state (snd (propose ctl actor (Command_SetDeploymentPhase m) w))
   in asgs t = asgs s \<and> envs t = envs s \<and> rels t = rels s"
  unfolding Let_def
  by (rule propose_rel)
    (simp_all add: applySetDeploymentPhase_def PutDeployment_def touch_def Let_def split: option.split)

lemma propose_PutRelease:
  "let s = w_state w; t = w_state (snd (propose ctl actor (Command_PutRelease r) w))
   in asgs t = asgs s \<and> envs t = envs s \<and> deps t = deps s"
  unfolding Let_def by (rule propose_rel) (simp_all add: PutRelease_def touch_def)

lemma propose_PutVolume:
  "let s = w_state w; t = w_state (snd (propose ctl actor (Command_PutVolume r) w))
   in asgs t = asgs s \<and> envs t = envs s \<and> deps t = deps s \<and> rels t = rels s"
  unfolding Let_def by (rule propose_rel) (simp_all add: PutVolume_def touch_def)

subsection \<open>Actions\<close>

definition after :: "action \<Rightarrow> World \<Rightarrow> Store" where
  "after f w = w_state (snd (f w))"

definition keeps :: "(Store \<Rightarrow> 'v) \<Rightarrow> action \<Rightarrow> bool" where
  "keeps v f = (\<forall>w. v (after f w) = v (w_state w))"

definition sound :: "action \<Rightarrow> bool" where
  "sound f = (\<forall>w. store_inv (w_state w) \<longrightarrow> store_inv (after f w))"

lemma after_simps [simp]:
  "after ret w = w_state w" "after (ignore f) w = after f w"
  by (simp_all add: after_def ret_def ignore_def)

lemma after_and_then:
  "after (and_then f g) w = after f w \<or> after (and_then f g) w = after g (snd (f w))"
  by (simp add: after_def and_then_def split: prod.split option.split)

lemma after_cases: "after (\<lambda>w. if b w then f w else g w) w = (if b w then after f w else after g w)"
  by (simp add: after_def)

lemma state_snd: "w_state (snd (f w)) = after f w"
  by (simp add: after_def)

lemma keeps_ret: "keeps v ret"
  by (simp add: keeps_def)

lemma keeps_and_then: "keeps v f \<Longrightarrow> keeps v g \<Longrightarrow> keeps v (and_then f g)"
  unfolding keeps_def by (metis after_and_then state_snd)

lemma sound_ret: "sound ret"
  by (simp add: sound_def)

lemma sound_and_then: "sound f \<Longrightarrow> sound g \<Longrightarrow> sound (and_then f g)"
  unfolding sound_def by (metis after_and_then state_snd)

lemma sound_propose: "sound (propose ctl actor m)"
  by (simp add: sound_def after_def propose_inv)

lemma sound_o_apply: "sound (o_apply ctl m)"
  by (simp add: o_apply_def sound_propose)

lemma sound_emitEvent: "sound (o_emitEvent ctl d k sev msg)"
  using sound_o_apply by (simp add: sound_def o_emitEvent_def fresh_id_def after_def ignore_def)

lemma sound_if: "sound f \<Longrightarrow> sound g \<Longrightarrow> sound (if b then f else g)"
  by simp

text \<open>What each command keeps.\<close>

lemma keeps_emitEvent:
  "keeps asgs (o_emitEvent ctl d k sev msg)" "keeps deps (o_emitEvent ctl d k sev msg)"
  "keeps envs (o_emitEvent ctl d k sev msg)" "keeps rels (o_emitEvent ctl d k sev msg)"
  using propose_AppendEvents
  by (simp_all add: keeps_def o_emitEvent_def o_apply_def fresh_id_def after_def ignore_def tables_eq_def
    same_but_assignments_def)

lemma keeps_puts:
  "keeps deps (o_apply ctl (Command_PutAssignments as))" "keeps envs (o_apply ctl (Command_PutAssignments as))"
  "keeps rels (o_apply ctl (Command_PutAssignments as))" "keeps nodes (o_apply ctl (Command_PutAssignments as))"
  using propose_PutAssignments
  by (simp_all add: keeps_def o_apply_def after_def puts_rel_def same_but_assignments_def)

lemma keeps_dels:
  "keeps deps (o_apply ctl (Command_DeleteAssignments is))" "keeps envs (o_apply ctl (Command_DeleteAssignments is))"
  "keeps rels (o_apply ctl (Command_DeleteAssignments is))"
  using propose_DeleteAssignments
  by (simp_all add: keeps_def o_apply_def after_def dels_rel_def same_but_assignments_def)

lemma keeps_setPhase:
  "keeps asgs (setPhase ctl d p e)" "keeps envs (setPhase ctl d p e)" "keeps rels (setPhase ctl d p e)"
  using propose_phase_tables by (simp_all add: keeps_def setPhase_def o_apply_def after_def Let_def)

lemma keeps_promotion:
  "keeps asgs (o_apply ctl (promotion d))" "keeps deps (o_apply ctl (promotion d))" "keeps rels (o_apply ctl (promotion d))"
proof -
  have "let s = w_state w; t = w_state (snd (propose ctl a (promotion d) w))
    in asgs t = asgs s \<and> deps t = deps s \<and> rels t = rels s" for a w
    unfolding Let_def promotion_def
    by (rule propose_rel) (simp_all add: applyPromoteRelease_def PutEnvironment_def touch_def split: option.split)
  then show "keeps asgs (o_apply ctl (promotion d))" "keeps deps (o_apply ctl (promotion d))"
    "keeps rels (o_apply ctl (promotion d))"
    by (simp_all add: keeps_def o_apply_def after_def Let_def)
qed

lemma keeps_PutRelease:
  "keeps asgs (o_apply ctl (Command_PutRelease r))" "keeps deps (o_apply ctl (Command_PutRelease r))"
  "keeps envs (o_apply ctl (Command_PutRelease r))"
  using propose_PutRelease by (simp_all add: keeps_def o_apply_def after_def Let_def)

lemma keeps_reapGreen:
  "keeps deps (reapGreen ctl d)" "keeps envs (reapGreen ctl d)" "keeps rels (reapGreen ctl d)"
  using keeps_dels by (simp_all add: keeps_def reapGreen_def after_def ret_def Let_def)

lemma sound_reapGreen: "sound (reapGreen ctl d)"
  using sound_o_apply by (simp add: sound_def reapGreen_def after_def ret_def Let_def)

lemma keeps_ensure:
  "keeps asgs (ensureDeployVolumes ctl env rel n)" "keeps deps (ensureDeployVolumes ctl env rel n)"
  "keeps envs (ensureDeployVolumes ctl env rel n)" "keeps rels (ensureDeployVolumes ctl env rel n)"
proof -
  have one: "keeps asgs (ensureDeployVolume ctl env n vm)" "keeps deps (ensureDeployVolume ctl env n vm)"
    "keeps envs (ensureDeployVolume ctl env n vm)" "keeps rels (ensureDeployVolume ctl env n vm)" for vm
    using propose_PutVolume
    by (simp_all add: keeps_def ensureDeployVolume_def o_apply_def fresh_id_def after_def ret_def Let_def
      split: option.split)
  have "keeps asgs (in_turn (ensureDeployVolume ctl env n) vs) \<and> keeps deps (in_turn (ensureDeployVolume ctl env n) vs)
    \<and> keeps envs (in_turn (ensureDeployVolume ctl env n) vs) \<and> keeps rels (in_turn (ensureDeployVolume ctl env n) vs)" for vs
    by (induction vs) (simp_all add: keeps_ret keeps_and_then one)
  then show "keeps asgs (ensureDeployVolumes ctl env rel n)" "keeps deps (ensureDeployVolumes ctl env rel n)"
    "keeps envs (ensureDeployVolumes ctl env rel n)" "keeps rels (ensureDeployVolumes ctl env rel n)"
    by (simp_all add: ensureDeployVolumes_def)
qed

lemma sound_in_turn: "(\<And>x. sound (f x)) \<Longrightarrow> sound (in_turn f xs)"
  by (induction xs) (simp_all add: sound_ret sound_and_then)

lemma sound_ensure: "sound (ensureDeployVolumes ctl env rel n)"
  unfolding ensureDeployVolumes_def
  by (rule sound_in_turn)
    (use sound_o_apply in \<open>auto simp: sound_def ensureDeployVolume_def fresh_id_def after_def ret_def split: option.split\<close>)

subsection \<open>Phase transitions\<close>

definition moves :: "string \<Rightarrow> DeploymentPhase set \<Rightarrow> action \<Rightarrow> bool" where
  "moves i P f = (\<forall>w. store_inv (w_state w) \<longrightarrow> phase_to i P (w_state w) (after f w))"

lemma movesD: "moves i P f \<Longrightarrow> P \<subseteq> Q \<Longrightarrow> store_inv (w_state w) \<Longrightarrow> phase_to i Q (w_state w) (after f w)"
  unfolding moves_def by (blast intro: phase_to_mono)

lemma phase_to_deps: "deps s' = deps s \<Longrightarrow> phase_to i P s' t = phase_to i P s t"
  by (simp add: phase_to_def)

lemma phase_to_same: "deps t = deps s \<Longrightarrow> phase_to i P s t"
  by (simp add: phase_to_def)

lemma keeps_moves: "keeps deps f \<Longrightarrow> moves i P f"
  by (simp add: keeps_def moves_def phase_to_same)

lemma moves_after:
  assumes "keeps deps f" and "sound f" and "moves i P g"
  shows "moves i P (and_then f g)"
  unfolding moves_def
proof (intro allI impI)
  fix w :: World
  assume inv: "store_inv (w_state w)"
  have k: "deps (after f w) = deps (w_state w)" using assms(1) by (simp add: keeps_def)
  have "phase_to i P (w_state w) (after g (snd (f w)))"
    using assms inv k phase_to_deps [OF k] unfolding moves_def sound_def state_snd [symmetric] by blast
  then show "phase_to i P (w_state w) (after (and_then f g) w)"
    using after_and_then [of f g w] k by (auto simp: phase_to_same)
qed

lemma moves_setPhase: "moves (dep_id d) {p} (setPhase ctl d p e)"
  using propose_phase [where m = "\<lparr>sdp_deployment_id = dep_id d, sdp_phase = p, sdp_error = e,
        sdp_promoted_at = None, sdp_drain_deadline = None\<rparr>"]
  by (simp add: moves_def setPhase_def o_apply_def after_def)

lemma moves_abort: "moves (dep_id d) {DEPLOYMENT_PHASE_FAILED} (abort ctl d r)"
  unfolding abort_def
  by (intro moves_after keeps_reapGreen sound_reapGreen keeps_emitEvent sound_emitEvent moves_setPhase)

lemma moves_cases:
  assumes "moves i P f" and "moves i P g"
  shows "moves i P (\<lambda>w. if b w then f w else g w)"
  using assms by (simp add: moves_def after_def)

lemma moves_option:
  assumes "moves i P f" and "\<And>x. moves i P (g x)"
  shows "moves i P (\<lambda>w. case v w of None \<Rightarrow> f w | Some x \<Rightarrow> g x w)"
  using assms by (simp add: moves_def after_def split: option.split)

lemma moves_ret: "moves i P ret"
  by (simp add: keeps_moves keeps_ret)

lemma moves_mono: "moves i P f \<Longrightarrow> P \<subseteq> Q \<Longrightarrow> moves i Q f"
  unfolding moves_def by (blast intro: phase_to_mono)

lemma moves_to:
  "p \<in> P \<Longrightarrow> moves (dep_id d) P (setPhase ctl d p e)"
  "DEPLOYMENT_PHASE_FAILED \<in> P \<Longrightarrow> moves (dep_id d) P (abort ctl d r)"
  by (rule moves_mono [OF moves_setPhase], simp) (rule moves_mono [OF moves_abort], simp)

lemma moves_checkBuild: "moves (dep_id d) {DEPLOYMENT_PHASE_FAILED, p} (checkBuild ctl rel d p)"
  unfolding checkBuild_def
  by (intro moves_option moves_cases moves_to moves_ret moves_after)
    (simp_all add: keeps_ret sound_ret keeps_PutRelease sound_o_apply)

lemma build_all_state: "w_state (snd (build_all (\<lambda>n. greenAssignment ctl env rel n i) ns w)) = w_state w"
  by (induction ns arbitrary: w) (simp_all add: greenAssignment_def newAssignment_def fresh_id_def split_def)

lemma place_fill_keeps:
  "keeps deps (\<lambda>w. if b then let picks = p w; (puts, w1) = build_all (\<lambda>n. greenAssignment ctl env rel n i) picks w
                in if puts \<noteq> [] then o_apply ctl (Command_PutAssignments puts) w1 else ret w1 else ret w)"
  "sound (\<lambda>w. if b then let picks = p w; (puts, w1) = build_all (\<lambda>n. greenAssignment ctl env rel n i) picks w
                in if puts \<noteq> [] then o_apply ctl (Command_PutAssignments puts) w1 else ret w1 else ret w)"
  using keeps_puts(1) sound_o_apply
  by (auto simp: keeps_def sound_def after_def ret_def Let_def split_def build_all_state)

lemma moves_place: "moves (dep_id d) {DEPLOYMENT_PHASE_STARTING} (place ctl env rel d)"
proof -
  have "moves (dep_id d) {DEPLOYMENT_PHASE_STARTING}
    (\<lambda>w. if int (length (greenAssignments (w_state w) d)) \<ge> n
         then setPhase ctl d DEPLOYMENT_PHASE_STARTING '''' w else ret w)" for n
    using moves_setPhase [of d DEPLOYMENT_PHASE_STARTING] by (auto simp: moves_def after_def ret_def phase_to_same)
  from moves_after [OF place_fill_keeps this]
  show ?thesis by (auto simp: moves_def place_def after_def Let_def)
qed

lemma moves_checks:
  "moves (dep_id d) {DEPLOYMENT_PHASE_FAILED, DEPLOYMENT_PHASE_HEALTHCHECKING} (checkStarting ctl d)"
  "moves (dep_id d) {DEPLOYMENT_PHASE_FAILED, DEPLOYMENT_PHASE_PROMOTING} (checkHealth ctl rel d)"
  unfolding checkStarting_def checkHealth_def Let_def
  by (intro moves_cases moves_ret moves_to; simp)+

lemma moves_promote: "moves (dep_id d) {DEPLOYMENT_PHASE_DRAINING_OLD} (promote ctl d)"
proof -
  let ?m = "\<lparr>sdp_deployment_id = dep_id d, sdp_phase = DEPLOYMENT_PHASE_DRAINING_OLD, sdp_error = '''',
    sdp_promoted_at = Some (clock_now ctl), sdp_drain_deadline = Some (clock_now ctl + drainWindowDur ctl)\<rparr>"
  have "moves (dep_id d) {DEPLOYMENT_PHASE_DRAINING_OLD} (o_apply ctl (Command_SetDeploymentPhase ?m))"
    using propose_phase [where m = ?m] by (simp add: moves_def o_apply_def after_def)
  then show ?thesis
    unfolding promote_def by (intro moves_after keeps_promotion sound_o_apply)
qed

lemma puts_if:
  "keeps deps (\<lambda>w. let xs = p w in if xs \<noteq> [] then o_apply ctl (Command_PutAssignments xs) w else ret w)"
  "keeps envs (\<lambda>w. let xs = p w in if xs \<noteq> [] then o_apply ctl (Command_PutAssignments xs) w else ret w)"
  "keeps rels (\<lambda>w. let xs = p w in if xs \<noteq> [] then o_apply ctl (Command_PutAssignments xs) w else ret w)"
  "sound (\<lambda>w. let xs = p w in if xs \<noteq> [] then o_apply ctl (Command_PutAssignments xs) w else ret w)"
  using keeps_puts sound_o_apply by (simp_all add: keeps_def sound_def after_def ret_def Let_def)

lemma moves_completeDrain: "moves (dep_id d) {DEPLOYMENT_PHASE_SUCCEEDED} (completeDrain ctl d)"
  unfolding completeDrain_def by (intro moves_after puts_if moves_setPhase)

lemma moves_drain: "moves (dep_id d) {DEPLOYMENT_PHASE_SUCCEEDED} (drain ctl d)"
  unfolding drain_def by (intro moves_cases moves_ret moves_completeDrain)

lemma puts_then_event:
  "keeps deps (\<lambda>w. let xs = p w in if xs \<noteq> []
     then and_then (o_apply ctl (Command_PutAssignments xs)) (o_emitEvent ctl d k sev msg) w else ret w)"
  "keeps envs (\<lambda>w. let xs = p w in if xs \<noteq> []
     then and_then (o_apply ctl (Command_PutAssignments xs)) (o_emitEvent ctl d k sev msg) w else ret w)"
  "keeps rels (\<lambda>w. let xs = p w in if xs \<noteq> []
     then and_then (o_apply ctl (Command_PutAssignments xs)) (o_emitEvent ctl d k sev msg) w else ret w)"
  "sound (\<lambda>w. let xs = p w in if xs \<noteq> []
     then and_then (o_apply ctl (Command_PutAssignments xs)) (o_emitEvent ctl d k sev msg) w else ret w)"
  using keeps_and_then [OF keeps_puts(1) keeps_emitEvent(2)] keeps_and_then [OF keeps_puts(2) keeps_emitEvent(3)]
    keeps_and_then [OF keeps_puts(3) keeps_emitEvent(4)] sound_and_then [OF sound_o_apply sound_emitEvent]
  by (simp_all add: keeps_def sound_def after_def ret_def Let_def)

lemma moves_statefulFail: "moves (dep_id d) {DEPLOYMENT_PHASE_FAILED} (statefulFail ctl d r)"
  unfolding statefulFail_def
  by (intro moves_after keeps_reapGreen sound_reapGreen puts_then_event keeps_emitEvent sound_emitEvent moves_setPhase)

lemma moves_stopOld: "moves (dep_id d) {DEPLOYMENT_PHASE_STARTING} (stopOld ctl d)"
  unfolding stopOld_def Let_def
  by (intro moves_cases moves_ret moves_setPhase keeps_moves)
    (use keeps_and_then [OF keeps_puts(1) keeps_emitEvent(2)] in \<open>simp add: keeps_def after_def\<close>)

lemma moves_statefulStart:
  "moves (dep_id d) {DEPLOYMENT_PHASE_FAILED, DEPLOYMENT_PHASE_HEALTHCHECKING} (statefulStart ctl env rel d)"
proof -
  have put: "keeps deps (\<lambda>w. case greenAssignment ctl env rel n (dep_id d) w of
      (put, w1) \<Rightarrow> o_apply ctl (Command_PutAssignments [put]) w1)" for n
    using keeps_puts(1) by (simp add: keeps_def after_def greenAssignment_def newAssignment_def fresh_id_def)
  have "moves (dep_id d) {DEPLOYMENT_PHASE_FAILED, DEPLOYMENT_PHASE_HEALTHCHECKING}
    (\<lambda>w. case Place (w_state w) rel (env_id env) 1 [] of (nodes', err) \<Rightarrow>
       if nodes' = [] then statefulFail ctl d (''no node available for the stateful instance: '' @ errString err) w
       else and_then (ensureDeployVolumes ctl env rel (hd nodes'))
              (\<lambda>w. case greenAssignment ctl env rel (hd nodes') (dep_id d) w of
                     (put, w1) \<Rightarrow> o_apply ctl (Command_PutAssignments [put]) w1) w)"
    using moves_mono [OF moves_statefulFail [of d ctl], of "{DEPLOYMENT_PHASE_FAILED, DEPLOYMENT_PHASE_HEALTHCHECKING}"]
      keeps_moves [OF keeps_and_then [OF keeps_ensure(2) put]]
    by (simp add: moves_def after_def split: prod.split)
  then show ?thesis
    unfolding statefulStart_def Let_def
    by (intro moves_cases moves_ret moves_to moves_mono [OF moves_statefulFail]) simp_all
qed

lemma moves_statefulHealth:
  "moves (dep_id d) {DEPLOYMENT_PHASE_FAILED, DEPLOYMENT_PHASE_PROMOTING} (statefulHealth ctl rel d)"
  unfolding statefulHealth_def Let_def
  by (intro moves_cases moves_ret moves_to moves_mono [OF moves_statefulFail]) simp_all

lemma moves_statefulPromote: "moves (dep_id d) {DEPLOYMENT_PHASE_SUCCEEDED} (statefulPromote ctl d)"
  unfolding statefulPromote_def
  by (intro moves_after keeps_promotion sound_o_apply keeps_emitEvent sound_emitEvent moves_setPhase)

text \<open>The state machine the code documents.\<close>

inductive phase_edge :: "bool \<Rightarrow> DeploymentPhase \<Rightarrow> DeploymentPhase \<Rightarrow> bool" where
  pending_build: "phase_edge b DEPLOYMENT_PHASE_PENDING DEPLOYMENT_PHASE_BUILDING"
| pending_place: "phase_edge False DEPLOYMENT_PHASE_PENDING DEPLOYMENT_PHASE_PLACING"
| pending_rollback: "phase_edge False DEPLOYMENT_PHASE_PENDING DEPLOYMENT_PHASE_PROMOTING"
| pending_stop: "phase_edge True DEPLOYMENT_PHASE_PENDING DEPLOYMENT_PHASE_STOPPING_OLD"
| built: "phase_edge False DEPLOYMENT_PHASE_BUILDING DEPLOYMENT_PHASE_PLACING"
| built_stateful: "phase_edge True DEPLOYMENT_PHASE_BUILDING DEPLOYMENT_PHASE_STOPPING_OLD"
| stopped: "phase_edge True DEPLOYMENT_PHASE_STOPPING_OLD DEPLOYMENT_PHASE_STARTING"
| placed: "phase_edge False DEPLOYMENT_PHASE_PLACING DEPLOYMENT_PHASE_STARTING"
| started: "phase_edge b DEPLOYMENT_PHASE_STARTING DEPLOYMENT_PHASE_HEALTHCHECKING"
| healthy: "phase_edge b DEPLOYMENT_PHASE_HEALTHCHECKING DEPLOYMENT_PHASE_PROMOTING"
| promoted: "phase_edge False DEPLOYMENT_PHASE_PROMOTING DEPLOYMENT_PHASE_DRAINING_OLD"
| promoted_stateful: "phase_edge True DEPLOYMENT_PHASE_PROMOTING DEPLOYMENT_PHASE_SUCCEEDED"
| drained: "phase_edge b DEPLOYMENT_PHASE_DRAINING_OLD DEPLOYMENT_PHASE_SUCCEEDED"
| failed: "\<not> isTerminalPhase p \<Longrightarrow> phase_edge b p DEPLOYMENT_PHASE_FAILED"
| replaced: "\<not> isTerminalPhase p \<Longrightarrow> p \<noteq> DEPLOYMENT_PHASE_DRAINING_OLD \<Longrightarrow> phase_edge b p DEPLOYMENT_PHASE_SUPERSEDED"


lemma moves_reconcileStateful:
  assumes "\<not> isTerminalPhase (dep_phase d)"
  shows "moves (dep_id d) {q. phase_edge True (dep_phase d) q} (reconcileStateful ctl env rel d)"
  using assms
  by (cases "dep_phase d")
    (simp_all add: reconcileStateful_def moves_ret moves_to phase_edge.intros
      moves_mono [OF moves_checkBuild] moves_mono [OF moves_stopOld] moves_mono [OF moves_statefulStart]
      moves_mono [OF moves_statefulHealth] moves_mono [OF moves_statefulPromote])

lemma moves_reconcileRedGreen:
  assumes "\<not> isTerminalPhase (dep_phase d)"
  shows "moves (dep_id d) {q. phase_edge False (dep_phase d) q} (reconcileRedGreen ctl env rel d)"
  using assms
  by (cases "dep_phase d")
    (simp_all add: reconcileRedGreen_def moves_ret moves_to moves_cases phase_edge.intros
      moves_mono [OF moves_checkBuild] moves_mono [OF moves_place] moves_mono [OF moves_checks(1)]
      moves_mono [OF moves_checks(2)] moves_mono [OF moves_promote] moves_mono [OF moves_drain])

lemma moves_supersede:
  assumes "\<not> isTerminalPhase (dep_phase d)"
  shows "moves (dep_id d) {q. phase_edge b (dep_phase d) q} (supersede ctl d)"
  using assms
  by (auto simp: supersede_def phase_edge.intros
    intro!: moves_to moves_after keeps_reapGreen sound_reapGreen)

definition stateful_of :: "Store \<Rightarrow> Deployment \<Rightarrow> bool" where
  "stateful_of s d = (case Release (dep_release_id d) s of None \<Rightarrow> False | Some rel \<Rightarrow> isStateful rel)"

lemma reconcile_phase_to:
  assumes "store_inv (w_state w)"
  shows "phase_to (dep_id d) {q. phase_edge (stateful_of (w_state w) d) (dep_phase d) q}
    (w_state w) (after (reconcile ctl d) w)"
proof (cases "isTerminalPhase (dep_phase d)")
  case True
  then show ?thesis by (simp add: reconcile_def after_def ret_def phase_to_same)
next
  case False
  have ab: "phase_to (dep_id d) {q. phase_edge b (dep_phase d) q} (w_state w) (after (abort ctl d r) w)" for b r
    using False by (intro movesD [OF moves_to(2) order_refl assms]) (simp add: phase_edge.failed)
  note rs = movesD [OF moves_reconcileStateful [OF False] order_refl assms]
  note rg = movesD [OF moves_reconcileRedGreen [OF False] order_refl assms]
  note su = movesD [OF moves_supersede [OF False] order_refl assms]
  show ?thesis
    using False ab rs rg su by (simp add: reconcile_def after_def stateful_of_def split: option.split)
qed

subsection \<open>The invariant\<close>

lemma sound_setPhase: "sound (setPhase ctl d p e)"
  by (simp add: setPhase_def sound_o_apply)

lemma sound_abort: "sound (abort ctl d r)"
  unfolding abort_def by (intro sound_and_then sound_reapGreen sound_emitEvent sound_setPhase)

lemma sound_cases: "sound f \<Longrightarrow> sound g \<Longrightarrow> sound (\<lambda>w. if b w then f w else g w)"
  by (simp add: sound_def after_def)

lemma sound_option: "sound f \<Longrightarrow> (\<And>x. sound (g x)) \<Longrightarrow> sound (\<lambda>w. case v w of None \<Rightarrow> f w | Some x \<Rightarrow> g x w)"
  by (simp add: sound_def after_def split: option.split)

lemma sound_checkBuild: "sound (checkBuild ctl rel d p)"
  unfolding checkBuild_def
  by (intro sound_option sound_cases sound_abort sound_ret sound_and_then sound_setPhase sound_if sound_o_apply)

lemma sound_place: "sound (place ctl env rel d)"
proof -
  have "sound (\<lambda>w. if int (length (greenAssignments (w_state w) d)) \<ge> n
      then setPhase ctl d DEPLOYMENT_PHASE_STARTING '''' w else ret w)" for n
    by (intro sound_cases sound_setPhase sound_ret)
  from sound_and_then [OF place_fill_keeps(2) this] show ?thesis
    by (auto simp: sound_def place_def after_def Let_def)
qed

lemma sound_puts_event:
  "sound (\<lambda>w. and_then (o_apply ctl (Command_PutAssignments (p w))) (o_emitEvent ctl d k sev msg) w)"
  using sound_and_then [OF sound_o_apply sound_emitEvent] by (simp add: sound_def after_def)

lemma sound_statefulFail: "sound (statefulFail ctl d r)"
  unfolding statefulFail_def
  by (intro sound_and_then sound_reapGreen puts_then_event sound_emitEvent sound_setPhase)

lemma sound_statefulStart: "sound (statefulStart ctl env rel d)"
proof -
  have "sound (\<lambda>w. case greenAssignment ctl env rel n (dep_id d) w of
      (put, w1) \<Rightarrow> o_apply ctl (Command_PutAssignments [put]) w1)" for n
    using sound_o_apply by (simp add: sound_def after_def greenAssignment_def newAssignment_def fresh_id_def)
  note put = sound_and_then [OF sound_ensure this]
  have "sound (\<lambda>w. case Place (w_state w) rel (env_id env) 1 [] of (nodes', err) \<Rightarrow>
       if nodes' = [] then statefulFail ctl d (''no node available for the stateful instance: '' @ errString err) w
       else and_then (ensureDeployVolumes ctl env rel (hd nodes'))
              (\<lambda>w. case greenAssignment ctl env rel (hd nodes') (dep_id d) w of
                     (put, w1) \<Rightarrow> o_apply ctl (Command_PutAssignments [put]) w1) w)"
    using sound_statefulFail [of ctl d] put by (simp add: sound_def after_def split: prod.split)
  then show ?thesis
    unfolding statefulStart_def Let_def
    by (intro sound_cases sound_statefulFail sound_ret sound_setPhase)
qed

lemma sound_checks:
  "sound (checkStarting ctl d)" "sound (checkHealth ctl rel d)" "sound (statefulHealth ctl rel d)"
  unfolding checkStarting_def checkHealth_def statefulHealth_def Let_def
  by (intro sound_cases sound_ret sound_abort sound_setPhase sound_statefulFail)+

lemma sound_promotes: "sound (promote ctl d)" "sound (statefulPromote ctl d)"
  unfolding promote_def statefulPromote_def
  by (intro sound_and_then sound_o_apply sound_setPhase sound_emitEvent)+

lemma sound_drain: "sound (drain ctl d)"
proof -
  have "sound (completeDrain ctl d)"
    unfolding completeDrain_def by (intro sound_and_then puts_if sound_setPhase)
  then show ?thesis unfolding drain_def by (intro sound_cases sound_ret)
qed

lemma sound_stopOld: "sound (stopOld ctl d)"
  unfolding stopOld_def Let_def by (intro sound_cases sound_ret sound_setPhase sound_puts_event)

lemmas sound_arms = sound_checks sound_promotes sound_drain sound_stopOld

lemma sound_reconcile: "sound (reconcile ctl d)"
proof -
  have "sound (reconcileRedGreen ctl env rel d)" for env rel
    by (cases "dep_phase d")
      (simp_all add: reconcileRedGreen_def sound_ret sound_setPhase sound_abort sound_cases sound_checkBuild
        sound_place sound_arms)
  moreover have "sound (reconcileStateful ctl env rel d)" for env rel
    by (cases "dep_phase d")
      (simp_all add: reconcileStateful_def sound_ret sound_setPhase sound_abort sound_cases sound_checkBuild
        sound_statefulStart sound_arms)
  moreover have "sound (supersede ctl d)"
    by (simp add: supersede_def sound_setPhase sound_and_then sound_reapGreen)
  ultimately show ?thesis
    using sound_abort [of ctl d] by (simp add: sound_def reconcile_def after_def ret_def split: option.split)
qed

subsection \<open>A pass over all deployments\<close>

lemma ListDeployments_iff:
  "store_inv s \<Longrightarrow> d \<in> set (ListDeployments '''' s) \<longleftrightarrow> deps s (dep_id d) = Some d"
  using deployment_rc.in_list_iff [OF store_keyed(8)] by (simp add: Deployment_def)

lemma ListDeployments_distinct:
  assumes "store_inv s"
  shows "distinct (map dep_id (ListDeployments '''' s))"
proof -
  have "distinct (map dep_id (mvals (deployments s)))"
    using keyed_distinct_mvals [OF store_keyed(8) [OF assms]] keyed_inj_on [OF store_keyed(8) [OF assms]]
    by (simp add: distinct_map)
  then have "distinct (map dep_id (sort_key dep_id (mvals (deployments s))))"
    by (simp add: distinct_map)
  then show ?thesis by (simp add: ListDeployments_def sortByID_def)
qed

text \<open>Deployment by deployment: what is stored moved along an edge of the state machine, or stayed.\<close>

definition stepped :: "Deployment option \<Rightarrow> Deployment option \<Rightarrow> bool" where
  "stepped x y =
     (y = x \<or> (\<exists>d d' b. x = Some d \<and> y = Some d' \<and> phase_edge b (dep_phase d) (dep_phase d')
                    \<and> dep_id d' = dep_id d \<and> dep_environment_id d' = dep_environment_id d
                    \<and> dep_release_id d' = dep_release_id d))"

lemma phase_to_stepped:
  assumes "phase_to (dep_id d) {q. phase_edge b (dep_phase d) q} s t" and "deps s (dep_id d) = Some d"
  shows "stepped (deps s i) (deps t i) \<and> (i \<noteq> dep_id d \<longrightarrow> deps t i = deps s i)"
  using assms unfolding phase_to_def stepped_def by auto

lemma reconcile_list:
  assumes "store_inv (w_state w)" and "distinct (map dep_id ds)"
    and "\<forall>d \<in> set ds. deps (w_state w) (dep_id d) = Some d"
  shows "let t = after (in_turn (\<lambda>d. if isTerminalPhase (dep_phase d) then ret else reconcile ctl d) ds) w
    in store_inv t \<and> (\<forall>i. stepped (deps (w_state w) i) (deps t i))
       \<and> (\<forall>i. i \<notin> dep_id ` set ds \<longrightarrow> deps t i = deps (w_state w) i)"
  using assms
proof (induction ds arbitrary: w)
  case Nil
  then show ?case by (simp add: stepped_def)
next
  case (Cons d ds)
  define f where "f = (if isTerminalPhase (dep_phase d) then ret else reconcile ctl d)"
  define rest where "rest = in_turn (\<lambda>d. if isTerminalPhase (dep_phase d) then ret else reconcile ctl d) ds"
  have inv1: "store_inv (after f w)"
    using Cons.prems(1) sound_reconcile sound_ret by (simp add: f_def sound_def)
  have step1: "stepped (deps (w_state w) i) (deps (after f w) i)
      \<and> (i \<noteq> dep_id d \<longrightarrow> deps (after f w) i = deps (w_state w) i)" for i
  proof (cases "isTerminalPhase (dep_phase d)")
    case True
    then show ?thesis by (simp add: f_def stepped_def)
  next
    case False
    with reconcile_phase_to [OF Cons.prems(1), of d ctl] Cons.prems(3) show ?thesis
      by (simp add: f_def phase_to_stepped)
  qed
  have "\<forall>x \<in> set ds. deps (w_state (snd (f w))) (dep_id x) = Some x"
    using Cons.prems(2,3) step1 unfolding state_snd by (auto simp: image_iff)
  moreover have "distinct (map dep_id ds)" using Cons.prems(2) by simp
  ultimately have ih: "store_inv (after rest (snd (f w)))"
    "stepped (deps (after f w) i) (deps (after rest (snd (f w))) i)"
    "i \<notin> dep_id ` set ds \<Longrightarrow> deps (after rest (snd (f w))) i = deps (after f w) i" for i
    using Cons.IH [of "snd (f w)"] inv1 by (auto simp: rest_def state_snd Let_def)
  have both: "stepped (deps (w_state w) i) (deps (after rest (snd (f w))) i)" for i
    using step1 [of i] ih(2,3) [of i] Cons.prems(2) by (cases "i = dep_id d") (auto simp: image_iff)
  have "after (and_then f rest) w \<in> {after f w, after rest (snd (f w))}"
    using after_and_then [of f rest w] by auto
  then show ?case
    using inv1 step1 ih both unfolding in_turn.simps f_def [symmetric] rest_def [symmetric] Let_def by auto
qed

lemma reconcileAll_stepped:
  assumes "store_inv (w_state w)"
  shows "store_inv (after (reconcileAll ctl) w) \<and> (\<forall>i. stepped (deps (w_state w) i) (deps (after (reconcileAll ctl) w) i))"
proof (cases "is_leader ctl")
  case True
  have "let t = after (in_turn (\<lambda>d. if isTerminalPhase (dep_phase d) then ret else reconcile ctl d)
      (ListDeployments '''' (w_state w))) w
    in store_inv t \<and> (\<forall>i. stepped (deps (w_state w) i) (deps t i))
       \<and> (\<forall>i. i \<notin> dep_id ` set (ListDeployments '''' (w_state w)) \<longrightarrow> deps t i = deps (w_state w) i)"
    using assms ListDeployments_distinct ListDeployments_iff by (intro reconcile_list) auto
  with True show ?thesis by (simp add: Let_def after_def reconcileAll_def)
next
  case False
  with assms show ?thesis by (simp add: after_def reconcileAll_def stepped_def)
qed


definition sample_control :: "(nat \<Rightarrow> raft_outcome) \<Rightarrow> Control" where
  "sample_control net = \<lparr>new_id = (\<lambda>n. ''id-'' @ Itoa n), raft_net = net, is_leader = True,
     clock_now = Hour, drainDur = 0\<rparr>"

definition sample_deployment :: "DeploymentPhase \<Rightarrow> Deployment" where
  "sample_deployment p = zero_deployment\<lparr>dep_meta := meta_of ''d'', dep_environment_id := ''e'',
     dep_release_id := ''new'', dep_previous_release_id := ''old'', dep_phase := p\<rparr>"

definition sample_deploy_log :: "bool \<Rightarrow> DeploymentPhase \<Rightarrow> log_entry list" where
  "sample_deploy_log stateful p =
     [entry 1 ''r1'' (Command_PutNode ((sample_place_node ''n1'')\<lparr>node_capacity := zero_limits\<rparr>)),
      entry 2 ''r2'' (Command_PutEnvironment (zero_env\<lparr>env_meta := meta_of ''e'', env_active_release_id := ''old'',
                        env_effective_replicas := 2\<rparr>)),
      entry 3 ''r3'' (Command_PutRelease (zero_release\<lparr>rel_meta := meta_of ''new'', rel_environment_id := ''e'',
                        rel_image_ref := ''img'', rel_service := zero_spec\<lparr>svc_stateful := stateful\<rparr>\<rparr>)),
      entry 4 ''r4'' (Command_PutAssignments
        [zero_assignment\<lparr>asg_meta := meta_of ''blue'', asg_environment_id := ''e'', asg_release_id := ''old'',
           asg_node_id := ''n1'', asg_desired := ASSIGNMENT_DESIRED_RUN\<rparr>,
         zero_assignment\<lparr>asg_meta := meta_of ''green'', asg_environment_id := ''e'', asg_release_id := ''new'',
           asg_deployment_id := ''d'', asg_node_id := ''n1'', asg_desired := ASSIGNMENT_DESIRED_RUN,
           asg_observed := zero_observed\<lparr>obs_state := INSTANCE_STATE_HEALTHY\<rparr>\<rparr>]),
      entry 5 ''r5'' (Command_PutDeployment (sample_deployment p))]"

definition sample_deploy :: "bool \<Rightarrow> DeploymentPhase \<Rightarrow> World" where
  "sample_deploy stateful p =
     \<lparr>w_state = run_log (sample_deploy_log stateful p) New, w_index = 5, w_ids = 0, w_proposals = 0\<rparr>"

lemma sample_deploy_inv: "store_inv (w_state (sample_deploy b p))"
  by (simp add: sample_deploy_def reachable_inv)


subsection \<open>When traffic switches\<close>

definition in_phase :: "DeploymentPhase \<Rightarrow> string \<Rightarrow> Store \<Rightarrow> bool" where
  "in_phase p i s = (map_option dep_phase (deps s i) = Some p)"

lemma moves_not:
  assumes "moves (dep_id d) P f" and "store_inv (w_state w)" and "deps (w_state w) (dep_id d) = Some d"
    and "dep_phase d \<noteq> p" and "p \<notin> P"
  shows "\<not> in_phase p (dep_id d) (after f w)"
proof -
  have "phase_to (dep_id d) P (w_state w) (after f w)" using assms(1,2) by (simp add: moves_def)
  with assms(3-5) show ?thesis unfolding phase_to_def in_phase_def by auto
qed

definition all_healthy :: "Assignment list \<Rightarrow> bool" where
  "all_healthy as = list_all (\<lambda>a. obs_state (asg_observed a) = INSTANCE_STATE_HEALTHY) as"

lemma redGreen_promoting:
  assumes "store_inv (w_state w)" and "deps (w_state w) (dep_id d) = Some d"
    and "dep_phase d \<noteq> DEPLOYMENT_PHASE_PROMOTING"
    and "in_phase DEPLOYMENT_PHASE_PROMOTING (dep_id d) (after (reconcileRedGreen ctl env rel d) w)"
  shows "dep_phase d = DEPLOYMENT_PHASE_HEALTHCHECKING \<and> all_healthy (greenAssignments (w_state w) d)
    \<or> dep_phase d = DEPLOYMENT_PHASE_PENDING \<and> dep_is_rollback d \<and> warmEnough (w_state w) env rel d"
proof -
  note no = moves_not [OF _ assms(1-3)]
  show ?thesis
  proof (cases "dep_phase d")
    case DEPLOYMENT_PHASE_PENDING
    then show ?thesis
      using assms(4) no [OF moves_setPhase] no [OF moves_abort]
      by (auto simp: reconcileRedGreen_def after_cases split: if_splits)
  next
    case DEPLOYMENT_PHASE_HEALTHCHECKING
    then show ?thesis
      using assms(4) no [OF moves_abort] no [OF moves_ret [of "dep_id d" "{}"]]
      by (auto simp: reconcileRedGreen_def checkHealth_def all_healthy_def after_def [of "checkHealth ctl rel d"] Let_def state_snd split: if_splits)
  qed (use assms(3,4) no [OF moves_ret [of "dep_id d" "{}"]] no [OF moves_checkBuild] no [OF moves_place] no [OF moves_checks(1)] no [OF moves_drain]
       in \<open>simp_all add: reconcileRedGreen_def\<close>)
qed

lemma stateful_promoting:
  assumes "store_inv (w_state w)" and "deps (w_state w) (dep_id d) = Some d"
    and "dep_phase d \<noteq> DEPLOYMENT_PHASE_PROMOTING"
    and "in_phase DEPLOYMENT_PHASE_PROMOTING (dep_id d) (after (reconcileStateful ctl env rel d) w)"
  shows "dep_phase d = DEPLOYMENT_PHASE_HEALTHCHECKING \<and> greenAssignments (w_state w) d \<noteq> []
    \<and> all_healthy (greenAssignments (w_state w) d)"
proof -
  note no = moves_not [OF _ assms(1-3)]
  show ?thesis
  proof (cases "dep_phase d")
    case DEPLOYMENT_PHASE_PENDING
    then show ?thesis
      using assms(4) no [OF moves_setPhase] no [OF moves_abort]
      by (auto simp: reconcileStateful_def split: if_splits)
  next
    case DEPLOYMENT_PHASE_HEALTHCHECKING
    then show ?thesis
      using assms(4) no [OF moves_statefulFail] no [OF moves_ret [of "dep_id d" "{}"]]
      by (auto simp: reconcileStateful_def statefulHealth_def all_healthy_def after_def [of "statefulHealth ctl rel d"] Let_def state_snd split: if_splits)
  qed (use assms(3,4) no [OF moves_ret [of "dep_id d" "{}"]] no [OF moves_checkBuild] no [OF moves_stopOld] no [OF moves_statefulStart]
       in \<open>simp_all add: reconcileStateful_def\<close>)
qed

text \<open>C3 (promotion is guarded): a deployment enters the promoting phase only when every one of its
  instances is healthy (and for a stateful service there is one), or when it is a rollback whose
  release still has enough healthy running instances.\<close>

theorem promotion_needs_health:
  assumes "store_inv (w_state w)" and "deps (w_state w) (dep_id d) = Some d"
    and "dep_phase d \<noteq> DEPLOYMENT_PHASE_PROMOTING"
    and "in_phase DEPLOYMENT_PHASE_PROMOTING (dep_id d) (after (reconcile ctl d) w)"
  shows "dep_phase d = DEPLOYMENT_PHASE_HEALTHCHECKING \<and> all_healthy (greenAssignments (w_state w) d)
      \<and> (stateful_of (w_state w) d \<longrightarrow> greenAssignments (w_state w) d \<noteq> [])
    \<or> dep_phase d = DEPLOYMENT_PHASE_PENDING \<and> dep_is_rollback d
      \<and> (\<exists>env rel. Environment (dep_environment_id d) (w_state w) = Some env
           \<and> Release (dep_release_id d) (w_state w) = Some rel \<and> warmEnough (w_state w) env rel d)"
proof -
  note no = moves_not [OF _ assms(1-3)]
  have ab: "\<not> in_phase DEPLOYMENT_PHASE_PROMOTING (dep_id d) (after (abort ctl d r) w)" for r
    using no [OF moves_abort] by simp
  have su: "\<not> isTerminalPhase (dep_phase d) \<Longrightarrow>
      \<not> in_phase DEPLOYMENT_PHASE_PROMOTING (dep_id d) (after (supersede ctl d) w)"
    using no [OF moves_setPhase] no [OF moves_after [OF keeps_reapGreen(1) sound_reapGreen moves_setPhase]]
    by (simp add: supersede_def)
  have nt: "\<not> isTerminalPhase (dep_phase d)"
    using assms(2-4) by (auto simp: reconcile_def after_def ret_def in_phase_def)
  show ?thesis
    using assms(4) nt ab su redGreen_promoting [OF assms(1-3)] stateful_promoting [OF assms(1-3)]
    by (auto simp: reconcile_def after_def [of "reconcile ctl d"] state_snd stateful_of_def split: option.splits if_splits)
qed


lemma sample_deploy_eval:
  "in_phase DEPLOYMENT_PHASE_PROMOTING ''d''
       (after (reconcile (sample_control (\<lambda>_. Committed)) (sample_deployment DEPLOYMENT_PHASE_HEALTHCHECKING))
         (sample_deploy False DEPLOYMENT_PHASE_HEALTHCHECKING))
   \<and> deps (w_state (sample_deploy False DEPLOYMENT_PHASE_HEALTHCHECKING)) ''d'' =
       Some (sample_deployment DEPLOYMENT_PHASE_HEALTHCHECKING)
   \<and> map_option env_active_release_id (envs (w_state (sample_deploy False DEPLOYMENT_PHASE_PROMOTING)) ''e'') = Some ''old''
   \<and> map_option env_active_release_id (envs (after (reconcile (sample_control (\<lambda>_. Committed))
       (sample_deployment DEPLOYMENT_PHASE_PROMOTING)) (sample_deploy False DEPLOYMENT_PHASE_PROMOTING)) ''e'') = Some ''new''"
  by code_simp

lemma sample_health:
  "in_phase DEPLOYMENT_PHASE_PROMOTING ''d''
     (after (reconcile (sample_control (\<lambda>_. Committed)) (sample_deployment DEPLOYMENT_PHASE_HEALTHCHECKING))
       (sample_deploy False DEPLOYMENT_PHASE_HEALTHCHECKING))"
  "deps (w_state (sample_deploy False DEPLOYMENT_PHASE_HEALTHCHECKING)) ''d'' =
     Some (sample_deployment DEPLOYMENT_PHASE_HEALTHCHECKING)"
  using sample_deploy_eval by blast+

lemma sample_deployment_fields [simp]:
  "dep_id (sample_deployment p) = ''d''" "dep_phase (sample_deployment p) = p"
  "dep_environment_id (sample_deployment p) = ''e''" "dep_release_id (sample_deployment p) = ''new''"
  by (simp_all add: sample_deployment_def meta_of_def)

theorem promotion_needs_health_witness:
  "all_healthy (greenAssignments (w_state (sample_deploy False DEPLOYMENT_PHASE_HEALTHCHECKING))
     (sample_deployment DEPLOYMENT_PHASE_HEALTHCHECKING))"
  using promotion_needs_health [OF sample_deploy_inv [of False DEPLOYMENT_PHASE_HEALTHCHECKING],
      where d = "sample_deployment DEPLOYMENT_PHASE_HEALTHCHECKING" and ctl = "sample_control (\<lambda>_. Committed)"] sample_health
  by simp

lemma keeps_envs_cases: "keeps v f \<Longrightarrow> keeps v g \<Longrightarrow> keeps v (\<lambda>w. if b w then f w else g w)"
  by (simp add: keeps_def after_def)

lemma keeps_option:
  "keeps v f \<Longrightarrow> (\<And>x. keeps v (g x)) \<Longrightarrow> keeps v (\<lambda>w. case u w of None \<Rightarrow> f w | Some x \<Rightarrow> g x w)"
  by (simp add: keeps_def after_def split: option.split)

lemma keeps_abort: "keeps envs (abort ctl d r)" "keeps rels (abort ctl d r)"
  unfolding abort_def by (intro keeps_and_then keeps_reapGreen keeps_emitEvent keeps_setPhase)+

lemma keeps_envs_build: "keeps envs (checkBuild ctl rel d p)"
proof -
  have "keeps envs (if c then o_apply ctl (Command_PutRelease r) else ret)" for c r
    by (simp add: keeps_ret keeps_PutRelease)
  then show ?thesis
    unfolding checkBuild_def
    by (intro keeps_option keeps_envs_cases keeps_abort keeps_ret keeps_and_then keeps_setPhase)
qed

lemma keeps_envs_place: "keeps envs (place ctl env rel d)"
proof -
  have fill: "keeps envs (\<lambda>w. if b then let picks = p w; (puts, w1) = build_all (\<lambda>n. greenAssignment ctl env rel n i) picks w
                in if puts \<noteq> [] then o_apply ctl (Command_PutAssignments puts) w1 else ret w1 else ret w)" for b p i
    using keeps_puts(2) by (auto simp: keeps_def after_def ret_def Let_def split_def build_all_state)
  have adv: "keeps envs (\<lambda>w. if int (length (greenAssignments (w_state w) d)) \<ge> n
      then setPhase ctl d DEPLOYMENT_PHASE_STARTING '''' w else ret w)" for n
    by (intro keeps_envs_cases keeps_setPhase keeps_ret)
  from keeps_and_then [OF fill adv] show ?thesis
    by (auto simp: keeps_def place_def after_def Let_def)
qed

lemma keeps_envs_fail: "keeps envs (statefulFail ctl d r)"
  unfolding statefulFail_def
  by (intro keeps_and_then keeps_reapGreen puts_then_event keeps_emitEvent keeps_setPhase)

lemma keeps_envs_start: "keeps envs (statefulStart ctl env rel d)"
proof -
  have "keeps envs (\<lambda>w. case greenAssignment ctl env rel n (dep_id d) w of
      (put, w1) \<Rightarrow> o_apply ctl (Command_PutAssignments [put]) w1)" for n
    using keeps_puts(2) by (simp add: keeps_def after_def greenAssignment_def newAssignment_def fresh_id_def)
  note put = keeps_and_then [OF keeps_ensure(3) this]
  have "keeps envs (\<lambda>w. case Place (w_state w) rel (env_id env) 1 [] of (nodes', err) \<Rightarrow>
       if nodes' = [] then statefulFail ctl d (''no node available for the stateful instance: '' @ errString err) w
       else and_then (ensureDeployVolumes ctl env rel (hd nodes'))
              (\<lambda>w. case greenAssignment ctl env rel (hd nodes') (dep_id d) w of
                     (put, w1) \<Rightarrow> o_apply ctl (Command_PutAssignments [put]) w1) w)"
    using keeps_envs_fail [of ctl d] put by (simp add: keeps_def after_def split: prod.split)
  then show ?thesis
    unfolding statefulStart_def Let_def
    by (intro keeps_envs_cases keeps_envs_fail keeps_ret keeps_setPhase)
qed

lemma keeps_envs_arms:
  "keeps envs (checkStarting ctl d)" "keeps envs (checkHealth ctl rel d)" "keeps envs (statefulHealth ctl rel d)"
  "keeps envs (completeDrain ctl d)"
  unfolding checkStarting_def checkHealth_def statefulHealth_def completeDrain_def Let_def
  by (intro keeps_envs_cases keeps_ret keeps_abort keeps_setPhase keeps_envs_fail
      keeps_and_then puts_if [unfolded Let_def])+

lemma keeps_envs_drain: "keeps envs (drain ctl d)"
  unfolding drain_def by (intro keeps_envs_cases keeps_ret keeps_envs_arms)

lemma keeps_envs_stopOld: "keeps envs (stopOld ctl d)"
  unfolding stopOld_def Let_def
  by (intro keeps_envs_cases keeps_ret keeps_setPhase)
    (use keeps_and_then [OF keeps_puts(2) keeps_emitEvent(3)] in \<open>simp add: keeps_def after_def\<close>)

lemma keeps_envs_supersede: "keeps envs (supersede ctl d)"
  by (simp add: supersede_def keeps_setPhase keeps_and_then keeps_reapGreen)

lemma reconcile_keeps_envs:
  assumes "dep_phase d \<noteq> DEPLOYMENT_PHASE_PROMOTING"
  shows "keeps envs (reconcile ctl d)"
proof -
  have "keeps envs (reconcileRedGreen ctl env rel d)" for env rel
    using assms by (cases "dep_phase d")
      (simp_all add: reconcileRedGreen_def keeps_ret keeps_setPhase keeps_abort keeps_envs_cases keeps_envs_build
        keeps_envs_place keeps_envs_arms keeps_envs_drain)
  moreover have "keeps envs (reconcileStateful ctl env rel d)" for env rel
    using assms by (cases "dep_phase d")
      (simp_all add: reconcileStateful_def keeps_ret keeps_setPhase keeps_abort keeps_envs_build
        keeps_envs_start keeps_envs_arms keeps_envs_stopOld)
  ultimately show ?thesis
    using keeps_abort(1) [of ctl d] keeps_envs_supersede [of ctl d]
    by (simp add: keeps_def reconcile_def after_def ret_def split: option.split)
qed

definition switched :: "Deployment \<Rightarrow> Store \<Rightarrow> Store \<Rightarrow> bool" where
  "switched d s t =
     (\<exists>env. envs s (dep_environment_id d) = Some env \<and> rels s (dep_release_id d) \<noteq> None
        \<and> envs t = (envs s)(dep_environment_id d \<mapsto>
            env\<lparr>env_active_release_id := dep_release_id d, env_route_generation := env_route_generation env + 1\<rparr>))"

lemma promotion_switch:
  assumes "store_inv (w_state w)"
  shows "envs (after (o_apply ctl (promotion d)) w) = envs (w_state w)
    \<or> switched d (w_state w) (after (o_apply ctl (promotion d)) w)"
  using propose_promote [OF assms, of "\<lparr>pr_environment_id = dep_environment_id d, pr_release_id = dep_release_id d,
      pr_deployment_id = dep_id d\<rparr>" ctl "''system:deploy''"]
  by (auto simp: promoted_rel_def switched_def promotion_def o_apply_def after_def)

lemma then_keeps_envs:
  assumes "keeps envs g"
  shows "envs (after (and_then f g) w) = envs (after f w)"
proof -
  have "envs (after g (snd (f w))) = envs (after f w)"
    using assms by (simp add: keeps_def) (simp add: after_def)
  with after_and_then [of f g w] show ?thesis by auto
qed

lemma switched_cong: "envs t' = envs t \<Longrightarrow> switched d s t' = switched d s t"
  by (simp add: switched_def)

lemma promote_switch:
  assumes "store_inv (w_state w)" and "keeps envs g"
  shows "envs (after (and_then (o_apply ctl (promotion d)) g) w) = envs (w_state w)
    \<or> switched d (w_state w) (after (and_then (o_apply ctl (promotion d)) g) w)"
  using promotion_switch [OF assms(1), of ctl d] then_keeps_envs [OF assms(2), of "o_apply ctl (promotion d)" w]
  by (auto simp: switched_def)

text \<open>C14 (traffic switch): reconciling a deployment changes an environment only in the promoting
  phase, and then in one step: the deployment's own environment, whose release must exist, gets the
  deployment's release as its active release and the next route generation. Every other pass,
  failed and superseded deployments included, leaves live traffic alone.\<close>

theorem traffic_switches_only_when_promoting:
  assumes "store_inv (w_state w)"
  shows "envs (after (reconcile ctl d) w) = envs (w_state w)
    \<or> dep_phase d = DEPLOYMENT_PHASE_PROMOTING \<and> switched d (w_state w) (after (reconcile ctl d) w)"
proof (cases "dep_phase d = DEPLOYMENT_PHASE_PROMOTING")
  case False
  then show ?thesis using reconcile_keeps_envs [of d ctl] by (simp add: keeps_def)
next
  case True
  have "keeps envs (o_apply ctl (Command_SetDeploymentPhase m))" for m
    using propose_phase_tables by (simp add: keeps_def o_apply_def after_def Let_def)
  then have red: "envs (after (promote ctl d) w) = envs (w_state w) \<or> switched d (w_state w) (after (promote ctl d) w)"
    unfolding promote_def by (intro promote_switch [OF assms])
  have sta: "envs (after (statefulPromote ctl d) w) = envs (w_state w) \<or> switched d (w_state w) (after (statefulPromote ctl d) w)"
    unfolding statefulPromote_def
    by (intro promote_switch [OF assms] keeps_and_then keeps_emitEvent keeps_setPhase)
  have "envs (after (abort ctl d r) w) = envs (w_state w)" "envs (after (supersede ctl d) w) = envs (w_state w)" for r
    using keeps_abort(1) [of ctl d] keeps_envs_supersede [of ctl d] by (simp_all add: keeps_def)
  with True red sta show ?thesis
    by (auto simp: reconcile_def after_def [of "reconcile ctl d"] state_snd reconcileRedGreen_def reconcileStateful_def
      split: option.splits if_splits)
qed

theorem traffic_switches_only_when_promoting_witness:
  "let w = sample_deploy False DEPLOYMENT_PHASE_PROMOTING; d = sample_deployment DEPLOYMENT_PHASE_PROMOTING;
       t = after (reconcile (sample_control (\<lambda>_. Committed)) d) w
   in switched d (w_state w) t \<and> map_option env_active_release_id (envs t ''e'') = Some ''new''"
proof -
  have "map_option env_active_release_id (envs (w_state (sample_deploy False DEPLOYMENT_PHASE_PROMOTING)) ''e'') = Some ''old''"
    "map_option env_active_release_id (envs (after (reconcile (sample_control (\<lambda>_. Committed))
       (sample_deployment DEPLOYMENT_PHASE_PROMOTING)) (sample_deploy False DEPLOYMENT_PHASE_PROMOTING)) ''e'') = Some ''new''"
    using sample_deploy_eval by blast+
  moreover from this have "envs (after (reconcile (sample_control (\<lambda>_. Committed))
       (sample_deployment DEPLOYMENT_PHASE_PROMOTING)) (sample_deploy False DEPLOYMENT_PHASE_PROMOTING)) \<noteq>
      envs (w_state (sample_deploy False DEPLOYMENT_PHASE_PROMOTING))"
    by (intro notI) auto
  ultimately show ?thesis
    using traffic_switches_only_when_promoting [OF sample_deploy_inv [of False DEPLOYMENT_PHASE_PROMOTING],
      where d = "sample_deployment DEPLOYMENT_PHASE_PROMOTING" and ctl = "sample_control (\<lambda>_. Committed)"]
    unfolding Let_def by blast
qed

end
