(* ===== verification/Scheduler.thy ===== *)
theory Scheduler
  imports Orchestrator
begin

text \<open>
  The replica scheduler of the leader, \<^verbatim>\<open>internal/daemon/scheduler/scheduler.go\<close>, with node
  drains (\<^verbatim>\<open>drain.go\<close>), the reaping of orphans (\<^verbatim>\<open>teardown.go\<close>) and volumes with their
  fencing leases (\<^verbatim>\<open>volumes.go\<close>). As in the orchestrator, an operation is an action over the
  world; \<^verbatim>\<open>st\<close> is the live store, so every read is of the current world, while the objects a
  loop runs over are the clones listed when it starts. Log lines are left out.
\<close>

subsection \<open>Helpers\<close>

text \<open>The \<^verbatim>\<open>%q\<close> verb on printable ASCII text, and \<^verbatim>\<open>%v\<close> on an error that may be nil.\<close>

definition Quote :: "string \<Rightarrow> string" where
  "Quote s = ''\"'' @ concat (map (\<lambda>c. if c \<in> {CHR ''\"'', CHR 0x5C} then [CHR 0x5C, c] else [c]) s) @ ''\"''"

definition error_v :: "placement_error option \<Rightarrow> string" where
  "error_v err = (case err of None \<Rightarrow> ''<nil>'' | Some e \<Rightarrow> placement_error_string e)"

definition desiredReplicas :: "Environment \<Rightarrow> int" where
  "desiredReplicas env =
     (if env_active_release_id env = '''' then 0
      else if svc_scale_to_zero (env_service env) then uint (env_effective_replicas env)
      else if env_effective_replicas env > 0 then uint (env_effective_replicas env)
      else uint (replicas_min (svc_replicas (env_service env))))"

definition nodeDown :: "Store \<Rightarrow> string \<Rightarrow> bool" where
  "nodeDown st nodeID =
     (case Node nodeID st of None \<Rightarrow> True | Some n \<Rightarrow> node_status n \<noteq> NODE_STATUS_ALIVE)"

definition nodeDraining :: "Store \<Rightarrow> string \<Rightarrow> bool" where
  "nodeDraining st nodeID =
     (case Node nodeID st of None \<Rightarrow> False | Some n \<Rightarrow> node_status n = NODE_STATUS_DRAINING)"

definition isStopped :: "Assignment \<Rightarrow> bool" where
  "isStopped a = (obs_state (asg_observed a) = INSTANCE_STATE_STOPPED)"

text \<open>\<^verbatim>\<open>isStateful\<close> of a release pointer: the getters of a nil release give the zero service.\<close>

definition isStateful_ptr :: "Release option \<Rightarrow> bool" where
  "isStateful_ptr rel = (case rel of None \<Rightarrow> False | Some r \<Rightarrow> isStateful r)"

definition deploymentOwnsEnv :: "Store \<Rightarrow> Environment \<Rightarrow> bool" where
  "deploymentOwnsEnv st env =
     list_ex (\<lambda>d. \<not> isTerminalPhase (dep_phase d)) (ListDeployments (env_id env) st)"

subsection \<open>Commands of the scheduler\<close>

definition s_apply :: "Control \<Rightarrow> Mutation \<Rightarrow> action" where
  "s_apply ctl m = propose ctl ''system:scheduler'' m"

definition s_emitEvent :: "Control \<Rightarrow> Environment \<Rightarrow> string \<Rightarrow> string \<Rightarrow> string \<Rightarrow> action" where
  "s_emitEvent ctl env kind severity msg w =
     (case fresh_id ctl w of (i, w1) \<Rightarrow>
        ignore (s_apply ctl (Command_AppendEvents
          [\<lparr>event_meta = \<lparr>Id = i, CreatedAt = Some (clock_now ctl), UpdatedAt = None\<rparr>,
            event_kind = kind, event_severity = severity, event_project_id = env_project_id env,
            event_app_id = env_app_id env, event_environment_id = env_id env, event_node_id = '''',
            event_message = msg, event_fields = []\<rparr>])) w1)"

definition emitNodeEvent :: "Control \<Rightarrow> string \<Rightarrow> string \<Rightarrow> string \<Rightarrow> action" where
  "emitNodeEvent ctl nodeID kind msg w =
     (case fresh_id ctl w of (i, w1) \<Rightarrow>
        ignore (s_apply ctl (Command_AppendEvents
          [\<lparr>event_meta = \<lparr>Id = i, CreatedAt = Some (clock_now ctl), UpdatedAt = None\<rparr>,
            event_kind = kind, event_severity = ''warning'', event_project_id = '''',
            event_app_id = '''', event_environment_id = '''', event_node_id = nodeID,
            event_message = msg, event_fields = []\<rparr>])) w1)"

definition setNodeStatus :: "Control \<Rightarrow> string \<Rightarrow> NodeStatus \<Rightarrow> action" where
  "setNodeStatus ctl nodeID status =
     s_apply ctl (Command_SetNodeStatus
       \<lparr>sns_node_id = nodeID, sns_status = status, sns_last_heartbeat_at = None,
        sns_schedulable_set = False, sns_schedulable = False\<rparr>)"

text \<open>Flipping a listed id to STOP re-reads the assignment.\<close>

definition flipStop :: "Store \<Rightarrow> string \<Rightarrow> Assignment list \<Rightarrow> Assignment list" where
  "flipStop st i puts =
     (case Assignment i st of
        None \<Rightarrow> puts
      | Some a \<Rightarrow> if asg_desired a \<noteq> ASSIGNMENT_DESIRED_STOP
                  then puts @ [a\<lparr>asg_desired := ASSIGNMENT_DESIRED_STOP\<rparr>] else puts)"

definition applyBatch :: "Control \<Rightarrow> Assignment list \<Rightarrow> string list \<Rightarrow> string list \<Rightarrow> action" where
  "applyBatch ctl puts stopIDs deleteIDs w =
     (let puts' = fold (flipStop (w_state w)) stopIDs puts
      in and_then
           (if puts' \<noteq> [] then s_apply ctl (Command_PutAssignments puts') else ret)
           (if deleteIDs \<noteq> [] then s_apply ctl (Command_DeleteAssignments deleteIDs) else ret) w)"

subsection \<open>One environment\<close>

record env_split =
  es_good :: "Assignment list"
  es_stop :: "string list"
  es_delete :: "string list"

definition no_split :: env_split where
  "no_split = \<lparr>es_good = [], es_stop = [], es_delete = []\<rparr>"

text \<open>The body of the loop that partitions the environment's assignments.\<close>

definition classify :: "Store \<Rightarrow> string \<Rightarrow> Release option \<Rightarrow> Assignment \<Rightarrow> env_split \<Rightarrow> env_split" where
  "classify st relID rel a p =
     (let to_stop = p\<lparr>es_stop := es_stop p @ [asg_id a]\<rparr>;
          to_delete = p\<lparr>es_delete := es_delete p @ [asg_id a]\<rparr>;
          to_good = p\<lparr>es_good := es_good p @ [a]\<rparr>
      in if asg_job_id a \<noteq> '''' then p
         else case asg_desired a of
           ASSIGNMENT_DESIRED_STOP \<Rightarrow> if isStopped a then to_delete else p
         | ASSIGNMENT_DESIRED_RUN \<Rightarrow>
             if relID = '''' \<or> asg_release_id a \<noteq> relID then to_stop
             else if nodeDown st (asg_node_id a)
             then if nodeDraining st (asg_node_id a) then p
                  else if isStateful_ptr rel then to_good
                  else to_delete
             else to_good
         | _ \<Rightarrow> p)"

definition scaleUp :: "Control \<Rightarrow> Environment \<Rightarrow> Release option \<Rightarrow> int \<Rightarrow> World \<Rightarrow> Assignment list \<times> World" where
  "scaleUp ctl env rel missing w =
     (case rel of
        None \<Rightarrow> ([], w)
      | Some r \<Rightarrow>
          if missing > 0
          then (case Place (w_state w) r (env_id env) missing [] of (chosen, err) \<Rightarrow>
                  case build_all (newAssignment ctl env r) chosen w of (puts, w1) \<Rightarrow>
                    (puts, if err \<noteq> None
                           then snd (s_emitEvent ctl env ''schedule.no_capacity'' ''warning'' (error_v err) w1)
                           else w1))
          else ([], w))"

definition scaleDown :: "int \<Rightarrow> Assignment list \<Rightarrow> string list" where
  "scaleDown desired good =
     (let excess = int (length good) - desired
      in if excess > 0 then map asg_id (drop (length good - nat excess) (sort_key asg_id good)) else [])"

definition evaluateEnv :: "Control \<Rightarrow> Environment \<Rightarrow> action" where
  "evaluateEnv ctl env w =
     (let st = w_state w;
          relID = env_active_release_id env;
          rel = (if relID = '''' then None else Release relID st);
          p = fold (classify st relID rel) (ListAssignments (env_id env) st) no_split;
          desired = desiredReplicas env
      in if deploymentOwnsEnv st env \<or> (relID \<noteq> '''' \<and> rel = None) then ret w
         else (case scaleUp ctl env rel (desired - int (length (es_good p))) w of (puts, w1) \<Rightarrow>
                 applyBatch ctl puts (es_stop p @ scaleDown desired (es_good p)) (es_delete p) w1))"

subsection \<open>Orphans\<close>

definition isOrphan :: "Store \<Rightarrow> Assignment \<Rightarrow> bool" where
  "isOrphan st a =
     (Environment (asg_environment_id a) st = None
      \<or> (asg_release_id a \<noteq> '''' \<and> Release (asg_release_id a) st = None))"

definition reconcileOrphans :: "Control \<Rightarrow> action" where
  "reconcileOrphans ctl w =
     (let orphans = filter (isOrphan (w_state w)) (ListAssignments '''' (w_state w));
          stopIDs = map asg_id (filter (\<lambda>a. asg_desired a = ASSIGNMENT_DESIRED_RUN) orphans);
          deleteIDs = map asg_id (filter (\<lambda>a. asg_desired a = ASSIGNMENT_DESIRED_STOP \<and> isStopped a) orphans)
      in if stopIDs = [] \<and> deleteIDs = [] then ret w else applyBatch ctl [] stopIDs deleteIDs w)"

subsection \<open>Drains\<close>

definition replacementReady :: "Store \<Rightarrow> Assignment \<Rightarrow> bool" where
  "replacementReady st a =
     (case Environment (asg_environment_id a) st of
        None \<Rightarrow> True
      | Some env \<Rightarrow>
          let want = desiredReplicas env
          in if want = 0 then True
             else int (length (filter
                    (\<lambda>b. \<not> (asg_node_id b = asg_node_id a \<or> asg_release_id b \<noteq> asg_release_id a)
                         \<and> asg_desired b = ASSIGNMENT_DESIRED_RUN
                         \<and> obs_state (asg_observed b) \<in> {INSTANCE_STATE_RUNNING, INSTANCE_STATE_HEALTHY})
                    (ListAssignments (asg_environment_id a) st))) \<ge> want)"

record drain_split =
  ds_stop :: "string list"
  ds_delete :: "string list"
  ds_stateful :: "string list"
  ds_occupied :: int

definition no_drain :: drain_split where
  "no_drain = \<lparr>ds_stop = [], ds_delete = [], ds_stateful = [], ds_occupied = 0\<rparr>"

definition drain_classify :: "Store \<Rightarrow> Assignment \<Rightarrow> drain_split \<Rightarrow> drain_split" where
  "drain_classify st a p =
     (case asg_desired a of
        ASSIGNMENT_DESIRED_STOP \<Rightarrow>
          if isStopped a then p\<lparr>ds_delete := ds_delete p @ [asg_id a]\<rparr>
          else p\<lparr>ds_occupied := ds_occupied p + 1\<rparr>
      | ASSIGNMENT_DESIRED_RUN \<Rightarrow>
          (let p1 = p\<lparr>ds_occupied := ds_occupied p + 1\<rparr>
           in if isStateful_ptr (Release (asg_release_id a) st)
              then p1\<lparr>ds_stop := ds_stop p1 @ [asg_id a], ds_stateful := ds_stateful p1 @ [asg_id a]\<rparr>
              else if replacementReady st a then p1\<lparr>ds_stop := ds_stop p1 @ [asg_id a]\<rparr>
              else p1)
      | _ \<Rightarrow> p)"

text \<open>A nil entry of the listing has the zero desired state and is skipped.\<close>

definition drainNode :: "Control \<Rightarrow> Node \<Rightarrow> action" where
  "drainNode ctl node w =
     (if node_status node \<noteq> NODE_STATUS_DRAINING then ret w
      else let nodeID = node_id node;
               p = fold (\<lambda>a p. case a of None \<Rightarrow> p | Some a \<Rightarrow> drain_classify (w_state w) a p)
                     (ListAssignmentsByNode nodeID (w_state w)) no_drain
           in and_then (applyBatch ctl [] (ds_stop p) (ds_delete p))
                (and_then
                   (if ds_stateful p \<noteq> []
                    then emitNodeEvent ctl nodeID ''node.drain.stateful_stopped''
                           (''stopped '' @ Itoa (length (ds_stateful p))
                            @ '' stateful service(s) on the draining node (volumes are pinned here)'')
                    else ret)
                   (if ds_occupied p = 0 then setNodeStatus ctl nodeID NODE_STATUS_DRAINED else ret)) w)"

definition reconcileDrains :: "Control \<Rightarrow> action" where
  "reconcileDrains ctl w = in_turn (drainNode ctl) (ListNodes (w_state w)) w"

subsection \<open>Volumes and leases\<close>

definition leaseTTL :: duration where "leaseTTL = 60 * Second"

definition activeStatefulRelease :: "Store \<Rightarrow> Environment \<Rightarrow> Release option" where
  "activeStatefulRelease st env =
     (if env_active_release_id env = '''' then None
      else case Release (env_active_release_id env) st of
        None \<Rightarrow> None
      | Some rel \<Rightarrow> if \<not> isStateful rel \<or> svc_volumes (rel_service rel) = [] then None else Some rel)"

definition volumeCounts :: "Store \<Rightarrow> (string, int) gomap" where
  "volumeCounts st = fold (\<lambda>v m. mput (vol_node_id v) (mget 0 m (vol_node_id v) + 1) m) (ListVolumes '''' st) []"

text \<open>The loop over the nodes carries the best node so far, the empty id when there is none, and its
  count.\<close>

definition better_volume_node :: "(string, int) gomap \<Rightarrow> Node \<Rightarrow> string \<times> int \<Rightarrow> string \<times> int" where
  "better_volume_node counts n acc =
     (case acc of (best, bestCount) \<Rightarrow>
        if node_status n \<noteq> NODE_STATUS_ALIVE \<or> \<not> node_schedulable n then acc
        else let c = mget 0 counts (node_id n)
             in if best = '''' \<or> c < bestCount \<or> (c = bestCount \<and> node_id n < best)
                then (node_id n, c) else acc)"

definition leastUsedVolumeNode :: "Store \<Rightarrow> string" where
  "leastUsedVolumeNode st = fst (fold (better_volume_node (volumeCounts st)) (ListNodes st) ('''', 0))"

definition createVolume :: "Control \<Rightarrow> Environment \<Rightarrow> string \<Rightarrow> action" where
  "createVolume ctl env name w =
     (let node = leastUsedVolumeNode (w_state w)
      in if node = ''''
         then s_emitEvent ctl env ''volume.no_capacity'' ''warning''
                (''no schedulable node for volume '' @ Quote name) w
         else (case fresh_id ctl w of (i, w1) \<Rightarrow>
                 s_apply ctl (Command_PutVolume
                   (zero_volume
                      \<lparr>vol_meta := \<lparr>Id = i, CreatedAt = Some (clock_now ctl), UpdatedAt = Some (clock_now ctl)\<rparr>,
                       vol_project_id := env_project_id env, vol_environment_id := env_id env,
                       vol_name := name, vol_node_id := node, vol_status := VOLUME_STATUS_ACTIVE\<rparr>)) w1))"

definition setVolumeStatus :: "Control \<Rightarrow> Volume \<Rightarrow> VolumeStatus \<Rightarrow> action" where
  "setVolumeStatus ctl v status =
     s_apply ctl (Command_PutVolume
       (v\<lparr>vol_status := status, vol_meta := (vol_meta v)\<lparr>UpdatedAt := Some (clock_now ctl)\<rparr>\<rparr>))"

definition trackVolumeNode :: "Control \<Rightarrow> Environment \<Rightarrow> Volume \<Rightarrow> action" where
  "trackVolumeNode ctl env v w =
     (let down = nodeDown (w_state w) (vol_node_id v)
      in if down \<and> vol_status v \<noteq> VOLUME_STATUS_NODE_LOST
         then and_then (setVolumeStatus ctl v VOLUME_STATUS_NODE_LOST)
                (s_emitEvent ctl env ''volume.node_lost'' ''warning''
                   (''volume '' @ Quote (vol_name v) @ '' node '' @ vol_node_id v
                    @ '' is down; stateful service stopped until it returns'')) w
         else if \<not> down \<and> vol_status v = VOLUME_STATUS_NODE_LOST
         then and_then (setVolumeStatus ctl v VOLUME_STATUS_ACTIVE)
                (s_emitEvent ctl env ''volume.recovered'' ''info''
                   (''volume '' @ Quote (vol_name v) @ '' node '' @ vol_node_id v @ '' recovered'')) w
         else ret w)"

definition ensureVolume :: "Control \<Rightarrow> Environment \<Rightarrow> VolumeMount \<Rightarrow> action" where
  "ensureVolume ctl env vm w =
     (case VolumeByName (env_project_id env) (env_id env) (vm_volume_name vm) (w_state w) of
        None \<Rightarrow> createVolume ctl env (vm_volume_name vm) w
      | Some v \<Rightarrow> trackVolumeNode ctl env v w)"

definition ensureVolumes :: "Control \<Rightarrow> action" where
  "ensureVolumes ctl w =
     in_turn (\<lambda>env w. case activeStatefulRelease (w_state w) env of
                        None \<Rightarrow> ret w
                      | Some rel \<Rightarrow> in_turn (ensureVolume ctl env) (svc_volumes (rel_service rel)) w)
       (ListEnvironments '''' '''' (w_state w)) w"

definition leaseExpired :: "VolumeLease option \<Rightarrow> time \<Rightarrow> bool" where
  "leaseExpired lease now =
     (case lease of
        None \<Rightarrow> True
      | Some l \<Rightarrow> (case lease_expires_at l of None \<Rightarrow> True | Some t \<Rightarrow> \<not> now < t))"

definition leaseHeldByOther :: "VolumeLease option \<Rightarrow> string \<Rightarrow> time \<Rightarrow> bool" where
  "leaseHeldByOther lease want now =
     (case lease of
        None \<Rightarrow> False
      | Some l \<Rightarrow> if lease_node_id l = want then False else \<not> leaseExpired lease now)"

definition better_holder :: "Volume \<Rightarrow> Assignment \<Rightarrow> Assignment option \<Rightarrow> Assignment option" where
  "better_holder v a holder =
     (if asg_job_id a \<noteq> '''' \<or> asg_desired a \<noteq> ASSIGNMENT_DESIRED_RUN then holder
      else if asg_node_id a \<noteq> vol_node_id v then holder
      else case holder of
        None \<Rightarrow> Some a
      | Some h \<Rightarrow> if asg_id a < asg_id h then Some a else holder)"

definition statefulHolder :: "Store \<Rightarrow> Volume \<Rightarrow> Assignment option" where
  "statefulHolder st v = fold (better_holder v) (ListAssignments (vol_environment_id v) st) None"

definition renewLease :: "Control \<Rightarrow> Volume \<Rightarrow> action" where
  "renewLease ctl v w =
     (if nodeDown (w_state w) (vol_node_id v) then ret w
      else case statefulHolder (w_state w) v of
        None \<Rightarrow> ret w
      | Some holder \<Rightarrow>
          if leaseHeldByOther (vol_lease v) (vol_node_id v) (clock_now ctl) then ret w
          else s_apply ctl (Command_PutVolumeLease (vol_id v)
                 (Some \<lparr>lease_node_id = vol_node_id v, lease_assignment_id = asg_id holder,
                        lease_expires_at = Some (clock_now ctl + leaseTTL)\<rparr>)) w)"

definition reconcileLeases :: "Control \<Rightarrow> action" where
  "reconcileLeases ctl w = in_turn (renewLease ctl) (ListVolumes '''' (w_state w)) w"

end
