(* ===== verification/Changes.thy ===== *)
theory Changes
  imports DeploymentProps Scheduler
begin

text \<open>
  Reasoning about control loops as changes of the store. \<open>does R f\<close> says that the action keeps
  the store well formed and that what it does to it, whatever the outcomes of its proposals, is
  within \<open>R\<close>. For a reflexive and transitive \<open>R\<close> (the locale \<open>change\<close>) this passes through
  sequencing, loops and case distinctions, so a property of a pass reduces to its single commands.
\<close>

definition does_at :: "(Store \<Rightarrow> Store \<Rightarrow> bool) \<Rightarrow> action \<Rightarrow> World \<Rightarrow> bool" where
  "does_at R f w = (store_inv (w_state w) \<longrightarrow> store_inv (after f w) \<and> R (w_state w) (after f w))"

definition does :: "(Store \<Rightarrow> Store \<Rightarrow> bool) \<Rightarrow> action \<Rightarrow> bool" where
  "does R f = (\<forall>w. does_at R f w)"

lemma doesI: "(\<And>w. store_inv (w_state w) \<Longrightarrow> does_at R f w) \<Longrightarrow> does R f"
  by (simp add: does_def does_at_def)

lemma does_atI: "(store_inv (w_state w) \<Longrightarrow> does_at R f w) \<Longrightarrow> does_at R f w"
  by (simp add: does_at_def)

lemma does_at: "does R f \<Longrightarrow> does_at R f w"
  by (simp add: does_def)

lemma does_mono: "does R f \<Longrightarrow> (\<And>s t. R s t \<Longrightarrow> Q s t) \<Longrightarrow> does Q f"
  by (auto simp: does_def does_at_def)

lemma does_sound: "does R f \<Longrightarrow> sound f"
  by (simp add: does_def does_at_def sound_def)

lemma does_change: "does R f \<Longrightarrow> store_inv (w_state w) \<Longrightarrow> R (w_state w) (after f w)"
  by (simp add: does_def does_at_def)

lemma does_read: "(\<And>w. does R (h w)) \<Longrightarrow> does R (\<lambda>w. h w w)"
  by (simp add: does_def does_at_def after_def)

text \<open>An action that draws identifiers first.\<close>

lemma does_via:
  assumes "\<And>w. \<exists>f v. does R f \<and> w_state v = w_state w \<and> after g w = after f v"
  shows "does R g"
proof (rule doesI)
  fix w :: World
  from assms [of w] obtain f v where "does R f" "w_state v = w_state w" "after g w = after f v" by blast
  then show "does_at R g w" using does_at [of R f v] by (simp add: does_at_def)
qed

lemma does_conj: "does R f \<Longrightarrow> does Q f \<Longrightarrow> does (\<lambda>s t. R s t \<and> Q s t) f"
  by (simp add: does_def does_at_def)

lemma does_same: "sound f \<Longrightarrow> keeps v f \<Longrightarrow> does (\<lambda>s t. v t = v s) f"
  by (simp add: does_def does_at_def sound_def keeps_def)

lemma does_propose:
  assumes "\<And>s. store_inv s \<Longrightarrow> R s s"
    and "\<And>s rid now e c. store_inv s \<Longrightarrow> R s (snd (apply_mutation rid (Some now) m (recorded e c s)))"
  shows "does R (propose ctl actor m)"
proof (rule doesI)
  fix w :: World
  assume inv: "store_inv (w_state w)"
  have "R (w_state w) (w_state (snd (propose ctl actor m w)))"
    by (rule propose_rel) (simp_all add: assms inv)
  then show "does_at R (propose ctl actor m) w" by (simp add: does_at_def after_def propose_inv)
qed

locale change =
  fixes R :: "Store \<Rightarrow> Store \<Rightarrow> bool"
  assumes R_refl: "R s s"
    and R_trans: "R s t \<Longrightarrow> R t u \<Longrightarrow> R s u"
begin

lemma ret_does: "does R ret"
  by (simp add: does_def does_at_def R_refl)

lemma then_at:
  assumes "does_at R f w" and "\<And>v. store_inv (w_state v) \<Longrightarrow> R (w_state w) (w_state v) \<Longrightarrow> does_at R g v"
  shows "does_at R (and_then f g) w"
  unfolding does_at_def
proof (rule impI)
  assume inv: "store_inv (w_state w)"
  with assms(1) have f: "store_inv (after f w)" "R (w_state w) (after f w)" by (simp_all add: does_at_def)
  with assms(2) [of "snd (f w)"] have "store_inv (after g (snd (f w)))" "R (after f w) (after g (snd (f w)))"
    by (simp_all add: does_at_def after_def)
  with f after_and_then [of f g w] show "store_inv (after (and_then f g) w) \<and> R (w_state w) (after (and_then f g) w)"
    using R_trans [OF f(2)] by auto
qed

lemma then_does: "does R f \<Longrightarrow> does R g \<Longrightarrow> does R (and_then f g)"
  by (rule doesI, rule then_at) (simp_all add: does_at)

lemma turn_does: "(\<And>x. x \<in> set xs \<Longrightarrow> does R (f x)) \<Longrightarrow> does R (in_turn f xs)"
  by (induction xs) (simp_all add: ret_does then_does)

text \<open>A loop over listed objects, each of which is still as listed when its turn comes.\<close>

lemma turn_at:
  assumes "distinct xs" and "\<And>x. x \<in> set xs \<Longrightarrow> P x (w_state w)"
    and "\<And>x v. x \<in> set xs \<Longrightarrow> store_inv (w_state v) \<Longrightarrow> P x (w_state v) \<Longrightarrow> does_at R (f x) v"
    and "\<And>x y v. x \<in> set xs \<Longrightarrow> y \<in> set xs \<Longrightarrow> x \<noteq> y \<Longrightarrow> P y (w_state v) \<Longrightarrow> P y (after (f x) v)"
  shows "does_at R (in_turn f xs) w"
  using assms
proof (induction xs arbitrary: w)
  case (Cons x xs)
  have step: "does_at R (f x) w"
    by (rule does_atI) (use Cons.prems(2,3) [of x] in simp)
  have "does_at R (in_turn f xs) (snd (f x w))"
  proof (rule Cons.IH)
    show "P y (w_state (snd (f x w)))" if "y \<in> set xs" for y
      using Cons.prems(1) Cons.prems(2) [of y] Cons.prems(4) [of x y w] that by (auto simp: after_def)
  qed (use Cons.prems in auto)
  with step show ?case
    by (auto simp: does_at_def and_then_def after_def split: prod.splits option.splits intro: R_trans)
qed (simp add: does_at_def R_refl)

lemma if_does: "does R f \<Longrightarrow> does R g \<Longrightarrow> does R (if b then f else g)"
  by simp

lemma unchanged_does: "sound f \<Longrightarrow> (\<And>w. store_inv (w_state w) \<Longrightarrow> R (w_state w) (after f w)) \<Longrightarrow> does R f"
  by (simp add: does_def does_at_def sound_def)

end

subsection \<open>Commands of the scheduler\<close>

definition nothing_but_history :: "Store \<Rightarrow> Store \<Rightarrow> bool" where
  "nothing_but_history s t = (tables_eq s t \<and> networkAllocs t = networkAllocs s)"

lemma AppendEvents_allocs: "networkAllocs (AppendEvents es s) = networkAllocs s"
  by (simp add: AppendEvents_def Let_def appendEvent_def touch_def fold_frame [where g = networkAllocs])

lemma recorded_allocs [simp]: "networkAllocs (recorded e c s) = networkAllocs s"
  by (simp add: recorded_def MarkApplied_def Let_def)

lemma does_AppendEvents: "does nothing_but_history (s_apply ctl (Command_AppendEvents es))"
  unfolding s_apply_def
  by (rule does_propose)
    (simp_all add: nothing_but_history_def tables_eq_def batch_tables(4) AppendEvents_allocs
      same_but_assignments_recorded [OF batch_tables(3)])

lemma does_events:
  "does nothing_but_history (s_emitEvent ctl env k sev msg)" "does nothing_but_history (emitNodeEvent ctl n k msg)"
proof -
  have "\<exists>f v. does nothing_but_history f \<and> w_state v = w_state w
      \<and> w_state (snd (s_apply ctl (Command_AppendEvents es) (w\<lparr>w_ids := n\<rparr>))) = after f v" for es w n
    by (rule exI [of _ "s_apply ctl (Command_AppendEvents es)"], rule exI [of _ "w\<lparr>w_ids := n\<rparr>"])
      (simp add: does_AppendEvents after_def)
  then show "does nothing_but_history (s_emitEvent ctl env k sev msg)" "does nothing_but_history (emitNodeEvent ctl n k msg)"
    by (simp_all add: does_via s_emitEvent_def emitNodeEvent_def fresh_id_def after_def ignore_def)
qed

lemma s_apply_sound: "sound (s_apply ctl m)"
  by (simp add: s_apply_def sound_propose)

subsection \<open>Batches of assignments\<close>

definition flipped :: "Assignment \<Rightarrow> Assignment" where
  "flipped a = a\<lparr>asg_desired := ASSIGNMENT_DESIRED_STOP\<rparr>"

lemma flipped_fields [simp]:
  "asg_id (flipped a) = asg_id a" "asg_desired (flipped a) = ASSIGNMENT_DESIRED_STOP"
  "asg_environment_id (flipped a) = asg_environment_id a" "asg_job_id (flipped a) = asg_job_id a"
  "asg_release_id (flipped a) = asg_release_id a" "asg_node_id (flipped a) = asg_node_id a"
  by (simp_all add: flipped_def)

lemma fold_flipStop:
  "fold (flipStop st) is puts =
     puts @ map flipped (filter (\<lambda>a. asg_desired a \<noteq> ASSIGNMENT_DESIRED_STOP) (List.map_filter (asgs st) is))"
  by (induction "is" arbitrary: puts)
    (simp_all add: flipStop_def flipped_def Assignment_def List.map_filter_simps split: option.split)

text \<open>What may have become of the assignment with a given id.\<close>

definition batch_at :: "Assignment list \<Rightarrow> string list \<Rightarrow> string list \<Rightarrow> Store \<Rightarrow> Store \<Rightarrow> string \<Rightarrow> bool" where
  "batch_at puts stops dels s t i =
     (asgs t i = asgs s i \<or> (i \<in> set dels \<and> asgs t i = None)
      \<or> (\<exists>a \<in> set puts. asg_id a = i \<and> asgs t i = Some a)
      \<or> (i \<in> set stops \<and> (\<exists>a. asgs s i = Some a \<and> asgs t i = Some (flipped a))))"

lemma put_all_value: "put_all as f i = f i \<or> (\<exists>a \<in> set as. asg_id a = i \<and> put_all as f i = Some a)"
proof (induction as arbitrary: f)
  case (Cons b as)
  obtain g where g: "g = f(asg_id b \<mapsto> b)" by blast
  then have "g i = f i \<or> (asg_id b = i \<and> g i = Some b)" and "put_all (b # as) f = put_all as g"
    by (simp_all add: put_all_def)
  with Cons.IH [of g] show ?case by auto
qed (simp add: put_all_def)

lemma asgs_id: "store_inv s \<Longrightarrow> asgs s i = Some a \<Longrightarrow> asg_id a = i"
  using keyedD [OF store_keyed(4)] by blast

lemma same_but_assignments_trans:
  "same_but_assignments s t \<Longrightarrow> same_but_assignments t u \<Longrightarrow> same_but_assignments s u"
  by (simp add: same_but_assignments_def)

lemma applyBatch_effect:
  assumes "store_inv (w_state w)"
  shows "same_but_assignments (w_state w) (after (applyBatch ctl puts stops dels) w)
    \<and> batch_at puts stops dels (w_state w) (after (applyBatch ctl puts stops dels) w) i"
proof -
  let ?s = "w_state w" and ?ps = "fold (flipStop (w_state w)) stops puts"
  let ?f = "if ?ps \<noteq> [] then s_apply ctl (Command_PutAssignments ?ps) else ret"
  let ?g = "if dels \<noteq> [] then s_apply ctl (Command_DeleteAssignments dels) else ret"
  have f: "puts_rel ?ps ?s (after ?f w)"
    using propose_PutAssignments [of ?ps w] by (simp add: s_apply_def after_def puts_rel_def ret_def)
  have g: "dels_rel dels (w_state v) (after ?g v)" for v
    using propose_DeleteAssignments [of dels v] by (simp add: s_apply_def after_def dels_rel_def ret_def)
  have put: "put_all ?ps (asgs ?s) i = asgs ?s i
      \<or> (\<exists>a \<in> set puts. asg_id a = i \<and> put_all ?ps (asgs ?s) i = Some a)
      \<or> (i \<in> set stops \<and> (\<exists>a. asgs ?s i = Some a \<and> put_all ?ps (asgs ?s) i = Some (flipped a)))"
    using put_all_value [of ?ps "asgs ?s" i] asgs_id [OF assms]
    by (fastforce simp: fold_flipStop List.map_filter_def)
  from after_and_then [of ?f ?g w] show ?thesis
  proof
    assume "after (and_then ?f ?g) w = after ?f w"
    with f put show ?thesis by (auto simp: applyBatch_def after_def puts_rel_def batch_at_def Let_def)
  next
    assume e: "after (and_then ?f ?g) w = after ?g (snd (?f w))"
    from f g [of "snd (?f w)"] have "same_but_assignments ?s (after ?g (snd (?f w)))"
      unfolding puts_rel_def dels_rel_def state_snd by (blast intro: same_but_assignments_trans)
    with e f g [of "snd (?f w)"] put show ?thesis
      by (auto simp: applyBatch_def after_def puts_rel_def dels_rel_def batch_at_def del_all_apply Let_def
        split: if_splits)
  qed
qed

lemma sound_applyBatch: "sound (applyBatch ctl puts stops dels)"
proof -
  have "sound (and_then (if b then s_apply ctl m else ret) (if c then s_apply ctl n else ret))" for b c m n
    by (rule sound_and_then) (simp_all add: s_apply_sound sound_ret)
  then show ?thesis by (simp add: sound_def applyBatch_def after_def Let_def)
qed

end
