(* ===== verification/Drains.thy ===== *)
theory Drains
  imports Changes
begin

text \<open>
  Draining a node: a pass that empties draining nodes never takes a stateless service below the
  replicas it wants, and declares a node drained only when nothing is left on it.
\<close>

subsection \<open>Listings of assignments\<close>

lemma ListAssignments_iff:
  "store_inv s \<Longrightarrow> a \<in> set (ListAssignments e s) \<longleftrightarrow> asgs s (asg_id a) = Some a \<and> (e = '''' \<or> asg_environment_id a = e)"
  using assignment_rc.in_list_iff [OF store_keyed(4)] by (simp add: Assignment_def)

lemma ListAssignments_distinct: "store_inv s \<Longrightarrow> distinct (ListAssignments e s)"
  using assignment_rc.list_distinct [OF store_keyed(4)] .

lemma ListAssignmentsByNode_iff:
  assumes "store_inv s"
  shows "x \<in> set (ListAssignmentsByNode n s) \<longleftrightarrow> (\<exists>a. x = Some a \<and> asgs s (asg_id a) = Some a \<and> asg_node_id a = n)"
  using midx_listing [OF store_keyed(4) store_indexed(4), OF assms assms, of n]
  by (auto simp: ListAssignmentsByNode_def sortByID_def)

definition ids_where :: "(Assignment \<Rightarrow> bool) \<Rightarrow> Store \<Rightarrow> string set" where
  "ids_where P s = {i. \<exists>a. asgs s i = Some a \<and> P a}"

lemma finite_ids_where [simp]: "finite (ids_where P s)"
proof -
  have "ids_where P s \<subseteq> dom (asgs s)" by (auto simp: ids_where_def)
  then show ?thesis using finite_dom_map_of finite_subset by blast
qed

lemma count_assignments:
  assumes "store_inv s"
  shows "length (filter P (ListAssignments e s)) = card (ids_where (\<lambda>a. P a \<and> (e = '''' \<or> asg_environment_id a = e)) s)"
proof -
  have "inj_on asg_id (set (ListAssignments e s))"
    using ListAssignments_iff [OF assms] by (auto intro!: inj_onI)
  then have "card (asg_id ` set (filter P (ListAssignments e s))) = length (filter P (ListAssignments e s))"
    using distinct_card [of "filter P (ListAssignments e s)"] ListAssignments_distinct [OF assms, of e]
    by (subst card_image) (auto intro: inj_on_subset)
  moreover have "asg_id ` set (filter P (ListAssignments e s)) = ids_where (\<lambda>a. P a \<and> (e = '''' \<or> asg_environment_id a = e)) s"
    (is "_ = ?ids")
  proof (intro equalityI subsetI)
    fix i
    assume "i \<in> ?ids"
    then obtain a where a: "asgs s i = Some a" "P a" "e = '''' \<or> asg_environment_id a = e" by (auto simp: ids_where_def)
    with asgs_id [OF assms a(1)] show "i \<in> asg_id ` set (filter P (ListAssignments e s))"
      by (intro image_eqI [of _ _ a]) (simp_all add: ListAssignments_iff [OF assms])
  qed (auto simp: ids_where_def ListAssignments_iff [OF assms])
  ultimately show ?thesis by simp
qed

subsection \<open>Serving replicas\<close>

definition serving :: "string \<Rightarrow> Assignment \<Rightarrow> bool" where
  "serving relID a =
     (asg_release_id a = relID \<and> asg_desired a = ASSIGNMENT_DESIRED_RUN
      \<and> obs_state (asg_observed a) \<in> {INSTANCE_STATE_RUNNING, INSTANCE_STATE_HEALTHY})"

definition serving_replicas :: "string \<Rightarrow> string \<Rightarrow> Store \<Rightarrow> int" where
  "serving_replicas envID relID s = int (length (filter (serving relID) (ListAssignments envID s)))"

definition drain_rel :: "string \<Rightarrow> string \<Rightarrow> Environment \<Rightarrow> Store \<Rightarrow> Store \<Rightarrow> bool" where
  "drain_rel envID relID env s t =
     (envs t = envs s \<and> rels t = rels s
      \<and> (envs s envID = Some env \<and> \<not> isStateful_ptr (rels s relID) \<longrightarrow>
           serving_replicas envID relID t \<ge> min (serving_replicas envID relID s) (desiredReplicas env)))"

interpretation drains: change "drain_rel envID relID env" for envID relID env
  by unfold_locales (auto simp: drain_rel_def)

lemma serving_card:
  assumes "store_inv s" and "e \<noteq> ''''"
  shows "serving_replicas e r s = int (card (ids_where (\<lambda>a. serving r a \<and> asg_environment_id a = e) s))"
  using count_assignments [OF assms(1), of "serving r" e] assms(2) by (simp add: serving_replicas_def)

text \<open>What the classification of a draining node's assignments collects.\<close>

lemma fold_collect:
  assumes "\<And>x p. set (g (f x p)) \<subseteq> set (g p) \<union> C x"
  shows "set (g (fold f xs p)) \<subseteq> set (g p) \<union> (\<Union>x \<in> set xs. C x)"
proof (induction xs arbitrary: p)
  case (Cons x xs)
  from Cons.IH [of "f x p"] assms [of x p] show ?case by auto
qed simp

lemma fold_count:
  fixes h :: "'p \<Rightarrow> int"
  assumes "\<And>x p. h p \<le> h (f x p)"
  shows "h p \<le> h (fold f xs p)"
proof (induction xs arbitrary: p)
  case (Cons x xs)
  from Cons.IH [of "f x p"] assms [of p x] show ?case by simp
qed simp

lemma fold_count_none:
  fixes h :: "'p \<Rightarrow> int"
  assumes "\<And>x p. h p \<le> h (f x p)" and "\<And>x p. h (f x p) \<le> h p \<Longrightarrow> Q x"
    and "h (fold f xs p) \<le> h p" and "x \<in> set xs"
  shows "Q x"
  using assms(3,4)
proof (induction xs arbitrary: p)
  case (Cons y xs)
  have "h p \<le> h (f y p)" "h (f y p) \<le> h (fold f xs (f y p))" using assms(1) fold_count [of h f] by auto
  with Cons.prems(1) have "h (f y p) \<le> h p" "h (fold f xs (f y p)) \<le> h (f y p)" by simp_all
  with Cons.IH [of "f y p"] assms(2) [of y p] Cons.prems(2) show ?case by auto
qed simp

definition drain_step :: "Store \<Rightarrow> Assignment option \<Rightarrow> drain_split \<Rightarrow> drain_split" where
  "drain_step st a p = (case a of None \<Rightarrow> p | Some a \<Rightarrow> drain_classify st a p)"

lemma drain_step_collects:
  "set (ds_stop (drain_step st x p)) \<subseteq> set (ds_stop p) \<union> {i. \<exists>a. x = Some a \<and> asg_id a = i
     \<and> asg_desired a = ASSIGNMENT_DESIRED_RUN \<and> (isStateful_ptr (Release (asg_release_id a) st) \<or> replacementReady st a)}"
  "set (ds_delete (drain_step st x p)) \<subseteq> set (ds_delete p) \<union> {i. \<exists>a. x = Some a \<and> asg_id a = i
     \<and> asg_desired a = ASSIGNMENT_DESIRED_STOP}"
  "ds_occupied p \<le> ds_occupied (drain_step st x p)"
  "ds_occupied (drain_step st x p) \<le> ds_occupied p \<Longrightarrow> \<forall>a. x = Some a \<longrightarrow> asg_desired a \<noteq> ASSIGNMENT_DESIRED_RUN
     \<and> (asg_desired a = ASSIGNMENT_DESIRED_STOP \<longrightarrow> isStopped a)"
  by (auto simp: drain_step_def drain_classify_def Let_def split: option.splits AssignmentDesired.splits if_splits)

definition drain_plan :: "Store \<Rightarrow> string \<Rightarrow> drain_split" where
  "drain_plan st n = fold (drain_step st) (ListAssignmentsByNode n st) no_drain"

lemma drain_plan:
  assumes "store_inv s"
  shows "i \<in> set (ds_stop (drain_plan s n)) \<Longrightarrow> \<exists>a. asgs s i = Some a \<and> asg_node_id a = n
      \<and> asg_desired a = ASSIGNMENT_DESIRED_RUN
      \<and> (isStateful_ptr (Release (asg_release_id a) s) \<or> replacementReady s a)"
    and "i \<in> set (ds_delete (drain_plan s n)) \<Longrightarrow> \<exists>a. asgs s i = Some a \<and> asg_desired a = ASSIGNMENT_DESIRED_STOP"
    and "ds_occupied (drain_plan s n) = 0 \<Longrightarrow> asgs s i = Some a \<Longrightarrow> asg_node_id a = n \<Longrightarrow>
      asg_desired a \<noteq> ASSIGNMENT_DESIRED_RUN \<and> (asg_desired a = ASSIGNMENT_DESIRED_STOP \<longrightarrow> isStopped a)"
proof -
  note on_node = ListAssignmentsByNode_iff [OF assms, of _ n]
  show "i \<in> set (ds_stop (drain_plan s n)) \<Longrightarrow> \<exists>a. asgs s i = Some a \<and> asg_node_id a = n
      \<and> asg_desired a = ASSIGNMENT_DESIRED_RUN
      \<and> (isStateful_ptr (Release (asg_release_id a) s) \<or> replacementReady s a)"
    using fold_collect [where g = ds_stop and f = "drain_step s", OF drain_step_collects(1), of "ListAssignmentsByNode n s" no_drain] on_node
    by (auto simp: drain_plan_def no_drain_def)
  show "i \<in> set (ds_delete (drain_plan s n)) \<Longrightarrow> \<exists>a. asgs s i = Some a \<and> asg_desired a = ASSIGNMENT_DESIRED_STOP"
    using fold_collect [where g = ds_delete and f = "drain_step s", OF drain_step_collects(2), of "ListAssignmentsByNode n s" no_drain] on_node
    by (auto simp: drain_plan_def no_drain_def)
  show "asg_desired a \<noteq> ASSIGNMENT_DESIRED_RUN \<and> (asg_desired a = ASSIGNMENT_DESIRED_STOP \<longrightarrow> isStopped a)"
    if "ds_occupied (drain_plan s n) = 0" "asgs s i = Some a" "asg_node_id a = n"
  proof -
    have "\<forall>b. Some a = Some b \<longrightarrow> asg_desired b \<noteq> ASSIGNMENT_DESIRED_RUN
        \<and> (asg_desired b = ASSIGNMENT_DESIRED_STOP \<longrightarrow> isStopped b)"
    proof (rule fold_count_none [where h = ds_occupied and f = "drain_step s" and p = no_drain
        and xs = "ListAssignmentsByNode n s"
        and Q = "\<lambda>x. \<forall>b. x = Some b \<longrightarrow> asg_desired b \<noteq> ASSIGNMENT_DESIRED_RUN
           \<and> (asg_desired b = ASSIGNMENT_DESIRED_STOP \<longrightarrow> isStopped b)"])
      show "ds_occupied (fold (drain_step s) (ListAssignmentsByNode n s) no_drain) \<le> ds_occupied no_drain"
        using that(1) by (simp add: drain_plan_def no_drain_def)
      show "Some a \<in> set (ListAssignmentsByNode n s)"
        using on_node [of "Some a"] that asgs_id [OF assms that(2)] by simp
    qed (rule drain_step_collects, rule drain_step_collects)
    then show ?thesis by simp
  qed
qed

lemma serving_flipped: "\<not> serving r (flipped a)"
  by (simp add: serving_def)

text \<open>Emptying one node: either no replica of the service is stopped, or enough serve elsewhere.\<close>

lemma batch_drain_rel:
  assumes inv: "store_inv s" "store_inv t" and "e \<noteq> ''''"
    and same: "same_but_assignments s t"
    and at: "\<And>i. batch_at [] (ds_stop (drain_plan s n)) (ds_delete (drain_plan s n)) s t i"
  shows "drain_rel e r env s t"
proof -
  let ?serves = "\<lambda>a. serving r a \<and> asg_environment_id a = e"
  let ?off = "\<lambda>a. ?serves a \<and> asg_node_id a \<noteq> n"
  let ?stop = "ds_stop (drain_plan s n)"
  have stays: "i \<in> ids_where ?serves s \<Longrightarrow> i \<notin> set ?stop \<Longrightarrow> i \<in> ids_where ?serves t" for i
    using at [of i] drain_plan(2) [OF inv(1), of i n] by (auto simp: ids_where_def batch_at_def serving_def)
  have "serving_replicas e r t \<ge> min (serving_replicas e r s) (desiredReplicas env)"
    if env: "envs s e = Some env" and stateless: "\<not> isStateful_ptr (rels s r)"
  proof (cases "ids_where ?serves s \<inter> set ?stop = {}")
    case True
    with stays have "ids_where ?serves s \<subseteq> ids_where ?serves t" by auto
    then have "card (ids_where ?serves s) \<le> card (ids_where ?serves t)" by (simp add: card_mono)
    then show ?thesis by (simp add: serving_card assms)
  next
    case False
    then obtain i a where i: "i \<in> set ?stop" "asgs s i = Some a" "?serves a" by (auto simp: ids_where_def)
    with drain_plan(1) [OF inv(1) i(1)] stateless have a: "asg_node_id a = n" "replacementReady s a"
      by (auto simp: serving_def Release_def)
    have "ids_where ?off s \<subseteq> ids_where ?serves t"
      using stays drain_plan(1) [OF inv(1), of _ n] by (fastforce simp: ids_where_def)
    then have "card (ids_where ?off s) \<le> card (ids_where ?serves t)" by (simp add: card_mono)
    moreover have "desiredReplicas env \<noteq> 0 \<Longrightarrow> desiredReplicas env \<le> int (card (ids_where ?off s))"
      using a i(3) env \<open>e \<noteq> ''''\<close>
      by (simp add: replacementReady_def Environment_def Let_def serving_def count_assignments [OF inv(1)]
        conj_ac cong: conj_cong)
    ultimately show ?thesis using assms by (cases "desiredReplicas env = 0") (auto simp: serving_card)
  qed
  with same show ?thesis by (simp add: drain_rel_def same_but_assignments_def)
qed

lemma keeps_setNodeStatus:
  "keeps asgs (setNodeStatus ctl n st)" "keeps envs (setNodeStatus ctl n st)" "keeps rels (setNodeStatus ctl n st)"
proof -
  have "let s = w_state w; t = w_state (snd (propose ctl a (Command_SetNodeStatus m) w))
    in asgs t = asgs s \<and> envs t = envs s \<and> rels t = rels s" for a w m
    unfolding Let_def
    by (rule propose_rel) (simp_all add: applySetNodeStatus_def PutNode_def touch_def Let_def split: option.split)
  then show "keeps asgs (setNodeStatus ctl n st)" "keeps envs (setNodeStatus ctl n st)" "keeps rels (setNodeStatus ctl n st)"
    by (simp_all add: keeps_def setNodeStatus_def s_apply_def after_def Let_def)
qed

lemma ListAssignments_cong:
  assumes "store_inv s" and "store_inv t" and "asgs t = asgs s"
  shows "ListAssignments e t = ListAssignments e s"
proof -
  have "meq (assignments s) (assignments t)"
    using assms by (simp add: meq_def keyed_mwf [OF store_keyed(4)])
  then show ?thesis using assignment_rc.list_order_free [OF store_keyed(4) [OF assms(1)]] by simp
qed

lemma drain_rel_same:
  assumes "store_inv s" and "store_inv t" and "asgs t = asgs s" and "envs t = envs s" and "rels t = rels s"
  shows "drain_rel e r env s t"
  using ListAssignments_cong [OF assms(1-3), of e] assms(4,5) by (simp add: drain_rel_def serving_replicas_def)

lemma does_drain_keeps:
  assumes "sound f" and "keeps asgs f" "keeps envs f" "keeps rels f"
  shows "does (drain_rel e r env) f"
  unfolding does_def does_at_def
  using assms drain_rel_same by (simp add: sound_def keeps_def)

lemma does_drain_event: "does (drain_rel e r env) (emitNodeEvent ctl n k msg)"
  unfolding does_def does_at_def
proof (intro allI impI conjI)
  fix w :: World
  assume inv: "store_inv (w_state w)"
  with does_events(2) [of ctl n k msg]
  have "store_inv (after (emitNodeEvent ctl n k msg) w)"
    and "nothing_but_history (w_state w) (after (emitNodeEvent ctl n k msg) w)"
    by (simp_all add: does_def does_at_def)
  with inv show "store_inv (after (emitNodeEvent ctl n k msg) w)"
    and "drain_rel e r env (w_state w) (after (emitNodeEvent ctl n k msg) w)"
    by (simp_all add: drain_rel_same nothing_but_history_def tables_eq_def same_but_assignments_def)
qed

lemma drainNode_alt:
  "drainNode ctl node w =
     (let p = drain_plan (w_state w) (node_id node)
      in if node_status node \<noteq> NODE_STATUS_DRAINING then ret w
         else and_then (applyBatch ctl [] (ds_stop p) (ds_delete p))
           (and_then
              (if ds_stateful p \<noteq> []
               then emitNodeEvent ctl (node_id node) ''node.drain.stateful_stopped''
                      (''stopped '' @ Itoa (length (ds_stateful p))
                       @ '' stateful service(s) on the draining node (volumes are pinned here)'')
               else ret)
              (if ds_occupied p = 0 then setNodeStatus ctl (node_id node) NODE_STATUS_DRAINED else ret)) w)"
  by (simp add: drainNode_def drain_plan_def drain_step_def [abs_def] Let_def)

lemma drain_batch_at:
  assumes inv: "store_inv (w_state w)"
    and R: "\<And>t. store_inv t \<Longrightarrow> same_but_assignments (w_state w) t \<Longrightarrow>
      (\<And>i. batch_at [] (ds_stop (drain_plan (w_state w) n)) (ds_delete (drain_plan (w_state w) n)) (w_state w) t i) \<Longrightarrow> R (w_state w) t"
  shows "does_at R (applyBatch ctl [] (ds_stop (drain_plan (w_state w) n)) (ds_delete (drain_plan (w_state w) n))) w"
  using sound_applyBatch inv applyBatch_effect [OF inv]
  unfolding does_at_def sound_def by (intro impI conjI R) blast+

lemma does_drainNode:
  assumes "e \<noteq> ''''"
  shows "does (drain_rel e r env) (drainNode ctl node)"
proof (rule doesI)
  fix w :: World
  assume inv: "store_inv (w_state w)"
  let ?p = "drain_plan (w_state w) (node_id node)"
  have batch: "does_at (drain_rel e r env) (applyBatch ctl [] (ds_stop ?p) (ds_delete ?p)) w"
    by (rule drain_batch_at [OF inv]) (rule batch_drain_rel [OF inv _ assms])
  have tail: "does (drain_rel e r env) (and_then (if b then emitNodeEvent ctl n k msg else ret)
      (if c then setNodeStatus ctl n NODE_STATUS_DRAINED else ret))" for b c n k msg
    by (intro drains.then_does drains.if_does drains.ret_does does_drain_event does_drain_keeps keeps_setNodeStatus)
      (simp add: setNodeStatus_def s_apply_sound)
  from drains.then_at [OF batch does_at [OF tail]] does_at [OF drains.ret_does]
  show "does_at (drain_rel e r env) (drainNode ctl node) w"
    by (simp add: does_at_def after_def drainNode_alt Let_def)
qed


subsection \<open>When a node counts as drained\<close>

definition vacated :: "string \<Rightarrow> Store \<Rightarrow> bool" where
  "vacated n s = (\<forall>i a. asgs s i = Some a \<and> asg_node_id a = n \<longrightarrow>
     asg_desired a \<noteq> ASSIGNMENT_DESIRED_RUN \<and> (asg_desired a = ASSIGNMENT_DESIRED_STOP \<longrightarrow> isStopped a))"

text \<open>No assignment appears, none is started again, and a node whose record changes is drained and empty.\<close>

definition drained_rel :: "Store \<Rightarrow> Store \<Rightarrow> bool" where
  "drained_rel s t =
     ((\<forall>i a. asgs t i = Some a \<longrightarrow>
         (\<exists>b. asgs s i = Some b \<and> (a = b \<or> asg_desired b = ASSIGNMENT_DESIRED_RUN \<and> a = flipped b)))
      \<and> (\<forall>i. Node i t = Node i s
             \<or> (\<exists>n. Node i t = Some n \<and> node_status n = NODE_STATUS_DRAINED) \<and> vacated i t))"

lemma isStopped_flipped [simp]: "isStopped (flipped a) = isStopped a"
  by (simp add: isStopped_def flipped_def)

lemma vacated_later:
  assumes "vacated n s"
    and "\<And>i a. asgs t i = Some a \<Longrightarrow>
       \<exists>b. asgs s i = Some b \<and> (a = b \<or> asg_desired b = ASSIGNMENT_DESIRED_RUN \<and> a = flipped b)"
  shows "vacated n t"
  unfolding vacated_def
proof (intro allI impI)
  fix i a
  assume a: "asgs t i = Some a \<and> asg_node_id a = n"
  with assms(2) obtain b where b: "asgs s i = Some b" "a = b \<or> asg_desired b = ASSIGNMENT_DESIRED_RUN \<and> a = flipped b"
    by blast
  with a have "asg_node_id b = n" by auto
  with assms(1) b show "asg_desired a \<noteq> ASSIGNMENT_DESIRED_RUN \<and> (asg_desired a = ASSIGNMENT_DESIRED_STOP \<longrightarrow> isStopped a)"
    unfolding vacated_def by blast
qed

interpretation drained: change drained_rel
proof
  fix s t u
  assume st: "drained_rel s t" and tu: "drained_rel t u"
  have "\<exists>b. asgs s i = Some b \<and> (a = b \<or> asg_desired b = ASSIGNMENT_DESIRED_RUN \<and> a = flipped b)"
    if a: "asgs u i = Some a" for i a
  proof -
    from tu a obtain b where b: "asgs t i = Some b" "a = b \<or> asg_desired b = ASSIGNMENT_DESIRED_RUN \<and> a = flipped b"
      unfolding drained_rel_def by blast
    from st b(1) obtain c where "asgs s i = Some c" "b = c \<or> asg_desired c = ASSIGNMENT_DESIRED_RUN \<and> b = flipped c"
      unfolding drained_rel_def by blast
    with b(2) show ?thesis by auto
  qed
  moreover have "Node i u = Node i s \<or> (\<exists>n. Node i u = Some n \<and> node_status n = NODE_STATUS_DRAINED) \<and> vacated i u" for i
    using st tu vacated_later [of i t u] unfolding drained_rel_def by metis
  ultimately show "drained_rel s u" unfolding drained_rel_def by blast
qed (auto simp: drained_rel_def)

lemma batch_drained_rel:
  assumes inv: "store_inv s"
    and same: "same_but_assignments s t"
    and at: "\<And>i. batch_at [] (ds_stop (drain_plan s n)) (ds_delete (drain_plan s n)) s t i"
  shows "drained_rel s t"
proof -
  have "\<exists>b. asgs s i = Some b \<and> (a = b \<or> asg_desired b = ASSIGNMENT_DESIRED_RUN \<and> a = flipped b)"
    if "asgs t i = Some a" for i a
    using at [of i] that drain_plan(1) [OF inv, of i n] by (auto simp: batch_at_def eq_commute [of "Some a"])
  moreover have "Node i t = Node i s" for i
    using same by (simp add: same_but_assignments_def Node_def)
  ultimately show ?thesis by (simp add: drained_rel_def)
qed

lemma does_status_drained:
  assumes "store_inv (w_state w)" and "vacated n (w_state w)"
  shows "does_at drained_rel (setNodeStatus ctl n NODE_STATUS_DRAINED) w"
proof -
  let ?t = "w_state (snd (propose ctl ''system:scheduler'' (Command_SetNodeStatus \<lparr>sns_node_id = n,
      sns_status = NODE_STATUS_DRAINED, sns_last_heartbeat_at = None, sns_schedulable_set = False, sns_schedulable = False\<rparr>) w))"
  have "asgs ?t = asgs (w_state w) \<and> (\<forall>i. Node i ?t = Node i (w_state w)
      \<or> i = n \<and> (\<exists>m. Node i ?t = Some m \<and> node_status m = NODE_STATUS_DRAINED))"
    by (rule propose_rel)
      (auto simp: applySetNodeStatus_def PutNode_def touch_def Node_def Let_def
        dest: keyedD [OF store_keyed(5) [OF assms(1)]] split: option.split)
  moreover have "vacated n ?t \<longleftrightarrow> vacated n (w_state w)"
    if "asgs ?t = asgs (w_state w)" using that by (simp add: vacated_def)
  ultimately show ?thesis
    using assms propose_inv by (auto simp: does_at_def after_def setNodeStatus_def s_apply_def drained_rel_def)
qed

lemma does_drained_event: "does drained_rel (emitNodeEvent ctl n k msg)"
  by (rule does_mono [OF does_events(2)])
    (simp add: nothing_but_history_def tables_eq_def same_but_assignments_def drained_rel_def Node_def)

lemma does_drainNode_drained: "does drained_rel (drainNode ctl node)"
proof (rule doesI)
  fix w :: World
  assume inv: "store_inv (w_state w)"
  let ?p = "drain_plan (w_state w) (node_id node)"
  let ?batch = "applyBatch ctl [] (ds_stop ?p) (ds_delete ?p)"
  have batch: "does_at drained_rel ?batch w"
    by (rule drain_batch_at [OF inv]) (rule batch_drained_rel [OF inv])
  have vacated: "vacated (node_id node) (w_state v)" if "drained_rel (w_state w) (w_state v)" "ds_occupied ?p = 0" for v
    by (rule vacated_later [of _ "w_state w"])
      (use drain_plan(3) [OF inv] that in \<open>auto simp: vacated_def drained_rel_def\<close>)
  have status: "does_at drained_rel (if ds_occupied ?p = 0 then setNodeStatus ctl (node_id node) NODE_STATUS_DRAINED else ret) v"
    if "store_inv (w_state v)" "drained_rel (w_state w) (w_state v)" for v
    using does_status_drained [OF that(1) vacated [OF that(2)]] does_at [OF drained.ret_does] by simp
  have event: "does drained_rel (if b then emitNodeEvent ctl n k msg else ret)" for b n k msg
    by (intro drained.if_does drained.ret_does does_drained_event)
  have "does_at drained_rel (and_then ?batch (and_then (if b then emitNodeEvent ctl n k msg else ret)
      (if ds_occupied ?p = 0 then setNodeStatus ctl (node_id node) NODE_STATUS_DRAINED else ret))) w" for b n k msg
  proof (rule drained.then_at [OF batch])
    fix v :: World
    assume v: "store_inv (w_state v)" "drained_rel (w_state w) (w_state v)"
    show "does_at drained_rel (and_then (if b then emitNodeEvent ctl n k msg else ret)
        (if ds_occupied ?p = 0 then setNodeStatus ctl (node_id node) NODE_STATUS_DRAINED else ret)) v"
      by (rule drained.then_at [OF does_at [OF event] status]) (use drained.R_trans [OF v(2)] in blast)+
  qed
  then show "does_at drained_rel (drainNode ctl node) w"
    using does_at [OF drained.ret_does] by (simp add: does_at_def after_def drainNode_alt Let_def)
qed

text \<open>
  Drained nodes are empty: if a pass over the draining nodes changes the record of a node, the
  node is then drained, and no assignment on it is desired to run or still has to stop. Whatever the
  outcomes of the proposals, the pass creates no assignment and starts none again.\<close>

theorem drained_only_when_empty:
  assumes "store_inv (w_state w)"
  shows "let t = w_state (snd (reconcileDrains ctl w))
    in (Node n t = Node n (w_state w) \<or> (\<exists>m. Node n t = Some m \<and> node_status m = NODE_STATUS_DRAINED) \<and> vacated n t)
       \<and> (case Assignment i t of
            None \<Rightarrow> True
          | Some a \<Rightarrow> (\<exists>b. Assignment i (w_state w) = Some b
                          \<and> (a = b \<or> a = b\<lparr>asg_desired := ASSIGNMENT_DESIRED_STOP\<rparr>)))"
proof -
  have "does drained_rel (in_turn (drainNode ctl) (ListNodes (w_state w)))"
    by (rule drained.turn_does) (rule does_drainNode_drained)
  from does_change [OF this assms] show ?thesis
    by (auto simp: reconcileDrains_def after_def drained_rel_def Assignment_def flipped_def Let_def split: option.split)
qed

subsection \<open>An example\<close>

text \<open>Node \<open>n1\<close> is draining; a replica runs on it and one on \<open>n2\<close>, and the service wants one.\<close>

definition sample_drain_log :: "log_entry list" where
  "sample_drain_log =
     [entry 1 ''r1'' (Command_PutNode ((sample_place_node ''n1'')\<lparr>node_status := NODE_STATUS_DRAINING\<rparr>)),
      entry 2 ''r2'' (Command_PutNode (sample_place_node ''n2'')),
      entry 3 ''r3'' (Command_PutNode ((sample_place_node ''n3'')\<lparr>node_status := NODE_STATUS_DRAINING\<rparr>)),
      entry 4 ''r4'' (Command_PutEnvironment (zero_env\<lparr>env_meta := meta_of ''e'', env_active_release_id := ''r'',
                        env_effective_replicas := 1\<rparr>)),
      entry 5 ''r5'' (Command_PutRelease (zero_release\<lparr>rel_meta := meta_of ''r'', rel_environment_id := ''e''\<rparr>)),
      entry 6 ''r6'' (Command_PutAssignments
        [zero_assignment\<lparr>asg_meta := meta_of ''a1'', asg_environment_id := ''e'', asg_release_id := ''r'',
           asg_node_id := ''n1'', asg_desired := ASSIGNMENT_DESIRED_RUN,
           asg_observed := zero_observed\<lparr>obs_state := INSTANCE_STATE_HEALTHY\<rparr>\<rparr>,
         zero_assignment\<lparr>asg_meta := meta_of ''a2'', asg_environment_id := ''e'', asg_release_id := ''r'',
           asg_node_id := ''n2'', asg_desired := ASSIGNMENT_DESIRED_RUN,
           asg_observed := zero_observed\<lparr>obs_state := INSTANCE_STATE_RUNNING\<rparr>\<rparr>])]"

definition sample_drain :: World where
  "sample_drain = \<lparr>w_state = run_log sample_drain_log New, w_index = 6, w_ids = 0, w_proposals = 0\<rparr>"

definition sample_drain_env :: Environment where
  "sample_drain_env = zero_env\<lparr>env_meta := meta_of ''e'', env_active_release_id := ''r'', env_effective_replicas := 1\<rparr>"

lemma sample_drain_inv: "store_inv (w_state sample_drain)"
  by (simp add: sample_drain_def reachable_inv)

lemma sample_drain_eval:
  "Environment ''e'' (w_state sample_drain) = Some sample_drain_env
   \<and> \<not> isStateful_ptr (Release ''r'' (w_state sample_drain))
   \<and> desiredReplicas sample_drain_env = 1
   \<and> serving_replicas ''e'' ''r'' (w_state sample_drain) = 2
   \<and> map_option asg_desired (Assignment ''a1'' (w_state (snd (reconcileDrains (sample_control (\<lambda>_. Committed)) sample_drain))))
       = Some ASSIGNMENT_DESIRED_STOP
   \<and> map_option node_status (Node ''n3'' (w_state (snd (reconcileDrains (sample_control (\<lambda>_. Committed)) sample_drain))))
       = Some NODE_STATUS_DRAINED
   \<and> map_option node_status (Node ''n3'' (w_state sample_drain)) = Some NODE_STATUS_DRAINING"
  by code_simp


theorem drained_only_when_empty_witness:
  "let t = w_state (snd (reconcileDrains (sample_control (\<lambda>_. Committed)) sample_drain))
   in vacated ''n3'' t \<and> map_option node_status (Node ''n3'' t) = Some NODE_STATUS_DRAINED"
proof -
  let ?t = "w_state (snd (reconcileDrains (sample_control (\<lambda>_. Committed)) sample_drain))"
  have t: "map_option node_status (Node ''n3'' ?t) = Some NODE_STATUS_DRAINED" using sample_drain_eval by (elim conjE)
  have "map_option node_status (Node ''n3'' (w_state sample_drain)) = Some NODE_STATUS_DRAINING" using sample_drain_eval by (elim conjE)
  with t have "Node ''n3'' ?t \<noteq> Node ''n3'' (w_state sample_drain)" by auto
  then show ?thesis
    using drained_only_when_empty [OF sample_drain_inv, of "sample_control (\<lambda>_. Committed)" "''n3''" "''a1''"] t
    by (simp add: Let_def)
qed

end
