(* ===== verification/Replicas.thy ===== *)
theory Replicas
  imports Drains
begin

text \<open>
  The replica scheduler: what one evaluation of an environment may touch, and that it converges to
  the desired number of replicas.
\<close>

subsection \<open>The partition of the assignments\<close>

definition counts :: "Store \<Rightarrow> string \<Rightarrow> Release option \<Rightarrow> Assignment \<Rightarrow> bool" where
  "counts st relID rel a =
     (asg_job_id a = '''' \<and> asg_desired a = ASSIGNMENT_DESIRED_RUN \<and> relID \<noteq> '''' \<and> asg_release_id a = relID
      \<and> (\<not> nodeDown st (asg_node_id a) \<or> (\<not> nodeDraining st (asg_node_id a) \<and> isStateful_ptr rel)))"

definition stale :: "string \<Rightarrow> Assignment \<Rightarrow> bool" where
  "stale relID a =
     (asg_job_id a = '''' \<and> asg_desired a = ASSIGNMENT_DESIRED_RUN \<and> (relID = '''' \<or> asg_release_id a \<noteq> relID))"

definition reaped :: "Store \<Rightarrow> string \<Rightarrow> Release option \<Rightarrow> Assignment \<Rightarrow> bool" where
  "reaped st relID rel a =
     (asg_job_id a = ''''
      \<and> (asg_desired a = ASSIGNMENT_DESIRED_STOP \<and> isStopped a
         \<or> asg_desired a = ASSIGNMENT_DESIRED_RUN \<and> relID \<noteq> '''' \<and> asg_release_id a = relID
           \<and> nodeDown st (asg_node_id a) \<and> \<not> nodeDraining st (asg_node_id a) \<and> \<not> isStateful_ptr rel))"

lemma fold_classify:
  "fold (classify st relID rel) as p =
     \<lparr>es_good = es_good p @ filter (counts st relID rel) as,
      es_stop = es_stop p @ map asg_id (filter (stale relID) as),
      es_delete = es_delete p @ map asg_id (filter (reaped st relID rel) as)\<rparr>"
proof (induction as arbitrary: p)
  case (Cons a as)
  have "classify st relID rel a p =
      \<lparr>es_good = es_good p @ (if counts st relID rel a then [a] else []),
       es_stop = es_stop p @ (if stale relID a then [asg_id a] else []),
       es_delete = es_delete p @ (if reaped st relID rel a then [asg_id a] else [])\<rparr>"
    by (cases "asg_desired a") (auto simp: classify_def counts_def stale_def reaped_def Let_def)
  with Cons.IH show ?case by simp
qed simp

definition env_release :: "Environment \<Rightarrow> Store \<Rightarrow> Release option" where
  "env_release env s = (if env_active_release_id env = '''' then None else Release (env_active_release_id env) s)"

definition good_replicas :: "Environment \<Rightarrow> Store \<Rightarrow> Assignment list" where
  "good_replicas env s =
     filter (counts s (env_active_release_id env) (env_release env s)) (ListAssignments (env_id env) s)"

definition env_stops :: "Environment \<Rightarrow> Store \<Rightarrow> string list" where
  "env_stops env s =
     map asg_id (filter (stale (env_active_release_id env)) (ListAssignments (env_id env) s))
     @ scaleDown (desiredReplicas env) (good_replicas env s)"

definition env_deletes :: "Environment \<Rightarrow> Store \<Rightarrow> string list" where
  "env_deletes env s =
     map asg_id (filter (reaped s (env_active_release_id env) (env_release env s)) (ListAssignments (env_id env) s))"

definition env_missing :: "Environment \<Rightarrow> Store \<Rightarrow> int" where
  "env_missing env s = desiredReplicas env - int (length (good_replicas env s))"

definition env_idle :: "Environment \<Rightarrow> Store \<Rightarrow> bool" where
  "env_idle env s = (deploymentOwnsEnv s env \<or> (env_active_release_id env \<noteq> '''' \<and> env_release env s = None))"

lemma evaluateEnv_alt:
  "evaluateEnv ctl env w =
     (if env_idle env (w_state w) then ret w
      else case scaleUp ctl env (env_release env (w_state w)) (env_missing env (w_state w)) w of (puts, w1) \<Rightarrow>
             applyBatch ctl puts (env_stops env (w_state w)) (env_deletes env (w_state w)) w1)"
  by (simp add: evaluateEnv_def fold_classify no_split_def env_release_def good_replicas_def env_stops_def
    env_deletes_def env_missing_def env_idle_def Let_def)

subsection \<open>New replicas\<close>

text \<open>The documented behaviour of \<^verbatim>\<open>ids.New\<close>: identifiers are distinct and not yet in use.\<close>

definition unused_ids :: "Control \<Rightarrow> World \<Rightarrow> bool" where
  "unused_ids ctl w = (inj (new_id ctl) \<and> (\<forall>n \<ge> w_ids w. asgs (w_state w) (new_id ctl n) = None))"

lemma build_new:
  "fst (build_all (newAssignment ctl env rel) ns w) =
     map (\<lambda>(n, k). zero_assignment
        \<lparr>asg_meta := \<lparr>Id = new_id ctl k, CreatedAt = Some (clock_now ctl), UpdatedAt = Some (clock_now ctl)\<rparr>,
         asg_node_id := n, asg_project_id := env_project_id env, asg_app_id := env_app_id env,
         asg_environment_id := env_id env, asg_release_id := rel_id rel,
         asg_desired := ASSIGNMENT_DESIRED_RUN, asg_config_hash := rel_config_hash rel\<rparr>)
       (zip ns [w_ids w ..< w_ids w + length ns])
   \<and> snd (build_all (newAssignment ctl env rel) ns w) = w\<lparr>w_ids := w_ids w + length ns\<rparr>"
proof (induction ns arbitrary: w)
  case (Cons n ns)
  from Cons.IH [of "w\<lparr>w_ids := Suc (w_ids w)\<rparr>"] show ?case
    by (simp add: newAssignment_def fresh_id_def split_def upt_rec [of "w_ids w"]; cases ns; simp)
qed simp

lemma newAssignment_fields:
  assumes "a \<in> set (fst (build_all (newAssignment ctl env rel) ns w))"
  shows "asg_job_id a = '''' \<and> asg_desired a = ASSIGNMENT_DESIRED_RUN \<and> asg_environment_id a = env_id env
    \<and> asg_release_id a = rel_id rel \<and> asg_node_id a \<in> set ns \<and> (\<exists>k \<ge> w_ids w. asg_id a = new_id ctl k)"
  using assms build_new [of ctl env rel ns w] by (auto simp: zero_assignment_def set_zip intro: exI [of _ "w_ids w + _"] le_add1)

lemma newAssignment_distinct:
  assumes "inj (new_id ctl)"
  shows "distinct (map asg_id (fst (build_all (newAssignment ctl env rel) ns w)))"
proof -
  have "map asg_id (fst (build_all (newAssignment ctl env rel) ns w)) = map (new_id ctl) [w_ids w ..< w_ids w + length ns]"
    using build_new [of ctl env rel ns w]
    by (simp add: o_def split_def map_map [symmetric, of "new_id ctl" snd, unfolded o_def])
  then show ?thesis using assms by (simp add: distinct_map inj_on_def)
qed

lemma scaleUp_puts:
  assumes "a \<in> set (fst (scaleUp ctl env r m w))"
  obtains rel where "r = Some rel" "m > 0" "asg_job_id a = ''''" "asg_desired a = ASSIGNMENT_DESIRED_RUN"
    "asg_environment_id a = env_id env" "asg_release_id a = rel_id rel"
    "asg_node_id a \<in> set (fst (Place (w_state w) rel (env_id env) m []))"
    "\<exists>k \<ge> w_ids w. asg_id a = new_id ctl k"
  using assms newAssignment_fields [of a ctl env _ _ w]
  by (auto simp: scaleUp_def split_def split: option.splits if_splits)

lemma scaleUp_world:
  assumes "store_inv (w_state w)"
  shows "store_inv (w_state (snd (scaleUp ctl env r m w))) \<and> nothing_but_history (w_state w) (w_state (snd (scaleUp ctl env r m w)))"
proof -
  have refl: "nothing_but_history (w_state w) (w_state w)"
    by (simp add: nothing_but_history_def tables_eq_def)
  have "does_at nothing_but_history (s_emitEvent ctl env k sev msg) (w\<lparr>w_ids := n\<rparr>)" for k sev msg n
    by (rule does_at) (rule does_events(1))
  then show ?thesis using assms refl build_new [of ctl env _ _ w]
    by (simp add: scaleUp_def does_at_def after_def split_def split: option.split)
qed

subsection \<open>What an evaluation touches\<close>

lemma scaleDown_subset: "set (scaleDown n as) \<subseteq> asg_id ` set as"
  by (auto simp: scaleDown_def Let_def dest: in_set_dropD)

lemma evaluated_ids:
  assumes "store_inv s" and "i \<in> set (env_stops env s) \<union> set (env_deletes env s)" and "env_id env \<noteq> ''''"
  shows "\<exists>a. asgs s i = Some a \<and> asg_environment_id a = env_id env \<and> asg_job_id a = ''''"
  using assms(2,3) scaleDown_subset [of "desiredReplicas env" "good_replicas env s"] ListAssignments_iff [OF assms(1)]
  by (auto simp: env_stops_def env_deletes_def good_replicas_def counts_def stale_def reaped_def)


subsection \<open>Committed proposals\<close>

text \<open>Every proposal commits, and no request id drawn from now on was applied before.\<close>

definition reliable :: "Control \<Rightarrow> World \<Rightarrow> bool" where
  "reliable ctl w =
     ((\<forall>n. raft_net ctl n = Committed) \<and> inj (new_id ctl)
      \<and> (\<forall>n \<ge> w_ids w. \<not> mhas (appliedSet (w_state w)) (new_id ctl n)))"

lemma mhas_fold_mdel: "mhas (fold (\<lambda>x. mdel (k x)) xs m) r \<Longrightarrow> mhas m r"
  by (induction xs arbitrary: m) (fastforce split: if_splits)+

lemma recorded_applied:
  assumes "mhas (appliedSet (recorded e c s)) r"
  shows "r = RequestId c \<or> mhas (appliedSet s) r"
proof (cases "RequestId c = '''' \<or> mhas (appliedSet s) (RequestId c)")
  case False
  with assms have "mhas (mput (RequestId c) () (appliedSet s)) r"
    by (auto simp: recorded_def MarkApplied_def Let_def simp del: mhas_iff fold_append dest!: mhas_fold_mdel
      split: if_splits)
  then show ?thesis by (auto split: if_splits)
qed (use assms in \<open>auto simp: recorded_def MarkApplied_def split: if_splits\<close>)

lemma propose_reliable:
  assumes "reliable ctl w" and "\<And>rid now s. appliedSet (snd (apply_mutation rid now m s)) = appliedSet s"
  shows "fst (propose ctl actor m w) = None"
    and "\<exists>e c. after (propose ctl actor m) w =
           snd (apply_mutation (new_id ctl (w_ids w)) (Some (clock_now ctl)) m (recorded e c (w_state w)))"
    and "reliable ctl (snd (propose ctl actor m w))"
proof -
  let ?e = "\<lparr>entry_index = w_index w + 1, entry_data = Some (stamped ctl actor m w)\<rparr>"
  have net: "raft_net ctl (w_proposals w) = Committed" and new: "\<not> mhas (appliedSet (w_state w)) (new_id ctl (w_ids w))"
    using assms(1) by (simp_all add: reliable_def del: mhas_iff)
  note c = propose_committed [OF net, of actor m]
  show "fst (propose ctl actor m w) = None" using c by simp
  have state: "w_state (snd (propose ctl actor m w)) =
      snd (apply_mutation (new_id ctl (w_ids w)) (Some (clock_now ctl)) m (recorded ?e (stamped ctl actor m w) (w_state w)))"
    using c new unfolding applied_def
    by (subst (asm) FSM_Apply_fresh) (auto simp: fsm_apply_def stamped_def)
  then show "\<exists>e c. after (propose ctl actor m) w =
           snd (apply_mutation (new_id ctl (w_ids w)) (Some (clock_now ctl)) m (recorded e c (w_state w)))"
    unfolding after_def by blast
  have "\<not> mhas (appliedSet (recorded ?e (stamped ctl actor m w) (w_state w))) (new_id ctl n)" if "n \<ge> w_ids w + 1" for n
  proof
    assume "mhas (appliedSet (recorded ?e (stamped ctl actor m w) (w_state w))) (new_id ctl n)"
    from recorded_applied [OF this] have "new_id ctl n = new_id ctl (w_ids w) \<or> mhas (appliedSet (w_state w)) (new_id ctl n)"
      by (simp add: stamped_def)
    with assms(1) that show False unfolding reliable_def by (auto simp: inj_eq simp del: mhas_iff)
  qed
  moreover have "appliedSet (w_state (snd (propose ctl actor m w))) =
      appliedSet (recorded ?e (stamped ctl actor m w) (w_state w))"
    by (simp only: state assms(2))
  moreover have "w_ids (snd (propose ctl actor m w)) = w_ids w + 1" using c by simp
  ultimately show "reliable ctl (snd (propose ctl actor m w))"
    using assms(1) by (simp add: reliable_def del: mhas_iff)
qed

lemma assignment_mutations_applied:
  "appliedSet (snd (apply_mutation rid now (Command_PutAssignments as) s)) = appliedSet s"
  "appliedSet (snd (apply_mutation rid now (Command_DeleteAssignments is) s)) = appliedSet s"
  "appliedSet (snd (apply_mutation rid now (Command_AppendEvents es) s)) = appliedSet s"
  by (simp_all add: PutAssignments_def DeleteAssignments_def AppendEvents_def Let_def
    fold_frame [where g = appliedSet] ring_frames)

lemma put_all_mem:
  assumes "i \<in> asg_id ` set as"
  shows "\<exists>a \<in> set as. asg_id a = i \<and> put_all as f i = Some a"
  using assms
proof (induction as arbitrary: f)
  case (Cons b as)
  obtain g where g: "put_all (b # as) f = put_all as g" and gb: "g (asg_id b) = Some b" by (simp add: put_all_def)
  show ?case
  proof (cases "i \<in> asg_id ` set as")
    case True
    from Cons.IH [OF True, of g] g show ?thesis by auto
  next
    case False
    with Cons.prems have "asg_id b = i" by auto
    with put_all_other [OF False, of g] g gb show ?thesis by auto
  qed
qed simp

lemma put_all_unique:
  assumes "x \<in> set as" and "asg_id x = i" and "\<And>y. y \<in> set as \<Longrightarrow> asg_id y = i \<Longrightarrow> y = x"
  shows "put_all as f i = Some x"
  using put_all_mem [of i as f] assms by blast

lemma applyBatch_committed:
  assumes "reliable ctl w"
  shows "asgs (after (applyBatch ctl puts stops dels) w) =
    del_all dels (put_all (fold (flipStop (w_state w)) stops puts) (asgs (w_state w)))"
proof -
  let ?ps = "fold (flipStop (w_state w)) stops puts"
  let ?f = "if ?ps \<noteq> [] then s_apply ctl (Command_PutAssignments ?ps) else ret"
  let ?g = "if dels \<noteq> [] then s_apply ctl (Command_DeleteAssignments dels) else ret"
  have f: "fst (?f w) = None \<and> asgs (after ?f w) = put_all ?ps (asgs (w_state w)) \<and> reliable ctl (snd (?f w))"
    using propose_reliable [OF assms assignment_mutations_applied(1), of "''system:scheduler''" ?ps] assms
    by (auto simp: s_apply_def asgs_PutAssignments ret_def put_all_def after_def)
  have g: "asgs (after ?g v) = del_all dels (asgs (w_state v))" if "reliable ctl v" for v
    using propose_reliable [OF that assignment_mutations_applied(2), of "''system:scheduler''" dels]
    by (auto simp: s_apply_def asgs_DeleteAssignments del_all_def)
  have "after (applyBatch ctl puts stops dels) w = after ?g (snd (?f w))"
    using f by (simp add: applyBatch_def Let_def after_def and_then_def split_def)
  with f g [of "snd (?f w)"] show ?thesis by (simp add: after_def)
qed

subsection \<open>Convergence\<close>

lemma scaleUp_reliable:
  assumes "reliable ctl w"
  shows "reliable ctl (snd (scaleUp ctl env r m w))"
proof -
  have later: "reliable ctl (w\<lparr>w_ids := w_ids w + k\<rparr>)" for k
    using assms by (simp add: reliable_def del: mhas_iff)
  have "reliable ctl (snd (s_emitEvent ctl env k sev msg (w\<lparr>w_ids := w_ids w + n\<rparr>)))" for k sev msg n
    using propose_reliable(3) [OF later [of "Suc n"] assignment_mutations_applied(3)]
    by (simp add: s_emitEvent_def fresh_id_def ignore_def s_apply_def)
  then show ?thesis using assms later build_new [of ctl env _ _ w]
    by (simp add: scaleUp_def split_def split: option.split)
qed

lemma ListAssignments_ids_distinct:
  assumes "store_inv s"
  shows "distinct (map asg_id (ListAssignments e s))"
  unfolding distinct_map
  using ListAssignments_distinct [OF assms] ListAssignments_iff [OF assms] by (auto intro!: inj_onI)

lemma scaleDown_distinct: "distinct (map asg_id as) \<Longrightarrow> distinct (scaleDown n as)"
proof -
  assume d: "distinct (map asg_id as)"
  have "mset (map asg_id (sort_key asg_id as)) = mset (map asg_id as)" by simp
  with d have "distinct (map asg_id (sort_key asg_id as))" by (metis mset_eq_imp_distinct_iff)
  then show ?thesis by (simp add: scaleDown_def Let_def drop_map [symmetric])
qed

lemma scaleDown_length: "0 \<le> n \<Longrightarrow> int (length (scaleDown n as)) = max 0 (int (length as) - n)"
  by (simp add: scaleDown_def Let_def nat_le_iff)

lemma counts_cong:
  assumes "nodes t = nodes s"
  shows "counts t relID rel a = counts s relID rel a"
  using assms by (simp add: counts_def nodeDown_def nodeDraining_def Node_def)

lemma eligible_counts:
  assumes "Node (asg_node_id a) s = Some node" and "eligible s rel e ex node"
    and "asg_job_id a = ''''" "asg_desired a = ASSIGNMENT_DESIRED_RUN" "relID \<noteq> ''''" "asg_release_id a = relID"
  shows "counts s relID r a"
  using assms by (simp add: counts_def nodeDown_def eligible_def)

lemma in_map_filter: "a \<in> set (List.map_filter f xs) \<longleftrightarrow> (\<exists>x \<in> set xs. f x = Some a)"
  by (induction xs) (auto simp: List.map_filter_simps split: option.splits)

lemma flipped_self [simp]: "flipped a = a \<longleftrightarrow> asg_desired a = ASSIGNMENT_DESIRED_STOP"
  "a = flipped a \<longleftrightarrow> asg_desired a = ASSIGNMENT_DESIRED_STOP"
  by (cases a, auto simp: flipped_def)+

lemma in_fold_flipStop:
  assumes "store_inv s" and "y \<in> set (fold (flipStop s) stops puts)"
  shows "y \<in> set puts \<or> (\<exists>x. y = flipped x \<and> asgs s (asg_id y) = Some x \<and> asg_id y \<in> set stops
    \<and> asg_desired x \<noteq> ASSIGNMENT_DESIRED_STOP)"
proof (cases "y \<in> set puts")
  case False
  with assms(2) obtain i x where x: "i \<in> set stops" "asgs s i = Some x" "asg_desired x \<noteq> ASSIGNMENT_DESIRED_STOP" "y = flipped x"
    by (auto simp: fold_flipStop in_map_filter)
  moreover from asgs_id [OF assms(1) x(2)] have "asg_id y = i" by (simp add: x(4))
  ultimately show ?thesis by blast
qed simp

text \<open>The assignment with a given id after a committed batch.\<close>

definition batched :: "Store \<Rightarrow> Assignment list \<Rightarrow> string list \<Rightarrow> string list \<Rightarrow> string \<Rightarrow> Assignment option" where
  "batched s puts stops dels = del_all dels (put_all (fold (flipStop s) stops puts) (asgs s))"

lemma batched_put:
  assumes "store_inv s" and "\<And>a. a \<in> set puts \<Longrightarrow> asgs s (asg_id a) = None" and "distinct (map asg_id puts)"
    and "a \<in> set puts" and "asg_id a \<notin> set dels"
  shows "batched s puts stops dels (asg_id a) = Some a"
proof -
  have "put_all (fold (flipStop s) stops puts) (asgs s) (asg_id a) = Some a"
  proof (rule put_all_unique)
    fix y
    assume "y \<in> set (fold (flipStop s) stops puts)" "asg_id y = asg_id a"
    with in_fold_flipStop [OF assms(1), of y stops puts] assms(2) [OF assms(4)] have "y \<in> set puts" by auto
    with assms(3,4) \<open>asg_id y = asg_id a\<close> show "y = a" by (simp add: distinct_map inj_on_def)
  qed (simp_all add: fold_flipStop assms(4))
  with assms(5) show ?thesis by (simp add: batched_def del_all_apply)
qed

lemma batched_other:
  assumes "store_inv s" and "i \<notin> asg_id ` set puts"
  shows "batched s puts stops dels i =
    (if i \<in> set dels then None
     else if i \<in> set stops
     then map_option (\<lambda>a. if asg_desired a = ASSIGNMENT_DESIRED_STOP then a else flipped a) (asgs s i) else asgs s i)"
proof (cases "i \<in> set stops \<and> (\<exists>a. asgs s i = Some a \<and> asg_desired a \<noteq> ASSIGNMENT_DESIRED_STOP)")
  case True
  then obtain a where a: "i \<in> set stops" "asgs s i = Some a" "asg_desired a \<noteq> ASSIGNMENT_DESIRED_STOP" by auto
  have "put_all (fold (flipStop s) stops puts) (asgs s) i = Some (flipped a)"
  proof (rule put_all_unique)
    show "flipped a \<in> set (fold (flipStop s) stops puts)"
      using a by (auto simp: fold_flipStop in_map_filter)
    show "asg_id (flipped a) = i" using asgs_id [OF assms(1) a(2)] by simp
    show "y = flipped a" if "y \<in> set (fold (flipStop s) stops puts)" "asg_id y = i" for y
      using in_fold_flipStop [OF assms(1) that(1)] that(2) assms(2) a(2) by auto
  qed
  with a show ?thesis by (simp add: batched_def del_all_apply)
next
  case False
  then have "i \<notin> asg_id ` set (fold (flipStop s) stops puts)"
    using assms(2) in_fold_flipStop [OF assms(1), of _ stops puts] by fastforce
  from put_all_other [OF this, of "asgs s"] False show ?thesis
    by (cases "asgs s i") (auto simp: batched_def del_all_apply)
qed

text \<open>The replicas after a committed evaluation: the good ones that were not scaled down, and the new
  ones.\<close>

lemma good_ids_after:
  assumes inv: "store_inv s" and asgs: "asgs t = batched s puts (env_stops env s) (env_deletes env s)"
    and fresh: "\<And>a. a \<in> set puts \<Longrightarrow> asgs s (asg_id a) = None" and d: "distinct (map asg_id puts)"
    and good: "\<And>a. a \<in> set puts \<Longrightarrow> P a"
    and P: "\<And>a. P a = (counts s (env_active_release_id env) (env_release env s) a \<and> asg_environment_id a = env_id env)"
    and env: "env_id env \<noteq> ''''"
  shows "ids_where P t = (ids_where P s - set (scaleDown (desiredReplicas env) (good_replicas env s))) \<union> asg_id ` set puts"
proof (intro set_eqI)
  fix i
  show "i \<in> ids_where P t \<longleftrightarrow>
      i \<in> (ids_where P s - set (scaleDown (desiredReplicas env) (good_replicas env s))) \<union> asg_id ` set puts"
  proof (cases "i \<in> asg_id ` set puts")
    case True
    then obtain a where a: "a \<in> set puts" "asg_id a = i" by auto
    have "i \<notin> set (env_deletes env s)" using evaluated_ids [OF inv _ env, of i] fresh [OF a(1)] a(2) by auto
    with batched_put [OF inv fresh d a(1)] a asgs good [OF a(1)] show ?thesis by (auto simp: ids_where_def)
  next
    case False
    have "i \<notin> set (env_deletes env s) \<and> (i \<in> set (env_stops env s) \<longleftrightarrow> i \<in> set (scaleDown (desiredReplicas env) (good_replicas env s)))"
      if "asgs s i = Some a" "P a" for a
      using that ListAssignments_iff [OF inv] by (auto simp: env_stops_def env_deletes_def P counts_def stale_def reaped_def)
    moreover have "\<not> P (flipped a)" for a by (simp add: P counts_def)
    ultimately show ?thesis
      using False by (auto simp: ids_where_def asgs batched_other [OF inv False] P counts_def split: if_splits)
  qed
qed

lemma no_stale_after:
  assumes inv: "store_inv s" and asgs: "asgs t = batched s puts (env_stops env s) (env_deletes env s)"
    and good: "\<And>a. a \<in> set puts \<Longrightarrow> asg_release_id a = env_active_release_id env"
    and rel: "env_active_release_id env \<noteq> ''''"
    and fresh: "\<And>a. a \<in> set puts \<Longrightarrow> asgs s (asg_id a) = None" and d: "distinct (map asg_id puts)"
    and a: "asgs t i = Some a" "asg_environment_id a = env_id env"
  shows "\<not> stale (env_active_release_id env) a"
proof (cases "i \<in> asg_id ` set puts")
  case True
  then obtain b where b: "b \<in> set puts" "asg_id b = i" by auto
  with a asgs have "i \<notin> set (env_deletes env s)" by (auto simp: batched_def del_all_apply split: if_splits)
  with batched_put [OF inv fresh d b(1)] b a(1) asgs good [OF b(1)] rel show ?thesis by (simp add: stale_def)
next
  case False
  show ?thesis
  proof
    assume st: "stale (env_active_release_id env) a"
    from a(1) asgs batched_other [OF inv False, of "env_stops env s" "env_deletes env s"] st
    have s: "asgs s i = Some a" "i \<notin> set (env_stops env s)"
      by (auto simp: stale_def split: if_splits)
    with st a(2) ListAssignments_iff [OF inv, of a "env_id env"] asgs_id [OF inv s(1)] show False
      by (auto simp: env_stops_def)
  qed
qed

definition scaled_up :: "Control \<Rightarrow> Environment \<Rightarrow> World \<Rightarrow> Assignment list" where
  "scaled_up ctl env w = fst (scaleUp ctl env (env_release env (w_state w)) (env_missing env (w_state w)) w)"

lemma evaluateEnv_committed:
  assumes "store_inv (w_state w)" and "reliable ctl w" and "\<not> env_idle env (w_state w)"
  shows "asgs (after (evaluateEnv ctl env) w) =
      batched (w_state w) (scaled_up ctl env w) (env_stops env (w_state w)) (env_deletes env (w_state w))"
    and "same_but_assignments (w_state w) (after (evaluateEnv ctl env) w)"
    and "store_inv (after (evaluateEnv ctl env) w)"
proof -
  let ?s = "w_state w" and ?up = "scaleUp ctl env (env_release env (w_state w)) (env_missing env (w_state w)) w"
  let ?f = "applyBatch ctl (fst ?up) (env_stops env ?s) (env_deletes env ?s)"
  have inv: "store_inv (w_state (snd ?up))" and same: "same_but_assignments ?s (w_state (snd ?up))"
    and asgs: "asgs (w_state (snd ?up)) = asgs ?s"
    using scaleUp_world [OF assms(1), of ctl env "env_release env ?s" "env_missing env ?s"]
    by (simp_all add: nothing_but_history_def tables_eq_def)
  have eval: "after (evaluateEnv ctl env) w = after ?f (snd ?up)"
    using assms(3) by (simp add: evaluateEnv_alt after_def split_def)
  have "flipStop (w_state (snd ?up)) = flipStop ?s"
    by (intro ext) (simp add: flipStop_def Assignment_def asgs)
  then show "asgs (after (evaluateEnv ctl env) w) =
      batched ?s (scaled_up ctl env w) (env_stops env ?s) (env_deletes env ?s)"
    using applyBatch_committed [OF scaleUp_reliable [OF assms(2)]] by (simp add: eval asgs batched_def scaled_up_def)
  show "same_but_assignments ?s (after (evaluateEnv ctl env) w)"
    using applyBatch_effect [OF inv] same same_but_assignments_trans eval by metis
  show "store_inv (after (evaluateEnv ctl env) w)"
    using sound_applyBatch inv by (simp add: eval sound_def)
qed

lemma scaled_up_facts:
  assumes inv: "store_inv (w_state w)" and unused: "unused_ids ctl w"
    and rel: "Release (env_active_release_id env) (w_state w) = Some rel" "env_active_release_id env \<noteq> ''''"
  shows "a \<in> set (scaled_up ctl env w) \<Longrightarrow> asgs (w_state w) (asg_id a) = None"
    and "distinct (map asg_id (scaled_up ctl env w))"
    and "a \<in> set (scaled_up ctl env w) \<Longrightarrow>
      counts (w_state w) (env_active_release_id env) (env_release env (w_state w)) a \<and> asg_environment_id a = env_id env"
    and "int (length (scaled_up ctl env w)) =
      (if env_missing env (w_state w) > 0
       then int (length (fst (Place (w_state w) rel (env_id env) (env_missing env (w_state w)) []))) else 0)"
proof -
  have r: "env_release env (w_state w) = Some rel" using rel by (simp add: env_release_def)
  have id: "rel_id rel = env_active_release_id env"
    using keyedD [OF store_keyed(7) [OF inv]] rel(1) by (auto simp: Release_def)
  have puts: "asgs (w_state w) (asg_id a) = None \<and>
      counts (w_state w) (env_active_release_id env) (env_release env (w_state w)) a \<and> asg_environment_id a = env_id env"
    if "a \<in> set (scaled_up ctl env w)"
    using that unfolding scaled_up_def
  proof (cases rule: scaleUp_puts)
    case (1 rel')
    with r have "asg_node_id a \<in> set (fst (Place (w_state w) rel (env_id env) (env_missing env (w_state w)) []))" by simp
    with Place_spec [OF inv, of rel "env_id env" "env_missing env (w_state w)" "[]"]
    obtain node where "Node (asg_node_id a) (w_state w) = Some node" "eligible (w_state w) rel (env_id env) [] node" by blast
    with 1 r id rel(2) have "counts (w_state w) (env_active_release_id env) (env_release env (w_state w)) a"
      by (intro eligible_counts) auto
    with 1 unused show ?thesis by (auto simp: unused_ids_def)
  qed
  show "a \<in> set (scaled_up ctl env w) \<Longrightarrow> asgs (w_state w) (asg_id a) = None" using puts by simp
  show "a \<in> set (scaled_up ctl env w) \<Longrightarrow>
      counts (w_state w) (env_active_release_id env) (env_release env (w_state w)) a \<and> asg_environment_id a = env_id env"
    using puts by simp
  show "distinct (map asg_id (scaled_up ctl env w))"
    using newAssignment_distinct unused by (simp add: scaled_up_def scaleUp_def unused_ids_def split_def split: option.split)
  show "int (length (scaled_up ctl env w)) =
      (if env_missing env (w_state w) > 0
       then int (length (fst (Place (w_state w) rel (env_id env) (env_missing env (w_state w)) []))) else 0)"
    using build_new [of ctl env rel _ w] by (simp add: scaled_up_def scaleUp_def r split_def)
qed

lemma desiredReplicas_nonneg: "0 \<le> desiredReplicas env"
  by (simp add: desiredReplicas_def)

text \<open>C10 (the scheduler converges): when its proposals commit, one evaluation of an environment that no
  deployment owns leaves no running instance of a stale release, never more than the desired number of
  replicas of the active release, and exactly the desired number unless the placement reports a
  shortage. Replicas on draining or, for stateless services, dead nodes do not count.\<close>

theorem evaluateEnv_converges:
  assumes "store_inv (w_state w)" and "reliable ctl w" and "unused_ids ctl w" and "env_id env \<noteq> ''''"
    and "\<not> deploymentOwnsEnv (w_state w) env" and "env_active_release_id env \<noteq> ''''"
    and "Release (env_active_release_id env) (w_state w) = Some rel"
  shows "let t = w_state (snd (evaluateEnv ctl env w));
             missing = desiredReplicas env - int (length (good_replicas env (w_state w)))
         in filter (stale (env_active_release_id env)) (ListAssignments (env_id env) t) = []
            \<and> int (length (good_replicas env t)) \<le> desiredReplicas env
            \<and> (snd (Place (w_state w) rel (env_id env) missing []) = None \<longrightarrow>
                 int (length (good_replicas env t)) = desiredReplicas env)"
proof -
  let ?s = "w_state w" and ?t = "after (evaluateEnv ctl env) w" and ?puts = "scaled_up ctl env w"
  let ?P = "\<lambda>a. counts (w_state w) (env_active_release_id env) (env_release env (w_state w)) a \<and> asg_environment_id a = env_id env"
  let ?down = "scaleDown (desiredReplicas env) (good_replicas env ?s)"
  have busy: "\<not> env_idle env ?s" using assms(5,7) by (simp add: env_idle_def env_release_def)
  note c = evaluateEnv_committed [OF assms(1,2) busy]
  note up = scaled_up_facts [OF assms(1,3,7,6)]
  have ids: "ids_where ?P ?t = (ids_where ?P ?s - set ?down) \<union> asg_id ` set ?puts"
    by (rule good_ids_after [OF assms(1) c(1) up(1,2) _ _ assms(4)]) (use up(3) in blast)+
  have good_s: "length (good_replicas env ?s) = card (ids_where ?P ?s)"
    using count_assignments [OF assms(1), of _ "env_id env"] assms(4) by (simp add: good_replicas_def)
  have "env_release env ?t = env_release env ?s" "nodes ?t = nodes ?s"
    using c(2) by (simp_all add: same_but_assignments_def env_release_def Release_def)
  then have good_t: "length (good_replicas env ?t) = card (ids_where ?P ?t)"
    using count_assignments [OF c(3), of _ "env_id env"] assms(4) counts_cong [of ?t ?s] by (simp add: good_replicas_def)
  have down: "set ?down \<subseteq> ids_where ?P ?s"
    using scaleDown_subset [of "desiredReplicas env" "good_replicas env ?s"] ListAssignments_iff [OF assms(1)] assms(4)
    by (force simp: good_replicas_def ids_where_def)
  have "distinct (map asg_id (good_replicas env ?s))"
    using ListAssignments_ids_distinct [OF assms(1), of "env_id env"] by (simp add: good_replicas_def distinct_map_filter)
  then have card_down: "int (card (set ?down)) = max 0 (int (length (good_replicas env ?s)) - desiredReplicas env)"
    using scaleDown_length [OF desiredReplicas_nonneg] by (simp add: distinct_card scaleDown_distinct)
  have "ids_where ?P ?s \<inter> asg_id ` set ?puts = {}" using up(1) by (fastforce simp: ids_where_def)
  then have "card (ids_where ?P ?t) = card (ids_where ?P ?s) - card (set ?down) + length ?puts"
    unfolding ids using down distinct_card [OF up(2)]
    by (subst card_Un_disjoint) (auto simp: card_Diff_subset finite_subset)
  moreover have "card (set ?down) \<le> card (ids_where ?P ?s)" using down by (simp add: card_mono)
  ultimately have count: "int (length (good_replicas env ?t)) =
      int (length (good_replicas env ?s)) - max 0 (int (length (good_replicas env ?s)) - desiredReplicas env)
      + int (length ?puts)"
    using card_down by (simp add: good_s good_t)
  have "\<not> stale (env_active_release_id env) a" if "a \<in> set (ListAssignments (env_id env) ?t)" for a
    using that no_stale_after [OF assms(1) c(1) _ assms(6) up(1,2)] ListAssignments_iff [OF c(3)] assms(4) up(3)
    by (auto simp: counts_def)
  then have "filter (stale (env_active_release_id env)) (ListAssignments (env_id env) ?t) = []"
    by (simp add: filter_empty_conv)
  moreover note Place_spec [OF assms(1), of rel "env_id env" "env_missing env ?s" "[]"]
  ultimately show ?thesis using count up(4) by (auto simp: after_def env_missing_def Let_def split: if_splits)
qed

subsection \<open>An example\<close>

lemma inj_Itoa: "inj Itoa"
  by (rule injI) (metis Itoa_foldl of_nat_eq_iff)

lemma sample_control_ids: "inj (new_id (sample_control net))"
  using inj_Itoa by (simp add: sample_control_def inj_def)

lemma sample_drain_tables:
  "map fst (appliedSet (w_state sample_drain)) = [''r1'', ''r2'', ''r3'', ''r4'', ''r5'', ''r6'']"
  "map fst (assignments (w_state sample_drain)) = [''a1'', ''a2'']"
  by code_simp+

lemma sample_drain_unused:
  "mhas (appliedSet (w_state sample_drain)) (''id-'' @ x) = False" "asgs (w_state sample_drain) (''id-'' @ x) = None"
proof -
  have "(''id-'' @ x) \<notin> fst ` set (appliedSet (w_state sample_drain))"
    "(''id-'' @ x) \<notin> fst ` set (assignments (w_state sample_drain))"
    using arg_cong [OF sample_drain_tables(1), of set] arg_cong [OF sample_drain_tables(2), of set] by simp_all
  then show "mhas (appliedSet (w_state sample_drain)) (''id-'' @ x) = False" "asgs (w_state sample_drain) (''id-'' @ x) = None"
    by (simp_all add: mhas_def map_of_eq_None_iff del: mhas_iff)
qed

lemma sample_drain_ids:
  "unused_ids (sample_control net) sample_drain" "reliable (sample_control (\<lambda>_. Committed)) sample_drain"
  using sample_control_ids sample_drain_unused
  by (simp_all add: unused_ids_def reliable_def sample_control_def del: mhas_iff)

definition sample_scale_env :: Environment where
  "sample_scale_env = sample_drain_env\<lparr>env_effective_replicas := 2\<rparr>"

lemma sample_scale_eval:
  "map_option asg_environment_id (Assignment ''a1'' (w_state sample_drain)) = Some ''e''
   \<and> length (good_replicas sample_scale_env (w_state sample_drain)) = 1
   \<and> \<not> deploymentOwnsEnv (w_state sample_drain) sample_scale_env
   \<and> Release (env_active_release_id sample_scale_env) (w_state sample_drain) \<noteq> None
   \<and> snd (Place (w_state sample_drain) (the (Release ''r'' (w_state sample_drain))) ''e'' 1 []) = None"
  by code_simp

lemma sample_scale_env_fields:
  "env_id sample_scale_env = ''e''" "env_active_release_id sample_scale_env = ''r''" "desiredReplicas sample_scale_env = 2"
  by code_simp+


theorem evaluateEnv_converges_witness:
  "length (good_replicas sample_scale_env (w_state sample_drain)) = 1
   \<and> int (length (good_replicas sample_scale_env
        (w_state (snd (evaluateEnv (sample_control (\<lambda>_. Committed)) sample_scale_env sample_drain))))) = 2"
proof -
  have one: "length (good_replicas sample_scale_env (w_state sample_drain)) = 1" using sample_scale_eval by (elim conjE)
  have h: "env_id sample_scale_env \<noteq> ''''" "\<not> deploymentOwnsEnv (w_state sample_drain) sample_scale_env"
    "env_active_release_id sample_scale_env \<noteq> ''''" using sample_scale_eval by (simp_all add: sample_scale_env_fields)
  from sample_scale_eval obtain rel where rel: "Release (env_active_release_id sample_scale_env) (w_state sample_drain) = Some rel" by auto
  have "snd (Place (w_state sample_drain) rel (env_id sample_scale_env) 1 []) = None"
    using sample_scale_eval rel by (simp add: sample_scale_env_fields)
  with evaluateEnv_converges [OF sample_drain_inv sample_drain_ids(2,1) h rel] one sample_scale_env_fields(3)
  show ?thesis by (simp add: Let_def)
qed

end
