(* ===== verification/Leases.thy ===== *)
theory Leases
  imports Replicas
begin

text \<open>
  Fencing leases of volumes: the scheduler only writes a lease for the node a volume is pinned to,
  naming the one assignment that may run there, and never while another node holds a valid lease.
\<close>

subsection \<open>The holder\<close>

definition may_hold :: "Volume \<Rightarrow> Assignment \<Rightarrow> bool" where
  "may_hold v a =
     (asg_job_id a = '''' \<and> asg_desired a = ASSIGNMENT_DESIRED_RUN \<and> asg_node_id a = vol_node_id v)"

lemma better_holder_cases:
  obtains (better) "better_holder v a h = Some a" "may_hold v a" "\<And>c. h = Some c \<Longrightarrow> asg_id a \<le> asg_id c"
  | (kept) "better_holder v a h = h" "may_hold v a \<Longrightarrow> \<exists>c. h = Some c \<and> asg_id c \<le> asg_id a"
proof (cases "may_hold v a \<and> (\<forall>c. h = Some c \<longrightarrow> asg_id a < asg_id c)")
  case True
  then have "better_holder v a h = Some a" by (auto simp: better_holder_def may_hold_def split: option.split)
  with True show ?thesis by (intro better) auto
next
  case False
  then have "better_holder v a h = h" by (auto simp: better_holder_def may_hold_def split: option.split)
  moreover from False have "\<exists>c. h = Some c \<and> asg_id c \<le> asg_id a" if "may_hold v a" using that by (auto simp: not_less)
  ultimately show ?thesis by (rule kept)
qed

lemma fold_holder:
  assumes "fold (better_holder v) as h = Some b"
  shows "(h = Some b \<or> b \<in> set as \<and> may_hold v b)
    \<and> (\<forall>a. h = Some a \<or> a \<in> set as \<and> may_hold v a \<longrightarrow> asg_id b \<le> asg_id a)"
  using assms
proof (induction as arbitrary: h)
  case (Cons a as)
  from Cons.IH [of "better_holder v a h"] Cons.prems
  have ih: "better_holder v a h = Some b \<or> b \<in> set as \<and> may_hold v b"
    "\<And>x. better_holder v a h = Some x \<or> x \<in> set as \<and> may_hold v x \<Longrightarrow> asg_id b \<le> asg_id x" by auto
  show ?case
  proof (cases rule: better_holder_cases [of v a h])
    case better
    with ih(1) ih(2) [of a] ih(2) show ?thesis by (auto intro: order_trans)
  next
    case kept
    with ih show ?thesis by (auto intro: order_trans)
  qed
qed simp

lemma statefulHolder_spec:
  assumes "store_inv s" and "statefulHolder s v = Some b"
  shows "asgs s (asg_id b) = Some b \<and> may_hold v b \<and> (vol_environment_id v = '''' \<or> asg_environment_id b = vol_environment_id v)
    \<and> (\<forall>a. asgs s (asg_id a) = Some a \<and> may_hold v a \<and> (vol_environment_id v = '''' \<or> asg_environment_id a = vol_environment_id v)
          \<longrightarrow> asg_id b \<le> asg_id a)"
  using fold_holder [of v "ListAssignments (vol_environment_id v) s" None b] assms(2) ListAssignments_iff [OF assms(1)]
  by (simp add: statefulHolder_def)

lemma statefulHolder_cong:
  assumes "vol_environment_id v' = vol_environment_id v" and "vol_node_id v' = vol_node_id v" and "assignments t = assignments s"
  shows "statefulHolder t v' = statefulHolder s v"
proof -
  have "better_holder v' = better_holder v" by (intro ext) (simp add: better_holder_def assms(2))
  with assms show ?thesis by (simp add: statefulHolder_def ListAssignments_def)
qed

subsection \<open>A pass over the volumes\<close>

definition leased :: "time \<Rightarrow> Assignment \<Rightarrow> Volume \<Rightarrow> Volume" where
  "leased now holder v = v\<lparr>vol_lease := Some \<lparr>lease_node_id = vol_node_id v, lease_assignment_id = asg_id holder,
     lease_expires_at = Some (now + leaseTTL)\<rparr>\<rparr>"

lemma leased_fields [simp]:
  "vol_environment_id (leased now h v) = vol_environment_id v" "vol_node_id (leased now h v) = vol_node_id v"
  "leased now h (leased now h v) = leased now h v" "vol_meta (leased now h v) = vol_meta v"
  by (simp_all add: leased_def)

definition renewed :: "time \<Rightarrow> Store \<Rightarrow> Volume \<Rightarrow> Volume \<Rightarrow> bool" where
  "renewed now s v v' =
     (\<not> leaseHeldByOther (vol_lease v) (vol_node_id v) now \<and> \<not> nodeDown s (vol_node_id v)
      \<and> (\<exists>h. statefulHolder s v = Some h \<and> v' = leased now h v))"

definition lease_rel :: "time \<Rightarrow> Store \<Rightarrow> Store \<Rightarrow> bool" where
  "lease_rel now s t =
     (assignments t = assignments s \<and> nodes t = nodes s
      \<and> (\<forall>i. Volume i t = Volume i s
             \<or> (\<exists>v v'. Volume i s = Some v \<and> Volume i t = Some v' \<and> renewed now s v v')))"

lemma nodeDown_cong: "nodes t = nodes s \<Longrightarrow> nodeDown t n = nodeDown s n"
  by (simp add: nodeDown_def Node_def)

interpretation leases: change "lease_rel now" for now
proof
  fix s t u
  assume st: "lease_rel now s t" and tu: "lease_rel now t u"
  have same: "assignments t = assignments s" "nodes t = nodes s" using st by (simp_all add: lease_rel_def)
  have twice: "renewed now s v v''" if "renewed now s v v'" "renewed now t v' v''" for v v' v''
  proof -
    from that(1) obtain h where h: "statefulHolder s v = Some h" "v' = leased now h v" by (auto simp: renewed_def)
    with statefulHolder_cong [OF _ _ same(1), of v' v] that(2) have "v'' = v'" by (auto simp: renewed_def)
    with that(1) show ?thesis by simp
  qed
  have once: "renewed now t v v' = renewed now s v v'" for v v'
    using same statefulHolder_cong [OF refl refl same(1), of v] by (simp add: renewed_def nodeDown_cong [OF same(2)])
  have "Volume i u = Volume i s \<or> (\<exists>v v'. Volume i s = Some v \<and> Volume i u = Some v' \<and> renewed now s v v')" for i
  proof -
    have "Volume i t = Volume i s \<or> (\<exists>v v'. Volume i s = Some v \<and> Volume i t = Some v' \<and> renewed now s v v')"
      "Volume i u = Volume i t \<or> (\<exists>v v'. Volume i t = Some v \<and> Volume i u = Some v' \<and> renewed now t v v')"
      using st tu by (simp_all add: lease_rel_def)
    then show ?thesis
    proof (elim disjE exE conjE)
      fix v v' x x'
      assume v: "Volume i s = Some v" "Volume i t = Some v'" "renewed now s v v'"
        and x: "Volume i t = Some x" "Volume i u = Some x'" "renewed now t x x'"
      then have "renewed now s v x'" using twice [of v v' x'] by simp
      with v x show ?thesis by blast
    qed (auto simp: once)
  qed
  with st tu show "lease_rel now s u" by (simp add: lease_rel_def)
qed (simp add: lease_rel_def)

lemma renewLease_frame: "vol_id v \<noteq> i \<Longrightarrow> Volume i (after (renewLease ctl v) w) = Volume i (w_state w)"
proof -
  assume i: "vol_id v \<noteq> i"
  have "Volume i (w_state (snd (propose ctl a (Command_PutVolumeLease (vol_id v) l) w))) = Volume i (w_state w)" for a l
    by (rule propose_rel) (use i in \<open>auto simp: SetVolumeLease_def Volume_def touch_def split: option.split\<close>)
  then show ?thesis by (simp add: renewLease_def after_def ret_def s_apply_def split: option.split)
qed

lemma renewLease_step:
  assumes "Volume (vol_id v) (w_state w) = Some v"
  shows "does_at (lease_rel (clock_now ctl)) (renewLease ctl v) w"
proof -
  let ?lease = "\<lambda>h. Some \<lparr>lease_node_id = vol_node_id v, lease_assignment_id = asg_id h, lease_expires_at = Some (clock_now ctl + leaseTTL)\<rparr>"
  have lease: "lease_rel (clock_now ctl) (w_state w)
      (w_state (snd (propose ctl ''system:scheduler'' (Command_PutVolumeLease (vol_id v) (?lease h)) w)))"
    if h: "statefulHolder (w_state w) v = Some h" "\<not> nodeDown (w_state w) (vol_node_id v)"
      "\<not> leaseHeldByOther (vol_lease v) (vol_node_id v) (clock_now ctl)" for h
    by (rule propose_rel)
      (use h assms in \<open>auto simp: lease_rel_def SetVolumeLease_def Volume_def touch_def renewed_def leased_def split: option.split\<close>)
  then show ?thesis
    using propose_inv leases.R_refl [of "clock_now ctl" "w_state w"]
    by (auto simp: does_at_def renewLease_def after_def ret_def s_apply_def split: option.split)
qed

lemma ListVolumes_facts:
  assumes "store_inv s"
  shows "distinct (ListVolumes '''' s)" and "v \<in> set (ListVolumes '''' s) \<Longrightarrow> Volume (vol_id v) s = Some v"
  using volume_rc.list_distinct [OF store_keyed(10) [OF assms]] volume_rc.in_list_iff [OF store_keyed(10) [OF assms]] by simp_all


subsection \<open>An example\<close>

definition sample_volume :: Volume where
  "sample_volume = zero_volume\<lparr>vol_meta := meta_of ''v'', vol_environment_id := ''e'', vol_node_id := ''n2''\<rparr>"

definition sample_lease_world :: World where
  "sample_lease_world =
     \<lparr>w_state = run_log (sample_drain_log @ [entry 7 ''r7'' (Command_PutVolume sample_volume)]) New, w_index = 7, w_ids = 0, w_proposals = 0\<rparr>"

lemma sample_lease_eval:
  "Volume ''v'' (w_state sample_lease_world) = Some sample_volume
   \<and> map_option vol_lease (Volume ''v'' (w_state (snd (reconcileLeases (sample_control (\<lambda>_. Committed)) sample_lease_world)))) =
       Some (Some \<lparr>lease_node_id = ''n2'', lease_assignment_id = ''a2'', lease_expires_at = Some (Hour + 60 * Second)\<rparr>)"
  by code_simp


end
