(* ===== verification/Jobs.thy ===== *)
theory Jobs
  imports Scheduler
begin

text \<open>
  One-shot jobs (\<^verbatim>\<open>scheduler/jobs.go\<close>) and cron schedules (\<^verbatim>\<open>scheduler/cron.go\<close>). The
  cron expression library is not part of the repository: a parsed schedule is its \<^verbatim>\<open>Next\<close>
  function, and the parser is a parameter.
\<close>

subsection \<open>Jobs\<close>

definition jobRetryBase :: duration where "jobRetryBase = 5 * Second"
definition jobRetryMax :: duration where "jobRetryMax = 5 * Minute"

fun backoff_loop :: "nat \<Rightarrow> duration \<Rightarrow> duration" where
  "backoff_loop 0 d = d"
| "backoff_loop (Suc n) d = (let d' = d * 2 in if d' \<ge> jobRetryMax then jobRetryMax else backoff_loop n d')"

definition jobBackoff :: "uint32 \<Rightarrow> duration" where
  "jobBackoff attempt = backoff_loop (unat attempt - 1) jobRetryBase"

definition jobRelease :: "Store \<Rightarrow> Job \<Rightarrow> Environment \<Rightarrow> Release option" where
  "jobRelease st job env =
     (if job_release_id job \<noteq> '''' then Release (job_release_id job) st
      else if env_active_release_id env \<noteq> '''' then Release (env_active_release_id env) st
      else None)"

definition jobAssignment :: "Store \<Rightarrow> Job \<Rightarrow> Assignment option" where
  "jobAssignment st job =
     find (\<lambda>a. asg_job_id a = job_id job) (ListAssignments (job_environment_id job) st)"

definition putJob :: "Control \<Rightarrow> Job \<Rightarrow> action" where
  "putJob ctl job =
     s_apply ctl (Command_PutJob (job\<lparr>job_meta := (job_meta job)\<lparr>UpdatedAt := Some (clock_now ctl)\<rparr>\<rparr>))"

definition deleteAssignment :: "Control \<Rightarrow> Assignment \<Rightarrow> action" where
  "deleteAssignment ctl a = s_apply ctl (Command_DeleteAssignments [asg_id a])"

definition finishJob :: "Control \<Rightarrow> Job \<Rightarrow> JobStatus \<Rightarrow> int \<Rightarrow> string \<Rightarrow> action" where
  "finishJob ctl job status code msg =
     putJob ctl (job\<lparr>job_status := status, job_exit_code := code, job_error := msg,
                     job_finished_at := Some (clock_now ctl)\<rparr>)"

definition jobAttemptFailed :: "Control \<Rightarrow> Job \<Rightarrow> int \<Rightarrow> string \<Rightarrow> action" where
  "jobAttemptFailed ctl job code msg =
     putJob ctl (job\<lparr>job_exit_code := code, job_error := msg, job_finished_at := Some (clock_now ctl),
                     job_status := (if job_attempt job \<le> job_max_retries job
                                    then JOB_STATUS_RETRYING else JOB_STATUS_FAILED)\<rparr>)"

definition jobAttemptFailedWith :: "Control \<Rightarrow> Job \<Rightarrow> Assignment \<Rightarrow> int \<Rightarrow> string \<Rightarrow> action" where
  "jobAttemptFailedWith ctl job a code msg =
     and_then (deleteAssignment ctl a) (jobAttemptFailed ctl job code msg)"

definition jobSucceeded :: "Control \<Rightarrow> Job \<Rightarrow> Assignment \<Rightarrow> action" where
  "jobSucceeded ctl job a =
     and_then (deleteAssignment ctl a)
       (putJob ctl (job\<lparr>job_status := JOB_STATUS_SUCCEEDED, job_exit_code := 0, job_error := '''',
                        job_finished_at := Some (clock_now ctl)\<rparr>))"

definition observeJob :: "Control \<Rightarrow> Job \<Rightarrow> action" where
  "observeJob ctl job w =
     (case jobAssignment (w_state w) job of
        None \<Rightarrow> jobAttemptFailed ctl job (- 1) ''job assignment lost'' w
      | Some a \<Rightarrow>
          let obs = asg_observed a
          in if obs_state obs = INSTANCE_STATE_STOPPED
             then if obs_exit_code obs = 0 then jobSucceeded ctl job a w
                  else jobAttemptFailedWith ctl job a (obs_exit_code obs) (obs_message obs) w
             else if obs_state obs = INSTANCE_STATE_FAILED
             then jobAttemptFailedWith ctl job a (obs_exit_code obs) (obs_message obs) w
             else ret w)"

definition backingOff :: "Control \<Rightarrow> Job \<Rightarrow> bool" where
  "backingOff ctl job =
     (job_status job = JOB_STATUS_RETRYING
      \<and> (case job_finished_at job of
           None \<Rightarrow> False
         | Some fin \<Rightarrow> clock_now ctl < fin + jobBackoff (job_attempt job)))"

definition jobInstance :: "Control \<Rightarrow> Job \<Rightarrow> Environment \<Rightarrow> Release \<Rightarrow> string \<Rightarrow> World \<Rightarrow> Assignment \<times> World" where
  "jobInstance ctl job env rel node w =
     (case fresh_id ctl w of (i, w1) \<Rightarrow>
        (zero_assignment
           \<lparr>asg_meta := \<lparr>Id = i, CreatedAt = Some (clock_now ctl), UpdatedAt = Some (clock_now ctl)\<rparr>,
            asg_node_id := node, asg_project_id := job_project_id job, asg_app_id := job_app_id job,
            asg_environment_id := env_id env, asg_release_id := rel_id rel,
            asg_desired := ASSIGNMENT_DESIRED_RUN, asg_config_hash := rel_config_hash rel,
            asg_job_id := job_id job\<rparr>, w1))"

definition startedJob :: "Control \<Rightarrow> Job \<Rightarrow> Release \<Rightarrow> string \<Rightarrow> Job" where
  "startedJob ctl job rel node =
     job\<lparr>job_status := JOB_STATUS_RUNNING, job_node_id := node, job_release_id := rel_id rel,
         job_attempt := job_attempt job + 1, job_error := '''', job_finished_at := None,
         job_started_at := (case job_started_at job of None \<Rightarrow> Some (clock_now ctl) | Some t \<Rightarrow> Some t)\<rparr>"

definition placeJob :: "Control \<Rightarrow> Job \<Rightarrow> action" where
  "placeJob ctl job w =
     (if backingOff ctl job then ret w
      else case Environment (job_environment_id job) (w_state w) of
        None \<Rightarrow> finishJob ctl job JOB_STATUS_FAILED 0 ''environment not found'' w
      | Some env \<Rightarrow>
        (case jobRelease (w_state w) job env of
           None \<Rightarrow> ret w
         | Some rel \<Rightarrow>
           (case Place (w_state w) rel (env_id env) 1 [] of (chosen, err) \<Rightarrow>
              if err \<noteq> None \<or> chosen = []
              then s_emitEvent ctl env ''job.no_capacity'' ''warning''
                     (''cannot place job '' @ job_id job @ '': '' @ error_v err) w
              else (case jobInstance ctl job env rel (hd chosen) w of (a, w1) \<Rightarrow>
                      and_then (s_apply ctl (Command_PutAssignments [a]))
                        (putJob ctl (startedJob ctl job rel (hd chosen))) w1))))"

definition reapJobAssignment :: "Control \<Rightarrow> Job \<Rightarrow> action" where
  "reapJobAssignment ctl job w =
     (case jobAssignment (w_state w) job of None \<Rightarrow> ret w | Some a \<Rightarrow> deleteAssignment ctl a w)"

definition reconcileJob :: "Control \<Rightarrow> Job \<Rightarrow> action" where
  "reconcileJob ctl job =
     (if job_status job \<in> {JOB_STATUS_QUEUED, JOB_STATUS_RETRYING} then placeJob ctl job
      else if job_status job = JOB_STATUS_RUNNING then observeJob ctl job
      else reapJobAssignment ctl job)"

definition reconcileJobs :: "Control \<Rightarrow> action" where
  "reconcileJobs ctl w = in_turn (reconcileJob ctl) (ListJobs '''' '''' (w_state w)) w"

subsection \<open>Cron\<close>

definition cronJitterWindow :: duration where "cronJitterWindow = 30 * Second"

text \<open>The 32-bit FNV-1a hash of Go's \<^verbatim>\<open>hash/fnv\<close>.\<close>

definition fnv32a :: "string \<Rightarrow> uint32" where
  "fnv32a s = fold (\<lambda>c h. (xor h (of_char c)) * 16777619) s 2166136261"

definition cronJitter :: "string \<Rightarrow> string \<Rightarrow> duration" where
  "cronJitter envID name =
     uint (fnv32a (envID @ [CHR 0x00] @ name) mod word_of_int (cronJitterWindow div Second)) * Second"

definition jobTerminal :: "JobStatus \<Rightarrow> bool" where
  "jobTerminal s = (s \<in> {JOB_STATUS_SUCCEEDED, JOB_STATUS_FAILED, JOB_STATUS_CANCELED})"

definition activeCronJobs :: "Store \<Rightarrow> Environment \<Rightarrow> string \<Rightarrow> Job list" where
  "activeCronJobs st env cronName =
     filter (\<lambda>j. job_cron_name j = cronName \<and> \<not> jobTerminal (job_status j))
       (ListJobs (env_project_id env) (env_id env) st)"

definition cancelCronJob :: "Control \<Rightarrow> Job \<Rightarrow> action" where
  "cancelCronJob ctl job w =
     and_then
       (case jobAssignment (w_state w) job of
          None \<Rightarrow> ret
        | Some a \<Rightarrow> if asg_desired a \<noteq> ASSIGNMENT_DESIRED_STOP
                    then s_apply ctl (Command_PutAssignments [a\<lparr>asg_desired := ASSIGNMENT_DESIRED_STOP\<rparr>])
                    else ret)
       (putJob ctl (job\<lparr>job_status := JOB_STATUS_CANCELED, job_finished_at := Some (clock_now ctl)\<rparr>)) w"

definition cronJob :: "Control \<Rightarrow> Environment \<Rightarrow> CronSpec \<Rightarrow> string \<Rightarrow> Job" where
  "cronJob ctl env spec i =
     zero_job
       \<lparr>job_meta := \<lparr>Id = i, CreatedAt = Some (clock_now ctl), UpdatedAt = Some (clock_now ctl)\<rparr>,
        job_project_id := env_project_id env, job_app_id := env_app_id env, job_environment_id := env_id env,
        job_release_id := env_active_release_id env, job_command := cron_command spec,
        job_cron_name := cron_name spec, job_status := JOB_STATUS_QUEUED, job_max_retries := cron_max_retries spec\<rparr>"

definition enqueueCronJob :: "Control \<Rightarrow> Environment \<Rightarrow> CronSpec \<Rightarrow> action" where
  "enqueueCronJob ctl env spec w =
     (case fresh_id ctl w of (i, w1) \<Rightarrow> s_apply ctl (Command_PutJob (cronJob ctl env spec i)) w1)"

definition fireCron :: "Control \<Rightarrow> Environment \<Rightarrow> CronSpec \<Rightarrow> action" where
  "fireCron ctl env spec w =
     (if env_active_release_id env = '''' then ret w
      else let active = activeCronJobs (w_state w) env (cron_name spec)
           in case cron_concurrency spec of
                CONCURRENCY_POLICY_ALLOW \<Rightarrow> enqueueCronJob ctl env spec w
              | CONCURRENCY_POLICY_REPLACE \<Rightarrow>
                  and_then (in_turn (cancelCronJob ctl) active) (enqueueCronJob ctl env spec) w
              | _ \<Rightarrow> if active \<noteq> [] then ret w else enqueueCronJob ctl env spec w)"

record CronState =
  cronLast :: "(string, time) gomap"
  cronEpoch :: time

definition resetCron :: "Control \<Rightarrow> CronState" where
  "resetCron ctl = \<lparr>cronLast = [], cronEpoch = clock_now ctl\<rparr>"

type_synonym cron_parser = "string \<Rightarrow> (time \<Rightarrow> time) option"
type_synonym cron_action = "CronState \<times> World \<Rightarrow> apply_error option \<times> CronState \<times> World"

definition cron_key :: "Environment \<Rightarrow> CronSpec \<Rightarrow> string" where
  "cron_key env spec = env_id env @ [CHR 0x00] @ cron_name spec"

definition baseline :: "CronState \<Rightarrow> string \<Rightarrow> time" where
  "baseline cs key =
     (case map_of (cronLast cs) key of
        None \<Rightarrow> cronEpoch cs
      | Some prev \<Rightarrow> if prev > cronEpoch cs then prev else cronEpoch cs)"

text \<open>The slot a pass would fire, if any: the decision of \<^verbatim>\<open>maybeFireCron\<close>.\<close>

definition dueSlot :: "cron_parser \<Rightarrow> Environment \<Rightarrow> CronSpec \<Rightarrow> time \<Rightarrow> CronState \<Rightarrow> time option" where
  "dueSlot parse env spec now cs =
     (if cron_name spec = '''' \<or> cron_schedule spec = '''' then None
      else case parse (cron_schedule spec) of
        None \<Rightarrow> None
      | Some next' \<Rightarrow>
          let key = cron_key env spec;
              due = next' (baseline cs key)
          in if due + cronJitter (env_id env) (cron_name spec) > now then None
             else case map_of (cronLast cs) key of
                    None \<Rightarrow> Some due
                  | Some prev \<Rightarrow> if \<not> due > prev then None else Some due)"

definition maybeFireCron :: "cron_parser \<Rightarrow> Control \<Rightarrow> Environment \<Rightarrow> CronSpec \<Rightarrow> cron_action" where
  "maybeFireCron parse ctl env spec cw =
     (case cw of (cs, w) \<Rightarrow>
        (case dueSlot parse env spec (clock_now ctl) cs of
           None \<Rightarrow> (None, cs, w)
         | Some due \<Rightarrow>
             (case fireCron ctl env spec w of
                (e, w1) \<Rightarrow> (e, cs\<lparr>cronLast := mput (cron_key env spec) due (cronLast cs)\<rparr>, w1))))"

primrec fire_all :: "cron_parser \<Rightarrow> Control \<Rightarrow> (Environment \<times> CronSpec) list \<Rightarrow> cron_action" where
  "fire_all parse ctl [] cw = (None, cw)"
| "fire_all parse ctl (x # xs) cw =
     (case maybeFireCron parse ctl (fst x) (snd x) cw of
        (Some e, cw1) \<Rightarrow> (Some e, cw1)
      | (None, cw1) \<Rightarrow> fire_all parse ctl xs cw1)"

definition cron_specs :: "Store \<Rightarrow> (Environment \<times> CronSpec) list" where
  "cron_specs st =
     concat (map (\<lambda>env. map (Pair env) (svc_cron (env_service env))) (ListEnvironments '''' '''' st))"

definition reconcileCron :: "cron_parser \<Rightarrow> Control \<Rightarrow> CronState option \<Rightarrow> World \<Rightarrow> apply_error option \<times> CronState \<times> World" where
  "reconcileCron parse ctl cs w =
     fire_all parse ctl (cron_specs (w_state w)) (case cs of None \<Rightarrow> resetCron ctl | Some c \<Rightarrow> c, w)"

end
