(* ===== verification/JobProps.thy ===== *)
theory JobProps
  imports Leases Jobs
begin

text \<open>
  Jobs and cron: the retry backoff, the state machine of a job with its bound on attempts, and which
  cron slots a leader fires.
\<close>

subsection \<open>Backoff\<close>

lemma backoff_loop_eq: "0 < d \<Longrightarrow> d < jobRetryMax \<Longrightarrow> backoff_loop n d = min (d * 2 ^ n) jobRetryMax"
proof (induction n arbitrary: d)
  case (Suc n)
  show ?case
  proof (cases "d * 2 \<ge> jobRetryMax")
    case True
    have "d * 2 \<le> d * 2 ^ Suc n" using Suc.prems(1) by simp
    with True show ?thesis by simp
  next
    case False
    with Suc.IH [of "d * 2"] Suc.prems show ?thesis by (simp add: mult.assoc)
  qed
qed simp

text \<open>Retry delays: the delay before retry \<open>n\<close> is 5 seconds doubled \<open>n - 1\<close> times, capped at 5
  minutes; it is computed without overflow for every 32-bit attempt counter.\<close>

theorem jobBackoff_exact: "jobBackoff n = min (5 * Second * 2 ^ (unat n - 1)) (5 * Minute)"
  unfolding jobBackoff_def
  by (subst backoff_loop_eq)
    (simp_all add: jobRetryBase_def jobRetryMax_def Second_def Minute_def Millisecond_def)

subsection \<open>The state machine of a job\<close>

inductive job_edge :: "Job \<Rightarrow> Job \<Rightarrow> bool" where
  started: "job_status j \<in> {JOB_STATUS_QUEUED, JOB_STATUS_RETRYING} \<Longrightarrow> job_status k = JOB_STATUS_RUNNING \<Longrightarrow>
    job_attempt k = job_attempt j + 1 \<Longrightarrow> job_edge j k"
| abandoned: "job_status j \<in> {JOB_STATUS_QUEUED, JOB_STATUS_RETRYING} \<Longrightarrow> job_status k = JOB_STATUS_FAILED \<Longrightarrow>
    job_attempt k = job_attempt j \<Longrightarrow> job_edge j k"
| succeeded: "job_status j = JOB_STATUS_RUNNING \<Longrightarrow> job_status k = JOB_STATUS_SUCCEEDED \<Longrightarrow>
    job_attempt k = job_attempt j \<Longrightarrow> job_edge j k"
| retry: "job_status j = JOB_STATUS_RUNNING \<Longrightarrow> job_status k = JOB_STATUS_RETRYING \<Longrightarrow>
    job_attempt k = job_attempt j \<Longrightarrow> job_attempt j \<le> job_max_retries j \<Longrightarrow> job_edge j k"
| exhausted: "job_status j = JOB_STATUS_RUNNING \<Longrightarrow> job_status k = JOB_STATUS_FAILED \<Longrightarrow>
    job_attempt k = job_attempt j \<Longrightarrow> job_attempt j > job_max_retries j \<Longrightarrow> job_edge j k"

definition same_job :: "Job \<Rightarrow> Job \<Rightarrow> bool" where
  "same_job j k = (job_id k = job_id j \<and> job_max_retries k = job_max_retries j
     \<and> job_environment_id k = job_environment_id j \<and> job_command k = job_command j \<and> job_cron_name k = job_cron_name j)"

text \<open>A queued job was never started; a job that waits for a retry has attempts left; no job was started
  more often than its retries allow.\<close>

definition job_ok :: "Job \<Rightarrow> bool" where
  "job_ok j =
     (unat (job_attempt j) \<le> unat (job_max_retries j) + 1
      \<and> (job_status j = JOB_STATUS_QUEUED \<longrightarrow> job_attempt j = 0)
      \<and> (job_status j = JOB_STATUS_RETRYING \<longrightarrow> job_attempt j \<le> job_max_retries j))"

lemma unat_inc: "unat ((x :: uint32) + 1) \<le> unat x + 1"
  by (simp add: unat_word_ariths(1))

lemma job_edge_ok: "job_edge j k \<Longrightarrow> same_job j k \<Longrightarrow> job_ok j \<Longrightarrow> job_ok k"
proof (induction rule: job_edge.induct)
  case (started j k)
  then have "unat (job_attempt j) \<le> unat (job_max_retries j)" by (auto simp: job_ok_def word_le_nat_alt)
  with started unat_inc [of "job_attempt j"] show ?case by (auto simp: job_ok_def same_job_def)
qed (auto simp: job_ok_def same_job_def)

definition job_move :: "Job \<Rightarrow> Job \<Rightarrow> bool" where
  "job_move j k = (job_edge j k \<and> same_job j k)"

lemma job_moves_ok: "job_move\<^sup>*\<^sup>* j k \<Longrightarrow> job_ok j \<Longrightarrow> job_ok k"
  by (induction rule: rtranclp_induct) (auto simp: job_move_def intro: job_edge_ok)

lemma job_moves_terminal:
  assumes "job_move\<^sup>*\<^sup>* j k" and "jobTerminal (job_status j)"
  shows "k = j"
proof -
  have "\<not> job_move j x" for x
    using assms(2) by (auto simp: job_move_def jobTerminal_def elim!: job_edge.cases)
  with assms(1) show ?thesis by (metis converse_rtranclpE)
qed

definition jobs_rel :: "Store \<Rightarrow> Store \<Rightarrow> bool" where
  "jobs_rel s t = (\<forall>i. case Job i s of None \<Rightarrow> Job i t = None | Some j \<Rightarrow> \<exists>k. Job i t = Some k \<and> job_move\<^sup>*\<^sup>* j k)"

interpretation job_changes: change jobs_rel
proof
  fix s t u
  assume st: "jobs_rel s t" and tu: "jobs_rel t u"
  show "jobs_rel s u"
    unfolding jobs_rel_def
  proof
    fix i
    from st [unfolded jobs_rel_def, rule_format, of i] tu [unfolded jobs_rel_def, rule_format, of i]
    show "case Job i s of None \<Rightarrow> Job i u = None | Some j \<Rightarrow> \<exists>k. Job i u = Some k \<and> job_move\<^sup>*\<^sup>* j k"
      by (cases "Job i s"; cases "Job i t") (auto intro: rtranclp_trans)
  qed
qed (simp add: jobs_rel_def split: option.split)

lemma jobs_rel_same: "jobs t = jobs s \<Longrightarrow> jobs_rel s t"
  by (simp add: jobs_rel_def Job_def split: option.split)

lemma jobs_rel_trans_same: "jobs t = jobs s \<Longrightarrow> jobs_rel t u \<Longrightarrow> jobs_rel s u"
  using job_changes.R_trans jobs_rel_same by blast

lemma keeps_jobs:
  "keeps jobs (s_apply ctl (Command_PutAssignments as))" "keeps jobs (s_apply ctl (Command_DeleteAssignments is))"
  "keeps jobs (s_emitEvent ctl env k sev msg)"
  using propose_PutAssignments propose_DeleteAssignments propose_AppendEvents
  by (simp_all add: keeps_def s_apply_def s_emitEvent_def fresh_id_def ignore_def after_def puts_rel_def dels_rel_def
    tables_eq_def same_but_assignments_def)

lemma does_jobs_same: "sound f \<Longrightarrow> keeps jobs f \<Longrightarrow> does jobs_rel f"
  by (rule does_mono [OF does_same [where v = jobs]]) (auto intro: jobs_rel_same)

lemma then_jobs:
  assumes "sound f" and "keeps jobs f"
    and "\<And>v. store_inv (w_state v) \<Longrightarrow> jobs (w_state v) = jobs (w_state w) \<Longrightarrow> does_at jobs_rel g v"
  shows "does_at jobs_rel (and_then f g) w"
  unfolding does_at_def
proof
  assume inv: "store_inv (w_state w)"
  have f: "store_inv (after f w)" "jobs (after f w) = jobs (w_state w)"
    using assms(1,2) inv by (simp_all add: sound_def keeps_def)
  with assms(3) [of "snd (f w)"] have "store_inv (after g (snd (f w)))" "jobs_rel (after f w) (after g (snd (f w)))"
    by (simp_all add: does_at_def after_def)
  with f jobs_rel_same [OF f(2)] jobs_rel_trans_same [OF f(2), of "after g (snd (f w))"] after_and_then [of f g w]
  show "store_inv (after (and_then f g) w) \<and> jobs_rel (w_state w) (after (and_then f g) w)" by metis
qed

lemma putJob_at:
  assumes "Job (job_id k) (w_state w) = Some j" and "job_edge j k" and "same_job j k"
  shows "does_at jobs_rel (putJob ctl k) w"
proof -
  let ?k = "k\<lparr>job_meta := (job_meta k)\<lparr>UpdatedAt := Some (clock_now ctl)\<rparr>\<rparr>"
  have "job_edge j ?k" using assms(2) by (rule job_edge.cases) (auto intro: job_edge.intros)
  with assms(3) have move: "job_move\<^sup>*\<^sup>* j ?k" by (simp add: job_move_def same_job_def r_into_rtranclp)
  have "jobs_rel (w_state w) (w_state (snd (propose ctl ''system:scheduler'' (Command_PutJob ?k) w)))"
    by (rule propose_rel)
      (use assms(1) move in \<open>simp_all add: jobs_rel_def Job_def PutJob_def touch_def split: option.split\<close>)
  then show ?thesis by (simp add: does_at_def putJob_def s_apply_def after_def propose_inv)
qed

lemma does_at_shift:
  "w_state v = w_state w \<Longrightarrow> after f w = after g v \<Longrightarrow> does_at R g v \<Longrightarrow> does_at R f w"
  by (simp add: does_at_def)

lemma placeJob_step:
  assumes "Job (job_id j) (w_state w) = Some j" and "job_status j \<in> {JOB_STATUS_QUEUED, JOB_STATUS_RETRYING}"
  shows "does_at jobs_rel (placeJob ctl j) w"
proof -
  have ret: "does_at jobs_rel ret w" by (rule does_at [OF job_changes.ret_does])
  have failed: "does_at jobs_rel (finishJob ctl j JOB_STATUS_FAILED c m) w" for c m
    unfolding finishJob_def
    by (rule putJob_at [where j = j]) (use assms in \<open>auto simp: same_job_def intro: job_edge.abandoned\<close>)
  have sound: "sound (s_emitEvent ctl env k sev msg)" for env k sev msg by (rule does_sound [OF does_events(1)])
  have event: "does_at jobs_rel (s_emitEvent ctl env k sev msg) w" for env k sev msg
    by (rule does_at [OF does_jobs_same [OF sound keeps_jobs(3)]])
  have start: "does_at jobs_rel (and_then (s_apply ctl (Command_PutAssignments as)) (putJob ctl (startedJob ctl j rel n))) v"
    if "w_state v = w_state w" for as rel n v
  proof (rule then_jobs [OF s_apply_sound keeps_jobs(1)])
    fix u :: World
    assume "jobs (w_state u) = jobs (w_state v)"
    with that assms show "does_at jobs_rel (putJob ctl (startedJob ctl j rel n)) u"
      by (intro putJob_at [where j = j])
        (auto simp: Job_def startedJob_def same_job_def intro: job_edge.started)
  qed
  have "does_at jobs_rel (\<lambda>w. and_then (s_apply ctl (Command_PutAssignments [a])) (putJob ctl (startedJob ctl j rel n)) (w\<lparr>w_ids := m\<rparr>)) w"
    for a rel n m
    by (rule does_at_shift [OF _ _ start [of "w\<lparr>w_ids := m\<rparr>" "[a]" rel n]]) (simp_all add: after_def)
  with ret failed event show ?thesis
    by (simp add: does_at_def after_def placeJob_def jobInstance_def fresh_id_def split_def split: option.split)
qed

lemma observeJob_step:
  assumes "Job (job_id j) (w_state w) = Some j" and "job_status j = JOB_STATUS_RUNNING"
  shows "does_at jobs_rel (observeJob ctl j) w"
proof -
  have failed: "does_at jobs_rel (jobAttemptFailed ctl j c m) v" if "jobs (w_state v) = jobs (w_state w)" for c m v
    unfolding jobAttemptFailed_def
    by (rule putJob_at [where j = j])
      (use that assms in \<open>auto simp: Job_def same_job_def intro: job_edge.retry job_edge.exhausted\<close>)
  have failed_with: "does_at jobs_rel (jobAttemptFailedWith ctl j a c m) w" for a c m
    unfolding jobAttemptFailedWith_def deleteAssignment_def
    by (rule then_jobs [OF s_apply_sound keeps_jobs(2) failed])
  have succeeded: "does_at jobs_rel (jobSucceeded ctl j a) w" for a
    unfolding jobSucceeded_def deleteAssignment_def
  proof (rule then_jobs [OF s_apply_sound keeps_jobs(2)])
    fix u :: World
    assume "jobs (w_state u) = jobs (w_state w)"
    with assms show "does_at jobs_rel (putJob ctl (j\<lparr>job_status := JOB_STATUS_SUCCEEDED, job_exit_code := 0, job_error := '''',
        job_finished_at := Some (clock_now ctl)\<rparr>)) u"
      by (intro putJob_at [where j = j]) (auto simp: Job_def same_job_def intro: job_edge.succeeded)
  qed
  from failed [OF refl] failed_with succeeded does_at [OF job_changes.ret_does] show ?thesis
    by (simp add: does_at_def after_def observeJob_def Let_def split: option.split)
qed

lemma reconcileJob_step:
  assumes "Job (job_id j) (w_state w) = Some j"
  shows "does_at jobs_rel (reconcileJob ctl j) w"
proof -
  have "does jobs_rel (deleteAssignment ctl a)" for a
    unfolding deleteAssignment_def by (rule does_jobs_same [OF s_apply_sound keeps_jobs(2)])
  then have "does_at jobs_rel (reapJobAssignment ctl j) w"
    using does_at [OF job_changes.ret_does] by (auto simp: does_def does_at_def after_def reapJobAssignment_def split: option.split)
  with placeJob_step [OF assms] observeJob_step [OF assms] show ?thesis by (simp add: reconcileJob_def)
qed

subsubsection \<open>A job's turn touches no other job\<close>

lemma keeps_job:
  "i \<noteq> job_id k \<Longrightarrow> keeps (Job i) (putJob ctl k)"
  "keeps (Job i) (s_apply ctl (Command_PutAssignments as))" "keeps (Job i) (s_apply ctl (Command_DeleteAssignments is))"
  "keeps (Job i) (s_emitEvent ctl env kd sev msg)" "keeps (Job i) (deleteAssignment ctl a)"
proof -
  show "i \<noteq> job_id k \<Longrightarrow> keeps (Job i) (putJob ctl k)"
  proof -
    assume i: "i \<noteq> job_id k"
    have "Job i (w_state (snd (propose ctl a (Command_PutJob (k\<lparr>job_meta := (job_meta k)\<lparr>UpdatedAt := t\<rparr>\<rparr>)) w))) = Job i (w_state w)" for a t w
      by (rule propose_rel) (use i in \<open>simp_all add: Job_def PutJob_def touch_def\<close>)
    then show ?thesis by (simp add: keeps_def putJob_def s_apply_def after_def)
  qed
qed (use keeps_jobs in \<open>simp_all add: keeps_def Job_def deleteAssignment_def\<close>)

lemma reconcileJob_frame: "i \<noteq> job_id j \<Longrightarrow> Job i (after (reconcileJob ctl j) w) = Job i (w_state w)"
proof -
  assume i: "i \<noteq> job_id j"
  have put: "keeps (Job i) (putJob ctl k)" if "job_id k = job_id j" for k using keeps_job(1) i that by metis
  have "keeps (Job i) (finishJob ctl j st c m)" "keeps (Job i) (jobAttemptFailed ctl j c m)"
    "keeps (Job i) (jobAttemptFailedWith ctl j a c m)" "keeps (Job i) (jobSucceeded ctl j a)" for st c m a
    unfolding finishJob_def jobAttemptFailed_def jobAttemptFailedWith_def jobSucceeded_def
    by (intro keeps_and_then keeps_job put; simp)+
  moreover have "keeps (Job i) (and_then (s_apply ctl (Command_PutAssignments as)) (putJob ctl (startedJob ctl j rel n)))" for as rel n
    by (intro keeps_and_then keeps_job put) (simp add: startedJob_def)
  moreover have "keeps (Job i) (deleteAssignment ctl a)" "keeps (Job i) (s_emitEvent ctl env k sev msg)" for a env k sev msg
    by (rule keeps_job)+
  ultimately show ?thesis
    by (simp add: keeps_def after_def reconcileJob_def placeJob_def observeJob_def reapJobAssignment_def jobInstance_def
      fresh_id_def ret_def split_def Let_def split: option.split)
qed

text \<open>C24 (jobs): a pass over the jobs moves each stored job only along the edges of its state machine and
  creates or drops none. A finished job never changes, and the number of attempts never exceeds the
  retries plus one, given that it did not before.\<close>

theorem reconcileJobs_legal:
  assumes "store_inv (w_state w)"
  shows "let t = w_state (snd (reconcileJobs ctl w))
    in case Job i (w_state w) of
         None \<Rightarrow> Job i t = None
       | Some j \<Rightarrow> (\<exists>k. Job i t = Some k \<and> job_move\<^sup>*\<^sup>* j k \<and> (job_ok j \<longrightarrow> job_ok k)
                       \<and> (jobTerminal (job_status j) \<longrightarrow> k = j))"
proof -
  let ?js = "ListJobs '''' '''' (w_state w)"
  note listed = job_rc.in_list_iff [OF store_keyed(11) [OF assms], of _ "('''', '''')", simplified]
  have id: "x = y" if "x \<in> set ?js" "y \<in> set ?js" "job_id x = job_id y" for x y
    using listed that by (metis option.inject)
  have "does_at jobs_rel (in_turn (reconcileJob ctl) ?js) w"
  proof (rule job_changes.turn_at [where P = "\<lambda>j s. Job (job_id j) s = Some j"])
    show "distinct ?js" using job_rc.list_distinct [OF store_keyed(11) [OF assms], of "('''', '''')"] by simp
    show "Job (job_id y) (after (reconcileJob ctl x) u) = Some y"
      if "x \<in> set ?js" "y \<in> set ?js" "x \<noteq> y" "Job (job_id y) (w_state u) = Some y" for x y u
      using reconcileJob_frame [of "job_id y" x ctl u] id [OF that(1,2)] that(3,4) by metis
  qed (use listed reconcileJob_step in auto)
  with assms have "jobs_rel (w_state w) (w_state (snd (reconcileJobs ctl w)))"
    by (simp add: does_at_def after_def reconcileJobs_def)
  then have "case Job i (w_state w) of None \<Rightarrow> Job i (w_state (snd (reconcileJobs ctl w))) = None
      | Some j \<Rightarrow> \<exists>k. Job i (w_state (snd (reconcileJobs ctl w))) = Some k \<and> job_move\<^sup>*\<^sup>* j k"
    unfolding jobs_rel_def by blast
  then show ?thesis
    by (cases "Job i (w_state w)") (auto simp: Let_def dest: job_moves_ok job_moves_terminal)
qed

definition sample_job :: Job where
  "sample_job = zero_job\<lparr>job_meta := meta_of ''j'', job_environment_id := ''e'', job_status := JOB_STATUS_RUNNING,
     job_attempt := 1, job_max_retries := 3\<rparr>"

definition sample_job_world :: World where
  "sample_job_world = \<lparr>w_state = run_log [entry 1 ''r1'' (Command_PutJob sample_job)] New, w_index = 1, w_ids = 0, w_proposals = 0\<rparr>"

lemma sample_job_inv: "store_inv (w_state sample_job_world)"
  by (simp add: sample_job_world_def reachable_inv del: run_log.simps)

text \<open>The job's assignment is lost, so the attempt failed and the job is retried.\<close>

lemma sample_job_eval:
  "Job ''j'' (w_state sample_job_world) = Some sample_job
   \<and> map_option job_status (Job ''j'' (w_state (snd (reconcileJobs (sample_control (\<lambda>_. Committed)) sample_job_world))))
      = Some JOB_STATUS_RETRYING"
  by code_simp

theorem reconcileJobs_legal_witness:
  "let t = w_state (snd (reconcileJobs (sample_control (\<lambda>_. Committed)) sample_job_world))
   in (\<exists>k. Job ''j'' t = Some k \<and> job_move\<^sup>*\<^sup>* sample_job k \<and> job_ok k)
      \<and> map_option job_status (Job ''j'' t) = Some JOB_STATUS_RETRYING"
proof -
  have j: "Job ''j'' (w_state sample_job_world) = Some sample_job" using sample_job_eval by (elim conjE)
  have ok: "job_ok sample_job" by code_simp
  have "map_option job_status (Job ''j'' (w_state (snd (reconcileJobs (sample_control (\<lambda>_. Committed)) sample_job_world))))
      = Some JOB_STATUS_RETRYING" using sample_job_eval by (elim conjE)
  with reconcileJobs_legal [OF sample_job_inv, of "sample_control (\<lambda>_. Committed)" "''j''"] j ok show ?thesis
    by (auto simp: Let_def)
qed

subsection \<open>Cron\<close>

text \<open>What the code relies on of a parsed schedule: the next activation lies after the given instant.
  The library documents the one exception, a schedule that no instant satisfies, for which
  \<^verbatim>\<open>Next\<close> is the zero time.\<close>

definition schedules_ahead :: "cron_parser \<Rightarrow> bool" where
  "schedules_ahead parse = (\<forall>s next'. parse s = Some next' \<longrightarrow> (\<forall>t. next' t > t))"

lemma cronJitter_bounds: "0 \<le> cronJitter e n \<and> cronJitter e n < cronJitterWindow"
proof -
  have "uint (x mod 30) < 30" for x :: uint32 by (simp add: uint_mod)
  then show ?thesis by (simp add: cronJitter_def cronJitterWindow_def Second_def Millisecond_def)
qed

lemma baseline_ge: "cronEpoch cs \<le> baseline cs k" "map_of (cronLast cs) k = Some t \<Longrightarrow> t \<le> baseline cs k"
  by (auto simp: baseline_def split: option.split)

lemma dueSlot_ahead:
  assumes "schedules_ahead parse" and "dueSlot parse env spec now cs = Some due"
  shows "cronEpoch cs < due" and "map_of (cronLast cs) (cron_key env spec) = Some t \<Longrightarrow> t < due" and "due \<le> now"
proof -
  from assms(2) obtain next' where p: "parse (cron_schedule spec) = Some next'"
    and d: "due = next' (baseline cs (cron_key env spec))" "due + cronJitter (env_id env) (cron_name spec) \<le> now"
    by (auto simp: dueSlot_def Let_def not_less split: option.splits if_splits)
  have "baseline cs (cron_key env spec) < due" using assms(1) p d(1) by (simp add: schedules_ahead_def)
  with baseline_ge [of cs "cron_key env spec"] d(2) cronJitter_bounds [of "env_id env" "cron_name spec"]
  show "cronEpoch cs < due" "map_of (cronLast cs) (cron_key env spec) = Some t \<Longrightarrow> t < due" "due \<le> now"
    by (force, force, linarith)
qed

text \<open>The firing state only moves forward, and only to slots of this leader's term that have passed.\<close>

definition slot_ahead :: "time \<Rightarrow> time \<Rightarrow> time option \<Rightarrow> time option \<Rightarrow> bool" where
  "slot_ahead epoch now x y =
     (y = x \<or> (\<exists>due. y = Some due \<and> epoch < due \<and> due \<le> now \<and> (\<forall>t. x = Some t \<longrightarrow> t < due)))"

definition slots_ahead :: "time \<Rightarrow> CronState \<Rightarrow> CronState \<Rightarrow> bool" where
  "slots_ahead now cs cs' =
     (cronEpoch cs' = cronEpoch cs
      \<and> (\<forall>k. slot_ahead (cronEpoch cs) now (map_of (cronLast cs) k) (map_of (cronLast cs') k)))"

lemma slot_ahead_trans: "slot_ahead e now x y \<Longrightarrow> slot_ahead e now y z \<Longrightarrow> slot_ahead e now x z"
  by (auto simp: slot_ahead_def intro: order.strict_trans)

lemma slots_ahead_trans: "slots_ahead now a b \<Longrightarrow> slots_ahead now b c \<Longrightarrow> slots_ahead now a c"
  by (auto simp: slots_ahead_def intro: slot_ahead_trans)

lemma maybeFireCron_slots:
  assumes "schedules_ahead parse"
  shows "slots_ahead (clock_now ctl) cs (fst (snd (maybeFireCron parse ctl env spec (cs, w))))"
  using dueSlot_ahead [OF assms, of env spec "clock_now ctl" cs]
  by (simp add: maybeFireCron_def slots_ahead_def slot_ahead_def split_def split: option.split)

lemma fire_all_slots:
  assumes "schedules_ahead parse"
  shows "slots_ahead (clock_now ctl) cs (fst (snd (fire_all parse ctl xs (cs, w))))"
proof (induction xs arbitrary: cs w)
  case (Cons x xs)
  obtain e c v where m: "maybeFireCron parse ctl (fst x) (snd x) (cs, w) = (e, c, v)" by (metis surj_pair)
  with maybeFireCron_slots [OF assms, of ctl cs "fst x" "snd x" w] have "slots_ahead (clock_now ctl) cs c" by simp
  with m Cons.IH [of c v] show ?case by (auto split: option.split intro: slots_ahead_trans)
qed (simp add: slots_ahead_def slot_ahead_def)


definition hourly :: cron_parser where
  "hourly s = (if s = ''@hourly'' then Some (\<lambda>t. (t div Hour + 1) * Hour) else None)"

definition sample_cron_env :: Environment where
  "sample_cron_env = zero_env\<lparr>env_meta := meta_of ''e'', env_active_release_id := ''r'',
     env_service := zero_spec\<lparr>svc_cron := [\<lparr>cron_name = ''nightly'', cron_schedule = ''@hourly'', cron_command = ''run'',
        cron_concurrency = CONCURRENCY_POLICY_FORBID, cron_max_retries = 2\<rparr>]\<rparr>\<rparr>"

definition sample_cron :: World where
  "sample_cron = \<lparr>w_state = run_log [entry 1 ''r1'' (Command_PutEnvironment sample_cron_env)] New,
     w_index = 1, w_ids = 0, w_proposals = 0\<rparr>"

definition sample_cron_ctl :: Control where
  "sample_cron_ctl = (sample_control (\<lambda>_. Committed))\<lparr>clock_now := Hour + Minute\<rparr>"


text \<open>A schedule that no instant satisfies (30 February): the library documents that \<^verbatim>\<open>Next\<close> is then
  the zero time, which lies before every term. The first pass of a term fires it, because nothing
  was fired for it yet and the zero time is not in the future.\<close>

definition zero_time :: time where
  "zero_time = - 62135596800 * Second"

definition never :: cron_parser where
  "never s = Some (\<lambda>_. zero_time)"

lemma unsatisfiable_schedule_fires:
  "map job_cron_name (ListJobs '''' '''' (w_state (snd (snd (reconcileCron never sample_cron_ctl None sample_cron))))) = [''nightly'']"
  by code_simp

text \<open>Forbidden overlap: under the forbid policy, the default, a schedule whose previous run is still
  active enqueues nothing, whatever the outcomes of proposals: firing it leaves the world as it was.\<close>

theorem fireCron_forbid:
  assumes "cron_concurrency spec \<in> {CONCURRENCY_POLICY_FORBID, CONCURRENCY_POLICY_UNSPECIFIED}"
    and "store_inv (w_state w)" and "Job (job_id j) (w_state w) = Some j"
    and "job_environment_id j = env_id env" and "job_project_id j = env_project_id env"
    and "job_cron_name j = cron_name spec" and "\<not> jobTerminal (job_status j)"
  shows "fireCron ctl env spec w = (None, w)"
proof -
  have "j \<in> set (ListJobs (env_project_id env) (env_id env) (w_state w))"
    using job_rc.in_list_iff [OF store_keyed(11) [OF assms(2)], of j "(env_project_id env, env_id env)"] assms(3-5) by simp
  with assms(6,7) have "activeCronJobs (w_state w) env (cron_name spec) \<noteq> []"
    by (auto simp: activeCronJobs_def filter_empty_conv)
  with assms(1) show ?thesis by (auto simp: fireCron_def ret_def Let_def)
qed

theorem fireCron_forbid_witness:
  "fireCron sample_cron_ctl (zero_env\<lparr>env_meta := meta_of ''e'', env_active_release_id := ''r''\<rparr>)
     \<lparr>cron_name = '''', cron_schedule = ''@hourly'', cron_command = '''', cron_concurrency = CONCURRENCY_POLICY_FORBID, cron_max_retries = 0\<rparr>
     sample_job_world = (None, sample_job_world)"
proof -
  have j: "Job (job_id sample_job) (w_state sample_job_world) = Some sample_job"
    using sample_job_eval by (simp add: sample_job_def meta_of_def)
  show ?thesis
    by (rule fireCron_forbid [OF _ sample_job_inv j]) (simp_all add: sample_job_def zero_job_def zero_env_def meta_of_def jobTerminal_def)
qed

end
