(* ===== verification/Networks.thy ===== *)
theory Networks
  imports Scheduler
begin

text \<open>
  Address allocation by the leader: bridge subnets per project, environment and node
  (\<^verbatim>\<open>scheduler/networks.go\<close>, \<^verbatim>\<open>agent/networks.go\<close>) and service addresses per
  environment (\<^verbatim>\<open>scheduler/vips.go\<close>). The code ranges over Go maps, whose order is not
  specified: the loops take the iteration order as a function from a map to the list they visit.
\<close>

subsection \<open>Subnets\<close>

definition subnetOctet0 :: nat where "subnetOctet0 = 10"
definition subnetOctet1 :: nat where "subnetOctet1 = 201"
definition subnetSlots :: nat where "subnetSlots = 256"

text \<open>\<^verbatim>\<open>net.ParseCIDR\<close> on dotted IPv4 notation: the four octets of the network address, with
  the host bits cleared. The allocator only writes this notation.\<close>

definition decimal :: "string \<Rightarrow> nat option" where
  "decimal s = map_option nat (atoi_digits s)"

definition octet :: "string \<Rightarrow> nat option" where
  "octet s = (if length s > 1 \<and> hd s = CHR ''0'' then None
              else case decimal s of None \<Rightarrow> None | Some n \<Rightarrow> if n \<le> 255 then Some n else None)"

definition masked :: "nat \<Rightarrow> nat \<Rightarrow> nat \<Rightarrow> nat" where
  "masked n k x = (let b = min 8 (n - 8 * k) in x - x mod 2 ^ (8 - b))"

definition ParseCIDR :: "string \<Rightarrow> (nat \<times> nat \<times> nat \<times> nat) option" where
  "ParseCIDR s =
     (case Cut (CHR ''/'') s of (addr, bits, found) \<Rightarrow>
        if \<not> found then None
        else case (map octet (Split (CHR ''.'') addr), decimal bits) of
          ([Some a, Some b, Some c, Some d], Some n) \<Rightarrow>
            if n \<le> 32 then Some (masked n 0 a, masked n 1 b, masked n 2 c, masked n 3 d) else None
        | _ \<Rightarrow> None)"

definition subnetIndex :: "string \<Rightarrow> nat option" where
  "subnetIndex cidr =
     (case ParseCIDR cidr of
        None \<Rightarrow> None
      | Some (a, b, c, d) \<Rightarrow> if a \<noteq> subnetOctet0 \<or> b \<noteq> subnetOctet1 then None else Some c)"

definition subnet_string :: "nat \<Rightarrow> string" where
  "subnet_string x = Itoa subnetOctet0 @ ''.'' @ Itoa subnetOctet1 @ ''.'' @ Itoa x @ ''.0/24''"

definition NextFreeSubnet :: "string list \<Rightarrow> string option" where
  "NextFreeSubnet used =
     (let taken = fold (\<lambda>c t. case subnetIndex c of None \<Rightarrow> t | Some x \<Rightarrow> t[x := True]) used
                    (replicate subnetSlots False)
      in map_option subnet_string (find (\<lambda>x. \<not> taken ! x) [0..<subnetSlots]))"

definition GatewayIP :: "string \<Rightarrow> string option" where
  "GatewayIP cidr =
     (case ParseCIDR cidr of
        None \<Rightarrow> None
      | Some (a, b, c, d) \<Rightarrow> Some (Itoa a @ ''.'' @ Itoa b @ ''.'' @ Itoa c @ ''.1''))"

record netTuple =
  nt_project :: string
  nt_env :: string
  nt_node :: string

definition netTuple_key :: "netTuple \<Rightarrow> string" where
  "netTuple_key t = nt_project t @ ''/'' @ nt_env t @ ''/'' @ nt_node t"

definition setAllocation :: "Control \<Rightarrow> netTuple \<Rightarrow> string \<Rightarrow> action" where
  "setAllocation ctl t subnet =
     s_apply ctl (Command_PutNetworkAllocation (nt_project t) (nt_env t) (nt_node t) subnet)"

definition asg_tuple :: "Assignment \<Rightarrow> netTuple" where
  "asg_tuple a = \<lparr>nt_project = asg_project_id a, nt_env = asg_environment_id a, nt_node = asg_node_id a\<rparr>"

definition alloc_tuple :: "NetworkAllocation \<Rightarrow> netTuple" where
  "alloc_tuple na = \<lparr>nt_project = na_project_id na, nt_env = na_environment_id na, nt_node = na_node_id na\<rparr>"

definition neededNetworks :: "Store \<Rightarrow> (string, netTuple) gomap" where
  "neededNetworks st =
     fold (\<lambda>a m. if asg_desired a \<noteq> ASSIGNMENT_DESIRED_RUN \<or> asg_node_id a = '''' then m
                 else mput (netTuple_key (asg_tuple a)) (asg_tuple a) m) (ListAssignments '''' st) []"

fun allocateNetworks :: "Control \<Rightarrow> string list \<Rightarrow> (string \<times> netTuple) list \<Rightarrow> string list \<Rightarrow> action" where
  "allocateNetworks ctl have [] used = ret"
| "allocateNetworks ctl have ((key, t) # ts) used =
     (if key \<in> set have then allocateNetworks ctl have ts used
      else case NextFreeSubnet used of
        None \<Rightarrow> allocateNetworks ctl have ts used
      | Some subnet \<Rightarrow>
          and_then (setAllocation ctl t subnet) (allocateNetworks ctl have ts (used @ [subnet])))"

text \<open>The loop that frees stale allocations also collects the keys and subnets still in use; these do
  not depend on the outcome of the frees.\<close>

definition reconcileNetworks ::
  "((string, netTuple) gomap \<Rightarrow> (string \<times> netTuple) list) \<Rightarrow> Control \<Rightarrow> action" where
  "reconcileNetworks ord ctl w =
     (let needed = neededNetworks (w_state w);
          allocs = ListNetworkAllocations (w_state w);
          kept = filter (\<lambda>na. mhas needed (netTuple_key (alloc_tuple na))) allocs;
          have' = map (\<lambda>na. netTuple_key (alloc_tuple na)) kept;
          used = filter (\<lambda>c. c \<noteq> '''') (map na_subnet_cidr kept)
      in and_then
           (in_turn (\<lambda>na. setAllocation ctl (alloc_tuple na) '''')
              (filter (\<lambda>na. \<not> mhas needed (netTuple_key (alloc_tuple na))) allocs))
           (allocateNetworks ctl have' (ord needed) used) w)"

subsection \<open>Service addresses\<close>

definition vipOctet0 :: nat where "vipOctet0 = 10"
definition vipOctet1 :: nat where "vipOctet1 = 97"

definition vip_string :: "nat \<Rightarrow> nat \<Rightarrow> string" where
  "vip_string a b = Itoa vipOctet0 @ ''.'' @ Itoa vipOctet1 @ ''.'' @ Itoa a @ ''.'' @ Itoa b"

fun first_some :: "('x \<Rightarrow> 'y option) \<Rightarrow> 'x list \<Rightarrow> 'y option" where
  "first_some f [] = None"
| "first_some f (x # xs) = (case f x of None \<Rightarrow> first_some f xs | Some y \<Rightarrow> Some y)"

definition nextFreeVIP :: "(string, bool) gomap \<Rightarrow> string option" where
  "nextFreeVIP used =
     first_some (\<lambda>a. first_some (\<lambda>b. let ip = vip_string a b in if \<not> mget False used ip then Some ip else None)
                       [2..<255]) [0..<256]"

definition setVIP :: "Control \<Rightarrow> string \<Rightarrow> string \<Rightarrow> action" where
  "setVIP ctl envID vip = s_apply ctl (Command_PutServiceVip envID vip)"

definition neededVIPs :: "Store \<Rightarrow> (string, bool) gomap" where
  "neededVIPs st =
     fold (\<lambda>env m. if svc_ports (env_service env) \<noteq> [] then mput (env_id env) True m else m)
       (ListEnvironments '''' '''' st) []"

fun allocateVIPs :: "Control \<Rightarrow> (string, string) gomap \<Rightarrow> (string \<times> bool) list \<Rightarrow> (string, bool) gomap \<Rightarrow> action" where
  "allocateVIPs ctl current [] used = ret"
| "allocateVIPs ctl current ((envID, _) # es) used =
     (if mhas current envID then allocateVIPs ctl current es used
      else case nextFreeVIP used of
        None \<Rightarrow> allocateVIPs ctl current es used
      | Some vip \<Rightarrow> and_then (setVIP ctl envID vip) (allocateVIPs ctl current es (mput vip True used)))"

definition reconcileVIPs ::
  "((string, string) gomap \<Rightarrow> (string \<times> string) list) \<Rightarrow> ((string, bool) gomap \<Rightarrow> (string \<times> bool) list)
   \<Rightarrow> Control \<Rightarrow> action" where
  "reconcileVIPs ord_vips ord_envs ctl w =
     (let needed = neededVIPs (w_state w);
          current = ListServiceVIPs (w_state w);
          kept = filter (\<lambda>(e, _). mget False needed e) (ord_vips current);
          used = fold (\<lambda>(_, vip). mput vip True) kept []
      in and_then
           (in_turn (\<lambda>(e, _). setVIP ctl e '''') (filter (\<lambda>(e, _). \<not> mget False needed e) (ord_vips current)))
           (allocateVIPs ctl current (ord_envs needed) used) w)"

end
