(* ===== verification/NetworkProps.thy ===== *)
theory NetworkProps
  imports JobProps Networks
begin

text \<open>
  Address allocation: what the free-address searches return, and that neither allocator ever gives one
  address to two users that need one, whatever becomes of its proposals. Both allocators are instances
  of one pool discipline, the locale \<open>pool\<close>.
\<close>

subsection \<open>Searching for a free address\<close>

lemma first_some_Some: "first_some f xs = Some y \<Longrightarrow> \<exists>x \<in> set xs. f x = Some y"
  by (induction xs) (auto split: option.splits)

lemma first_some_None: "first_some f xs = None \<longleftrightarrow> (\<forall>x \<in> set xs. f x = None)"
  by (induction xs) (auto split: option.splits)

lemma first_free:
  "first_some (\<lambda>a. first_some (\<lambda>b. let ip = g a b in if \<not> P ip then Some ip else None) bs) as = Some x \<Longrightarrow>
     \<not> P x \<and> (\<exists>a \<in> set as. \<exists>b \<in> set bs. x = g a b)"
  "first_some (\<lambda>a. first_some (\<lambda>b. let ip = g a b in if \<not> P ip then Some ip else None) bs) as = None \<Longrightarrow>
     \<forall>a \<in> set as. \<forall>b \<in> set bs. P (g a b)"
  by (auto simp: Let_def first_some_None dest!: first_some_Some split: if_splits) blast

lemma nextFreeVIP_Some: "nextFreeVIP used = Some ip \<Longrightarrow> \<not> mget False used ip"
  unfolding nextFreeVIP_def by (drule first_free(1)) (erule conjunct1)

lemma update_True: "x < length t \<Longrightarrow> t[k := True] ! x \<longleftrightarrow> k = x \<or> t ! x"
  by (cases "k = x") auto

lemma taken_fold:
  assumes "length t = subnetSlots"
  shows "length (fold (\<lambda>c t. case subnetIndex c of None \<Rightarrow> t | Some x \<Rightarrow> t[x := True]) used t) = subnetSlots"
    and "x < subnetSlots \<Longrightarrow>
      fold (\<lambda>c t. case subnetIndex c of None \<Rightarrow> t | Some x \<Rightarrow> t[x := True]) used t ! x \<longleftrightarrow>
        t ! x \<or> (\<exists>c \<in> set used. subnetIndex c = Some x)"
  using assms
  by (induction used arbitrary: t) (auto simp: update_True split: option.split)

lemma NextFreeSubnet_cases:
  obtains (free) x where "NextFreeSubnet used = Some (subnet_string x)" "x < subnetSlots"
      "\<And>c. c \<in> set used \<Longrightarrow> subnetIndex c \<noteq> Some x" "\<And>y. y < x \<Longrightarrow> \<exists>c \<in> set used. subnetIndex c = Some y"
  | (exhausted) "NextFreeSubnet used = None" "\<And>y. y < subnetSlots \<Longrightarrow> \<exists>c \<in> set used. subnetIndex c = Some y"
proof -
  let ?t = "fold (\<lambda>c t. case subnetIndex c of None \<Rightarrow> t | Some x \<Rightarrow> t[x := True]) used (replicate subnetSlots False)"
  have t: "?t ! x \<longleftrightarrow> (\<exists>c \<in> set used. subnetIndex c = Some x)" if "x < subnetSlots" for x
    using taken_fold(2) [of "replicate subnetSlots False" x used] that by simp
  show ?thesis
  proof (cases "find (\<lambda>x. \<not> ?t ! x) [0..<subnetSlots]")
    case None
    then show ?thesis using t by (intro exhausted) (auto simp: NextFreeSubnet_def Let_def find_None_iff)
  next
    case (Some x)
    then obtain i where i: "i < subnetSlots" "\<not> ?t ! i" "x = i" "\<And>j. j < i \<Longrightarrow> ?t ! j"
      by (auto simp: find_Some_iff)
    then show ?thesis using t Some by (intro free [of i]) (auto simp: NextFreeSubnet_def Let_def)
  qed
qed

lemma Itoa_no_leading_zero: "length (Itoa n) > 1 \<Longrightarrow> hd (Itoa n) \<noteq> CHR ''0''"
proof -
  have digit: "char_of (48 + d) \<noteq> CHR ''0''" if d: "0 < d" "d < 10" for d :: nat
  proof
    assume "char_of (48 + d) = CHR ''0''"
    then have "(of_char (char_of (48 + d) :: char) :: nat) = of_char (CHR ''0'')" by (rule arg_cong)
    with of_char_digit [OF d(2)] have "48 + d = (of_char (CHR ''0'') :: nat)" by (simp only:)
    with d(1) show False by simp
  qed
  have "n > 0 \<Longrightarrow> hd (Itoa n) \<noteq> CHR ''0''"
  proof (induction n rule: Itoa.induct)
    case (1 n)
    then show ?case using digit [of n] by (subst Itoa.simps) (auto simp: hd_append)
  qed
  moreover have "length (Itoa 0) = 1" by (subst Itoa.simps) simp
  ultimately show "length (Itoa n) > 1 \<Longrightarrow> ?thesis" by (cases "n = 0") auto
qed

lemma octet_Itoa: "n \<le> 255 \<Longrightarrow> octet (Itoa n) = Some n"
  using Itoa_no_leading_zero [of n] by (simp add: octet_def decimal_def atoi_digits_Itoa)

lemma not_digits: "\<not> is_digit (CHR ''.'')" "\<not> is_digit (CHR ''/'')"
  by (simp_all add: is_digit_def)

lemma ParseCIDR_dotted:
  assumes "a \<le> 255" "b \<le> 255" "c \<le> 255" "d \<le> 255" "n \<le> 32"
  shows "ParseCIDR (Itoa a @ ''.'' @ Itoa b @ ''.'' @ Itoa c @ ''.'' @ Itoa d @ ''/'' @ Itoa n) =
    Some (masked n 0 a, masked n 1 b, masked n 2 c, masked n 3 d)"
proof -
  have "Cut (CHR ''/'') ((Itoa a @ ''.'' @ Itoa b @ ''.'' @ Itoa c @ ''.'' @ Itoa d) @ CHR ''/'' # Itoa n) =
      (Itoa a @ ''.'' @ Itoa b @ ''.'' @ Itoa c @ ''.'' @ Itoa d, Itoa n, True)"
    by (rule Cut_append) (simp add: non_digit_notin_Itoa not_digits)
  moreover have "Split (CHR ''.'') (Itoa a @ ''.'' @ Itoa b @ ''.'' @ Itoa c @ ''.'' @ Itoa d) = [Itoa a, Itoa b, Itoa c, Itoa d]"
    by (simp add: Split_append Split_no_sep non_digit_notin_Itoa not_digits)
  ultimately show ?thesis
    using assms by (simp add: ParseCIDR_def octet_Itoa decimal_def atoi_digits_Itoa)
qed

lemma subnetIndex_string: "x < subnetSlots \<Longrightarrow> subnetIndex (subnet_string x) = Some x"
proof -
  assume x: "x < subnetSlots"
  have "Itoa 0 = ''0''" "Itoa 24 = ''24''" by code_simp+
  then have "subnet_string x = Itoa 10 @ ''.'' @ Itoa 201 @ ''.'' @ Itoa x @ ''.'' @ Itoa 0 @ ''/'' @ Itoa 24"
    by (simp add: subnet_string_def subnetOctet0_def subnetOctet1_def)
  then show ?thesis
    using ParseCIDR_dotted [of 10 201 x 0 24] x
    by (simp add: subnetIndex_def subnetSlots_def subnetOctet0_def subnetOctet1_def masked_def Let_def)
qed

text \<open>
  Subnets: the search for a subnet returns the lowest \<^verbatim>\<open>10.201.X.0/24\<close> whose index no subnet in
  use has, so never one in use, and fails only when all 256 indexes are taken; the index of a subnet is
  read back from its text.\<close>

theorem NextFreeSubnet_lowest:
  "case NextFreeSubnet used of
     None \<Rightarrow> {..<256} \<subseteq> {x. \<exists>c \<in> set used. subnetIndex c = Some x}
   | Some cidr \<Rightarrow> cidr \<notin> set used \<and> (\<exists>x < 256. subnetIndex cidr = Some x \<and> cidr = subnet_string x
        \<and> {..<x} \<subseteq> {y. \<exists>c \<in> set used. subnetIndex c = Some y})"
proof (cases rule: NextFreeSubnet_cases [of used])
  case (free x)
  then show ?thesis using subnetIndex_string [OF free(2)] by (auto simp: subnetSlots_def)
next
  case exhausted
  then show ?thesis by (auto simp: subnetSlots_def)
qed

subsection \<open>Pools\<close>

definition unshared :: "string set \<Rightarrow> (string \<Rightarrow> string option) \<Rightarrow> bool" where
  "unshared N h = (\<forall>k l a. k \<in> N \<and> l \<in> N \<and> h k = Some a \<and> h l = Some a \<longrightarrow> k = l)"

lemma unshared_cong: "(\<And>k. k \<in> N \<Longrightarrow> g k = h k) \<Longrightarrow> unshared N g = unshared N h"
  by (auto simp: unshared_def)

text \<open>
  An allocator of addresses: \<open>holds\<close> is who has which address in the store, \<open>assign\<close> the command that
  gives an address to a claimant, \<open>next_free\<close> the search against the addresses in use, and \<open>loop\<close> the
  allocation loop of the code.
\<close>

locale pool =
  fixes holds :: "Store \<Rightarrow> string \<Rightarrow> string option"
    and owner :: "'k \<Rightarrow> string"
    and assign :: "Control \<Rightarrow> 'k \<Rightarrow> string \<Rightarrow> action"
    and next_free :: "'u \<Rightarrow> string option"
    and members :: "'u \<Rightarrow> string set"
    and add :: "string \<Rightarrow> 'u \<Rightarrow> 'u"
    and skips :: "'c \<Rightarrow> 'k \<Rightarrow> bool"
    and loop :: "Control \<Rightarrow> 'c \<Rightarrow> 'k list \<Rightarrow> 'u \<Rightarrow> action"
  assumes next_fresh: "next_free u = Some a \<Longrightarrow> a \<notin> members u"
    and add_members: "members (add a u) = insert a (members u)"
    and assign_effect: "holds (after (assign ctl k a) w) = holds (w_state w)
      \<or> holds (after (assign ctl k a) w) = (holds (w_state w))(owner k := (if a = '''' then None else Some a))"
    and loop_Nil: "loop ctl c [] u = ret"
    and loop_Cons: "loop ctl c (k # ks) u =
      (if skips c k then loop ctl c ks u
       else case next_free u of
         None \<Rightarrow> loop ctl c ks u
       | Some a \<Rightarrow> and_then (assign ctl k a) (loop ctl c ks (add a u)))"
begin

definition covers :: "string set \<Rightarrow> Store \<Rightarrow> 'u \<Rightarrow> bool" where
  "covers N s u = (\<forall>k a. k \<in> N \<and> holds s k = Some a \<longrightarrow> a \<in> members u)"

lemma assign_unshared:
  assumes "covers N (w_state w) u" and "unshared N (holds (w_state w))" and "next_free u = Some a"
  shows "covers N (after (assign ctl k a) w) (add a u) \<and> unshared N (holds (after (assign ctl k a) w))"
  using assign_effect [of ctl k a w] assms next_fresh [OF assms(3)]
  unfolding covers_def unshared_def add_members by (auto split: if_splits)

lemma loop_unshared:
  assumes "covers N (w_state w) u" and "unshared N (holds (w_state w))"
  shows "unshared N (holds (after (loop ctl c ks u) w))"
  using assms
proof (induction ks arbitrary: u w)
  case (Cons k ks)
  show ?case
  proof (cases "skips c k \<or> next_free u = None")
    case True
    then show ?thesis using Cons by (auto simp: loop_Cons)
  next
    case False
    then obtain a where a: "next_free u = Some a" "\<not> skips c k" by auto
    from assign_unshared [OF Cons.prems a(1)]
    have after: "covers N (after (assign ctl k a) w) (add a u)" "unshared N (holds (after (assign ctl k a) w))" by auto
    with Cons.IH [of "snd (assign ctl k a w)" "add a u"]
    have "unshared N (holds (after (loop ctl c ks (add a u)) (snd (assign ctl k a w))))" by (simp add: after_def)
    with after(2) after_and_then [of "assign ctl k a" "loop ctl c ks (add a u)" w] a show ?thesis
      by (auto simp: loop_Cons)
  qed
qed (simp add: loop_Nil)

lemma release_keeps:
  assumes "\<And>x. x \<in> set xs \<Longrightarrow> owner x \<notin> N" and "k \<in> N"
  shows "holds (after (in_turn (\<lambda>x. assign ctl x '''') xs) w) k = holds (w_state w) k"
  using assms(1)
proof (induction xs arbitrary: w)
  case (Cons x xs)
  have "holds (after (assign ctl x '''') w) k = holds (w_state w) k"
    using assign_effect [of ctl x "''''" w] Cons.prems [of x] assms(2) by auto
  with Cons.IH [of "snd (assign ctl x '''' w)"] Cons.prems
    after_and_then [of "assign ctl x ''''" "in_turn (\<lambda>x. assign ctl x '''') xs" w]
  show ?case by (auto simp: after_def)
qed simp

text \<open>Releasing what is not needed and then allocating.\<close>

lemma pass_unshared:
  assumes "\<And>x. x \<in> set xs \<Longrightarrow> owner x \<notin> N" and "covers N (w_state w) u" and "unshared N (holds (w_state w))"
  shows "unshared N (holds (after (and_then (in_turn (\<lambda>x. assign ctl x '''') xs) (loop ctl c ks u)) w))"
proof -
  let ?f = "in_turn (\<lambda>x. assign ctl x '''') xs"
  have keep: "holds (after ?f w) k = holds (w_state w) k" if "k \<in> N" for k
    using release_keeps [OF assms(1) that] .
  then have "unshared N (holds (after ?f w))" "covers N (w_state (snd (?f w))) u"
    using assms(2,3) unshared_cong [of N "holds (after ?f w)" "holds (w_state w)"]
    by (auto simp: covers_def after_def)
  with loop_unshared [of N "snd (?f w)" u ctl c ks] after_and_then [of ?f "loop ctl c ks u" w] show ?thesis
    by (auto simp: after_def)
qed

end

subsection \<open>The service address pool\<close>

lemma propose_PutServiceVip:
  "serviceVIPs (w_state (snd (propose ctl a (Command_PutServiceVip e v) w))) = serviceVIPs (w_state w)
   \<or> serviceVIPs (w_state (snd (propose ctl a (Command_PutServiceVip e v) w))) =
       (if v = '''' then mdel e (serviceVIPs (w_state w)) else mput e v (serviceVIPs (w_state w)))"
  by (rule propose_rel) (simp_all add: SetServiceVIP_def touch_def)

definition vip_of :: "Store \<Rightarrow> string \<Rightarrow> string option" where
  "vip_of s e = ServiceVIP e s"

interpretation vips: pool vip_of fst "\<lambda>ctl k. setVIP ctl (fst k)" nextFreeVIP "\<lambda>u. {ip. mget False u ip}"
  "\<lambda>ip. mput ip True" "\<lambda>c k. mhas c (fst k)" allocateVIPs
proof
  show "vip_of (after (setVIP ctl (fst k) a) w) = vip_of (w_state w)
      \<or> vip_of (after (setVIP ctl (fst k) a) w) = (vip_of (w_state w))(fst k := (if a = '''' then None else Some a))"
    for ctl and k :: "string \<times> bool" and a w
    using propose_PutServiceVip [of ctl "''system:scheduler''" "fst k" a w]
    by (auto simp: vip_of_def ServiceVIP_def setVIP_def s_apply_def after_def fun_eq_iff)
  show "allocateVIPs ctl c (k # ks) u =
      (if mhas c (fst k) then allocateVIPs ctl c ks u
       else case nextFreeVIP u of
         None \<Rightarrow> allocateVIPs ctl c ks u
       | Some a \<Rightarrow> and_then (setVIP ctl (fst k) a) (allocateVIPs ctl c ks (mput a True u)))" for ctl c k ks u
    by (cases k) (simp split: option.split)
qed (auto dest: nextFreeVIP_Some)

subsection \<open>The subnet pool\<close>

lemma propose_PutNetworkAllocation:
  "networkAllocs (w_state (snd (propose ctl a (Command_PutNetworkAllocation p e n c) w))) = networkAllocs (w_state w)
   \<or> networkAllocs (w_state (snd (propose ctl a (Command_PutNetworkAllocation p e n c) w))) =
       (if c = '''' then mdel (networkAllocKey p e n) (networkAllocs (w_state w))
        else mput (networkAllocKey p e n)
               \<lparr>na_project_id = p, na_environment_id = e, na_node_id = n, na_subnet_cidr = c\<rparr> (networkAllocs (w_state w)))"
  by (rule propose_rel) (simp_all add: SetNetworkAllocation_def touch_def Let_def)

definition subnet_of :: "Store \<Rightarrow> string \<Rightarrow> string option" where
  "subnet_of s k =
     (case map_of (networkAllocs s) k of
        None \<Rightarrow> None
      | Some na \<Rightarrow> if na_subnet_cidr na = '''' then None else Some (na_subnet_cidr na))"

lemma NextFreeSubnet_fresh: "NextFreeSubnet used = Some c \<Longrightarrow> c \<notin> set used"
  using subnetIndex_string by (cases rule: NextFreeSubnet_cases [of used]) fastforce+

interpretation subnets: pool subnet_of "\<lambda>k. netTuple_key (snd k)" "\<lambda>ctl k. setAllocation ctl (snd k)"
  NextFreeSubnet set "\<lambda>c u. u @ [c]" "\<lambda>h k. fst k \<in> set h" allocateNetworks
proof
  show "subnet_of (after (setAllocation ctl (snd k) a) w) = subnet_of (w_state w)
      \<or> subnet_of (after (setAllocation ctl (snd k) a) w) =
          (subnet_of (w_state w))(netTuple_key (snd k) := (if a = '''' then None else Some a))"
    for ctl and k :: "string \<times> netTuple" and a w
    using propose_PutNetworkAllocation [of ctl "''system:scheduler''" "nt_project (snd k)" "nt_env (snd k)" "nt_node (snd k)" a w]
    by (auto simp: subnet_of_def setAllocation_def s_apply_def after_def fun_eq_iff netTuple_key_def networkAllocKey_def)
  show "allocateNetworks ctl c (k # ks) u =
      (if fst k \<in> set c then allocateNetworks ctl c ks u
       else case NextFreeSubnet u of
         None \<Rightarrow> allocateNetworks ctl c ks u
       | Some a \<Rightarrow> and_then (setAllocation ctl (snd k) a) (allocateNetworks ctl c ks (u @ [a])))" for ctl c k ks u
    by (cases k) (simp split: option.split)
qed (auto dest: NextFreeSubnet_fresh)

subsection \<open>A pass of each allocator\<close>

definition exposes :: "Store \<Rightarrow> string \<Rightarrow> bool" where
  "exposes s e = (case Environment e s of None \<Rightarrow> False | Some env \<Rightarrow> svc_ports (env_service env) \<noteq> [])"

lemma neededVIPs_iff:
  assumes "store_inv s"
  shows "mget False (neededVIPs s) e \<longleftrightarrow> exposes s e"
proof -
  have fold: "mget False (fold (\<lambda>env m. if svc_ports (env_service env) \<noteq> [] then mput (env_id env) True m else m) envs m) e \<longleftrightarrow>
      mget False m e \<or> (\<exists>env \<in> set envs. env_id env = e \<and> svc_ports (env_service env) \<noteq> [])" for envs m
    by (induction envs arbitrary: m) auto
  have "env \<in> set (ListEnvironments '''' '''' s) \<longleftrightarrow> Environment (env_id env) s = Some env" for env
    using env_rc.in_list_iff [OF store_keyed(6) [OF assms], of env "('''', '''')"] by simp
  moreover have "Environment e s = Some env \<Longrightarrow> env_id env = e" for env
    using keyedD [OF store_keyed(6) [OF assms]] by (auto simp: Environment_def)
  ultimately have "(\<exists>env \<in> set (ListEnvironments '''' '''' s). env_id env = e \<and> svc_ports (env_service env) \<noteq> []) \<longleftrightarrow>
      (\<exists>env. Environment e s = Some env \<and> svc_ports (env_service env) \<noteq> [])" by metis
  then show ?thesis unfolding neededVIPs_def fold exposes_def by (cases "Environment e s") simp_all
qed

lemma fold_used: "mget False (fold (\<lambda>(_, vip). mput vip True) xs m) ip \<longleftrightarrow> mget False m ip \<or> ip \<in> snd ` set xs"
  by (induction xs arbitrary: m) auto


definition runs_on :: "Store \<Rightarrow> string \<Rightarrow> bool" where
  "runs_on s k = (\<exists>a. Assignment (asg_id a) s = Some a \<and> asg_desired a = ASSIGNMENT_DESIRED_RUN \<and> asg_node_id a \<noteq> ''''
     \<and> k = asg_project_id a @ ''/'' @ asg_environment_id a @ ''/'' @ asg_node_id a)"

lemma neededNetworks_iff:
  assumes "store_inv s"
  shows "mhas (neededNetworks s) k \<longleftrightarrow> runs_on s k"
proof -
  have fold: "mhas (fold (\<lambda>a m. if asg_desired a \<noteq> ASSIGNMENT_DESIRED_RUN \<or> asg_node_id a = '''' then m
                 else mput (netTuple_key (asg_tuple a)) (asg_tuple a) m) as m) k \<longleftrightarrow>
      mhas m k \<or> (\<exists>a \<in> set as. asg_desired a = ASSIGNMENT_DESIRED_RUN \<and> asg_node_id a \<noteq> '''' \<and> k = netTuple_key (asg_tuple a))" for as m
    by (induction as arbitrary: m) auto
  show ?thesis unfolding neededNetworks_def fold
    using ListAssignments_iff [OF assms] by (auto simp: runs_on_def netTuple_key_def asg_tuple_def Assignment_def)
qed


subsection \<open>Examples\<close>

definition sample_port_env :: "string \<Rightarrow> Environment" where
  "sample_port_env i = zero_env\<lparr>env_meta := meta_of i,
     env_service := zero_spec\<lparr>svc_ports := [\<lparr>port_name = ''http'', container_port = 80, port_protocol = PROTOCOL_HTTP, public_l4_port = 0\<rparr>]\<rparr>\<rparr>"

definition sample_vip_world :: World where
  "sample_vip_world =
     \<lparr>w_state = run_log
        [entry 1 ''r1'' (Command_PutEnvironment (sample_port_env ''a'')), entry 2 ''r2'' (Command_PutEnvironment (sample_port_env ''b'')),
         entry 3 ''r3'' (Command_PutServiceVip ''gone'' ''10.97.0.2'')] New,
      w_index = 3, w_ids = 0, w_proposals = 0\<rparr>"

lemma sample_vip_inv: "store_inv (w_state sample_vip_world)"
  by (simp add: sample_vip_world_def reachable_inv del: run_log.simps)



text \<open>The bound of the theorem on environments that expose a port matters: when the command that frees a
  stale address fails without being applied, the pass goes on and gives the address away, although the
  stale environment still has it. If that environment exposes a port again before the next pass, the
  two share the address for good.\<close>

definition lost_free :: World where
  "lost_free = snd (reconcileVIPs id id (sample_control (\<lambda>n. if n = 0 then ProposalFailed False else Committed)) sample_vip_world)"

lemma lost_free_shares_vip:
  "vip_of (w_state lost_free) ''gone'' = Some ''10.97.0.2'' \<and> vip_of (w_state lost_free) ''a'' = Some ''10.97.0.2''"
  by code_simp

end
