(* ===== verification/SchedulerPass.thy ===== *)
theory SchedulerPass
  imports Networks Jobs
begin

text \<open>
  One pass of the scheduler, \<^verbatim>\<open>Scheduler.evaluate\<close>: volumes, replicas, leases, orphans, subnets,
  service addresses, cron, jobs and drains, in this order, stopping at the first loss of leadership.
  The firing state of the cron schedules lives in the scheduler and is \<^const>\<open>None\<close> until the
  first pass of a term resets it.
\<close>

record MapOrders =
  order_networks :: "(string, netTuple) gomap \<Rightarrow> (string \<times> netTuple) list"
  order_vips :: "(string, string) gomap \<Rightarrow> (string \<times> string) list"
  order_envs :: "(string, bool) gomap \<Rightarrow> (string \<times> bool) list"

definition evaluateEnvs :: "Control \<Rightarrow> action" where
  "evaluateEnvs ctl w = in_turn (evaluateEnv ctl) (ListEnvironments '''' '''' (w_state w)) w"

definition evaluate ::
  "MapOrders \<Rightarrow> cron_parser \<Rightarrow> Control \<Rightarrow> CronState option \<Rightarrow> World
   \<Rightarrow> apply_error option \<times> CronState option \<times> World" where
  "evaluate ord parse ctl cs w =
     (if \<not> is_leader ctl then (Some ErrNotLeader, cs, w)
      else case and_then (ensureVolumes ctl)
                  (and_then (evaluateEnvs ctl)
                    (and_then (reconcileLeases ctl)
                      (and_then (reconcileOrphans ctl)
                        (and_then (reconcileNetworks (order_networks ord) ctl)
                          (reconcileVIPs (order_vips ord) (order_envs ord) ctl))))) w of
        (Some e, w1) \<Rightarrow> (Some e, cs, w1)
      | (None, w1) \<Rightarrow>
          (case reconcileCron parse ctl cs w1 of
             (Some e, cs2, w2) \<Rightarrow> (Some e, Some cs2, w2)
           | (None, cs2, w2) \<Rightarrow>
               (case and_then (reconcileJobs ctl) (reconcileDrains ctl) w2 of (e, w3) \<Rightarrow> (e, Some cs2, w3))))"

end
