(* ===== verification/Registry.thy ===== *)
theory Registry
  imports GoStrings Proto
begin

text \<open>
  The embedded image registry: the content-addressed blob store
  (\<^verbatim>\<open>internal/daemon/registry/blobstore.go\<close>), manifests and tags (\<^verbatim>\<open>manifests.go\<close>) and the
  reference-counted garbage collection over them (\<^verbatim>\<open>gc.go\<close>). A bbolt bucket is a map read in key
  order, a blob is filed under its lower-case hex digest as under its path. Disk and transaction
  failures and bbolt's limit on the length of keys are left out; SHA-256 and the JSON decoding of a
  manifest or an image config are parameters.
\<close>

subsection \<open>Digests and blobs\<close>

datatype reg_error =
    ErrBlobUnknown | ErrDigestInvalid | ErrManifestUnknown | ErrManifestInvalid
  | ErrManifestBlobUnkn string | ErrManifestChildUnkn string | NoChildForPlatform string

record ociPlatform =
  op_Architecture :: string
  op_OS :: string
  op_Variant :: string

record ociDescriptor =
  od_MediaType :: string
  od_Digest :: string
  od_Platform :: "ociPlatform option"

record parsedManifest =
  pm_MediaType :: string
  pm_Config :: ociDescriptor
  pm_Layers :: "ociDescriptor list"
  pm_Manifests :: "ociDescriptor list"

record childDesc =
  cd_Digest :: string
  cd_MediaType :: string
  cd_OS :: string
  cd_Arch :: string
  cd_Variant :: string

record manMeta =
  mm_MediaType :: string
  mm_Index :: bool
  mm_Edges :: "string list"
  mm_Children :: "childDesc list"

record Registry =
  bktTags :: "(string, string) gomap"
  bktRepoMan :: "(string, string) gomap"
  bktManMeta :: "(string, manMeta) gomap"
  bktRefs :: "(string, uint64) gomap"
  reg_blobs :: "(string, bytes) gomap"

definition MediaTypeOCIManifest :: string where
  "MediaTypeOCIManifest = ''application/vnd.oci.image.manifest.v1+json''"

definition MediaTypeOCIIndex :: string where
  "MediaTypeOCIIndex = ''application/vnd.oci.image.index.v1+json''"

definition MediaTypeDockerList :: string where
  "MediaTypeDockerList = ''application/vnd.docker.distribution.manifest.list.v2+json''"

definition isIndexMediaType :: "string \<Rightarrow> bool" where
  "isIndexMediaType mt = (mt = MediaTypeOCIIndex \<or> mt = MediaTypeDockerList)"

definition is_hex :: "char \<Rightarrow> bool" where
  "is_hex c = (let n = of_char c :: nat in 48 \<le> n \<and> n \<le> 57 \<or> 97 \<le> n \<and> n \<le> 102 \<or> 65 \<le> n \<and> n \<le> 70)"

definition parseDigest :: "string \<Rightarrow> string option" where
  "parseDigest dgst =
     (case Cut (CHR '':'') dgst of (algo, h, ok) \<Rightarrow>
        if \<not> ok \<or> algo \<noteq> ''sha256'' \<or> length h \<noteq> 64 then None
        else if \<not> list_all is_hex h then None
        else Some (ToLower h))"

definition blob_Has :: "Registry \<Rightarrow> string \<Rightarrow> bool" where
  "blob_Has r dgst = (case parseDigest dgst of None \<Rightarrow> False | Some h \<Rightarrow> mhas (reg_blobs r) h)"

definition blob_Stat :: "Registry \<Rightarrow> string \<Rightarrow> reg_error + nat" where
  "blob_Stat r dgst =
     (case parseDigest dgst of
        None \<Rightarrow> Inl ErrDigestInvalid
      | Some h \<Rightarrow> (case map_of (reg_blobs r) h of None \<Rightarrow> Inl ErrBlobUnknown | Some b \<Rightarrow> Inr (length b)))"

definition blob_Open :: "Registry \<Rightarrow> string \<Rightarrow> reg_error + bytes" where
  "blob_Open r dgst =
     (case parseDigest dgst of
        None \<Rightarrow> Inl ErrDigestInvalid
      | Some h \<Rightarrow> (case map_of (reg_blobs r) h of None \<Rightarrow> Inl ErrBlobUnknown | Some b \<Rightarrow> Inr b))"

definition blob_commit :: "string \<Rightarrow> bytes \<Rightarrow> Registry \<Rightarrow> Registry" where
  "blob_commit h body r = (if mhas (reg_blobs r) h then r else r\<lparr>reg_blobs := mput h body (reg_blobs r)\<rparr>)"

definition blob_Write :: "(bytes \<Rightarrow> string) \<Rightarrow> bytes \<Rightarrow> Registry \<Rightarrow> Registry" where
  "blob_Write sha body r = blob_commit (sha body) body r"

definition blob_Delete :: "string \<Rightarrow> Registry \<Rightarrow> Registry" where
  "blob_Delete dgst r =
     (case parseDigest dgst of None \<Rightarrow> r | Some h \<Rightarrow> r\<lparr>reg_blobs := mdel h (reg_blobs r)\<rparr>)"

subsection \<open>Keys and cursors\<close>

definition nul :: string where "nul = [CHR 0x00]"

text \<open>\<^verbatim>\<open>c.Seek(prefix)\<close> and the loop while the key has the prefix; \<open>bucket_keys\<close> is a full walk.\<close>

definition bucket_keys :: "(string, 'v) gomap \<Rightarrow> string list" where
  "bucket_keys b = sort (map fst b)"

definition seek :: "string \<Rightarrow> (string, 'v) gomap \<Rightarrow> string list" where
  "seek prefix b = takeWhile (\<lambda>k. HasPrefix k prefix) (dropWhile (\<lambda>k. k < prefix) (bucket_keys b))"

subsection \<open>Reference counts\<close>

definition refGet :: "Registry \<Rightarrow> string \<Rightarrow> uint64" where
  "refGet tx digest = (case map_of (bktRefs tx) digest of None \<Rightarrow> 0 | Some n \<Rightarrow> n)"

definition refPut :: "string \<Rightarrow> uint64 \<Rightarrow> Registry \<Rightarrow> Registry" where
  "refPut digest n tx = tx\<lparr>bktRefs := mput digest n (bktRefs tx)\<rparr>"

definition refInc :: "string \<Rightarrow> Registry \<Rightarrow> Registry" where
  "refInc digest tx = refPut digest (refGet tx digest + 1) tx"

definition loadMeta :: "Registry \<Rightarrow> string \<Rightarrow> manMeta option" where
  "loadMeta tx digest = map_of (bktManMeta tx) digest"

definition removeRepoListings :: "string \<Rightarrow> Registry \<Rightarrow> Registry" where
  "removeRepoListings digest tx =
     tx\<lparr>bktRepoMan := fold mdel (filter (\<lambda>k. HasSuffix k (nul @ digest)) (bucket_keys (bktRepoMan tx)))
                         (bktRepoMan tx)\<rparr>"

text \<open>\<^verbatim>\<open>refDec\<close> calls itself for the edges of a manifest it tears down and appends the digest to
  \<^verbatim>\<open>toDelete\<close> after them. The recursion runs over an explicit stack: \<open>Dec\<close> is a pending call,
  \<open>Emit\<close> the append after the loop; \<open>refDec_eq\<close> below gives back the recursive equation of the
  code. Every teardown removes a manifest, so it ends, also on a cyclic graph.\<close>

datatype gc_task = Dec string | Emit string

primrec task_weight :: "gc_task \<Rightarrow> nat" where
  "task_weight (Dec d) = 2"
| "task_weight (Emit d) = 1"

lemma length_mdel: "map_of m k = Some v \<Longrightarrow> length (mdel k m) < length m"
  unfolding mdel_def by (rule length_filter_less [of "(k, v)"]) (auto dest: map_of_SomeD)

function gc_run :: "gc_task list \<Rightarrow> Registry \<Rightarrow> string list \<Rightarrow> Registry \<times> string list" where
  "gc_run [] tx del = (tx, del)"
| "gc_run (Emit d # ts) tx del = gc_run ts tx (del @ [d])"
| "gc_run (Dec d # ts) tx del =
     (let c = refGet tx d
      in if c > 1 then gc_run ts (refPut d (c - 1) tx) del
         else let tx1 = tx\<lparr>bktRefs := mdel d (bktRefs tx)\<rparr>
              in case loadMeta tx1 d of
                   None \<Rightarrow> gc_run (Emit d # ts) tx1 del
                 | Some meta \<Rightarrow>
                     gc_run (map Dec (mm_Edges meta) @ Emit d # ts)
                       (removeRepoListings d (tx1\<lparr>bktManMeta := mdel d (bktManMeta tx1)\<rparr>)) del)"
  by pat_completeness auto
termination
  by (relation "measures [\<lambda>(ts, tx, del). length (bktManMeta tx), \<lambda>(ts, tx, del). sum_list (map task_weight ts)]")
    (auto simp: refPut_def removeRepoListings_def loadMeta_def length_mdel)

definition refDec :: "string \<Rightarrow> Registry \<times> string list \<Rightarrow> Registry \<times> string list" where
  "refDec digest = (\<lambda>(tx, toDelete). gc_run [Dec digest] tx toDelete)"

definition setTag :: "string \<Rightarrow> string \<Rightarrow> string \<Rightarrow> Registry \<times> string list \<Rightarrow> Registry \<times> string list" where
  "setTag repo tag digest = (\<lambda>(tx, toDelete).
     (let key = repo @ nul @ tag; old = map_of (bktTags tx) key
      in if old = Some digest then (tx, toDelete)
         else let oldStr = (case old of None \<Rightarrow> '''' | Some d \<Rightarrow> d);
                  tx1 = refInc digest (tx\<lparr>bktTags := mput key digest (bktTags tx)\<rparr>)
              in if oldStr \<noteq> '''' then refDec oldStr (tx1, toDelete) else (tx1, toDelete)))"

definition sweepBlobs :: "string list \<Rightarrow> Registry \<Rightarrow> Registry" where
  "sweepBlobs digests r = fold blob_Delete digests r"

subsection \<open>Manifests\<close>

definition child_of :: "ociDescriptor \<Rightarrow> childDesc" where
  "child_of c =
     (case od_Platform c of
        None \<Rightarrow> \<lparr>cd_Digest = od_Digest c, cd_MediaType = od_MediaType c, cd_OS = '''', cd_Arch = '''', cd_Variant = ''''\<rparr>
      | Some p \<Rightarrow> \<lparr>cd_Digest = od_Digest c, cd_MediaType = od_MediaType c, cd_OS = op_OS p,
                   cd_Arch = op_Architecture p, cd_Variant = op_Variant p\<rparr>)"

text \<open>The graph node of a manifest, with the checks on its descriptors; \<^const>\<open>None\<close> is
  \<^verbatim>\<open>ErrManifestInvalid\<close>.\<close>

definition manifest_meta :: "string \<Rightarrow> parsedManifest \<Rightarrow> manMeta option" where
  "manifest_meta contentType pm =
     (let mt0 = (if contentType = '''' then pm_MediaType pm else contentType);
          index = (isIndexMediaType mt0 \<or> (mt0 = '''' \<and> pm_Manifests pm \<noteq> []));
          mt = (if mt0 = '''' then (if index then MediaTypeOCIIndex else MediaTypeOCIManifest) else mt0)
      in if index
         then if pm_Manifests pm = [] \<or> list_ex (\<lambda>c. od_Digest c = '''') (pm_Manifests pm) then None
              else Some \<lparr>mm_MediaType = mt, mm_Index = True, mm_Edges = map od_Digest (pm_Manifests pm),
                         mm_Children = map child_of (pm_Manifests pm)\<rparr>
         else if od_Digest (pm_Config pm) = '''' \<or> list_ex (\<lambda>l. od_Digest l = '''') (pm_Layers pm) then None
              else Some \<lparr>mm_MediaType = mt, mm_Index = False,
                         mm_Edges = od_Digest (pm_Config pm) # map od_Digest (pm_Layers pm), mm_Children = []\<rparr>)"

definition validateChildren :: "Registry \<Rightarrow> string \<Rightarrow> string list \<Rightarrow> reg_error option" where
  "validateChildren r repo children =
     (case find (\<lambda>d. \<not> mhas (bktRepoMan r) (repo @ nul @ d)) children of
        None \<Rightarrow> None
      | Some d \<Rightarrow> Some (ErrManifestChildUnkn d))"

definition validate_edges :: "Registry \<Rightarrow> string \<Rightarrow> manMeta \<Rightarrow> reg_error option" where
  "validate_edges r repo meta =
     (if mm_Index meta then validateChildren r repo (mm_Edges meta)
      else map_option ErrManifestBlobUnkn (find (\<lambda>d. \<not> blob_Has r d) (mm_Edges meta)))"

text \<open>The transaction of \<^verbatim>\<open>PutManifest\<close>.\<close>

definition put_tx :: "string \<Rightarrow> string \<Rightarrow> string \<Rightarrow> manMeta \<Rightarrow> Registry \<Rightarrow> Registry \<times> string list" where
  "put_tx repo ref digest meta tx =
     (let tx1 = (if loadMeta tx digest = None
                 then fold refInc (mm_Edges meta) (tx\<lparr>bktManMeta := mput digest meta (bktManMeta tx)\<rparr>)
                 else tx);
          tx2 = tx1\<lparr>bktRepoMan := mput (repo @ nul @ digest) (mm_MediaType meta) (bktRepoMan tx1)\<rparr>
      in if parseDigest ref = None \<and> ref \<noteq> '''' then setTag repo ref digest (tx2, []) else (tx2, []))"

definition PutManifest ::
  "(bytes \<Rightarrow> string) \<Rightarrow> (bytes \<Rightarrow> parsedManifest option) \<Rightarrow>
   string \<Rightarrow> string \<Rightarrow> string \<Rightarrow> bytes \<Rightarrow> Registry \<Rightarrow> (reg_error + string) \<times> Registry" where
  "PutManifest sha parse repo ref contentType body r =
     (let digest = ''sha256:'' @ sha body
      in case parse body of
           None \<Rightarrow> (Inl ErrManifestInvalid, r)
         | Some pm \<Rightarrow>
             (case manifest_meta contentType pm of
                None \<Rightarrow> (Inl ErrManifestInvalid, r)
              | Some meta \<Rightarrow>
                  (case validate_edges r repo meta of
                     Some e \<Rightarrow> (Inl e, r)
                   | None \<Rightarrow>
                       (case put_tx repo ref digest meta (blob_Write sha body r) of
                          (tx, toDelete) \<Rightarrow> (Inr digest, sweepBlobs toDelete tx)))))"

definition resolveRef :: "Registry \<Rightarrow> string \<Rightarrow> string \<Rightarrow> string" where
  "resolveRef tx repo ref =
     (if parseDigest ref \<noteq> None then ref
      else case map_of (bktTags tx) (repo @ nul @ ref) of None \<Rightarrow> '''' | Some d \<Rightarrow> d)"

definition Resolve :: "Registry \<Rightarrow> string \<Rightarrow> string \<Rightarrow> reg_error + string" where
  "Resolve r repo ref =
     (let digest = resolveRef r repo ref
      in if digest = '''' \<or> \<not> mhas (bktRepoMan r) (repo @ nul @ digest) then Inl ErrManifestUnknown
         else Inr digest)"

definition GetManifest :: "Registry \<Rightarrow> string \<Rightarrow> string \<Rightarrow> reg_error + (bytes \<times> string \<times> string)" where
  "GetManifest r repo ref =
     (let digest = resolveRef r repo ref
      in if digest = '''' then Inl ErrManifestUnknown
         else case map_of (bktRepoMan r) (repo @ nul @ digest) of
                None \<Rightarrow> Inl ErrManifestUnknown
              | Some mt \<Rightarrow>
                  (case blob_Open r digest of
                     Inl _ \<Rightarrow> Inl ErrManifestUnknown
                   | Inr body \<Rightarrow> Inr (body, mt, digest)))"

definition platformMatches :: "string \<Rightarrow> childDesc \<Rightarrow> bool" where
  "platformMatches want c =
     (let parts = Split (CHR ''/'') want
      in if length parts < 2 then False
         else if cd_OS c \<noteq> parts ! 0 \<or> cd_Arch c \<noteq> parts ! 1 then False
         else if length parts \<ge> 3 \<and> cd_Variant c \<noteq> '''' \<and> cd_Variant c \<noteq> parts ! 2 then False
         else True)"

definition ResolveManifest :: "Registry \<Rightarrow> string \<Rightarrow> string \<Rightarrow> string \<Rightarrow> reg_error + (string \<times> string)" where
  "ResolveManifest r repo ref platform =
     (let d = resolveRef r repo ref
      in if d = '''' \<or> \<not> mhas (bktRepoMan r) (repo @ nul @ d) then Inl ErrManifestUnknown
         else case loadMeta r d of
                None \<Rightarrow> Inl ErrManifestUnknown
              | Some meta \<Rightarrow>
                  if \<not> mm_Index meta \<or> platform = '''' then Inr (d, mm_MediaType meta)
                  else (case find (platformMatches platform) (mm_Children meta) of
                          None \<Rightarrow> Inl (NoChildForPlatform platform)
                        | Some c \<Rightarrow> Inr (cd_Digest c, cd_MediaType c)))"

definition platform_string :: "string \<Rightarrow> string \<Rightarrow> string \<Rightarrow> string" where
  "platform_string os arch variant = os @ ''/'' @ arch @ (if variant \<noteq> '''' then ''/'' @ variant else '''')"

definition configPlatform :: "(bytes \<Rightarrow> ociPlatform option) \<Rightarrow> Registry \<Rightarrow> string \<Rightarrow> string option" where
  "configPlatform decode r digest =
     (case blob_Open r digest of
        Inl _ \<Rightarrow> None
      | Inr body \<Rightarrow>
          (case decode (take (2 ^ 20) body) of
             None \<Rightarrow> None
           | Some cfg \<Rightarrow>
               if op_OS cfg = '''' \<or> op_Architecture cfg = '''' then None
               else Some (platform_string (op_OS cfg) (op_Architecture cfg) (op_Variant cfg))))"

definition Platforms ::
  "(bytes \<Rightarrow> ociPlatform option) \<Rightarrow> Registry \<Rightarrow> string \<Rightarrow> string \<Rightarrow> reg_error + string list" where
  "Platforms decode r repo ref =
     (let d = resolveRef r repo ref
      in if d = '''' \<or> \<not> mhas (bktRepoMan r) (repo @ nul @ d) then Inl ErrManifestUnknown
         else case loadMeta r d of
                None \<Rightarrow> Inl ErrManifestUnknown
              | Some meta \<Rightarrow>
                  if mm_Index meta
                  then Inr (map (\<lambda>c. platform_string (cd_OS c) (cd_Arch c) (cd_Variant c))
                             (filter (\<lambda>c. \<not> (cd_OS c = '''' \<or> cd_Arch c = '''')) (mm_Children meta)))
                  else Inr (case mm_Edges meta of
                              [] \<Rightarrow> []
                            | cfg # _ \<Rightarrow> if cfg = '''' then []
                                        else (case configPlatform decode r cfg of None \<Rightarrow> [] | Some p \<Rightarrow> [p])))"

definition Tags :: "Registry \<Rightarrow> string \<Rightarrow> string list" where
  "Tags r repo = map (drop (length (repo @ nul))) (seek (repo @ nul) (bktTags r))"

subsection \<open>Untagging and deleting\<close>

definition untag_tx :: "string \<Rightarrow> string \<Rightarrow> Registry \<Rightarrow> Registry \<times> string list" where
  "untag_tx repo tag tx =
     (let key = repo @ nul @ tag
      in case map_of (bktTags tx) key of
           None \<Rightarrow> (tx, [])
         | Some old \<Rightarrow> refDec old (tx\<lparr>bktTags := mdel key (bktTags tx)\<rparr>, []))"

definition UntagAndSweep :: "string \<Rightarrow> string \<Rightarrow> Registry \<Rightarrow> Registry" where
  "UntagAndSweep repo tag r = (case untag_tx repo tag r of (tx, toDelete) \<Rightarrow> sweepBlobs toDelete tx)"

definition DeleteManifest :: "string \<Rightarrow> string \<Rightarrow> Registry \<Rightarrow> reg_error option \<times> Registry" where
  "DeleteManifest repo digest r =
     (if \<not> mhas (bktRepoMan r) (repo @ nul @ digest) then (Some ErrManifestUnknown, r)
      else let keys = filter (\<lambda>k. map_of (bktTags r) k = Some digest) (seek (repo @ nul) (bktTags r))
           in case fold (\<lambda>k (tx, del). refDec digest (tx\<lparr>bktTags := mdel k (bktTags tx)\<rparr>, del)) keys (r, []) of
                (tx, toDelete) \<Rightarrow> (None, sweepBlobs toDelete tx))"

end
