(* ===== verification/RegistryProps.thy ===== *)
theory RegistryProps
  imports Registry
begin

text \<open>
  Correctness of the registry's garbage collection: the graph_ok reference counts are the number of
  tags and manifest edges that point at a digest, whatever is pushed, tagged, untagged and deleted,
  and a blob is deleted exactly when it loses its last reference. The lemmas follow the explicit
  stack of \<open>gc_run\<close>, where a pending call is a reference already taken out of the graph.
\<close>

subsection \<open>The recursive equation\<close>

lemma gc_run_append: "gc_run (xs @ ys) tx del = (case gc_run xs tx del of (tx', del') \<Rightarrow> gc_run ys tx' del')"
proof (induction xs tx del rule: gc_run.induct)
  case (3 d ts tx del)
  let ?tx1 = "tx\<lparr>bktRefs := mdel d (bktRefs tx)\<rparr>"
  show ?case
  proof (cases "refGet tx d > 1")
    case True
    with 3(1) [OF refl] show ?thesis by simp
  next
    case False
    with 3(2,3) [OF refl False refl] show ?thesis
      by (cases "loadMeta ?tx1 d") simp_all
  qed
qed simp_all

lemma refDec_list: "gc_run (map Dec es) tx del = fold refDec es (tx, del)"
proof (induction es arbitrary: tx del)
  case (Cons e es)
  then show ?case
    using gc_run_append [of "[Dec e]" "map Dec es" tx del]
    by (cases "gc_run [Dec e] tx del") (simp add: refDec_def del: gc_run.simps(3))
qed simp

lemma refDec_eq:
  "refDec d (tx, del) =
     (if refGet tx d > 1 then (refPut d (refGet tx d - 1) tx, del)
      else let tx1 = tx\<lparr>bktRefs := mdel d (bktRefs tx)\<rparr>
           in case loadMeta tx1 d of
                None \<Rightarrow> (tx1, del @ [d])
              | Some meta \<Rightarrow>
                  (case fold refDec (mm_Edges meta)
                          (removeRepoListings d (tx1\<lparr>bktManMeta := mdel d (bktManMeta tx1)\<rparr>), del)
                   of (tx2, del2) \<Rightarrow> (tx2, del2 @ [d])))"
  unfolding refDec_def [of d] by (simp add: gc_run_append refDec_list Let_def split: option.split prod.split)

subsection \<open>Termination\<close>

text \<open>The recursion of \<^verbatim>\<open>refDec\<close> step by step on its stack of pending calls.\<close>

inductive gc_step :: "gc_task list \<times> Registry \<times> string list \<Rightarrow> gc_task list \<times> Registry \<times> string list \<Rightarrow> bool" where
  schedule: "gc_step (Emit d # ts, tx, del) (ts, tx, del @ [d])"
| shared: "refGet tx d > 1 \<Longrightarrow> gc_step (Dec d # ts, tx, del) (ts, refPut d (refGet tx d - 1) tx, del)"
| leaf: "\<not> refGet tx d > 1 \<Longrightarrow> tx1 = tx\<lparr>bktRefs := mdel d (bktRefs tx)\<rparr> \<Longrightarrow> loadMeta tx1 d = None \<Longrightarrow>
    gc_step (Dec d # ts, tx, del) (Emit d # ts, tx1, del)"
| manifest: "\<not> refGet tx d > 1 \<Longrightarrow> tx1 = tx\<lparr>bktRefs := mdel d (bktRefs tx)\<rparr> \<Longrightarrow> loadMeta tx1 d = Some meta \<Longrightarrow>
    gc_step (Dec d # ts, tx, del)
      (map Dec (mm_Edges meta) @ Emit d # ts, removeRepoListings d (tx1\<lparr>bktManMeta := mdel d (bktManMeta tx1)\<rparr>), del)"

inductive_cases gc_stepE: "gc_step (t # ts, tx, del) c"

lemma gc_step_measure:
  assumes "gc_step c c'"
  shows "(c', c) \<in> measures [\<lambda>(ts, tx, del). length (bktManMeta tx), \<lambda>(ts, tx, del). sum_list (map task_weight ts)]"
  using assms by cases (auto simp: refPut_def removeRepoListings_def loadMeta_def length_mdel)

lemma gc_run_steps: "gc_step\<^sup>*\<^sup>* (ts, tx, del) ([], gc_run ts tx del)"
proof (induction ts tx del rule: gc_run.induct)
  case (2 d ts tx del)
  from converse_rtranclp_into_rtranclp [of gc_step, OF schedule this] show ?case by simp
next
  case (3 d ts tx del)
  let ?tx1 = "tx\<lparr>bktRefs := mdel d (bktRefs tx)\<rparr>"
  show ?case
  proof (cases "refGet tx d > 1")
    case True
    from converse_rtranclp_into_rtranclp [of gc_step, OF shared [OF True] 3(1) [OF refl True]] True show ?thesis by simp
  next
    case False
    show ?thesis
    proof (cases "loadMeta ?tx1 d")
      case None
      from converse_rtranclp_into_rtranclp [of gc_step, OF leaf [OF False refl None] 3(2) [OF refl False refl None]] False None
      show ?thesis by (simp add: Let_def)
    next
      case (Some meta)
      from converse_rtranclp_into_rtranclp [of gc_step, OF manifest [OF False refl Some] 3(3) [OF refl False refl Some]] False Some
      show ?thesis by (simp add: Let_def)
    qed
  qed
qed simp

lemma gc_step_fun: "gc_step c c1 \<Longrightarrow> gc_step c c2 \<Longrightarrow> c1 = c2"
  by (induction rule: gc_step.induct) (auto elim: gc_stepE)

lemma gc_step_stuck: "(\<nexists>c'. gc_step (ts, tx, del) c') = (ts = [])"
proof (cases ts)
  case Nil
  then show ?thesis by (auto elim: gc_step.cases)
next
  case (Cons t ts')
  have "\<exists>c'. gc_step (t # ts', tx, del) c'"
  proof (cases t)
    case (Dec d)
    show ?thesis
    proof (cases "refGet tx d > 1")
      case True
      from shared [OF this] Dec show ?thesis by blast
    next
      case False
      show ?thesis
      proof (cases "loadMeta (tx\<lparr>bktRefs := mdel d (bktRefs tx)\<rparr>) d")
        case None
        from leaf [OF False refl this] Dec show ?thesis by blast
      next
        case (Some meta)
        from manifest [OF False refl this] Dec show ?thesis by blast
      qed
    qed
  qed (use schedule in blast)
  with Cons show ?thesis by simp
qed

lemma gc_step_confluent:
  assumes "gc_step\<^sup>*\<^sup>* c n" "\<nexists>c'. gc_step n c'" "gc_step\<^sup>*\<^sup>* c m" "\<nexists>c'. gc_step m c'"
  shows "m = n"
  using assms(1,3)
proof (induction rule: converse_rtranclp_induct)
  case base
  from base show ?case
  proof (cases rule: converse_rtranclpE)
    case (step y)
    with assms(2) show ?thesis by blast
  qed simp
next
  case (step y z)
  note IH = step.IH
  from step.prems show ?case
  proof (cases rule: converse_rtranclpE)
    case base
    with step.hyps(1) assms(4) show ?thesis by blast
  next
    case (step z')
    then have "z' = z" using gc_step_fun [OF \<open>gc_step y z\<close>] by simp
    with step(2) IH show ?thesis by simp
  qed
qed

text \<open>
  C39 (garbage collection terminates): On every registry, one with a cycle or a dangling edge in its graph of
  manifests included, no run of the recursion of a dropped reference is infinite, it never gets stuck with
  pending calls, and it ends in what \<^const>\<open>refDec\<close> returns.
\<close>

theorem refDec_terminates:
  "wfP (\<lambda>c' c. gc_step c c')
   \<and> (gc_step\<^sup>*\<^sup>* ([Dec digest], tx, del) c \<and> (\<nexists>c'. gc_step c c')) = (c = ([], refDec digest (tx, del)))"
proof
  let ?r = "measures [\<lambda>(ts, tx, del). length (bktManMeta tx), \<lambda>(ts, tx, del). sum_list (map task_weight ts)]"
  have "{(c', c). gc_step c c'} \<subseteq> ?r" using gc_step_measure by auto
  then show "wfP (\<lambda>c' c. gc_step c c')" unfolding wfp_def by (rule wf_subset [OF wf_measures])
  have run: "gc_step\<^sup>*\<^sup>* ([Dec digest], tx, del) ([], refDec digest (tx, del))"
    using gc_run_steps [of "[Dec digest]" tx del] by (simp only: refDec_def prod.case)
  have stuck: "\<nexists>c'. gc_step ([], refDec digest (tx, del)) c'" by (metis gc_step_stuck surj_pair)
  show "(gc_step\<^sup>*\<^sup>* ([Dec digest], tx, del) c \<and> (\<nexists>c'. gc_step c c')) = (c = ([], refDec digest (tx, del)))"
    using gc_step_confluent [OF run stuck] run stuck by blast
qed

subsection \<open>Sums over maps\<close>

definition msum :: "('v \<Rightarrow> nat) \<Rightarrow> ('k, 'v) gomap \<Rightarrow> nat" where
  "msum f m = sum_list (map (f \<circ> snd) m)"

lemma mdel_missing: "map_of m k = None \<Longrightarrow> mdel k m = m"
  by (induction m) (auto split: if_splits)

lemma msum_mdel: "mwf m \<Longrightarrow> map_of m k = Some v \<Longrightarrow> msum f m = f v + msum f (mdel k m)"
proof (induction m)
  case (Cons p m)
  show ?case
  proof (cases "fst p = k")
    case True
    with Cons.prems have "k \<notin> fst ` set m" "snd p = v" by (auto simp: mwf_def)
    then have "mdel k m = m" by (metis map_of_eq_None_iff mdel_missing)
    with True \<open>snd p = v\<close> show ?thesis by (simp add: msum_def)
  next
    case False
    with Cons show ?thesis by (simp add: msum_def mwf_def)
  qed
qed simp

lemma msum_mput: "mwf m \<Longrightarrow> msum f (mput k v m) = f v + msum f (mdel k m)"
proof (induction m)
  case (Cons p m)
  then show ?case
    by (auto simp: msum_def mwf_def map_of_eq_None_iff mdel_missing)
qed (simp add: msum_def)

lemma msum_mono: "(\<And>v. f v \<le> g v) \<Longrightarrow> msum f m \<le> msum g m"
  unfolding msum_def by (induction m) (auto intro: add_mono)

lemma msum_zero: "mwf m \<Longrightarrow> map_of m k = Some v \<Longrightarrow> msum f m = 0 \<Longrightarrow> f v = 0"
  using msum_mdel by fastforce

subsection \<open>References\<close>

definition indeg :: "Registry \<Rightarrow> string \<Rightarrow> nat" where
  "indeg r d = msum (\<lambda>x. of_bool (x = d)) (bktTags r) + msum (\<lambda>m. count_list (mm_Edges m) d) (bktManMeta r)"

definition total_refs :: "Registry \<Rightarrow> nat" where
  "total_refs r = msum (\<lambda>_. 1) (bktTags r) + msum (\<lambda>m. length (mm_Edges m)) (bktManMeta r)"

lemma indeg_le_total: "indeg r d \<le> total_refs r"
  unfolding indeg_def total_refs_def by (intro add_mono msum_mono) (auto simp: count_le_length)

lemma indeg_edge: "mwf (bktManMeta r) \<Longrightarrow> map_of (bktManMeta r) m = Some meta \<Longrightarrow> e \<in> set (mm_Edges meta) \<Longrightarrow> 0 < indeg r e"
  using msum_zero [of "bktManMeta r" m meta "\<lambda>m. count_list (mm_Edges m) e"]
  by (auto simp: indeg_def count_list_0_iff)

lemma indeg_tag: "mwf (bktTags r) \<Longrightarrow> map_of (bktTags r) k = Some d \<Longrightarrow> 0 < indeg r d"
  using msum_zero [of "bktTags r" k d "\<lambda>x. of_bool (x = d)"] by (auto simp: indeg_def)

text \<open>Every listed manifest is stored; the counts are those of the graph plus the pending calls.\<close>

definition listed :: "Registry \<Rightarrow> bool" where
  "listed r = (\<forall>k \<in> fst ` set (bktRepoMan r). \<exists>repo d. k = repo @ nul @ d \<and> map_of (bktManMeta r) d \<noteq> None)"

definition counting :: "gc_task list \<Rightarrow> Registry \<Rightarrow> bool" where
  "counting ts r = (mwf (bktTags r) \<and> mwf (bktManMeta r) \<and> listed r
     \<and> (\<forall>d. unat (refGet r d) = indeg r d + count_list ts (Dec d))
     \<and> (\<forall>d. Emit d \<in> set ts \<longrightarrow> refGet r d = 0 \<and> map_of (bktManMeta r) d = None))"

lemma refGet_simps [simp]:
  "refGet (refPut d n tx) e = (if e = d then n else refGet tx e)"
  "refGet (tx\<lparr>bktRefs := mdel d (bktRefs tx)\<rparr>) e = (if e = d then 0 else refGet tx e)"
  "refGet (removeRepoListings d tx) e = refGet tx e"
  "refGet (tx\<lparr>bktManMeta := mm\<rparr>) e = refGet tx e"
  "refGet (tx\<lparr>bktTags := ts\<rparr>) e = refGet tx e"
  "refGet (tx\<lparr>bktRepoMan := rm\<rparr>) e = refGet tx e"
  "refGet (tx\<lparr>reg_blobs := b\<rparr>) e = refGet tx e"
  by (simp_all add: refGet_def refPut_def removeRepoListings_def)

lemma indeg_simps [simp]:
  "indeg (refPut d n tx) e = indeg tx e"
  "indeg (tx\<lparr>bktRefs := rs\<rparr>) e = indeg tx e"
  "indeg (removeRepoListings d tx) e = indeg tx e"
  "indeg (tx\<lparr>bktRepoMan := rm\<rparr>) e = indeg tx e"
  "indeg (tx\<lparr>reg_blobs := b\<rparr>) e = indeg tx e"
  by (simp_all add: indeg_def refPut_def removeRepoListings_def)

lemma reg_fields [simp]:
  "bktTags (refPut d n tx) = bktTags tx" "bktManMeta (refPut d n tx) = bktManMeta tx"
  "reg_blobs (refPut d n tx) = reg_blobs tx" "bktRepoMan (refPut d n tx) = bktRepoMan tx"
  "bktTags (removeRepoListings d tx) = bktTags tx" "bktManMeta (removeRepoListings d tx) = bktManMeta tx"
  "reg_blobs (removeRepoListings d tx) = reg_blobs tx"
  by (simp_all add: refPut_def removeRepoListings_def)

lemma blob_Has_cong: "reg_blobs tx = reg_blobs ty \<Longrightarrow> blob_Has tx d = blob_Has ty d"
  by (simp add: blob_Has_def split: option.split)

lemma blob_Has_fields [simp]:
  "blob_Has (tx\<lparr>bktTags := ts\<rparr>) d = blob_Has tx d" "blob_Has (tx\<lparr>bktManMeta := mm\<rparr>) d = blob_Has tx d"
  "blob_Has (tx\<lparr>bktRepoMan := rm\<rparr>) d = blob_Has tx d" "blob_Has (refPut e n tx) d = blob_Has tx d"
  by (rule blob_Has_cong, simp)+

lemma HasSuffix_append [simp]: "HasSuffix (xs @ ys) ys"
  by (simp add: HasSuffix_def HasPrefix_def)

lemma fold_mdel_keys: "fst ` set (fold mdel ks m) = fst ` set m - set ks"
  by (induction ks arbitrary: m) (auto simp: mdel_def)

lemma map_of_removeRepoListings:
  "map_of (bktRepoMan (removeRepoListings d tx)) k = (if HasSuffix k (nul @ d) then None else map_of (bktRepoMan tx) k)"
proof -
  have "map_of (fold mdel ks m) k = (if k \<in> set ks then None else map_of m k)" for ks and m :: "(string, string) gomap"
    by (induction ks arbitrary: m) auto
  then show ?thesis by (auto simp: removeRepoListings_def bucket_keys_def map_of_eq_None_iff)
qed

lemma listed_remove:
  assumes "listed tx"
  shows "listed (removeRepoListings d (tx\<lparr>bktManMeta := mdel d (bktManMeta tx)\<rparr>))"
  unfolding listed_def
proof (intro ballI)
  fix k assume "k \<in> fst ` set (bktRepoMan (removeRepoListings d (tx\<lparr>bktManMeta := mdel d (bktManMeta tx)\<rparr>)))"
  then have k: "k \<in> fst ` set (bktRepoMan tx)" "\<not> HasSuffix k (nul @ d)"
    by (auto simp: removeRepoListings_def fold_mdel_keys bucket_keys_def)
  with assms obtain repo e where e: "k = repo @ nul @ e" "map_of (bktManMeta tx) e \<noteq> None"
    unfolding listed_def by blast
  with k(2) have "e \<noteq> d" using HasSuffix_append by blast
  with e show "\<exists>repo e. k = repo @ nul @ e
      \<and> map_of (bktManMeta (removeRepoListings d (tx\<lparr>bktManMeta := mdel d (bktManMeta tx)\<rparr>))) e \<noteq> None" by auto
qed

lemma count_map_Dec: "count_list (map Dec es) (Dec d) = count_list es d" "count_list (map Dec es) (Emit d) = 0"
  by (induction es) auto

text \<open>One step of the stack keeps the counts.\<close>

lemma word_dec:
  fixes x :: uint64
  assumes "1 < x"
  shows "unat (x - 1) = unat x - 1 \<and> x - 1 \<le> x \<and> 0 < unat x"
proof -
  from assms have "x \<noteq> 0" by auto
  then have "unat (x - 1) = unat x - 1" by (rule unat_minus_one)
  with \<open>x \<noteq> 0\<close> show ?thesis by (simp add: word_le_nat_alt unat_gt_0)
qed

lemma counting_keep:
  assumes "counting (Dec d # ts) tx" and "refGet tx d > 1"
  shows "counting ts (refPut d (refGet tx d - 1) tx)"
proof -
  from word_dec [OF assms(2)] assms show ?thesis by (auto simp: counting_def listed_def)
qed

lemma counting_last:
  assumes "counting (Dec d # ts) tx" and "\<not> refGet tx d > 1"
  shows "refGet tx d = 1" "indeg tx d = 0" "count_list ts (Dec d) = 0"
proof -
  from assms(1) have u: "unat (refGet tx d) = indeg tx d + count_list ts (Dec d) + 1" by (simp add: counting_def)
  from assms(2) have "unat (refGet tx d) \<le> 1" by (metis not_le_imp_less unat_1 word_less_nat_alt)
  with u have "unat (refGet tx d) = 1" by simp
  then show "refGet tx d = 1" by (simp add: word_unat_eq_iff)
  with u show "indeg tx d = 0" "count_list ts (Dec d) = 0" by simp_all
qed

lemma counting_blob:
  assumes "counting (Dec d # ts) tx" and "\<not> refGet tx d > 1" and "map_of (bktManMeta tx) d = None"
  shows "counting (Emit d # ts) (tx\<lparr>bktRefs := mdel d (bktRefs tx)\<rparr>)"
  using counting_last [OF assms(1,2)] assms(1,3) by (auto simp: counting_def listed_def)

lemma counting_manifest:
  assumes "counting (Dec d # ts) tx" and "\<not> refGet tx d > 1" and "map_of (bktManMeta tx) d = Some meta"
  shows "counting (map Dec (mm_Edges meta) @ Emit d # ts)
     (removeRepoListings d (tx\<lparr>bktRefs := mdel d (bktRefs tx), bktManMeta := mdel d (bktManMeta tx)\<rparr>))"
proof -
  note last = counting_last [OF assms(1,2)]
  let ?t = "tx\<lparr>bktRefs := mdel d (bktRefs tx), bktManMeta := mdel d (bktManMeta tx)\<rparr>"
  have mm: "mwf (bktManMeta tx)" and l: "listed (tx\<lparr>bktRefs := mdel d (bktRefs tx)\<rparr>)"
    using assms(1) by (auto simp: counting_def listed_def)
  have i: "indeg tx x = indeg ?t x + count_list (mm_Edges meta) x" for x
    using msum_mdel [OF mm assms(3), of "\<lambda>m. count_list (mm_Edges m) x"] by (simp add: indeg_def)
  have r: "refGet ?t x = (if x = d then 0 else refGet tx x)" for x
    by (simp add: refGet_def)
  have e: "unat (refGet tx x) = indeg tx x + count_list ts (Dec x)" if "x \<noteq> d" for x
    using assms(1) that by (simp add: counting_def)
  have "listed (removeRepoListings d ?t)" using listed_remove [OF l, of d] by simp
  moreover have "unat (refGet (removeRepoListings d ?t) x) =
      indeg (removeRepoListings d ?t) x + count_list (map Dec (mm_Edges meta) @ Emit d # ts) (Dec x)" for x
    using i [of x] e [of x] last by (cases "x = d") (simp_all add: r count_map_Dec)
  ultimately show ?thesis
    using assms(1) last by (auto simp: counting_def r)
qed


text \<open>What a run of the collector does: it touches neither tags nor blobs, and what it hands over for
  deletion are the digests whose count reaches zero, whose manifests it removes.\<close>

definition collects :: "Registry \<Rightarrow> Registry \<Rightarrow> string \<Rightarrow> bool" where
  "collects tx tx' d = (refGet tx d \<noteq> 0 \<and> refGet tx' d = 0)"

definition gc_effect :: "Registry \<Rightarrow> Registry \<Rightarrow> bool" where
  "gc_effect tx tx' =
     (bktTags tx' = bktTags tx \<and> reg_blobs tx' = reg_blobs tx
      \<and> (\<forall>d. refGet tx' d \<le> refGet tx d)
      \<and> (\<forall>k. (\<forall>d. collects tx tx' d \<longrightarrow> \<not> HasSuffix k (nul @ d)) \<longrightarrow> map_of (bktRepoMan tx') k = map_of (bktRepoMan tx) k)
      \<and> (\<forall>d. map_of (bktManMeta tx') d = (if collects tx tx' d then None else map_of (bktManMeta tx) d)))"

lemma gc_effect_step:
  assumes "gc_effect tx1 tx'" and "bktTags tx1 = bktTags tx" "reg_blobs tx1 = reg_blobs tx"
    and "\<And>d. refGet tx1 d \<le> refGet tx d"
    and "\<And>d. map_of (bktManMeta tx1) d = (if collects tx tx1 d then None else map_of (bktManMeta tx) d)"
    and "\<And>k. (\<forall>d. collects tx tx1 d \<longrightarrow> \<not> HasSuffix k (nul @ d)) \<Longrightarrow> map_of (bktRepoMan tx1) k = map_of (bktRepoMan tx) k"
  shows "gc_effect tx tx'" and "collects tx tx' d \<longleftrightarrow> collects tx tx1 d \<or> collects tx1 tx' d"
proof -
  have zero: "refGet tx1 d = 0 \<Longrightarrow> refGet tx' d = 0" "refGet tx d = 0 \<Longrightarrow> refGet tx1 d = 0" for d
    using assms(1) assms(4) [of d] by (auto simp: gc_effect_def dest: spec [of _ d])
  then show c: "collects tx tx' d \<longleftrightarrow> collects tx tx1 d \<or> collects tx1 tx' d" for d
    by (auto simp: collects_def)
  show "gc_effect tx tx'"
    using assms c unfolding gc_effect_def by (auto intro: order_trans)
qed

lemma gc_run_effect:
  assumes "counting ts tx" and "gc_run ts tx del = (tx', del')"
  shows "counting [] tx' \<and> gc_effect tx tx'
    \<and> (\<forall>d. d \<in> set del' \<longleftrightarrow> d \<in> set del \<or> Emit d \<in> set ts \<or> collects tx tx' d)"
  using assms
proof (induction ts tx del arbitrary: tx' del' rule: gc_run.induct)
  case (1 tx del)
  then show ?case by (auto simp: gc_effect_def collects_def)
next
  case (2 d ts tx del)
  from 2(2) have "counting ts tx" by (auto simp: counting_def)
  with 2(1,3) show ?case by fastforce
next
  case (3 d ts tx del)
  let ?tx1 = "tx\<lparr>bktRefs := mdel d (bktRefs tx)\<rparr>"
  let ?tx2 = "removeRepoListings d (?tx1\<lparr>bktManMeta := mdel d (bktManMeta ?tx1)\<rparr>)"
  show ?case
  proof (cases "refGet tx d > 1")
    case True
    let ?tx3 = "refPut d (refGet tx d - 1) tx"
    have nz: "refGet tx d - 1 \<noteq> 0" using True by auto
    have le: "refGet tx d - 1 \<le> refGet tx d" using word_dec [OF True] by simp
    from 3(1) [OF refl True counting_keep [OF 3(4) True]] 3(5) True
    have ih: "counting [] tx' \<and> gc_effect ?tx3 tx' \<and> (\<forall>e. e \<in> set del' \<longleftrightarrow> e \<in> set del \<or> Emit e \<in> set ts \<or> collects ?tx3 tx' e)"
      by simp
    moreover have "\<not> collects tx ?tx3 e" for e using nz by (simp add: collects_def)
    ultimately show ?thesis
      using gc_effect_step [of ?tx3 tx' tx] le by simp
  next
    case False
    note last = counting_last [OF 3(4) False]
    show ?thesis
    proof (cases "map_of (bktManMeta tx) d")
      case None
      have "collects tx ?tx1 e \<longleftrightarrow> e = d" for e using last by (auto simp: collects_def)
      moreover from 3(2) [OF refl False refl, unfolded loadMeta_def, simplified, OF None counting_blob [OF 3(4) False None]] 3(5) False None
      have "counting [] tx' \<and> gc_effect ?tx1 tx' \<and> (\<forall>e. e \<in> set del' \<longleftrightarrow> e \<in> set del \<or> Emit e \<in> set (Emit d # ts) \<or> collects ?tx1 tx' e)"
        by (simp add: loadMeta_def)
      ultimately show ?thesis
        using gc_effect_step [of ?tx1 tx' tx] None by auto
    next
      case (Some meta)
      have c: "counting (map Dec (mm_Edges meta) @ Emit d # ts) ?tx2"
        using counting_manifest [OF 3(4) False Some] by simp
      have "collects tx ?tx2 e \<longleftrightarrow> e = d" for e using last by (auto simp: collects_def)
      moreover from 3(3) [OF refl False refl, unfolded loadMeta_def, simplified, OF Some, of tx' del'] c 3(5) False Some
      have "counting [] tx' \<and> gc_effect ?tx2 tx' \<and> (\<forall>e. e \<in> set del' \<longleftrightarrow> e \<in> set del \<or> e = d \<or> Emit e \<in> set ts \<or> collects ?tx2 tx' e)"
        by (auto simp add: loadMeta_def)
      moreover from calculation have "gc_effect tx tx'" "collects tx tx' e \<longleftrightarrow> e = d \<or> collects ?tx2 tx' e" for e
        using gc_effect_step [of ?tx2 tx' tx] by (auto simp: map_of_removeRepoListings)
      ultimately show ?thesis by auto
    qed
  qed
qed

subsection \<open>The registry's invariant\<close>

text \<open>A digest in the spelling the registry itself gives digests, \<^verbatim>\<open>sha256:\<close> and lower-case hex.\<close>

definition canonical :: "string \<Rightarrow> bool" where
  "canonical d = (take 7 d = ''sha256:'' \<and> parseDigest d = Some (drop 7 d))"

definition graph_ok :: "Registry \<Rightarrow> bool" where
  "graph_ok r =
     ((\<forall>m meta. map_of (bktManMeta r) m = Some meta \<longrightarrow>
          canonical m \<and> blob_Has r m \<and> (\<forall>e \<in> set (mm_Edges meta). canonical e \<and> blob_Has r e))
     \<and> (\<forall>k d. map_of (bktTags r) k = Some d \<longrightarrow> map_of (bktManMeta r) d \<noteq> None))"

definition reg_inv :: "Registry \<Rightarrow> bool" where
  "reg_inv r = (counting [] r \<and> graph_ok r)"

lemma canonical_has: "canonical d \<Longrightarrow> blob_Has r d = mhas (reg_blobs r) (drop 7 d)"
  by (simp add: canonical_def blob_Has_def)

lemma canonical_inj: "canonical d \<Longrightarrow> canonical e \<Longrightarrow> drop 7 d = drop 7 e \<Longrightarrow> d = e"
  by (metis append_take_drop_id canonical_def)

lemma sweep_fields [simp]:
  "bktTags (sweepBlobs ds r) = bktTags r" "bktManMeta (sweepBlobs ds r) = bktManMeta r"
  "bktRepoMan (sweepBlobs ds r) = bktRepoMan r" "bktRefs (sweepBlobs ds r) = bktRefs r"
  unfolding sweepBlobs_def
  by (induction ds arbitrary: r) (simp_all add: blob_Delete_def split: option.split)

lemma sweep_counting [simp]: "counting ts (sweepBlobs ds r) = counting ts r"
  by (simp add: counting_def listed_def refGet_def indeg_def)

lemma sweep_has:
  "(\<forall>d \<in> set ds. canonical d) \<Longrightarrow> canonical e \<Longrightarrow> blob_Has (sweepBlobs ds r) e = (blob_Has r e \<and> e \<notin> set ds)"
  unfolding sweepBlobs_def
proof (induction ds arbitrary: r)
  case (Cons d ds)
  then have "blob_Has (blob_Delete d r) e = (blob_Has r e \<and> e \<noteq> d)"
    using canonical_inj [of d e] by (auto simp: canonical_has blob_Delete_def canonical_def)
  with Cons show ?case by auto
qed simp

text \<open>The state inside a transaction: the counts and the graph are in order, and what is handed over for
  deletion has no reference left. The sweep after it leaves every manifest with its blobs.\<close>

definition swept :: "string list \<Rightarrow> Registry \<Rightarrow> bool" where
  "swept del tx = (counting [] tx \<and> graph_ok tx
     \<and> (\<forall>d \<in> set del. canonical d \<and> refGet tx d = 0 \<and> map_of (bktManMeta tx) d = None))"

lemma referenced: "counting [] tx \<Longrightarrow> 0 < indeg tx e \<longleftrightarrow> refGet tx e \<noteq> 0"
proof -
  assume "counting [] tx"
  then have "unat (refGet tx e) = indeg tx e" by (simp add: counting_def)
  then show ?thesis by (metis unat_gt_0)
qed

lemma edge_alive:
  assumes "swept del tx" and "map_of (bktManMeta tx) m = Some meta" and "e \<in> set (mm_Edges meta)"
  shows "e \<notin> set del"
  using assms referenced [of tx e] indeg_edge [of tx m meta e] by (auto simp: swept_def counting_def)

lemma reg_inv_sweep:
  assumes "swept del tx"
  shows "reg_inv (sweepBlobs del tx)"
proof -
  have can: "\<forall>d \<in> set del. canonical d" using assms by (auto simp: swept_def)
  have st: "canonical m \<and> blob_Has tx m \<and> (\<forall>e \<in> set (mm_Edges meta). canonical e \<and> blob_Has tx e)" "m \<notin> set del"
    if "map_of (bktManMeta tx) m = Some meta" for m meta
    using assms that by (auto simp: swept_def graph_ok_def)
  have "blob_Has (sweepBlobs del tx) m \<and> (\<forall>e \<in> set (mm_Edges meta). blob_Has (sweepBlobs del tx) e)"
    if "map_of (bktManMeta tx) m = Some meta" for m meta
    using st [OF that] edge_alive [OF assms that] sweep_has [OF can, of _ tx] by blast
  with st assms have "graph_ok (sweepBlobs del tx)"
    unfolding graph_ok_def swept_def sweep_fields by blast
  with assms show ?thesis by (simp add: reg_inv_def swept_def)
qed

lemma counted_canonical:
  assumes "counting [] r" and "graph_ok r" and "refGet r d \<noteq> 0"
  shows "canonical d"
proof -
  from assms referenced have "indeg r d \<noteq> 0" by auto
  then consider "msum (\<lambda>x. of_bool (x = d)) (bktTags r) \<noteq> 0" | "msum (\<lambda>m. count_list (mm_Edges m) d) (bktManMeta r) \<noteq> 0"
    by (auto simp: indeg_def)
  then show ?thesis
  proof cases
    case 1
    then obtain k where "(k, d) \<in> set (bktTags r)" by (auto simp: msum_def split: if_splits)
    with assms(1) have "map_of (bktTags r) k = Some d" by (auto simp: counting_def mwf_def)
    with assms(2) show ?thesis unfolding graph_ok_def by blast
  next
    case 2
    then obtain m meta where m: "(m, meta) \<in> set (bktManMeta r)" "d \<in> set (mm_Edges meta)"
      by (auto simp: msum_def count_list_0_iff)
    with assms(1) have "map_of (bktManMeta r) m = Some meta" by (auto simp: counting_def mwf_def)
    with assms(2) m(2) show ?thesis by (auto simp: graph_ok_def)
  qed
qed

lemma gc_effect_graph:
  assumes "graph_ok tx" and "counting [] tx'" and "gc_effect tx tx'"
  shows "graph_ok tx'"
proof -
  from assms(3) have "reg_blobs tx' = reg_blobs tx" by (simp add: gc_effect_def)
  then have has: "blob_Has tx' d = blob_Has tx d" for d by (rule blob_Has_cong)
  have "\<not> collects tx tx' d" if "map_of (bktTags tx') k = Some d" for k d
    using referenced [OF assms(2), of d] indeg_tag [of tx' k d] assms(2) that by (auto simp: counting_def collects_def)
  with assms(1,3) show ?thesis unfolding graph_ok_def gc_effect_def has by (auto split: if_splits)
qed

text \<open>Dropping a reference that was taken out of the graph.\<close>

lemma refDec_swept:
  assumes "counting [Dec d] tx" and "graph_ok tx" and "\<forall>e \<in> set del. canonical e \<and> refGet tx e = 0 \<and> map_of (bktManMeta tx) e = None"
    and "\<And>e. refGet tx e \<noteq> 0 \<Longrightarrow> canonical e" and "refDec d (tx, del) = (tx', del')"
  shows "swept del' tx' \<and> gc_effect tx tx' \<and> (\<forall>e. e \<in> set del' \<longleftrightarrow> e \<in> set del \<or> collects tx tx' e)"
proof -
  from gc_run_effect [OF assms(1), of del tx' del'] assms(5)
  have e: "counting [] tx'" "gc_effect tx tx'" "\<And>e. e \<in> set del' \<longleftrightarrow> e \<in> set del \<or> collects tx tx' e"
    by (auto simp: refDec_def)
  have "canonical x \<and> refGet tx' x = 0 \<and> map_of (bktManMeta tx') x = None" if "x \<in> set del'" for x
  proof (cases "collects tx tx' x")
    case True
    with e(2) assms(4) show ?thesis by (auto simp: gc_effect_def collects_def)
  next
    case False
    with e(3) that assms(3) have x: "canonical x" "refGet tx x = 0" "map_of (bktManMeta tx) x = None" by auto
    moreover from e(2) have "refGet tx' x \<le> refGet tx x" by (simp add: gc_effect_def)
    ultimately show ?thesis using e(2) False by (simp add: gc_effect_def)
  qed
  with e assms(2) gc_effect_graph show ?thesis by (auto simp: swept_def)
qed


subsection \<open>Untagging\<close>

lemma counting_untag:
  assumes "counting [] tx" and "map_of (bktTags tx) k = Some d"
  shows "counting [Dec d] (tx\<lparr>bktTags := mdel k (bktTags tx)\<rparr>)"
proof -
  from assms(1) have t: "mwf (bktTags tx)" by (simp add: counting_def)
  have "indeg tx x = indeg (tx\<lparr>bktTags := mdel k (bktTags tx)\<rparr>) x + of_bool (d = x)" for x
    using msum_mdel [OF t assms(2), of "\<lambda>y. of_bool (y = x)"] by (simp add: indeg_def)
  with assms(1) t show ?thesis by (auto simp: counting_def listed_def)
qed

lemma graph_ok_untag: "graph_ok tx \<Longrightarrow> graph_ok (tx\<lparr>bktTags := mdel k (bktTags tx)\<rparr>)"
  by (auto simp: graph_ok_def split: if_splits)

text \<open>What losing references does to a state with the digests handed over for deletion so far.\<close>

definition untagged :: "string list \<Rightarrow> Registry \<Rightarrow> string list \<Rightarrow> Registry \<Rightarrow> bool" where
  "untagged del tx del' tx' =
     (swept del' tx' \<and> reg_blobs tx' = reg_blobs tx \<and> (\<forall>e. refGet tx' e \<le> refGet tx e)
      \<and> (\<forall>e. e \<in> set del' \<longleftrightarrow> e \<in> set del \<or> collects tx tx' e))"

lemma drop_tag:
  assumes "swept del tx" and "map_of (bktTags tx) k = Some d"
    and "refDec d (tx\<lparr>bktTags := mdel k (bktTags tx)\<rparr>, del) = (tx', del')"
  shows "untagged del tx del' tx'" and "bktTags tx' = mdel k (bktTags tx)"
proof -
  have c: "counting [] tx" "graph_ok tx" using assms(1) by (simp_all add: swept_def)
  have "swept del' tx' \<and> gc_effect (tx\<lparr>bktTags := mdel k (bktTags tx)\<rparr>) tx'
      \<and> (\<forall>e. e \<in> set del' \<longleftrightarrow> e \<in> set del \<or> collects (tx\<lparr>bktTags := mdel k (bktTags tx)\<rparr>) tx' e)"
    using assms(1) counted_canonical [OF c]
    by (intro refDec_swept [OF counting_untag [OF c(1) assms(2)] graph_ok_untag [OF c(2)] _ _ assms(3)]) (simp_all add: swept_def)
  then show "untagged del tx del' tx'" "bktTags tx' = mdel k (bktTags tx)"
    by (simp_all add: untagged_def gc_effect_def collects_def)
qed

lemma untagged_refl: "swept del tx \<Longrightarrow> untagged del tx del tx"
  by (auto simp: untagged_def collects_def)

lemma untagged_trans: "untagged del tx del1 tx1 \<Longrightarrow> untagged del1 tx1 del2 tx2 \<Longrightarrow> untagged del tx del2 tx2"
proof -
  assume a: "untagged del tx del1 tx1" "untagged del1 tx1 del2 tx2"
  have "refGet tx2 e = 0" if "refGet tx1 e = 0" for e
    using a(2) that by (auto simp: untagged_def dest: spec [of _ e])
  moreover have "refGet tx1 e = 0" if "refGet tx e = 0" for e
    using a(1) that by (auto simp: untagged_def dest: spec [of _ e])
  ultimately have "collects tx tx2 e \<longleftrightarrow> collects tx tx1 e \<or> collects tx1 tx2 e" for e
    by (auto simp: collects_def)
  with a show ?thesis unfolding untagged_def by (auto intro: order_trans)
qed

text \<open>The sweep that follows deletes exactly the blobs that lost their last reference.\<close>

definition reclaimed :: "Registry \<Rightarrow> Registry \<Rightarrow> bool" where
  "reclaimed r r' = (\<forall>d. canonical d \<longrightarrow>
     blob_Has r' d = (blob_Has r d \<and> \<not> (0 < indeg r d \<and> indeg r' d = 0)))"

lemma reclaimed_sweep:
  assumes "counting [] r" and "untagged [] r del tx"
  shows "reg_inv (sweepBlobs del tx) \<and> reclaimed r (sweepBlobs del tx)"
proof -
  from assms(2) have s: "swept del tx" and b: "reg_blobs tx = reg_blobs r" and e: "\<And>e. e \<in> set del \<longleftrightarrow> collects r tx e"
    by (auto simp: untagged_def)
  have c: "counting [] tx" "\<forall>d \<in> set del. canonical d" using s by (auto simp: swept_def)
  have i: "indeg (sweepBlobs del tx) d = indeg tx d" for d by (simp add: indeg_def)
  have "collects r tx d \<longleftrightarrow> 0 < indeg r d \<and> indeg tx d = 0" for d
    using referenced [OF assms(1), of d] referenced [OF c(1), of d] by (auto simp: collects_def)
  moreover have "blob_Has tx d = blob_Has r d" for d using b by (rule blob_Has_cong)
  ultimately show ?thesis
    using reg_inv_sweep [OF s] sweep_has [OF c(2)] e i by (simp add: reclaimed_def)
qed

lemma UntagAndSweep_spec:
  assumes "reg_inv r"
  shows "reg_inv (UntagAndSweep repo tag r) \<and> bktTags (UntagAndSweep repo tag r) = mdel (repo @ nul @ tag) (bktTags r)
    \<and> reclaimed r (UntagAndSweep repo tag r)"
proof (cases "map_of (bktTags r) (repo @ nul @ tag)")
  case None
  then have "UntagAndSweep repo tag r = r" by (simp add: UntagAndSweep_def untag_tx_def sweepBlobs_def Let_def)
  with assms None show ?thesis by (auto simp: reclaimed_def mdel_missing)
next
  case (Some old)
  have s: "swept [] r" "counting [] r" using assms by (simp_all add: reg_inv_def swept_def)
  obtain tx del where t: "refDec old (r\<lparr>bktTags := mdel (repo @ nul @ tag) (bktTags r)\<rparr>, []) = (tx, del)"
    by (metis surj_pair)
  with Some have "UntagAndSweep repo tag r = sweepBlobs del tx" by (simp add: UntagAndSweep_def untag_tx_def)
  with drop_tag [OF s(1) Some t] reclaimed_sweep [OF s(2)] show ?thesis by simp
qed


subsection \<open>Deleting a manifest\<close>

definition delete_step :: "string \<Rightarrow> string \<Rightarrow> Registry \<times> string list \<Rightarrow> Registry \<times> string list" where
  "delete_step digest k = (\<lambda>(tx, del). refDec digest (tx\<lparr>bktTags := mdel k (bktTags tx)\<rparr>, del))"

lemma delete_steps:
  assumes "swept del tx" and "distinct ks" and "\<forall>k \<in> set ks. map_of (bktTags tx) k = Some d"
    and "fold (delete_step d) ks (tx, del) = (tx', del')"
  shows "untagged del tx del' tx' \<and> map_of (bktTags tx') = (\<lambda>k. if k \<in> set ks then None else map_of (bktTags tx) k)"
  using assms
proof (induction ks arbitrary: tx del)
  case Nil
  then show ?case by (simp add: untagged_refl)
next
  case (Cons k ks)
  obtain tx1 del1 where s: "refDec d (tx\<lparr>bktTags := mdel k (bktTags tx)\<rparr>, del) = (tx1, del1)" by (metis surj_pair)
  from Cons.prems have "map_of (bktTags tx) k = Some d" by simp
  note step = drop_tag [OF Cons.prems(1) this s]
  then have "swept del1 tx1" by (simp add: untagged_def)
  moreover have "\<forall>j \<in> set ks. map_of (bktTags tx1) j = Some d" using Cons.prems step(2) by auto
  moreover have "delete_step d k (tx, del) = (tx1, del1)" using s by (simp add: delete_step_def)
  with Cons.prems have "fold (delete_step d) ks (tx1, del1) = (tx', del')" by simp
  ultimately have "untagged del1 tx1 del' tx' \<and> map_of (bktTags tx') = (\<lambda>j. if j \<in> set ks then None else map_of (bktTags tx1) j)"
    using Cons.IH Cons.prems by simp
  with untagged_trans [OF step(1)] step(2) show ?case by (auto simp: fun_eq_iff)
qed

text \<open>A cursor that seeks to a prefix and walks while it matches visits every key with the prefix.\<close>

lemma prefix_ge: "take (length p) x = p \<Longrightarrow> p \<le> (x :: string)"
proof (induction p arbitrary: x)
  case (Cons a p)
  then show ?case by (cases x) auto
qed simp

lemma prefix_between: "p \<le> x \<Longrightarrow> x \<le> (y :: string) \<Longrightarrow> take (length p) y = p \<Longrightarrow> take (length p) x = p"
proof (induction p arbitrary: x y)
  case (Cons a p)
  then show ?case by (cases x; cases y) auto
qed simp

lemma takeWhile_prefix:
  "sorted ks \<Longrightarrow> \<forall>k \<in> set ks. p \<le> k \<Longrightarrow> set (takeWhile (\<lambda>k. HasPrefix k p) ks) = {k \<in> set ks. HasPrefix k p}"
proof (induction ks)
  case (Cons k ks)
  then have "HasPrefix k p" if "y \<in> set ks" "HasPrefix y p" for y
    using that prefix_between [of p k y] by (auto simp: HasPrefix_def)
  with Cons show ?case by auto
qed simp

lemma seek_sorted:
  "sorted ks \<Longrightarrow> set (takeWhile (\<lambda>k. HasPrefix k p) (dropWhile (\<lambda>k. k < p) ks)) = {k \<in> set ks. HasPrefix k p}"
proof (induction ks)
  case (Cons k ks)
  show ?case
  proof (cases "k < p")
    case True
    then have "\<not> HasPrefix k p" using prefix_ge [of p k] by (auto simp: HasPrefix_def)
    with Cons True show ?thesis by auto
  next
    case False
    with Cons.prems have "\<forall>x \<in> set (k # ks). p \<le> x" by auto
    with False takeWhile_prefix [OF Cons.prems] show ?thesis by simp
  qed
qed simp

lemma set_seek: "set (seek p b) = {k \<in> fst ` set b. HasPrefix k p}"
  unfolding seek_def bucket_keys_def by (simp add: seek_sorted)

lemma distinct_seek: "mwf b \<Longrightarrow> distinct (seek p b)"
  unfolding seek_def bucket_keys_def mwf_def by (simp add: distinct_dropWhile)


lemma DeleteManifest_exact:
  assumes "reg_inv r" and "map_of (bktRepoMan r) (repo @ nul @ digest) \<noteq> None"
  shows "fst (DeleteManifest repo digest r) = None" and "reg_inv (snd (DeleteManifest repo digest r))"
    and "reclaimed r (snd (DeleteManifest repo digest r))"
    and "map_of (bktTags (snd (DeleteManifest repo digest r))) k =
      (if HasPrefix k (repo @ nul) \<and> map_of (bktTags r) k = Some digest then None else map_of (bktTags r) k)"
proof -
  let ?ks = "filter (\<lambda>k. map_of (bktTags r) k = Some digest) (seek (repo @ nul) (bktTags r))"
  obtain tx del where f: "fold (delete_step digest) ?ks (r, []) = (tx, del)" by (metis surj_pair)
  have s: "swept [] r" "counting [] r" using assms(1) by (simp_all add: reg_inv_def swept_def)
  have d: "DeleteManifest repo digest r = (None, sweepBlobs del tx)"
    using assms(2) f by (auto simp: DeleteManifest_def delete_step_def [abs_def] Let_def)
  have "distinct ?ks" "\<forall>k \<in> set ?ks. map_of (bktTags r) k = Some digest"
    using distinct_seek [of "bktTags r"] s(2) by (simp_all add: counting_def)
  from delete_steps [OF s(1) this f]
  have u: "untagged [] r del tx" and k: "map_of (bktTags tx) = (\<lambda>k. if k \<in> set ?ks then None else map_of (bktTags r) k)"
    by (rule conjunct1, rule conjunct2)
  from d show "fst (DeleteManifest repo digest r) = None" by simp
  from d reclaimed_sweep [OF s(2) u]
  show "reg_inv (snd (DeleteManifest repo digest r))" "reclaimed r (snd (DeleteManifest repo digest r))" by simp_all
  have "k \<in> set ?ks \<longleftrightarrow> HasPrefix k (repo @ nul) \<and> map_of (bktTags r) k = Some digest"
    by (auto simp: set_seek) (metis domI dom_map_of_conv_image_fst)
  with d k show "map_of (bktTags (snd (DeleteManifest repo digest r))) k =
      (if HasPrefix k (repo @ nul) \<and> map_of (bktTags r) k = Some digest then None else map_of (bktTags r) k)" by simp
qed


subsection \<open>Pushing a manifest\<close>

lemma fold_refInc [simp]:
  "bktTags (fold refInc es tx) = bktTags tx" "bktManMeta (fold refInc es tx) = bktManMeta tx"
  "bktRepoMan (fold refInc es tx) = bktRepoMan tx" "reg_blobs (fold refInc es tx) = reg_blobs tx"
  by (induction es arbitrary: tx) (simp_all add: refInc_def)

lemma refGet_fold_refInc: "refGet (fold refInc es tx) x = refGet tx x + of_nat (count_list es x)"
  by (induction es arbitrary: tx) (auto simp: refInc_def add.commute)

lemma unat_add_nat: "unat (x :: uint64) + n < 2 ^ 64 \<Longrightarrow> unat (x + of_nat n) = unat x + n"
  by (simp add: unat_word_ariths unat_of_nat)

lemma listedD: "listed tx \<Longrightarrow> k \<in> fst ` set (bktRepoMan tx) \<Longrightarrow> \<exists>repo d. k = repo @ nul @ d \<and> map_of (bktManMeta tx) d \<noteq> None"
  unfolding listed_def by (rule bspec)

lemma listed_put:
  assumes "listed tx" and "map_of (bktManMeta tx) m \<noteq> None"
  shows "listed (tx\<lparr>bktRepoMan := mput (repo @ nul @ m) mt (bktRepoMan tx)\<rparr>)"
  unfolding listed_def
proof
  fix k assume "k \<in> fst ` set (bktRepoMan (tx\<lparr>bktRepoMan := mput (repo @ nul @ m) mt (bktRepoMan tx)\<rparr>))"
  then consider "k = repo @ nul @ m" | "k \<in> fst ` set (bktRepoMan tx)" by auto
  then have "\<exists>repo d. k = repo @ nul @ d \<and> map_of (bktManMeta tx) d \<noteq> None"
  proof cases
    case 1
    with assms(2) show ?thesis by blast
  next
    case 2
    with assms(1) show ?thesis by (rule listedD)
  qed
  then show "\<exists>rp d. k = rp @ nul @ d
      \<and> map_of (bktManMeta (tx\<lparr>bktRepoMan := mput (repo @ nul @ m) mt (bktRepoMan tx)\<rparr>)) d \<noteq> None" by simp
qed

lemma tag_canonical: "graph_ok tx \<Longrightarrow> map_of (bktTags tx) k = Some d \<Longrightarrow> canonical d"
  unfolding graph_ok_def by blast

lemma listed_mono:
  assumes "listed tx" and "\<And>d. map_of (bktManMeta tx) d \<noteq> None \<Longrightarrow> map_of (bktManMeta t) d \<noteq> None"
    and "fst ` set (bktRepoMan t) \<subseteq> fst ` set (bktRepoMan tx)"
  shows "listed t"
  unfolding listed_def
proof
  fix k assume "k \<in> fst ` set (bktRepoMan t)"
  with assms(3) have "k \<in> fst ` set (bktRepoMan tx)" by blast
  from listedD [OF assms(1) this] obtain repo d where "k = repo @ nul @ d" "map_of (bktManMeta tx) d \<noteq> None"
    by blast
  with assms(2) show "\<exists>repo d. k = repo @ nul @ d \<and> map_of (bktManMeta t) d \<noteq> None" by blast
qed

lemma counting_put:
  assumes "counting [] tx" and "map_of (bktManMeta tx) m = None" and "total_refs tx + length (mm_Edges meta) < 2 ^ 64"
  shows "counting [] (fold refInc (mm_Edges meta) (tx\<lparr>bktManMeta := mput m meta (bktManMeta tx)\<rparr>))"
proof -
  let ?t = "fold refInc (mm_Edges meta) (tx\<lparr>bktManMeta := mput m meta (bktManMeta tx)\<rparr>)"
  from assms(1) have w: "mwf (bktTags tx)" "mwf (bktManMeta tx)" "listed tx" and c: "\<And>d. unat (refGet tx d) = indeg tx d"
    by (auto simp: counting_def)
  have i: "indeg ?t x = indeg tx x + count_list (mm_Edges meta) x" for x
    using msum_mput [OF w(2), of "\<lambda>m. count_list (mm_Edges m) x"] mdel_missing [OF assms(2)] by (simp add: indeg_def)
  have "unat (refGet ?t x) = indeg ?t x" for x
    using unat_add_nat [of "refGet tx x" "count_list (mm_Edges meta) x"] c [of x] indeg_le_total [of tx x]
      count_le_length [of "mm_Edges meta" x] assms(3) by (simp add: refGet_fold_refInc i)
  moreover have "listed ?t" by (rule listed_mono [OF w(3)]) auto
  ultimately show ?thesis using w by (simp add: counting_def)
qed

lemma counting_retag:
  assumes "counting [] tx" and "total_refs tx + 1 < 2 ^ 64"
  shows "counting (case map_of (bktTags tx) k of None \<Rightarrow> [] | Some old \<Rightarrow> [Dec old])
    (refInc d (tx\<lparr>bktTags := mput k d (bktTags tx)\<rparr>))"
proof -
  let ?t = "refInc d (tx\<lparr>bktTags := mput k d (bktTags tx)\<rparr>)"
  let ?p = "case map_of (bktTags tx) k of None \<Rightarrow> [] | Some old \<Rightarrow> [Dec old]"
  from assms(1) have w: "mwf (bktTags tx)" "mwf (bktManMeta tx)" "listed tx" and c: "\<And>d. unat (refGet tx d) = indeg tx d"
    by (auto simp: counting_def)
  have i: "indeg ?t x + count_list ?p (Dec x) = indeg tx x + of_bool (d = x)" for x
    using msum_mput [OF w(1), of "\<lambda>y. of_bool (y = x)" k d] msum_mdel [OF w(1), of k _ "\<lambda>y. of_bool (y = x)"]
      mdel_missing [of "bktTags tx" k]
    by (cases "map_of (bktTags tx) k") (auto simp: indeg_def refInc_def refPut_def)
  have "unat (refGet ?t x) = indeg tx x + of_bool (d = x)" for x
    using unat_add_nat [of "refGet tx x" "of_bool (d = x)"] c [of x] indeg_le_total [of tx x] assms(2)
    by (auto simp: refInc_def)
  with i w show ?thesis by (auto simp: counting_def listed_def refInc_def split: option.split)
qed

lemma graph_ok_retag:
  "graph_ok tx \<Longrightarrow> map_of (bktManMeta tx) d \<noteq> None \<Longrightarrow> graph_ok (refInc d (tx\<lparr>bktTags := mput k d (bktTags tx)\<rparr>))"
  by (auto simp: graph_ok_def refInc_def)

lemma canonical_length: "canonical d \<Longrightarrow> length d = 71"
proof -
  assume c: "canonical d"
  then have "length (drop 7 d) = 64"
    by (auto simp: canonical_def parseDigest_def ToLower_def split: prod.splits if_splits) (metis length_drop length_map)
  moreover from c have "length (take 7 d) = 7" by (simp add: canonical_def)
  ultimately show ?thesis by simp
qed

lemma canonical_key:
  assumes "canonical d" "canonical e" "HasSuffix (repo @ nul @ d) (nul @ e)"
  shows "d = e"
proof -
  have "length (rev (nul @ d)) = length (rev (nul @ e))" using assms(1,2) by (simp add: canonical_length)
  moreover from assms(3) have "take (length (rev (nul @ e))) (rev (nul @ d) @ rev repo) = rev (nul @ e)"
    by (simp add: HasSuffix_def HasPrefix_def)
  ultimately have "rev (nul @ d) = rev (nul @ e)" by (metis append_eq_conv_conj)
  then show ?thesis by (simp add: nul_def)
qed


text \<open>A tag set on a stored manifest: the digest it pointed at before loses one reference.\<close>

lemma setTag_swept:
  assumes "swept [] tx" and "map_of (bktManMeta tx) d \<noteq> None" and "total_refs tx + 1 < 2 ^ 64"
    and "setTag repo tag d (tx, []) = (tx', del)"
  shows "swept del tx' \<and> reg_blobs tx' = reg_blobs tx \<and> map_of (bktTags tx') (repo @ nul @ tag) = Some d
    \<and> map_of (bktManMeta tx') d = map_of (bktManMeta tx) d
    \<and> map_of (bktRepoMan tx') (rp @ nul @ d) = map_of (bktRepoMan tx) (rp @ nul @ d)"
proof (cases "map_of (bktTags tx) (repo @ nul @ tag) = Some d")
  case True
  with assms show ?thesis by (simp add: setTag_def)
next
  case False
  let ?k = "repo @ nul @ tag"
  let ?t = "refInc d (tx\<lparr>bktTags := mput ?k d (bktTags tx)\<rparr>)"
  have c: "counting [] tx" "graph_ok tx" using assms(1) by (simp_all add: swept_def)
  have can: "canonical d" using c(2) assms(2) by (auto simp: graph_ok_def)
  have nz: "canonical e" if "refGet ?t e \<noteq> 0" for e
    using that counted_canonical [OF c, of e] can by (auto simp: refInc_def split: if_splits)
  note ct = counting_retag [OF c(1) assms(3), of ?k d]
  show ?thesis
  proof (cases "map_of (bktTags tx) ?k")
    case None
    with assms(4) have "tx' = ?t" "del = []" by (auto simp: setTag_def)
    with None ct graph_ok_retag [OF c(2) assms(2)] show ?thesis by (simp add: swept_def refInc_def)
  next
    case (Some old)
    with c(2) have "canonical old" by (rule tag_canonical)
    then have "old \<noteq> ''''" by (auto dest: canonical_length)
    with Some assms(4) False have e: "refDec old (?t, []) = (tx', del)" by (simp add: setTag_def)
    from ct Some have "counting [Dec old] ?t" by simp
    from refDec_swept [OF this graph_ok_retag [OF c(2) assms(2)] _ nz e]
    have s: "swept del tx'" "gc_effect ?t tx'" by auto
    then have tag: "map_of (bktTags tx') ?k = Some d" by (simp add: gc_effect_def refInc_def)
    have nc: "\<not> collects ?t tx' d"
      using s(1) tag referenced [of tx' d] indeg_tag [of tx' ?k d] by (auto simp: swept_def counting_def collects_def)
    have "\<not> HasSuffix (rp @ nul @ d) (nul @ e)" if "collects ?t tx' e" for e
      using canonical_key [OF can, of e rp] nz [of e] nc that by (auto simp: collects_def)
    with s tag nc show ?thesis by (simp add: gc_effect_def refInc_def)
  qed
qed

lemma put_tx_swept:
  assumes "swept [] tx" and "canonical m" and "blob_Has tx m"
    and "\<And>e. e \<in> set (mm_Edges meta) \<Longrightarrow> canonical e \<and> blob_Has tx e"
    and "total_refs tx + length (mm_Edges meta) + 1 < 2 ^ 64" and "put_tx repo ref m meta tx = (tx', del)"
  shows "swept del tx' \<and> reg_blobs tx' = reg_blobs tx \<and> map_of (bktManMeta tx') m \<noteq> None
    \<and> map_of (bktRepoMan tx') (repo @ nul @ m) = Some (mm_MediaType meta)
    \<and> (ref \<noteq> '''' \<and> parseDigest ref = None \<longrightarrow> map_of (bktTags tx') (repo @ nul @ ref) = Some m)"
proof -
  let ?t1 = "if loadMeta tx m = None
             then fold refInc (mm_Edges meta) (tx\<lparr>bktManMeta := mput m meta (bktManMeta tx)\<rparr>) else tx"
  let ?t2 = "?t1\<lparr>bktRepoMan := mput (repo @ nul @ m) (mm_MediaType meta) (bktRepoMan ?t1)\<rparr>"
  have c: "counting [] tx" "graph_ok tx" using assms(1) by (simp_all add: swept_def)
  have b: "reg_blobs ?t1 = reg_blobs tx" by simp
  have m: "map_of (bktManMeta ?t1) m \<noteq> None" by (auto simp: loadMeta_def)
  have "counting [] ?t1" using c(1) counting_put [OF c(1), of m meta] assms(5) by (simp add: loadMeta_def)
  moreover from this have "listed ?t2" using listed_put [OF _ m] by (simp add: counting_def)
  ultimately have c2: "counting [] ?t2" unfolding counting_def by (simp add: indeg_def refGet_def)
  have "graph_ok ?t1" using c(2) assms(2-4) blob_Has_cong [OF b] by (auto simp: graph_ok_def loadMeta_def split: if_splits)
  then have s2: "graph_ok ?t2" by (simp add: graph_ok_def)
  have tot: "total_refs ?t2 + 1 < 2 ^ 64"
    using assms(5) c(1) msum_mput [of "bktManMeta tx" "\<lambda>m. length (mm_Edges m)" m meta] mdel_missing [of "bktManMeta tx" m]
    by (auto simp: total_refs_def loadMeta_def counting_def)
  have sw: "swept [] ?t2" using c2 s2 by (simp add: swept_def)
  show ?thesis
  proof (cases "parseDigest ref = None \<and> ref \<noteq> ''''")
    case True
    with assms(6) have "setTag repo ref m (?t2, []) = (tx', del)" by (simp add: put_tx_def Let_def)
    from setTag_swept [OF sw _ tot this, of repo] m show ?thesis by simp
  next
    case False
    with assms(6) have "tx' = ?t2" "del = []" by (auto simp: put_tx_def Let_def)
    with sw m False show ?thesis by auto
  qed
qed


lemma reg_inv_write:
  assumes "reg_inv r"
  shows "swept [] (blob_Write sha body r)"
    and "blob_Has r d \<Longrightarrow> blob_Has (blob_Write sha body r) d"
    and "canonical (''sha256:'' @ sha body) \<Longrightarrow> blob_Has (blob_Write sha body r) (''sha256:'' @ sha body)"
proof -
  let ?r = "blob_Write sha body r"
  have f: "bktTags ?r = bktTags r" "bktManMeta ?r = bktManMeta r" "bktRepoMan ?r = bktRepoMan r" "bktRefs ?r = bktRefs r"
    by (simp_all add: blob_Write_def blob_commit_def)
  have h: "blob_Has ?r d" if "blob_Has r d" for d
    using that by (auto simp: blob_Write_def blob_commit_def blob_Has_def split: option.splits)
  from assms have "counting [] ?r" using f by (simp add: reg_inv_def counting_def listed_def refGet_def indeg_def)
  moreover from assms have "graph_ok ?r" using f h by (simp add: reg_inv_def graph_ok_def)
  ultimately show "swept [] ?r" by (simp add: swept_def)
  show "blob_Has r d \<Longrightarrow> blob_Has ?r d" by (rule h)
  show "canonical (''sha256:'' @ sha body) \<Longrightarrow> blob_Has ?r (''sha256:'' @ sha body)"
    by (auto simp: canonical_has blob_Write_def blob_commit_def)
qed

lemma validated_edges:
  assumes "reg_inv r" and "validate_edges r repo meta = None" and "e \<in> set (mm_Edges meta)" and "canonical e"
  shows "blob_Has r e"
proof (cases "mm_Index meta")
  case False
  with assms(2,3) show ?thesis by (auto simp: validate_edges_def find_None_iff)
next
  case True
  with assms(2,3) have "repo @ nul @ e \<in> fst ` set (bktRepoMan r)"
    by (auto simp: validate_edges_def validateChildren_def find_None_iff split: option.splits) (metis domI dom_map_of_conv_image_fst)
  moreover have "listed r" using assms(1) by (simp add: reg_inv_def counting_def)
  ultimately obtain rp d meta' where d: "repo @ nul @ e = rp @ nul @ d" "map_of (bktManMeta r) d = Some meta'"
    by (auto dest!: listedD)
  then have "canonical d" "blob_Has r d" using assms(1) unfolding reg_inv_def graph_ok_def by blast+
  with d canonical_key [OF assms(4) this(1), of repo] show ?thesis by (metis HasSuffix_append append.assoc)
qed

lemma sweep_blobs:
  assumes "\<forall>d \<in> set del. canonical d" and "canonical (''sha256:'' @ h)" and "''sha256:'' @ h \<notin> set del"
  shows "map_of (reg_blobs (sweepBlobs del tx)) h = map_of (reg_blobs tx) h"
  using assms(1,3) unfolding sweepBlobs_def
proof (induction del arbitrary: tx)
  case (Cons d del)
  then have "drop 7 d \<noteq> h" using canonical_inj [of d "''sha256:'' @ h"] assms(2) by auto
  with Cons show ?case by (simp add: blob_Delete_def canonical_def)
qed simp

lemma PutManifest_spec:
  assumes "reg_inv r" and "canonical (''sha256:'' @ sha body)" and "map_of (reg_blobs r) (sha body) \<in> {None, Some body}"
    and "\<And>pm meta e. parse body = Some pm \<Longrightarrow> manifest_meta ct pm = Some meta \<Longrightarrow> e \<in> set (mm_Edges meta) \<Longrightarrow> canonical e"
    and "\<And>pm meta. parse body = Some pm \<Longrightarrow> manifest_meta ct pm = Some meta \<Longrightarrow>
          total_refs r + length (mm_Edges meta) + 1 < 2 ^ 64"
  shows "case PutManifest sha parse repo ref ct body r of
      (Inl e, r') \<Rightarrow> r' = r
    | (Inr digest, r') \<Rightarrow> reg_inv r' \<and> digest = ''sha256:'' @ sha body
        \<and> (\<exists>mt. GetManifest r' repo digest = Inr (body, mt, digest)
               \<and> (ref \<noteq> '''' \<and> parseDigest ref = None \<longrightarrow> GetManifest r' repo ref = Inr (body, mt, digest)))"
proof (cases "\<exists>pm meta. parse body = Some pm \<and> manifest_meta ct pm = Some meta \<and> validate_edges r repo meta = None")
  case False
  then show ?thesis by (auto simp: PutManifest_def Let_def split: option.split)
next
  case True
  then obtain pm meta where pm: "parse body = Some pm" "manifest_meta ct pm = Some meta" "validate_edges r repo meta = None"
    by blast
  let ?m = "''sha256:'' @ sha body" let ?r = "blob_Write sha body r"
  obtain tx del where tx: "put_tx repo ref ?m meta ?r = (tx, del)" by (metis surj_pair)
  have tot: "total_refs ?r = total_refs r" by (simp add: total_refs_def blob_Write_def blob_commit_def)
  have edges: "canonical e \<and> blob_Has ?r e" if "e \<in> set (mm_Edges meta)" for e
    using assms(4) [OF pm(1,2) that] validated_edges [OF assms(1) pm(3) that] reg_inv_write(2) [OF assms(1)] by blast
  have has: "blob_Has ?r ?m" using reg_inv_write(3) [OF assms(1), of sha body] assms(2) by blast
  note put = put_tx_swept [OF reg_inv_write(1) [OF assms(1), of sha body] assms(2) has edges _ tx]
  have p: "swept del tx" "reg_blobs tx = reg_blobs ?r" "map_of (bktManMeta tx) ?m \<noteq> None"
    "map_of (bktRepoMan tx) (repo @ nul @ ?m) = Some (mm_MediaType meta)"
    "ref \<noteq> '''' \<and> parseDigest ref = None \<longrightarrow> map_of (bktTags tx) (repo @ nul @ ref) = Some ?m"
    using put assms(5) [OF pm(1,2)] tot by simp_all
  have "?m \<notin> set del" "\<forall>d \<in> set del. canonical d" using p(1,3) by (auto simp: swept_def)
  then have "map_of (reg_blobs (sweepBlobs del tx)) (sha body) = Some body"
    using sweep_blobs [OF _ assms(2), of del tx] p(2) assms(3) by (auto simp: blob_Write_def blob_commit_def)
  moreover have "parseDigest ?m = Some (sha body)" using assms(2) by (simp add: canonical_def)
  ultimately show ?thesis
    using p reg_inv_sweep [OF p(1)] pm tx
    by (auto simp: PutManifest_def GetManifest_def resolveRef_def blob_Open_def Let_def)
qed



subsection \<open>Examples\<close>

text \<open>A hash for the examples, and two images that share their config blob \<open>[1]\<close>: \<open>[3]\<close> has the layer
  \<open>[2]\<close>, \<open>[4]\<close> has none; \<open>[5]\<close> is \<open>[3]\<close> with the digests in upper case.\<close>

definition sample_hash :: "bytes \<Rightarrow> string" where
  "sample_hash b = replicate 64 (case b of [] \<Rightarrow> CHR ''0'' | x # _ \<Rightarrow> char_of (96 + unat x mod 6))"

definition sample_desc :: "string \<Rightarrow> ociDescriptor" where
  "sample_desc h = \<lparr>od_MediaType = '''', od_Digest = ''sha256:'' @ h, od_Platform = None\<rparr>"

definition sample_image :: "string \<Rightarrow> string list \<Rightarrow> parsedManifest" where
  "sample_image c ls = \<lparr>pm_MediaType = MediaTypeOCIManifest, pm_Config = sample_desc c, pm_Layers = map sample_desc ls, pm_Manifests = []\<rparr>"

definition sample_parse :: "bytes \<Rightarrow> parsedManifest option" where
  "sample_parse b =
     (if b = [3] then Some (sample_image (sample_hash [1]) [sample_hash [2]])
      else if b = [4] then Some (sample_image (sample_hash [1]) [])
      else if b = [5] then Some (sample_image (replicate 64 (CHR ''A'')) [replicate 64 (CHR ''B'')]) else None)"

definition sample_reg0 :: Registry where
  "sample_reg0 = \<lparr>bktTags = [], bktRepoMan = [], bktManMeta = [], bktRefs = [],
     reg_blobs = [(sample_hash [1], [1]), (sample_hash [2], [2])]\<rparr>"

definition sample_push :: "string \<Rightarrow> bytes \<Rightarrow> Registry \<Rightarrow> Registry" where
  "sample_push tag body r = snd (PutManifest sample_hash sample_parse ''app'' tag '''' body r)"

definition sample_reg :: Registry where
  "sample_reg = sample_push ''v2'' [4] (sample_push ''v1'' [3] sample_reg0)"

lemma sample_reg0_inv: "reg_inv sample_reg0"
  by (simp add: sample_reg0_def reg_inv_def counting_def graph_ok_def listed_def refGet_def indeg_def msum_def)

lemma sample_edges:
  assumes "sample_parse b = Some pm" and "manifest_meta '''' pm = Some meta" and "b \<in> {[3], [4]}" and "e \<in> set (mm_Edges meta)"
  shows "canonical e" and "length (mm_Edges meta) \<le> 2"
proof -
  have "canonical (''sha256:'' @ sample_hash [1])" "canonical (''sha256:'' @ sample_hash [2])"
    "MediaTypeOCIManifest \<noteq> ''''" "\<not> isIndexMediaType MediaTypeOCIManifest" by code_simp+
  with assms show "canonical e" "length (mm_Edges meta) \<le> 2"
    by (auto simp: sample_parse_def sample_image_def sample_desc_def manifest_meta_def Let_def split: if_splits)
qed

lemma sample_push_inv:
  assumes "reg_inv r" and "canonical (''sha256:'' @ sample_hash b)" and "map_of (reg_blobs r) (sample_hash b) \<in> {None, Some b}"
    and "b \<in> {[3], [4]}" and "total_refs r < 100"
  shows "reg_inv (sample_push tag b r)"
proof -
  have tot: "total_refs r + length (mm_Edges meta) + 1 < 2 ^ 64"
    if "sample_parse b = Some pm" "manifest_meta '''' pm = Some meta" for pm meta
  proof -
    have "mm_Edges meta \<noteq> []" using that assms(4)
      by (auto simp: sample_parse_def sample_image_def sample_desc_def manifest_meta_def Let_def split: if_splits)
    with sample_edges(2) [OF that assms(4), of "hd (mm_Edges meta)"] assms(5) show ?thesis by simp
  qed
  have "case PutManifest sample_hash sample_parse ''app'' tag '''' b r of
      (Inl e, r') \<Rightarrow> r' = r
    | (Inr digest, r') \<Rightarrow> reg_inv r' \<and> digest = ''sha256:'' @ sample_hash b
        \<and> (\<exists>mt. GetManifest r' ''app'' digest = Inr (b, mt, digest)
               \<and> (tag \<noteq> '''' \<and> parseDigest tag = None \<longrightarrow> GetManifest r' ''app'' tag = Inr (b, mt, digest)))"
    by (rule PutManifest_spec, fact, fact, fact) (use sample_edges(1) [OF _ _ assms(4)] tot in blast)+
  with assms(1) show ?thesis
    by (cases "PutManifest sample_hash sample_parse ''app'' tag '''' b r") (auto simp: sample_push_def split: sum.splits)
qed

lemma sample_reg_eval:
  "canonical (''sha256:'' @ sample_hash [3]) \<and> canonical (''sha256:'' @ sample_hash [4])
   \<and> map_of (reg_blobs sample_reg0) (sample_hash [3]) = None \<and> total_refs sample_reg0 = 0
   \<and> map_of (reg_blobs (sample_push ''v1'' [3] sample_reg0)) (sample_hash [4]) = None
   \<and> total_refs (sample_push ''v1'' [3] sample_reg0) = 3"
  by code_simp

lemma sample_reg_inv: "reg_inv sample_reg"
  using sample_push_inv [OF sample_push_inv [OF sample_reg0_inv, of "[3]" "''v1''"], of "[4]" "''v2''"] sample_reg_eval
  by (simp add: sample_reg_def)




text \<open>The spelling of a digest matters: counts are kept per spelling, blobs under the lower-case digest. When
  the image that spells the digests in upper case is untagged, its blobs go although the other image
  refers to them.\<close>

lemma upper_case_digest_loses_layer:
  "let r = UntagAndSweep ''app'' ''v2'' (sample_push ''v2'' [5] (sample_push ''v1'' [3] sample_reg0))
   in map_option mm_Edges (loadMeta r (''sha256:'' @ sample_hash [3])) = Some [''sha256:'' @ sample_hash [1], ''sha256:'' @ sample_hash [2]]
      \<and> \<not> blob_Has r (''sha256:'' @ sample_hash [2])"
  by code_simp

text \<open>The sweep runs after the transaction commits. A push in between that refers to a blob about to be swept
  finds the blob still there, is accepted, and loses it.\<close>

lemma late_sweep_loses_layer:
  "case untag_tx ''app'' ''v1'' (sample_push ''v1'' [3] sample_reg0) of (tx, toDelete) \<Rightarrow>
     let r = sweepBlobs toDelete (sample_push ''v2'' [4] tx)
     in map_option mm_Edges (loadMeta r (''sha256:'' @ sample_hash [4])) = Some [''sha256:'' @ sample_hash [1]]
        \<and> \<not> blob_Has r (''sha256:'' @ sample_hash [1])"
  by code_simp

text \<open>A manifest without a tag in the repository is not deleted, although the call reports success.\<close>

lemma DeleteManifest_untagged:
  assumes "map_of (bktRepoMan r) (repo @ nul @ digest) \<noteq> None" and "\<And>k. map_of (bktTags r) k \<noteq> Some digest"
  shows "DeleteManifest repo digest r = (None, r)"
  using assms by (auto simp: DeleteManifest_def sweepBlobs_def Let_def)

end
