(* ===== verification/Auth.thy ===== *)
theory Auth
  imports Scheduler
begin

text \<open>
  Who may call what: the policy table of the API (\<^verbatim>\<open>internal/daemon/api/policy.go\<close>), the
  authentication interceptor (\<^verbatim>\<open>interceptors.go\<close>), the per-project roles (\<^verbatim>\<open>rbac.go\<close>) and the
  token format (\<^verbatim>\<open>token.go\<close>). A call comes with what gRPC knows of its peer: the URI names of the
  verified client certificate, none without one, and the values of its authorization header. SHA-256
  is a parameter. A request message is represented by its \<^verbatim>\<open>project_id\<close> field, absent when it has
  none.
\<close>

subsection \<open>Tokens\<close>

definition TokenPrefix :: string where "TokenPrefix = ''zpat_''"

definition base62Alphabet :: string where
  "base62Alphabet = ''0123456789ABCDEFGHIJKLMNOPQRSTUVWXYZabcdefghijklmnopqrstuvwxyz''"

definition LooksLikeToken :: "string \<Rightarrow> bool" where
  "LooksLikeToken s = HasPrefix s TokenPrefix"

text \<open>\<^verbatim>\<open>big.Int.SetBytes\<close>, and the division loop, least significant digit first.\<close>

definition SetBytes :: "bytes \<Rightarrow> nat" where
  "SetBytes b = foldl (\<lambda>n x. 256 * n + unat x) 0 b"

fun base62_loop :: "nat \<Rightarrow> string \<Rightarrow> string" where
  "base62_loop n out = (if n > 0 then base62_loop (n div 62) (out @ [base62Alphabet ! (n mod 62)]) else out)"

declare base62_loop.simps [simp del]

definition base62Encode :: "bytes \<Rightarrow> string" where
  "base62Encode b = (let n = SetBytes b in if n = 0 then ''0'' else rev (base62_loop n []))"

definition MintToken :: "(string \<Rightarrow> string) \<Rightarrow> bytes \<Rightarrow> string \<times> string" where
  "MintToken hash raw = (let token = TokenPrefix @ base62Encode raw in (token, hash token))"

subsection \<open>Identity\<close>

record Identity =
  UserID :: string
  NodeID :: string
  OrgRole :: Role

datatype Requirement = reqDenied | reqPublic | reqUser | reqNode | reqAdmin

text \<open>A status is a code with a message; a status made from an error has the text of that error.\<close>

datatype grpc_code =
    Unauthenticated | PermissionDenied | NotFound | InvalidArgument | AlreadyExists | FailedPrecondition
  | Aborted | Unavailable | Internal

datatype status = Status grpc_code string | StatusOf grpc_code apply_error

record CallCtx =
  cert_uris :: "string list"
  authorization :: "string list"
  identity :: "Identity option"

definition anonymous :: Identity where
  "anonymous = \<lparr>UserID = '''', NodeID = '''', OrgRole = ROLE_UNSPECIFIED\<rparr>"

definition identity_Actor :: "Identity \<Rightarrow> string" where
  "identity_Actor i = (if NodeID i \<noteq> '''' then ''node:'' @ NodeID i
     else if UserID i \<noteq> '''' then ''user:'' @ UserID i else ''anonymous'')"

definition nodeURIScheme :: string where "nodeURIScheme = ''zattera://node/''"

definition nodeIDFromPeer :: "CallCtx \<Rightarrow> string" where
  "nodeIDFromPeer ctx =
     (case find (\<lambda>s. HasPrefix s nodeURIScheme) (cert_uris ctx) of
        None \<Rightarrow> ''''
      | Some s \<Rightarrow> TrimPrefix s nodeURIScheme)"

definition bearerToken :: "CallCtx \<Rightarrow> string" where
  "bearerToken ctx =
     (case authorization ctx of
        [] \<Rightarrow> ''''
      | val # _ \<Rightarrow>
          (let v = TrimSpace val;
               v1 = (if HasPrefix (ToLower v) ''bearer '' then TrimSpace (drop (length ''bearer '') v) else v)
           in if \<not> LooksLikeToken v1 then '''' else v1))"

definition markUsed :: "time \<Rightarrow> string \<Rightarrow> (string, time) gomap \<Rightarrow> (string, time) gomap" where
  "markUsed now tokenID lastUsed = (if tokenID = '''' then lastUsed else mput tokenID now lastUsed)"

text \<open>A hash whose token is gone gives a nil token: no expiry, and the empty user id.\<close>

definition resolve_owner ::
  "time \<Rightarrow> Store \<Rightarrow> Token option \<Rightarrow> (string, time) gomap \<Rightarrow> (status + Identity) \<times> (string, time) gomap" where
  "resolve_owner now st found lastUsed =
     (case User (case found of None \<Rightarrow> '''' | Some t \<Rightarrow> token_user_id t) st of
        None \<Rightarrow> (Inl (Status Unauthenticated ''token owner not found''), lastUsed)
      | Some user \<Rightarrow>
          (Inr \<lparr>UserID = user_id user, NodeID = '''', OrgRole = user_org_role user\<rparr>,
           markUsed now (case found of None \<Rightarrow> '''' | Some t \<Rightarrow> token_id t) lastUsed))"

definition resolveIdentity ::
  "(string \<Rightarrow> string) \<Rightarrow> time \<Rightarrow> Store \<Rightarrow> CallCtx \<Rightarrow> (string, time) gomap \<Rightarrow> (status + Identity) \<times> (string, time) gomap" where
  "resolveIdentity hash now st ctx lastUsed =
     (if nodeIDFromPeer ctx \<noteq> '''' then (Inr (anonymous\<lparr>NodeID := nodeIDFromPeer ctx\<rparr>), lastUsed)
      else let tok = bearerToken ctx
           in if tok = '''' then (Inr anonymous, lastUsed)
              else case TokenByHash (hash tok) st of
                     None \<Rightarrow> (Inl (Status Unauthenticated ''invalid token''), lastUsed)
                   | Some found \<Rightarrow>
                       (case (case found of None \<Rightarrow> None | Some t \<Rightarrow> token_expires_at t) of
                          Some exp \<Rightarrow> if now > exp then (Inl (Status Unauthenticated ''token expired''), lastUsed)
                                      else resolve_owner now st found lastUsed
                        | None \<Rightarrow> resolve_owner now st found lastUsed))"

subsection \<open>Policy\<close>

definition methodAuth :: "(string, Requirement) gomap" where
  "methodAuth =
     [(''/zattera.v1.AuthService/Login'', reqPublic),
      (''/zattera.v1.AuthService/WhoAmI'', reqUser),
      (''/zattera.v1.AuthService/Unseal'', reqAdmin),
      (''/zattera.v1.AuthService/CreateToken'', reqUser),
      (''/zattera.v1.AuthService/ListTokens'', reqUser),
      (''/zattera.v1.AuthService/RevokeToken'', reqUser),
      (''/zattera.v1.AuthService/CreateUser'', reqAdmin),
      (''/zattera.v1.AuthService/ListUsers'', reqAdmin),
      (''/zattera.v1.ProjectService/CreateProject'', reqUser),
      (''/zattera.v1.ProjectService/ListProjects'', reqUser),
      (''/zattera.v1.ProjectService/GetProject'', reqUser),
      (''/zattera.v1.ProjectService/DeleteProject'', reqUser),
      (''/zattera.v1.ProjectService/AddMember'', reqUser),
      (''/zattera.v1.ProjectService/RemoveMember'', reqUser),
      (''/zattera.v1.ProjectService/ListMembers'', reqUser),
      (''/zattera.v1.AppService/CreateApp'', reqUser),
      (''/zattera.v1.AppService/ListApps'', reqUser),
      (''/zattera.v1.AppService/GetApp'', reqUser),
      (''/zattera.v1.AppService/DeleteApp'', reqUser),
      (''/zattera.v1.AppService/ApplyAppConfig'', reqUser),
      (''/zattera.v1.AppService/SetEnvVars'', reqUser),
      (''/zattera.v1.AppService/GetEnvVars'', reqUser),
      (''/zattera.v1.AppService/SetReplicas'', reqUser),
      (''/zattera.v1.DeployService/Deploy'', reqUser),
      (''/zattera.v1.DeployService/Rollback'', reqUser),
      (''/zattera.v1.DeployService/GetDeployment'', reqUser),
      (''/zattera.v1.DeployService/ListDeployments'', reqUser),
      (''/zattera.v1.DeployService/ListReleases'', reqUser),
      (''/zattera.v1.DeployService/ListInstances'', reqUser),
      (''/zattera.v1.DeployService/WatchDeployment'', reqUser),
      (''/zattera.v1.DeployService/UploadSource'', reqUser),
      (''/zattera.v1.NodeService/ListNodes'', reqUser),
      (''/zattera.v1.NodeService/GetNode'', reqUser),
      (''/zattera.v1.NodeService/CreateJoinToken'', reqAdmin),
      (''/zattera.v1.NodeService/SetNodeLabels'', reqAdmin),
      (''/zattera.v1.NodeService/DrainNode'', reqAdmin),
      (''/zattera.v1.NodeService/RemoveNode'', reqAdmin),
      (''/zattera.v1.NodeService/CordonNode'', reqAdmin),
      (''/zattera.v1.NodeService/UncordonNode'', reqAdmin),
      (''/zattera.v1.NodeService/UpgradePlan'', reqAdmin),
      (''/zattera.v1.NodeService/UpgradeNode'', reqAdmin),
      (''/zattera.v1.StateService/Export'', reqAdmin),
      (''/zattera.v1.StateService/Apply'', reqAdmin),
      (''/zattera.v1.AuditService/QueryAudit'', reqAdmin),
      (''/zattera.v1.AuditService/ListEvents'', reqUser),
      (''/zattera.v1.DomainService/AddDomain'', reqUser),
      (''/zattera.v1.DomainService/RemoveDomain'', reqUser),
      (''/zattera.v1.DomainService/ListDomains'', reqUser),
      (''/zattera.v1.DomainService/SetMiddleware'', reqUser),
      (''/zattera.v1.VolumeService/CreateVolume'', reqUser),
      (''/zattera.v1.VolumeService/DeleteVolume'', reqUser),
      (''/zattera.v1.VolumeService/ListVolumes'', reqUser),
      (''/zattera.v1.VolumeService/SnapshotVolume'', reqUser),
      (''/zattera.v1.VolumeService/ListSnapshots'', reqUser),
      (''/zattera.v1.VolumeService/RestoreSnapshot'', reqUser),
      (''/zattera.v1.VolumeService/ListFiles'', reqUser),
      (''/zattera.v1.VolumeService/ReadFile'', reqUser),
      (''/zattera.v1.VolumeService/WriteFile'', reqUser),
      (''/zattera.v1.JobService/RunJob'', reqUser),
      (''/zattera.v1.JobService/GetJob'', reqUser),
      (''/zattera.v1.JobService/ListJobs'', reqUser),
      (''/zattera.v1.JobService/CancelJob'', reqUser),
      (''/zattera.v1.ExecService/Exec'', reqUser),
      (''/zattera.v1.ExecService/PortForward'', reqUser),
      (''/zattera.v1.ExecService/Top'', reqUser),
      (''/zattera.v1.LogService/Query'', reqUser),
      (''/zattera.v1.MetricsService/Stats'', reqUser),
      (''/zattera.v1.AlertService/PutRule'', reqUser),
      (''/zattera.v1.AlertService/DeleteRule'', reqUser),
      (''/zattera.v1.AlertService/ListRules'', reqUser),
      (''/zattera.v1.AlertService/PutChannel'', reqAdmin),
      (''/zattera.v1.AlertService/DeleteChannel'', reqAdmin),
      (''/zattera.v1.AlertService/ListChannels'', reqAdmin),
      (''/zattera.v1.BackupService/SetBackupConfig'', reqAdmin),
      (''/zattera.v1.BackupService/TriggerBackup'', reqAdmin),
      (''/zattera.v1.BackupService/ListBackups'', reqAdmin),
      (''/zattera.cluster.v1.AgentSyncService/Sync'', reqNode),
      (''/zattera.cluster.v1.MeshService/WatchPeers'', reqNode),
      (''/zattera.cluster.v1.MeshService/ReportObservedEndpoint'', reqNode),
      (''/zattera.cluster.v1.MeshService/PunchStream'', reqNode),
      (''/zattera.cluster.v1.MeshService/RequestPunch'', reqNode),
      (''/zattera.cluster.v1.RouteService/WatchRoutes'', reqNode),
      (''/zattera.cluster.v1.ActivatorService/Activate'', reqNode),
      (''/zattera.cluster.v1.JoinService/Join'', reqPublic),
      (''/zattera.cluster.v1.KeyService/FetchDataKey'', reqNode)]"

text \<open>The tier check. A health check passes without an identity.\<close>

definition authorize ::
  "(string \<Rightarrow> string) \<Rightarrow> time \<Rightarrow> Store \<Rightarrow> string \<Rightarrow> CallCtx \<Rightarrow> (string, time) gomap \<Rightarrow>
   (status + CallCtx) \<times> (string, time) gomap" where
  "authorize hash now st fullMethod ctx lastUsed =
     (if HasPrefix fullMethod ''/grpc.health.'' then (Inr ctx, lastUsed)
      else let req = (case map_of methodAuth fullMethod of None \<Rightarrow> reqDenied | Some q \<Rightarrow> q)
           in if req = reqDenied
              then (Inl (Status PermissionDenied (''method '' @ fullMethod @ '' is not permitted'')), lastUsed)
              else case resolveIdentity hash now st ctx lastUsed of
                     (Inl e, lu) \<Rightarrow> (Inl e, lu)
                   | (Inr i, lu) \<Rightarrow>
                       (case req of
                          reqUser \<Rightarrow> if UserID i = '''' then (Inl (Status Unauthenticated ''a user token is required''), lu)
                                      else (Inr (ctx\<lparr>identity := Some i\<rparr>), lu)
                        | reqNode \<Rightarrow> if NodeID i = ''''
                                      then (Inl (Status PermissionDenied ''this method is restricted to cluster nodes''), lu)
                                      else (Inr (ctx\<lparr>identity := Some i\<rparr>), lu)
                        | reqAdmin \<Rightarrow> if UserID i = '''' then (Inl (Status Unauthenticated ''a user token is required''), lu)
                                       else if OrgRole i \<noteq> ROLE_OWNER \<and> OrgRole i \<noteq> ROLE_ADMIN
                                       then (Inl (Status PermissionDenied ''admin privileges are required''), lu)
                                       else (Inr (ctx\<lparr>identity := Some i\<rparr>), lu)
                        | _ \<Rightarrow> (Inr (ctx\<lparr>identity := Some i\<rparr>), lu)))"

text \<open>The check at start-up that every registered method has an entry: the first that has none.\<close>

definition ValidateMethodTable :: "(string \<times> string list) list \<Rightarrow> string option" where
  "ValidateMethodTable info =
     find (\<lambda>full. \<not> mhas methodAuth full)
       (concat (map (\<lambda>(svc, ms). if HasPrefix svc ''grpc.health.'' \<or> HasPrefix svc ''grpc.reflection.'' then []
                                  else map (\<lambda>m. ''/'' @ svc @ ''/'' @ m) ms) info))"

subsection \<open>Project roles\<close>

definition minRole :: "(string, Role) gomap" where
  "minRole =
     [(''/zattera.v1.ProjectService/GetProject'', ROLE_VIEWER),
      (''/zattera.v1.ProjectService/DeleteProject'', ROLE_OWNER),
      (''/zattera.v1.ProjectService/ListMembers'', ROLE_VIEWER),
      (''/zattera.v1.ProjectService/AddMember'', ROLE_ADMIN),
      (''/zattera.v1.ProjectService/RemoveMember'', ROLE_ADMIN),
      (''/zattera.v1.AppService/CreateApp'', ROLE_DEVELOPER),
      (''/zattera.v1.AppService/ListApps'', ROLE_VIEWER),
      (''/zattera.v1.AppService/GetApp'', ROLE_VIEWER),
      (''/zattera.v1.AppService/DeleteApp'', ROLE_ADMIN),
      (''/zattera.v1.AppService/ApplyAppConfig'', ROLE_DEVELOPER),
      (''/zattera.v1.AppService/SetEnvVars'', ROLE_DEVELOPER),
      (''/zattera.v1.AppService/GetEnvVars'', ROLE_DEVELOPER),
      (''/zattera.v1.AppService/SetReplicas'', ROLE_DEVELOPER),
      (''/zattera.v1.DeployService/Deploy'', ROLE_DEVELOPER),
      (''/zattera.v1.DeployService/Rollback'', ROLE_DEVELOPER),
      (''/zattera.v1.DomainService/AddDomain'', ROLE_DEVELOPER),
      (''/zattera.v1.DomainService/RemoveDomain'', ROLE_DEVELOPER),
      (''/zattera.v1.DomainService/SetMiddleware'', ROLE_DEVELOPER),
      (''/zattera.v1.DomainService/ListDomains'', ROLE_VIEWER),
      (''/zattera.v1.JobService/RunJob'', ROLE_DEVELOPER),
      (''/zattera.v1.JobService/CancelJob'', ROLE_DEVELOPER),
      (''/zattera.v1.JobService/GetJob'', ROLE_VIEWER),
      (''/zattera.v1.JobService/ListJobs'', ROLE_VIEWER),
      (''/zattera.v1.VolumeService/CreateVolume'', ROLE_DEVELOPER),
      (''/zattera.v1.VolumeService/DeleteVolume'', ROLE_DEVELOPER),
      (''/zattera.v1.VolumeService/ListVolumes'', ROLE_VIEWER),
      (''/zattera.v1.VolumeService/ListFiles'', ROLE_VIEWER),
      (''/zattera.v1.VolumeService/ReadFile'', ROLE_VIEWER),
      (''/zattera.v1.BackupService/SetBackupConfig'', ROLE_ADMIN),
      (''/zattera.v1.BackupService/TriggerBackup'', ROLE_ADMIN),
      (''/zattera.v1.BackupService/ListBackups'', ROLE_ADMIN)]"

definition roleRank :: "Role \<Rightarrow> int" where
  "roleRank role = (case role of ROLE_OWNER \<Rightarrow> 4 | ROLE_ADMIN \<Rightarrow> 3 | ROLE_DEVELOPER \<Rightarrow> 2 | ROLE_VIEWER \<Rightarrow> 1 | _ \<Rightarrow> 0)"

definition isOrgAdminUser :: "Store \<Rightarrow> string \<Rightarrow> bool" where
  "isOrgAdminUser st userID =
     (case User userID st of None \<Rightarrow> False | Some u \<Rightarrow> user_org_role u = ROLE_OWNER \<or> user_org_role u = ROLE_ADMIN)"

definition role_string :: "Role \<Rightarrow> string" where
  "role_string r = (case r of ROLE_UNSPECIFIED \<Rightarrow> ''ROLE_UNSPECIFIED'' | ROLE_OWNER \<Rightarrow> ''ROLE_OWNER''
     | ROLE_ADMIN \<Rightarrow> ''ROLE_ADMIN'' | ROLE_DEVELOPER \<Rightarrow> ''ROLE_DEVELOPER'' | ROLE_VIEWER \<Rightarrow> ''ROLE_VIEWER'')"

definition resolveProject :: "Store \<Rightarrow> string \<Rightarrow> status + Project" where
  "resolveProject st idOrName =
     (case Project idOrName st of
        Some p \<Rightarrow> Inr p
      | None \<Rightarrow> (case ProjectByName idOrName st of
                  Some p \<Rightarrow> Inr p
                | None \<Rightarrow> Inl (Status NotFound (''project '' @ Quote idOrName @ '' not found''))))"

text \<open>The check of a request; its result is the \<^verbatim>\<open>project_id\<close> field as the handler sees it.\<close>

definition rbac_check :: "Store \<Rightarrow> CallCtx \<Rightarrow> string option \<Rightarrow> Role \<Rightarrow> status + string option" where
  "rbac_check st ctx field required =
     (let uid = (case identity ctx of None \<Rightarrow> '''' | Some i \<Rightarrow> UserID i)
      in if uid = '''' then Inl (Status Unauthenticated ''a user identity is required'')
         else case field of
                None \<Rightarrow> Inr None
              | Some raw \<Rightarrow>
                  if raw = '''' then Inl (Status InvalidArgument ''project is required'')
                  else (case resolveProject st raw of
                          Inl e \<Rightarrow> Inl e
                        | Inr proj \<Rightarrow>
                            if isOrgAdminUser st uid then Inr (Some (project_id proj))
                            else (case ProjectMember (project_id proj) uid st of
                                    None \<Rightarrow> Inl (Status NotFound ''project not found'')
                                  | Some m \<Rightarrow>
                                      if roleRank (pm_role m) < roleRank required
                                      then Inl (Status PermissionDenied (role_string required @ '' role required''))
                                      else Inr (Some (project_id proj)))))"

definition rbac_UnaryInterceptor :: "Store \<Rightarrow> string \<Rightarrow> CallCtx \<Rightarrow> string option \<Rightarrow> status + string option" where
  "rbac_UnaryInterceptor st fullMethod ctx field =
     (case map_of minRole fullMethod of None \<Rightarrow> Inr field | Some required \<Rightarrow> rbac_check st ctx field required)"

text \<open>A unary call on its way to the handler: authentication, then roles. A stream only passes the first.\<close>

definition unary_call ::
  "(string \<Rightarrow> string) \<Rightarrow> time \<Rightarrow> Store \<Rightarrow> string \<Rightarrow> CallCtx \<Rightarrow> string option \<Rightarrow> (string, time) gomap \<Rightarrow>
   (status + CallCtx \<times> string option) \<times> (string, time) gomap" where
  "unary_call hash now st fullMethod ctx field lastUsed =
     (case authorize hash now st fullMethod ctx lastUsed of
        (Inl e, lu) \<Rightarrow> (Inl e, lu)
      | (Inr ctx1, lu) \<Rightarrow>
          (case rbac_UnaryInterceptor st fullMethod ctx1 field of
             Inl e \<Rightarrow> (Inl e, lu)
           | Inr field1 \<Rightarrow> (Inr (ctx1, field1), lu)))"

subsection \<open>Token use\<close>

text \<open>The periodic flush of the accumulated uses: the samples are dropped whatever happens to the command.\<close>

definition token_flush :: "Control \<Rightarrow> (string, time) gomap \<Rightarrow> World \<Rightarrow> (string, time) gomap \<times> World" where
  "token_flush ctl lastUsed w =
     (if \<not> is_leader ctl then ([], w)
      else if lastUsed = [] then (lastUsed, w)
      else ([], snd (propose ctl ''system:token-flush'' (Command_TouchTokens lastUsed) w)))"

end
