(* ===== verification/AuthProps.thy ===== *)
theory AuthProps
  imports Auth StoreFacts
begin

text \<open>
  What the policy of the API guarantees: a call that reaches its handler has an entry in the table,
  an identity that the certificate or a stored, unexpired token proves, and, for a method with a
  project role, a project that exists in which the caller has that role. And the encoding of a
  token's random bytes, which loses nothing.
\<close>

subsection \<open>The encoding of a token\<close>

text \<open>The value of a string of digits, most significant first, and the reference encoding it inverts.\<close>

definition digit62 :: "char \<Rightarrow> nat" where
  "digit62 c = length (takeWhile (\<lambda>x. x \<noteq> c) base62Alphabet)"

definition base62_value :: "string \<Rightarrow> nat" where
  "base62_value s = foldl (\<lambda>n c. 62 * n + digit62 c) 0 s"

lemma length_base62Alphabet [simp]: "length base62Alphabet = 62"
  by (simp add: base62Alphabet_def)

lemma distinct_base62Alphabet: "distinct base62Alphabet"
  by (simp add: base62Alphabet_def)

lemma takeWhile_nth_distinct: "distinct xs \<Longrightarrow> i < length xs \<Longrightarrow> takeWhile (\<lambda>x. x \<noteq> xs ! i) xs = take i xs"
  by (rule takeWhile_eq_take_P_nth) (auto simp: nth_eq_iff_index_eq)

lemma digit62_nth [simp]: "i < 62 \<Longrightarrow> digit62 (base62Alphabet ! i) = i"
  by (simp add: digit62_def takeWhile_nth_distinct [OF distinct_base62Alphabet])

lemma base62_loop_acc: "base62_loop n out = out @ base62_loop n []"
proof (induction n arbitrary: out rule: less_induct)
  case (less n)
  show ?case
  proof (cases "n = 0")
    case False
    then have "n div 62 < n" by simp
    then show ?thesis
      using less [of "n div 62" "out @ [base62Alphabet ! (n mod 62)]"] less [of "n div 62" "[base62Alphabet ! (n mod 62)]"]
      by (simp add: base62_loop.simps [of n] False)
  qed (simp add: base62_loop.simps)
qed

lemma base62_value_loop: "base62_value (rev (base62_loop n [])) = n"
proof (induction n rule: less_induct)
  case (less n)
  show ?case
  proof (cases "n = 0")
    case False
    then have "n div 62 < n" by simp
    from less [OF this] show ?thesis
      by (simp add: base62_loop.simps [of n] False base62_loop_acc [of _ "[_]"] base62_value_def)
  qed (simp add: base62_loop.simps base62_value_def)
qed

lemma SetBytes_snoc: "SetBytes (b @ [x]) = 256 * SetBytes b + unat x"
  by (simp add: SetBytes_def)

lemma SetBytes_inj: "length a = length b \<Longrightarrow> SetBytes a = SetBytes b \<Longrightarrow> a = b"
proof (induction a arbitrary: b rule: rev_induct)
  case (snoc x a)
  then obtain y c where b: "b = c @ [y]" by (metis length_0_conv append_is_Nil_conv rev_exhaust not_Cons_self2)
  have "unat x < 256" "unat y < 256" using unsigned_less [of x] unsigned_less [of y] by simp_all
  moreover have eq: "256 * SetBytes a + unat x = 256 * SetBytes c + unat y"
    using snoc.prems(2) by (simp add: b SetBytes_snoc)
  moreover have "m = n \<and> i = j" if "i < 256" "j < 256" "256 * m + i = 256 * n + j" for m n i j :: nat
  proof -
    have "(256 * m + i) div 256 = m" "(256 * n + j) div 256 = n" using that(1,2) by simp_all
    with that(3) show ?thesis by auto
  qed
  ultimately have "unat x = unat y" "SetBytes a = SetBytes c" by blast+
  with snoc show ?case by (simp add: b word_unat_eq_iff)
qed simp

lemma base62_value_encode: "base62_value (base62Encode b) = SetBytes b"
proof -
  have "digit62 (CHR ''0'') = 0" using digit62_nth [of 0] by (simp add: base62Alphabet_def)
  then show ?thesis by (simp add: base62Encode_def Let_def base62_value_loop) (simp add: base62_value_def)
qed

lemma base62_loop_chars: "set (base62_loop n []) \<subseteq> set base62Alphabet"
proof (induction n rule: less_induct)
  case (less n)
  show ?case
  proof (cases "n = 0")
    case False
    then have "n div 62 < n" by simp
    from less [OF this] show ?thesis
      by (auto simp: base62_loop.simps [of n] False base62_loop_acc [of _ "[_]"])
  qed (simp add: base62_loop.simps)
qed

lemma base62Encode_chars: "set (base62Encode b) \<subseteq> set base62Alphabet"
  using base62_loop_chars [of "SetBytes b"] by (auto simp: base62Encode_def Let_def base62Alphabet_def)

lemma base62Alphabet_no_space: "c \<in> set base62Alphabet \<Longrightarrow> \<not> is_space c"
  by (auto simp: base62Alphabet_def is_space_def)

lemma TrimSpace_plain: "s \<noteq> [] \<Longrightarrow> \<not> is_space (hd s) \<Longrightarrow> \<not> is_space (last s) \<Longrightarrow> TrimSpace s = s"
proof -
  assume "s \<noteq> []" "\<not> is_space (hd s)" "\<not> is_space (last s)"
  then have "dropWhile is_space s = s" "dropWhile is_space (rev s) = rev s"
    by (simp_all add: dropWhile_eq_self_iff hd_rev)
  then show ?thesis by (simp add: TrimSpace_def)
qed

lemma base62Encode_nonempty: "base62Encode b \<noteq> []"
proof -
  have "base62_loop n [] \<noteq> []" if "n \<noteq> 0" for n
    using that by (simp add: base62_loop.simps [of n] base62_loop_acc [of _ "[_]"])
  then show ?thesis by (simp add: base62Encode_def Let_def)
qed

text \<open>A minted token survives the header: no byte of it is trimmed.\<close>

lemma bearerToken_minted:
  assumes "authorization ctx = (''Bearer '' @ fst (MintToken hash raw)) # vals"
  shows "bearerToken ctx = fst (MintToken hash raw)"
proof -
  define tok where "tok = fst (MintToken hash raw)"
  have tok: "tok = ''zpat_'' @ base62Encode raw" by (simp add: tok_def MintToken_def TokenPrefix_def Let_def)
  have "\<not> is_space (last (base62Encode raw))"
    using base62Encode_chars [of raw] last_in_set [OF base62Encode_nonempty, of raw] base62Alphabet_no_space by blast
  then have "TrimSpace tok = tok" "TrimSpace (''Bearer '' @ tok) = ''Bearer '' @ tok"
    using base62Encode_nonempty [of raw] by (auto intro!: TrimSpace_plain simp: tok is_space_def)
  moreover have "HasPrefix (ToLower (''Bearer '' @ tok)) ''bearer ''"
    by (simp add: HasPrefix_def ToLower_def) code_simp
  moreover have "LooksLikeToken tok" by (simp add: tok LooksLikeToken_def TokenPrefix_def HasPrefix_def)
  ultimately show ?thesis using assms by (simp add: bearerToken_def Let_def flip: tok_def)
qed

text \<open>
  Tokens: a freshly minted token that is stored for an existing user authenticates that user,
  with the user's role, for as long as it has not expired; and two tokens minted from different
  random bytes of the same length are different.\<close>

theorem minted_token_authenticates:
  assumes "store_inv st" "User (token_user_id t) st = Some u"
    and "token_secret_hash t = snd (MintToken hash raw)"
    and "\<forall>exp. token_expires_at t = Some exp \<longrightarrow> now \<le> exp"
    and "nodeIDFromPeer ctx = ''''" "authorization ctx = [''Bearer '' @ fst (MintToken hash raw)]"
  shows "fst (resolveIdentity hash now (PutToken t st) ctx lastUsed)
       = Inr \<lparr>UserID = token_user_id t, NodeID = '''', OrgRole = user_org_role u\<rparr>
     \<and> (length raw' = length raw \<longrightarrow> fst (MintToken hash raw') = fst (MintToken hash raw) \<longrightarrow> raw' = raw)"
proof
  have bt: "bearerToken ctx = fst (MintToken hash raw)" using assms(6) by (rule bearerToken_minted)
  have "fst (MintToken hash raw) \<noteq> ''''" by (simp add: MintToken_def TokenPrefix_def Let_def)
  moreover have "TokenByHash (hash (fst (MintToken hash raw))) (PutToken t st) = Some (Some t)"
    using assms(3) by (simp add: MintToken_def Let_def TokenByHash_def PutToken_def touch_def)
  moreover have "User (token_user_id t) (PutToken t st) = Some u"
    using assms(2) by (simp add: User_def PutToken_def touch_def Let_def)
  moreover have "user_id u = token_user_id t"
    using keyedD [OF store_keyed(1) [OF assms(1)]] assms(2) by (simp add: User_def)
  ultimately show "fst (resolveIdentity hash now (PutToken t st) ctx lastUsed)
      = Inr \<lparr>UserID = token_user_id t, NodeID = '''', OrgRole = user_org_role u\<rparr>"
    using assms(4,5) by (auto simp: resolveIdentity_def resolve_owner_def bt Let_def split: option.split)
  have "SetBytes raw' = SetBytes raw" if "fst (MintToken hash raw') = fst (MintToken hash raw)"
    using that base62_value_encode [of raw'] base62_value_encode [of raw] by (simp add: MintToken_def Let_def)
  then show "length raw' = length raw \<longrightarrow> fst (MintToken hash raw') = fst (MintToken hash raw) \<longrightarrow> raw' = raw"
    using SetBytes_inj by blast
qed

subsection \<open>Authorised calls\<close>

text \<open>A token proves an identity: it is stored under its hash, has not expired, and its owner exists.\<close>

definition user_of_token :: "(string \<Rightarrow> string) \<Rightarrow> time \<Rightarrow> Store \<Rightarrow> string \<Rightarrow> Identity \<Rightarrow> bool" where
  "user_of_token hash now st tok i \<longleftrightarrow>
     (\<exists>t u. Token (token_id t) st = Some t \<and> token_secret_hash t = hash tok
        \<and> (case token_expires_at t of None \<Rightarrow> True | Some exp \<Rightarrow> now \<le> exp)
        \<and> User (token_user_id t) st = Some u \<and> user_id u = token_user_id t
        \<and> i = \<lparr>UserID = user_id u, NodeID = '''', OrgRole = user_org_role u\<rparr>)"

text \<open>A certificate proves a node.\<close>

definition node_of_cert :: "CallCtx \<Rightarrow> Identity \<Rightarrow> bool" where
  "node_of_cert ctx i \<longleftrightarrow>
     NodeID i \<noteq> '''' \<and> nodeURIScheme @ NodeID i \<in> set (cert_uris ctx) \<and> i = anonymous\<lparr>NodeID := NodeID i\<rparr>"

definition org_admin :: "Role \<Rightarrow> bool" where
  "org_admin r \<longleftrightarrow> r = ROLE_OWNER \<or> r = ROLE_ADMIN"

text \<open>What a tier asks for.\<close>

fun tier_ok :: "(string \<Rightarrow> string) \<Rightarrow> time \<Rightarrow> Store \<Rightarrow> CallCtx \<Rightarrow> Identity \<Rightarrow> Requirement \<Rightarrow> bool" where
  "tier_ok hash now st ctx i reqDenied = False"
| "tier_ok hash now st ctx i reqPublic = True"
| "tier_ok hash now st ctx i reqUser = user_of_token hash now st (bearerToken ctx) i"
| "tier_ok hash now st ctx i reqNode = node_of_cert ctx i"
| "tier_ok hash now st ctx i reqAdmin = (user_of_token hash now st (bearerToken ctx) i \<and> org_admin (OrgRole i))"

text \<open>The rights of a user in a project.\<close>

definition has_role :: "Store \<Rightarrow> string \<Rightarrow> string \<Rightarrow> Role \<Rightarrow> bool" where
  "has_role st uid pid required \<longleftrightarrow>
     (\<exists>u. User uid st = Some u \<and> org_admin (user_org_role u))
     \<or> (\<exists>m. ProjectMember pid uid st = Some m \<and> pm_user_id m = uid \<and> pm_project_id m = pid
          \<and> roleRank required \<le> roleRank (pm_role m))"

definition names_project :: "Store \<Rightarrow> string \<Rightarrow> Project \<Rightarrow> bool" where
  "names_project st raw p \<longleftrightarrow>
     Project (project_id p) st = Some p \<and> (project_id p = raw \<or> Project raw st = None \<and> project_name p = raw)"

lemma store_members:
  assumes "store_inv st" "ProjectMember pid uid st = Some m"
  shows "pm_user_id m = uid" "pm_project_id m = pid"
proof -
  from assms(2) obtain byUser where bu: "map_of (projectMembers st) pid = Some byUser" "map_of byUser uid = Some m"
    by (auto simp: ProjectMember_def split: option.splits)
  then have inn: "inner (projectMembers st) pid = byUser" by (simp add: inner_some)
  from assms(1) have k: "keyed pm_user_id byUser" and l: "list_all (\<lambda>m. pm_project_id m = pid) (mvals byUser)"
    unfolding store_inv_def inv_nested_def by (metis inn)+
  from k bu(2) show "pm_user_id m = uid" by (rule keyedD)
  have "m \<in> set (mvals byUser)" using k bu(2) by (auto simp: in_mvals_iff [OF keyed_mwf])
  with l show "pm_project_id m = pid" by (auto simp: list_all_iff)
qed

lemma resolveProject_names:
  assumes "store_inv st" "resolveProject st raw = Inr p"
  shows "names_project st raw p"
proof -
  have k: "keyed project_id (projects st)" using assms(1) by (simp add: store_inv_def inv_coll_def)
  show ?thesis
  proof (cases "Project raw st")
    case None
    then have "find (\<lambda>p. project_name p = raw) (mvals (projects st)) = Some p"
      using assms(2) by (auto simp: resolveProject_def ProjectByName_def split: option.splits)
    then have "p \<in> set (mvals (projects st))" "project_name p = raw" by (auto simp: find_Some_iff)
    moreover from this(1) obtain j where "map_of (projects st) j = Some p"
      using k by (auto simp: in_mvals_iff [OF keyed_mwf])
    with k have "map_of (projects st) (project_id p) = Some p" by (rule keyed_self)
    ultimately show ?thesis using None by (simp add: names_project_def Project_def)
  next
    case (Some q)
    with assms(2) have "map_of (projects st) raw = Some p" by (simp add: resolveProject_def Project_def)
    moreover from k this have "project_id p = raw" by (rule keyedD)
    ultimately show ?thesis by (simp add: names_project_def Project_def)
  qed
qed

lemma rbac_check_ok:
  assumes "store_inv st" "rbac_check st ctx (Some raw) required = Inr f" "identity ctx = Some i"
  shows "UserID i \<noteq> '''' \<and> (\<exists>p. names_project st raw p \<and> f = Some (project_id p) \<and> has_role st (UserID i) (project_id p) required)"
proof -
  from assms(2,3) obtain p where p: "UserID i \<noteq> ''''" "resolveProject st raw = Inr p" "f = Some (project_id p)"
    and r: "isOrgAdminUser st (UserID i)
      \<or> (\<exists>m. ProjectMember (project_id p) (UserID i) st = Some m \<and> roleRank required \<le> roleRank (pm_role m))"
    by (auto simp: rbac_check_def Let_def split: if_splits sum.splits option.splits)
  from r have "has_role st (UserID i) (project_id p) required"
    using store_members [OF assms(1)]
    by (fastforce simp: has_role_def isOrgAdminUser_def org_admin_def split: option.splits)
  with p resolveProject_names [OF assms(1) p(2)] show ?thesis by blast
qed

lemma nodeIDFromPeer_cert:
  assumes "nodeIDFromPeer ctx = n" "n \<noteq> ''''"
  shows "nodeURIScheme @ n \<in> set (cert_uris ctx)"
proof -
  from assms obtain s where s: "find (\<lambda>s. HasPrefix s nodeURIScheme) (cert_uris ctx) = Some s" "TrimPrefix s nodeURIScheme = n"
    by (auto simp: nodeIDFromPeer_def split: option.splits)
  then have "s \<in> set (cert_uris ctx)" and pre: "HasPrefix s nodeURIScheme" by (auto simp: find_Some_iff)
  from pre s(2) have "take (length nodeURIScheme) s = nodeURIScheme" "drop (length nodeURIScheme) s = n"
    by (simp_all add: TrimPrefix_def HasPrefix_def)
  then have "s = nodeURIScheme @ n" by (metis append_take_drop_id)
  with \<open>s \<in> _\<close> show ?thesis by simp
qed

lemma resolveIdentity_ok:
  assumes "store_inv st" "fst (resolveIdentity hash now st ctx lu) = Inr i"
  shows "node_of_cert ctx i \<or> i = anonymous \<or> user_of_token hash now st (bearerToken ctx) i"
proof (cases "nodeIDFromPeer ctx = '''' \<and> bearerToken ctx \<noteq> ''''")
  case False
  then show ?thesis
    using assms(2) nodeIDFromPeer_cert [of ctx, OF refl]
    by (auto simp: resolveIdentity_def node_of_cert_def anonymous_def Let_def split: if_splits)
next
  case True
  with assms(2) obtain found where f: "TokenByHash (hash (bearerToken ctx)) st = Some found"
    by (auto simp: resolveIdentity_def Let_def split: option.splits)
  from token_lookup [OF assms(1) this] obtain t where t: "found = Some t"
      "token_secret_hash t = hash (bearerToken ctx)" "Token (token_id t) st = Some t"
    by blast
  from assms(2) True f t(1) obtain u where u: "User (token_user_id t) st = Some u"
      "i = \<lparr>UserID = user_id u, NodeID = '''', OrgRole = user_org_role u\<rparr>"
      "case token_expires_at t of None \<Rightarrow> True | Some exp \<Rightarrow> now \<le> exp"
    by (auto simp: resolveIdentity_def resolve_owner_def Let_def split: option.splits if_splits)
  have "map_of (users st) (token_user_id t) = Some u" using u(1) by (simp add: User_def)
  with store_keyed(1) [OF assms(1)] have "user_id u = token_user_id t" by (rule keyedD)
  with t u show ?thesis unfolding user_of_token_def by blast
qed

lemma identity_of_user: "user_of_token hash now st tok i \<Longrightarrow> NodeID i = ''''"
  by (auto simp: user_of_token_def)

lemma node_no_user: "node_of_cert ctx i \<Longrightarrow> UserID i = ''''"
  by (cases i) (simp add: node_of_cert_def anonymous_def)

lemma authorize_ok:
  assumes "store_inv st" "\<not> HasPrefix m ''/grpc.health.''" "fst (authorize hash now st m ctx lu) = Inr ctx'"
  shows "\<exists>req i. map_of methodAuth m = Some req \<and> ctx' = ctx\<lparr>identity := Some i\<rparr> \<and> tier_ok hash now st ctx i req"
proof -
  from assms(2,3) obtain req where req: "map_of methodAuth m = Some req" "req \<noteq> reqDenied"
    by (auto simp: authorize_def Let_def split: option.splits if_splits)
  then obtain i where i: "fst (resolveIdentity hash now st ctx lu) = Inr i" "ctx' = ctx\<lparr>identity := Some i\<rparr>"
    and tier: "req = reqUser \<or> req = reqAdmin \<Longrightarrow> UserID i \<noteq> ''''" "req = reqNode \<Longrightarrow> NodeID i \<noteq> ''''"
      "req = reqAdmin \<Longrightarrow> org_admin (OrgRole i)"
    using assms(2,3)
    by (cases "resolveIdentity hash now st ctx lu") (auto simp: authorize_def org_admin_def Let_def
        split: sum.splits Requirement.splits if_splits)
  have "tier_ok hash now st ctx i req"
    using resolveIdentity_ok [OF assms(1) i(1)] tier req(2) identity_of_user [of hash now st "bearerToken ctx" i]
      node_no_user [of ctx i]
    by (cases req) (auto simp: anonymous_def)
  with req(1) i(2) show ?thesis by blast
qed

text \<open>C8 (authorisation): a unary call other than a health check reaches its handler only if the
  policy table lists the method and the caller meets its tier: a node method asks for a verified
  certificate with that node's URI, a user method for a stored, unexpired token with an existing
  owner, an admin method for an owner with an administrative role as well. Where the method asks for
  a project role and the request has a project, the project exists, the handler sees its canonical
  id whether the request named it by id or by name, and the caller is an administrator of the
  organisation or a member of that project with at least the role; any other request is unchanged.\<close>

theorem authorized_calls:
  assumes "store_inv st" "\<not> HasPrefix m ''/grpc.health.''"
    and "fst (unary_call hash now st m ctx field lastUsed) = Inr (ctx', field')"
  shows "\<exists>req i. map_of methodAuth m = Some req \<and> ctx' = ctx\<lparr>identity := Some i\<rparr>
     \<and> tier_ok hash now st ctx i req
     \<and> (case (map_of minRole m, field) of
          (Some required, Some raw) \<Rightarrow>
            \<exists>p. names_project st raw p \<and> field' = Some (project_id p) \<and> has_role st (UserID i) (project_id p) required
        | _ \<Rightarrow> field' = field)"
proof -
  from assms(3) have au: "fst (authorize hash now st m ctx lastUsed) = Inr ctx'"
      and rb: "rbac_UnaryInterceptor st m ctx' field = Inr field'"
    by (auto simp: unary_call_def split: prod.splits sum.splits)
  from authorize_ok [OF assms(1,2) au] obtain req i where r: "map_of methodAuth m = Some req"
      "ctx' = ctx\<lparr>identity := Some i\<rparr>" "tier_ok hash now st ctx i req"
    by blast
  have "case (map_of minRole m, field) of
          (Some required, Some raw) \<Rightarrow>
            \<exists>p. names_project st raw p \<and> field' = Some (project_id p) \<and> has_role st (UserID i) (project_id p) required
        | _ \<Rightarrow> field' = field"
    using rb rbac_check_ok [OF assms(1), of ctx' _ _ field' i] r(2)
    by (auto simp: rbac_UnaryInterceptor_def rbac_check_def Let_def split: option.splits if_splits)
  with r show ?thesis by blast
qed

text \<open>A cluster with a developer of one project, and a token of the developer.\<close>

definition sample_auth_store :: Store where
  "sample_auth_store = run_log
     [entry 1 ''r1'' (Command_PutUser (zero_user\<lparr>user_meta := meta_of ''u'', user_email := ''u@x''\<rparr>)),
      entry 2 ''r2'' (Command_PutProject \<lparr>project_meta = meta_of ''p'', project_org_id = '''', project_name = ''web''\<rparr>),
      entry 3 ''r3'' (Command_PutProjectMember \<lparr>pm_project_id = ''p'', pm_user_id = ''u'', pm_role = ROLE_DEVELOPER\<rparr>),
      entry 4 ''r4'' (Command_PutToken \<lparr>token_meta = meta_of ''t'', token_user_id = ''u'', token_name = '''',
         token_secret_hash = rev ''zpat_7'', token_kind = TOKEN_KIND_PERSONAL, token_expires_at = Some 100,
         token_last_used_at = None\<rparr>)]
     New"

definition sample_call :: CallCtx where
  "sample_call = \<lparr>cert_uris = [], authorization = [''Bearer zpat_7''], identity = None\<rparr>"

lemma sample_call_ok:
  "\<not> HasPrefix ''/zattera.v1.AppService/CreateApp'' ''/grpc.health.''
   \<and> fst (unary_call rev 50 sample_auth_store ''/zattera.v1.AppService/CreateApp'' sample_call (Some ''web'') [])
     = Inr (sample_call\<lparr>identity := Some \<lparr>UserID = ''u'', NodeID = '''', OrgRole = ROLE_UNSPECIFIED\<rparr>\<rparr>, Some ''p'')"
  by code_simp

lemma sample_auth_inv: "store_inv sample_auth_store"
  unfolding sample_auth_store_def by (rule reachable_inv)

theorem authorized_calls_witness:
  "\<exists>req i. map_of methodAuth ''/zattera.v1.AppService/CreateApp'' = Some req
     \<and> tier_ok rev 50 sample_auth_store sample_call i req"
  using authorized_calls [OF sample_auth_inv sample_call_ok [THEN conjunct1] sample_call_ok [THEN conjunct2]] by blast

theorem minted_token_authenticates_witness:
  "fst (resolveIdentity rev 50
      (PutToken \<lparr>token_meta = meta_of ''t'', token_user_id = ''u'', token_name = '''',
         token_secret_hash = rev ''zpat_48'', token_kind = TOKEN_KIND_PERSONAL, token_expires_at = Some 100,
         token_last_used_at = None\<rparr> sample_auth_store)
      \<lparr>cert_uris = [], authorization = [''Bearer zpat_48''], identity = None\<rparr> [])
    = Inr \<lparr>UserID = ''u'', NodeID = '''', OrgRole = ROLE_UNSPECIFIED\<rparr>"
proof -
  let ?u = "zero_user\<lparr>user_meta := meta_of ''u'', user_email := ''u@x''\<rparr>"
  let ?t = "\<lparr>token_meta = meta_of ''t'', token_user_id = ''u'', token_name = '''',
         token_secret_hash = rev ''zpat_48'', token_kind = TOKEN_KIND_PERSONAL, token_expires_at = Some 100,
         token_last_used_at = None\<rparr>"

  have m: "MintToken rev [1, 0 :: 8 word] = (''zpat_48'', rev ''zpat_48'')" by code_simp
  have u: "User (token_user_id ?t) sample_auth_store = Some ?u" by code_simp
  have n: "nodeIDFromPeer \<lparr>cert_uris = [], authorization = [''Bearer zpat_48''], identity = None\<rparr> = ''''" by code_simp
  show ?thesis
    using minted_token_authenticates [OF sample_auth_inv u, of rev "[1, 0]" 50
        "\<lparr>cert_uris = [], authorization = [''Bearer zpat_48''], identity = None\<rparr>" "[]"] m n
    by (simp add: zero_user_def)
qed

subsection \<open>The tables\<close>

text \<open>Every method with a project role asks for a user, so the check of the role always finds one.\<close>

lemma scoped_methods_need_users:
  "list_all (\<lambda>(m, r). map_of methodAuth m \<in> {Some reqUser, Some reqAdmin}) minRole"
  by code_simp

text \<open>
  The table's comment says that the project-scoped methods of the user tier are gated by the roles.
  These are not, and their handlers only compare the project id of the request with the one of the
  object: with any valid token, whatever the memberships, the call reaches the handler.
\<close>

definition ungated :: "string list" where
  "ungated = [''/zattera.v1.VolumeService/SnapshotVolume'', ''/zattera.v1.VolumeService/ListSnapshots'',
     ''/zattera.v1.VolumeService/RestoreSnapshot'', ''/zattera.v1.DeployService/GetDeployment'',
     ''/zattera.v1.DeployService/ListDeployments'', ''/zattera.v1.DeployService/ListReleases'',
     ''/zattera.v1.DeployService/ListInstances'', ''/zattera.v1.ExecService/Exec'',
     ''/zattera.v1.ExecService/PortForward'']"

lemma ungated_tables:
  "list_all (\<lambda>m. map_of methodAuth m = Some reqUser \<and> map_of minRole m = None \<and> \<not> HasPrefix m ''/grpc.health.'') ungated"
  by code_simp

lemma ungated_reach_handler:
  assumes "m \<in> set ungated" and "fst (resolveIdentity hash now st ctx lu) = Inr i" and "UserID i \<noteq> ''''"
  shows "fst (unary_call hash now st m ctx field lu) = Inr (ctx\<lparr>identity := Some i\<rparr>, field)"
proof -
  have "map_of methodAuth m = Some reqUser" "map_of minRole m = None" "\<not> HasPrefix m ''/grpc.health.''"
    using ungated_tables assms(1) by (auto simp: list_all_iff)
  then show ?thesis
    using assms(2,3) by (cases "resolveIdentity hash now st ctx lu")
      (simp add: unary_call_def authorize_def rbac_UnaryInterceptor_def)
qed

end
