(* ===== verification/Secrets.thy ===== *)
theory Secrets
  imports Samples
begin

text \<open>
  Envelope encryption of the cluster's secrets (\<^verbatim>\<open>internal/daemon/secrets\<close>): the data key is sealed
  under a key derived from the recovery passphrase, and every secret value under the data key. AES-GCM
  and argon2id are parameters; random bytes are arguments, absent when the random source fails. The
  vault holds the key of a node in memory; its hooks are represented by their names.
\<close>

subsection \<open>Cryptography\<close>

record Crypto =
  aead_Seal :: "bytes \<Rightarrow> bytes \<Rightarrow> bytes \<Rightarrow> bytes"
  aead_Open :: "bytes \<Rightarrow> bytes \<Rightarrow> bytes \<Rightarrow> bytes option"
  IDKey :: "bytes \<Rightarrow> bytes \<Rightarrow> uint32 \<Rightarrow> uint32 \<Rightarrow> 8 word \<Rightarrow> nat \<Rightarrow> bytes"

definition argonTime :: uint32 where "argonTime = 3"

definition argonMemoryKiB :: uint32 where "argonMemoryKiB = 64 * 1024"

definition argonThreads :: uint32 where "argonThreads = 4"

definition keyLen :: nat where "keyLen = 32"

definition saltLen :: nat where "saltLen = 16"

text \<open>What the code relies on: opening what was sealed with the same key and nonce gives it back, and a
  derived key has the length asked for.\<close>

definition crypto_ok :: "Crypto \<Rightarrow> bool" where
  "crypto_ok c \<longleftrightarrow>
     (\<forall>key nonce p. length key = keyLen \<longrightarrow> aead_Open c key nonce (aead_Seal c key nonce p) = Some p)
     \<and> (\<forall>pass salt t m p n. length (IDKey c pass salt t m p n) = n)"

definition bytes_of :: "string \<Rightarrow> bytes" where
  "bytes_of s = map of_char s"

definition string_of :: "bytes \<Rightarrow> string" where
  "string_of b = map (\<lambda>x. char_of (unat x)) b"

datatype secrets_error =
    ErrSealed | ErrSealedDataInvalid | KeyLength nat | KeyVersionMismatch uint32 uint32 | RandFailed
  | NilKeyring | NoKeyMaterial

subsection \<open>The data key\<close>

definition SealDataKey ::
  "Crypto \<Rightarrow> bytes option \<Rightarrow> bytes option \<Rightarrow> bytes \<Rightarrow> string \<Rightarrow> uint32 \<Rightarrow> secrets_error + ClusterKeyMaterial" where
  "SealDataKey c salt nonce dataKey passphrase keyVersion =
     (if length dataKey \<noteq> keyLen then Inl (KeyLength (length dataKey))
      else case salt of None \<Rightarrow> Inl RandFailed
      | Some sa \<Rightarrow>
          (let kek = IDKey c (bytes_of passphrase) sa argonTime argonMemoryKiB (ucast argonThreads) keyLen
           in case nonce of None \<Rightarrow> Inl RandFailed
              | Some n \<Rightarrow> Inr \<lparr>ckm_sealed_data_key = aead_Seal c kek n dataKey, ckm_nonce = n, ckm_argon2_salt = sa,
                  ckm_argon2_time = argonTime, ckm_argon2_memory_kib = argonMemoryKiB,
                  ckm_argon2_threads = argonThreads, ckm_key_version = keyVersion\<rparr>))"

definition UnsealDataKey :: "Crypto \<Rightarrow> ClusterKeyMaterial \<Rightarrow> string \<Rightarrow> secrets_error + bytes" where
  "UnsealDataKey c m passphrase =
     (let kek = IDKey c (bytes_of passphrase) (ckm_argon2_salt m) (ckm_argon2_time m) (ckm_argon2_memory_kib m)
                  (ucast (ckm_argon2_threads m)) keyLen
      in case aead_Open c kek (ckm_nonce m) (ckm_sealed_data_key m) of
           None \<Rightarrow> Inl ErrSealedDataInvalid
         | Some dataKey \<Rightarrow> Inr dataKey)"

definition passphrase_alphabet :: string where
  "passphrase_alphabet = ''abcdefghijklmnopqrstuvwxyz234567''"

definition GeneratePassphrase :: "bytes \<Rightarrow> string" where
  "GeneratePassphrase raw =
     concat (map (\<lambda>(i, b). (if i > 0 \<and> i mod 4 = 0 then ''-'' else '''')
                  @ [passphrase_alphabet ! (unat b mod length passphrase_alphabet)])
              (zip [0..<length raw] raw))"

subsection \<open>Sealers and keyrings\<close>

record Sealer =
  sl_key :: bytes
  sl_keyVersion :: uint32

record Keyring =
  kr_dataKey :: bytes
  kr_keyVersion :: uint32

definition NewSealer :: "bytes \<Rightarrow> uint32 \<Rightarrow> secrets_error + Sealer" where
  "NewSealer dataKey keyVersion =
     (if length dataKey \<noteq> keyLen then Inl (KeyLength (length dataKey))
      else Inr \<lparr>sl_key = dataKey, sl_keyVersion = keyVersion\<rparr>)"

definition sealer_Seal :: "Crypto \<Rightarrow> Sealer \<Rightarrow> bytes option \<Rightarrow> bytes \<Rightarrow> secrets_error + EncryptedValue" where
  "sealer_Seal c s nonce plaintext =
     (case nonce of None \<Rightarrow> Inl RandFailed
      | Some n \<Rightarrow> Inr \<lparr>ev_nonce = n, ev_ciphertext = aead_Seal c (sl_key s) n plaintext, ev_key_version = sl_keyVersion s\<rparr>)"

definition sealer_Open :: "Crypto \<Rightarrow> Sealer \<Rightarrow> EncryptedValue \<Rightarrow> secrets_error + bytes" where
  "sealer_Open c s v =
     (if ev_key_version v \<noteq> sl_keyVersion s then Inl (KeyVersionMismatch (ev_key_version v) (sl_keyVersion s))
      else case aead_Open c (sl_key s) (ev_nonce v) (ev_ciphertext v) of
             None \<Rightarrow> Inl ErrSealedDataInvalid
           | Some pt \<Rightarrow> Inr pt)"

definition NewKeyring :: "bytes \<Rightarrow> uint32 \<Rightarrow> secrets_error + Keyring" where
  "NewKeyring dataKey keyVersion =
     (if length dataKey \<noteq> keyLen then Inl (KeyLength (length dataKey))
      else Inr \<lparr>kr_dataKey = dataKey, kr_keyVersion = keyVersion\<rparr>)"

definition keyring_Sealer :: "Keyring \<Rightarrow> secrets_error + Sealer" where
  "keyring_Sealer k = NewSealer (kr_dataKey k) (kr_keyVersion k)"

subsection \<open>The vault\<close>

record Vault =
  v_keyring :: "Keyring option"
  v_sealer :: "Sealer option"
  v_onUnseal :: "string list"

definition NewVault :: Vault where
  "NewVault = \<lparr>v_keyring = None, v_sealer = None, v_onUnseal = []\<rparr>"

text \<open>The result is the error, if any, the hooks that run, and the vault.\<close>

definition Install :: "Keyring option \<Rightarrow> Vault \<Rightarrow> secrets_error option \<times> string list \<times> Vault" where
  "Install kr v =
     (case kr of
        None \<Rightarrow> (Some NilKeyring, [], v)
      | Some k \<Rightarrow>
          (case keyring_Sealer k of
             Inl e \<Rightarrow> (Some e, [], v)
           | Inr s \<Rightarrow>
               if v_sealer v \<noteq> None then (None, [], v)
               else (None, v_onUnseal v, v\<lparr>v_keyring := Some k, v_sealer := Some s, v_onUnseal := []\<rparr>)))"

definition NewUnsealedVault :: "Keyring option \<Rightarrow> secrets_error option \<times> Vault" where
  "NewUnsealedVault kr =
     (case kr of None \<Rightarrow> (None, NewVault) | Some _ \<Rightarrow> (case Install kr NewVault of (e, _, v) \<Rightarrow> (e, v)))"

definition Unsealed :: "Vault \<Rightarrow> bool" where
  "Unsealed v = (v_sealer v \<noteq> None)"

definition OnUnseal :: "string \<Rightarrow> Vault \<Rightarrow> string list \<times> Vault" where
  "OnUnseal fn v =
     (if v_sealer v \<noteq> None then ([fn], v) else ([], v\<lparr>v_onUnseal := v_onUnseal v @ [fn]\<rparr>))"

definition vault_Seal :: "Crypto \<Rightarrow> Vault \<Rightarrow> bytes option \<Rightarrow> bytes \<Rightarrow> secrets_error + EncryptedValue" where
  "vault_Seal c v nonce plaintext =
     (case v_sealer v of None \<Rightarrow> Inl ErrSealed | Some s \<Rightarrow> sealer_Seal c s nonce plaintext)"

definition vault_Open :: "Crypto \<Rightarrow> Vault \<Rightarrow> EncryptedValue \<Rightarrow> secrets_error + bytes" where
  "vault_Open c v val = (case v_sealer v of None \<Rightarrow> Inl ErrSealed | Some s \<Rightarrow> sealer_Open c s val)"

definition vault_DataKey :: "Vault \<Rightarrow> bytes" where
  "vault_DataKey v = (case v_keyring v of None \<Rightarrow> [] | Some k \<Rightarrow> kr_dataKey k)"

definition vault_KeyVersion :: "Vault \<Rightarrow> uint32" where
  "vault_KeyVersion v = (case v_keyring v of None \<Rightarrow> 0 | Some k \<Rightarrow> kr_keyVersion k)"

definition UnsealWithPassphrase ::
  "Crypto \<Rightarrow> ClusterKeyMaterial option \<Rightarrow> string \<Rightarrow> Vault \<Rightarrow> secrets_error option \<times> string list \<times> Vault" where
  "UnsealWithPassphrase c m passphrase v =
     (case m of
        None \<Rightarrow> (Some NoKeyMaterial, [], v)
      | Some km \<Rightarrow>
          (case UnsealDataKey c km passphrase of
             Inl e \<Rightarrow> (Some e, [], v)
           | Inr dataKey \<Rightarrow>
               (case NewKeyring dataKey (ckm_key_version km) of
                  Inl e \<Rightarrow> (Some e, [], v)
                | Inr kr \<Rightarrow> Install (Some kr) v)))"

subsection \<open>Properties\<close>

lemma string_of_bytes_of [simp]: "string_of (bytes_of s) = s"
proof -
  have "char_of (unat (of_char x :: 8 word)) = x" for x
  proof -
    have "unat (of_char x :: 8 word) = unat (of_nat (of_char x) :: 8 word)" by (simp only: of_nat_of_char)
    also have "\<dots> = of_char x" by (simp add: unat_of_nat)
    finally have "unat (of_char x :: 8 word) = of_char x" .
    then show ?thesis by simp
  qed
  then show ?thesis by (simp add: string_of_def bytes_of_def o_def)
qed

text \<open>A vault holds a sealer exactly when it holds a keyring, the sealer is that keyring's, and its
  key has the right length; an unsealed vault has no hook left to run.\<close>

definition vault_ok :: "Vault \<Rightarrow> bool" where
  "vault_ok v \<longleftrightarrow>
     (case v_keyring v of
        None \<Rightarrow> v_sealer v = None
      | Some k \<Rightarrow> length (kr_dataKey k) = keyLen \<and> v_onUnseal v = []
          \<and> v_sealer v = Some \<lparr>sl_key = kr_dataKey k, sl_keyVersion = kr_keyVersion k\<rparr>)"

lemma vault_ok_New [simp]: "vault_ok NewVault"
  by (simp add: vault_ok_def NewVault_def)

lemma vault_ok_Install: "vault_ok v \<Longrightarrow> vault_ok (snd (snd (Install kr v)))"
  by (auto simp: vault_ok_def Install_def keyring_Sealer_def NewSealer_def split: option.splits)

lemma vault_ok_OnUnseal: "vault_ok v \<Longrightarrow> vault_ok (snd (OnUnseal fn v))"
  by (auto simp: vault_ok_def OnUnseal_def split: option.splits)

lemma vault_ok_Unseal: "vault_ok v \<Longrightarrow> vault_ok (snd (snd (UnsealWithPassphrase c m p v)))"
  by (auto simp: UnsealWithPassphrase_def vault_ok_Install split: option.splits sum.splits)

lemma vault_roundtrip:
  assumes "crypto_ok c" "vault_ok v" "vault_Seal c v nonce p = Inr x"
  shows "vault_Open c v x = Inr p"
  using assms by (auto simp: vault_ok_def vault_Seal_def vault_Open_def sealer_Seal_def sealer_Open_def crypto_ok_def
      split: option.splits)

lemma vault_Seal_unsealed: "Unsealed v \<Longrightarrow> \<exists>x. vault_Seal c v (Some n) p = Inr x"
  by (auto simp: Unsealed_def vault_Seal_def sealer_Seal_def)

text \<open>C35 (recovery): sealing the data key under the recovery passphrase and unsealing a node with that
  passphrase installs exactly that key in its vault, runs the registered hooks once, and from then on
  the vault opens whatever another vault with the cluster's key has sealed; unsealing an unsealed
  vault changes nothing.\<close>

theorem unseal_recovers_data_key:
  assumes "crypto_ok c" "length dataKey = keyLen" "vault_ok v" "vault_ok v0"
    and "SealDataKey c (Some salt) (Some nonce) dataKey passphrase ver = Inr m"
    and "\<not> Unsealed v"
    and "v_keyring v0 = Some \<lparr>kr_dataKey = dataKey, kr_keyVersion = ver\<rparr>"
  shows "\<exists>v'. UnsealWithPassphrase c (Some m) passphrase v = (None, v_onUnseal v, v')
     \<and> vault_DataKey v' = dataKey \<and> vault_KeyVersion v' = ver \<and> Unsealed v' \<and> vault_ok v'
     \<and> (\<forall>n p x. vault_Seal c v0 n p = Inr x \<longrightarrow> vault_Open c v' x = Inr p)
     \<and> UnsealWithPassphrase c (Some m) passphrase v' = (None, [], v')"
proof -
  let ?k = "\<lparr>kr_dataKey = dataKey, kr_keyVersion = ver\<rparr>"
  let ?v' = "v\<lparr>v_keyring := Some ?k, v_sealer := Some \<lparr>sl_key = dataKey, sl_keyVersion = ver\<rparr>, v_onUnseal := []\<rparr>"
  have un: "UnsealDataKey c m passphrase = Inr dataKey" and ver: "ckm_key_version m = ver"
    using assms(1,2,5) by (auto simp: SealDataKey_def UnsealDataKey_def crypto_ok_def Let_def)
  then have "UnsealWithPassphrase c (Some m) passphrase v = (None, v_onUnseal v, ?v')"
    and again: "UnsealWithPassphrase c (Some m) passphrase ?v' = (None, [], ?v')"
    using assms(2,6)
    by (auto simp: UnsealWithPassphrase_def NewKeyring_def Install_def keyring_Sealer_def NewSealer_def Unsealed_def)
  moreover have ok: "vault_ok ?v'" using assms(2) by (simp add: vault_ok_def)
  moreover have "vault_Open c ?v' x = Inr p" if "vault_Seal c v0 n p = Inr x" for n p x
    using vault_roundtrip [OF assms(1,4) that] assms(4,7) by (simp add: vault_Open_def vault_ok_def)
  ultimately show ?thesis
    by (intro exI [of _ ?v']) (simp add: vault_DataKey_def vault_KeyVersion_def Unsealed_def)
qed

text \<open>A toy cipher and key derivation that satisfy the hypotheses.\<close>

definition sample_crypto :: Crypto where
  "sample_crypto = \<lparr>aead_Seal = \<lambda>key nonce p. rev p, aead_Open = \<lambda>key nonce ct. Some (rev ct),
     IDKey = \<lambda>pass salt t m p n. replicate n 7\<rparr>"

lemma sample_crypto_ok: "crypto_ok sample_crypto"
  by (simp add: crypto_ok_def sample_crypto_def)

theorem unseal_recovers_data_key_witness:
  "\<exists>m v'. SealDataKey sample_crypto (Some []) (Some []) (replicate 32 1) ''secret'' 1 = Inr m
     \<and> UnsealWithPassphrase sample_crypto (Some m) ''secret'' (NewVault\<lparr>v_onUnseal := [''reload'']\<rparr>) = (None, [''reload''], v')
     \<and> vault_DataKey v' = replicate 32 1"
proof -
  have "\<exists>m. SealDataKey sample_crypto (Some []) (Some []) (replicate 32 1) ''secret'' 1 = Inr m"
    by (simp add: SealDataKey_def keyLen_def Let_def)
  then obtain m where m: "SealDataKey sample_crypto (Some []) (Some []) (replicate 32 1) ''secret'' 1 = Inr m"
    by blast
  let ?v = "NewVault\<lparr>v_onUnseal := [''reload'']\<rparr>"
  let ?peer = "\<lparr>v_keyring = Some \<lparr>kr_dataKey = replicate 32 1, kr_keyVersion = 1\<rparr>,
     v_sealer = Some \<lparr>sl_key = replicate 32 1, sl_keyVersion = 1\<rparr>, v_onUnseal = []\<rparr>"
  have "length (replicate 32 (1 :: 8 word)) = keyLen" by (simp add: keyLen_def)
  moreover have "vault_ok ?v" by (simp add: vault_ok_def NewVault_def)
  moreover have "vault_ok ?peer" by (simp add: vault_ok_def keyLen_def)
  moreover have "\<not> Unsealed ?v" by (simp add: Unsealed_def NewVault_def)
  moreover have "v_keyring ?peer = Some \<lparr>kr_dataKey = replicate 32 1, kr_keyVersion = 1\<rparr>" by simp
  ultimately show ?thesis
    using unseal_recovers_data_key [OF sample_crypto_ok _ _ _ m, of ?v ?peer] m
    by (auto simp: NewVault_def)
qed

end
