(* ===== verification/Services.thy ===== *)
theory Services
  imports Auth Jobs Secrets
begin

text \<open>
  Services of the API that read the store and propose commands (\<^verbatim>\<open>internal/daemon/api\<close>):
  projects, apps, deployments, domains, jobs, volumes and nodes. A handler gets the caller's context
  and the fields of its request, reads the live store and proposes commands through Raft; its result
  is a status or a value. Serialisation, SHA-256 and the sealing of secrets are parameters.
\<close>

subsection \<open>Proposals\<close>

definition toStatus :: "apply_error \<Rightarrow> status" where
  "toStatus e =
     (case e of
        ErrNotLeader \<Rightarrow> Status Unavailable ''not the leader; retry against the leader''
      | ErrBusiness KVConflict \<Rightarrow> Status Aborted ''conflict; retry''
      | _ \<Rightarrow> StatusOf Internal e)"

text \<open>The \<^verbatim>\<open>apply\<close> helper of a service: it stamps the command with a fresh request id and the actor.\<close>

definition api_apply :: "Control \<Rightarrow> string \<Rightarrow> Mutation \<Rightarrow> World \<Rightarrow> status option \<times> World" where
  "api_apply ctl actor m w =
     (case fresh_id ctl w of (rid, w1) \<Rightarrow>
        (case Store_Apply ctl \<lparr>RequestId = rid, Actor = actor, Time = Some (clock_now ctl), Mutation = m\<rparr> w1 of
           (e, w2) \<Rightarrow> (map_option toStatus e, w2)))"

type_synonym 'a response = "(status + 'a) \<times> World"

text \<open>The early return on an error, and a loop with it.\<close>

definition api_then :: "(World \<Rightarrow> status option \<times> World) \<Rightarrow> (World \<Rightarrow> 'a response) \<Rightarrow> World \<Rightarrow> 'a response" where
  "api_then f g w = (case f w of (Some e, w') \<Rightarrow> (Inl e, w') | (None, w') \<Rightarrow> g w')"

fun api_each :: "('b \<Rightarrow> World \<Rightarrow> status option \<times> World) \<Rightarrow> 'b list \<Rightarrow> World \<Rightarrow> status option \<times> World" where
  "api_each f [] w = (None, w)"
| "api_each f (x # xs) w = (case f x w of (Some e, w') \<Rightarrow> (Some e, w') | (None, w') \<Rightarrow> api_each f xs w')"

definition caller :: "CallCtx \<Rightarrow> Identity" where
  "caller ctx = (case identity ctx of None \<Rightarrow> anonymous | Some i \<Rightarrow> i)"

definition user_actor :: "CallCtx \<Rightarrow> string" where
  "user_actor ctx = ''user:'' @ UserID (caller ctx)"

definition newMeta :: "string \<Rightarrow> time \<Rightarrow> Meta" where
  "newMeta i now = \<lparr>Id = i, CreatedAt = Some now, UpdatedAt = Some now\<rparr>"

text \<open>The pattern of a label: a letter or digit, or two of them around at most \<open>k\<close> characters that may be
  hyphens.\<close>

definition is_alnum :: "char \<Rightarrow> bool" where
  "is_alnum c = (let n = of_char c :: nat in 97 \<le> n \<and> n \<le> 122 \<or> 48 \<le> n \<and> n \<le> 57)"

definition label_match :: "nat \<Rightarrow> string \<Rightarrow> bool" where
  "label_match k s =
     (case s of
        [] \<Rightarrow> False
      | c # r \<Rightarrow> is_alnum c
          \<and> (r = [] \<or> length r - 1 \<le> k \<and> list_all (\<lambda>x. is_alnum x \<or> x = CHR ''-'') (butlast r) \<and> is_alnum (last r)))"

definition validDNSName :: "string \<Rightarrow> bool" where
  "validDNSName name = label_match 38 name"

subsection \<open>Projects\<close>

definition opt_org_id :: "Org option \<Rightarrow> string" where
  "opt_org_id x = (case x of None \<Rightarrow> '''' | Some g \<Rightarrow> Id (org_meta g))"

definition ProjectServer_CreateProject :: "Control \<Rightarrow> CallCtx \<Rightarrow> string \<Rightarrow> World \<Rightarrow> Project response" where
  "ProjectServer_CreateProject ctl ctx name w =
     (if UserID (caller ctx) = '''' then (Inl (Status Unauthenticated ''a user identity is required''), w)
      else if \<not> validDNSName name
      then (Inl (Status InvalidArgument ''name must be DNS-safe: [a-z0-9-], 1-40 chars, no leading/trailing hyphen''), w)
      else if ProjectByName name (w_state w) \<noteq> None
      then (Inl (Status AlreadyExists (''project '' @ Quote name @ '' already exists'')), w)
      else case fresh_id ctl w of (i, w1) \<Rightarrow>
        (let proj = \<lparr>project_meta = newMeta i (clock_now ctl), project_org_id = opt_org_id (Org (w_state w)),
                     project_name = name\<rparr>
         in api_then (api_apply ctl (user_actor ctx) (Command_PutProject proj))
             (api_then (api_apply ctl (user_actor ctx)
                 (Command_PutProjectMember \<lparr>pm_project_id = i, pm_user_id = UserID (caller ctx), pm_role = ROLE_OWNER\<rparr>))
               (\<lambda>w. (Inr proj, w))) w1))"

definition ProjectServer_ListProjects :: "Store \<Rightarrow> CallCtx \<Rightarrow> status + Project list" where
  "ProjectServer_ListProjects st ctx =
     (let uid = UserID (caller ctx)
      in if uid = '''' then Inl (Status Unauthenticated ''a user identity is required'')
         else if isOrgAdminUser st uid then Inr (ListProjects st)
         else Inr (List.map_filter (\<lambda>m. Project (pm_project_id m) st) (ListMembershipsOfUser uid st)))"

definition ProjectServer_GetProject :: "Store \<Rightarrow> string \<Rightarrow> status + Project" where
  "ProjectServer_GetProject st pid =
     (case Project pid st of None \<Rightarrow> Inl (Status NotFound ''project not found'') | Some p \<Rightarrow> Inr p)"

text \<open>The cascade lists each kind of object when its loop starts.\<close>

definition ProjectServer_DeleteProject :: "Control \<Rightarrow> CallCtx \<Rightarrow> string \<Rightarrow> World \<Rightarrow> unit response" where
  "ProjectServer_DeleteProject ctl ctx pid w =
     (let del = api_apply ctl (user_actor ctx)
      in if Project pid (w_state w) = None then (Inl (Status NotFound ''project not found''), w)
         else api_then (\<lambda>w. api_each (\<lambda>e. del (Command_DeleteEnvironment (env_id e))) (ListEnvironments pid '''' (w_state w)) w)
             (api_then (\<lambda>w. api_each (\<lambda>a. del (Command_DeleteApp (app_id a))) (ListApps pid (w_state w)) w)
             (api_then (\<lambda>w. api_each (\<lambda>d. del (Command_DeleteDomain (dom_id d))) (ListDomains pid (w_state w)) w)
             (api_then (\<lambda>w. api_each (\<lambda>v. del (Command_DeleteVolume (vol_id v))) (ListVolumes pid (w_state w)) w)
             (api_then (del (Command_DeleteProject pid)) (\<lambda>w. (Inr (), w)))))) w)"

definition opt_user_id :: "User option \<Rightarrow> string" where
  "opt_user_id x = (case x of None \<Rightarrow> '''' | Some u \<Rightarrow> user_id u)"

definition ProjectServer_AddMember :: "Control \<Rightarrow> CallCtx \<Rightarrow> string \<Rightarrow> string \<Rightarrow> Role \<Rightarrow> World \<Rightarrow> ProjectMember response" where
  "ProjectServer_AddMember ctl ctx pid email role w =
     (case UserByEmail email (w_state w) of
        None \<Rightarrow> (Inl (Status NotFound (''user '' @ Quote email @ '' not found'')), w)
      | Some user \<Rightarrow>
          (let member = \<lparr>pm_project_id = pid, pm_user_id = opt_user_id user,
                         pm_role = (if role = ROLE_UNSPECIFIED then ROLE_DEVELOPER else role)\<rparr>
           in api_then (api_apply ctl (user_actor ctx) (Command_PutProjectMember member)) (\<lambda>w. (Inr member, w)) w))"

definition ProjectServer_RemoveMember :: "Control \<Rightarrow> CallCtx \<Rightarrow> string \<Rightarrow> string \<Rightarrow> World \<Rightarrow> unit response" where
  "ProjectServer_RemoveMember ctl ctx pid uid w =
     (if ProjectMember pid uid (w_state w) = None then (Inl (Status NotFound ''member not found''), w)
      else api_then (api_apply ctl (user_actor ctx) (Command_DeleteProjectMember pid uid)) (\<lambda>w. (Inr (), w)) w)"

definition ProjectServer_ListMembers :: "Store \<Rightarrow> string \<Rightarrow> ProjectMember list" where
  "ProjectServer_ListMembers st pid = ListProjectMembers pid st"

subsection \<open>Apps\<close>

definition defaultServiceSpec :: ServiceSpec where
  "defaultServiceSpec = zero_spec
     \<lparr>svc_replicas := \<lparr>replicas_min = 1, replicas_max = 1\<rparr>,
      svc_ports := [\<lparr>port_name = ''http'', container_port = 8080, port_protocol = PROTOCOL_HTTP, public_l4_port = 0\<rparr>],
      svc_healthcheck := zero_health\<lparr>hc_interval := 10 * Second, hc_timeout := 5 * Second,
        hc_grace_period := 60 * Second, hc_unhealthy_threshold := 3\<rparr>,
      svc_stop_grace := 10 * Second\<rparr>"

definition envTypeForName :: "string \<Rightarrow> EnvironmentType" where
  "envTypeForName name =
     (if name = ''production'' then ENVIRONMENT_TYPE_PRODUCTION
      else if name = ''staging'' then ENVIRONMENT_TYPE_STAGING
      else ENVIRONMENT_TYPE_PREVIEW)"

definition resolveApp :: "Store \<Rightarrow> string \<Rightarrow> string \<Rightarrow> status + App" where
  "resolveApp st projectID appIDorName =
     (case (case App appIDorName st of Some a \<Rightarrow> if app_project_id a = projectID then Some a else None | None \<Rightarrow> None) of
        Some a \<Rightarrow> Inr a
      | None \<Rightarrow>
          (case AppByName projectID appIDorName st of
             Some a \<Rightarrow> Inr a
           | None \<Rightarrow> Inl (Status NotFound (''app '' @ Quote appIDorName @ '' not found''))))"

definition resolveEnv :: "Store \<Rightarrow> string \<Rightarrow> string \<Rightarrow> status + Environment" where
  "resolveEnv st projectID envID =
     (case Environment envID st of
        Some env \<Rightarrow> if env_project_id env \<noteq> projectID
                     then Inl (Status NotFound (''environment '' @ Quote envID @ '' not found'')) else Inr env
      | None \<Rightarrow> Inl (Status NotFound (''environment '' @ Quote envID @ '' not found'')))"

definition default_env :: "Control \<Rightarrow> CallCtx \<Rightarrow> string \<Rightarrow> string \<Rightarrow> string \<times> EnvironmentType \<Rightarrow> World \<Rightarrow> status option \<times> World" where
  "default_env ctl ctx pid appID e w =
     (case fresh_id ctl w of (i, w1) \<Rightarrow>
        api_apply ctl (user_actor ctx) (Command_PutEnvironment
          (zero_env\<lparr>env_meta := newMeta i (clock_now ctl), env_app_id := appID, env_project_id := pid,
            env_name := fst e, env_type := snd e, env_service := defaultServiceSpec\<rparr>)) w1)"

definition AppServer_CreateApp :: "Control \<Rightarrow> CallCtx \<Rightarrow> string \<Rightarrow> string \<Rightarrow> bytes \<Rightarrow> World \<Rightarrow> App response" where
  "AppServer_CreateApp ctl ctx pid name build w =
     (if \<not> validDNSName name then (Inl (Status InvalidArgument ''name must be DNS-safe: [a-z0-9-], 1-40 chars''), w)
      else if AppByName pid name (w_state w) \<noteq> None
      then (Inl (Status AlreadyExists (''app '' @ Quote name @ '' already exists'')), w)
      else case fresh_id ctl w of (i, w1) \<Rightarrow>
        (let app = \<lparr>app_meta = newMeta i (clock_now ctl), app_project_id = pid, app_name = name,
                    app_build = build, app_github = []\<rparr>
         in api_then (api_apply ctl (user_actor ctx) (Command_PutApp app))
             (api_then (api_each (default_env ctl ctx pid i)
                 [(''production'', ENVIRONMENT_TYPE_PRODUCTION), (''staging'', ENVIRONMENT_TYPE_STAGING)])
               (\<lambda>w. (Inr app, w))) w1))"

definition AppServer_GetApp :: "Store \<Rightarrow> string \<Rightarrow> string \<Rightarrow> status + App \<times> Environment list" where
  "AppServer_GetApp st pid appID =
     (case resolveApp st pid appID of
        Inl e \<Rightarrow> Inl e
      | Inr app \<Rightarrow> Inr (app, ListEnvironments pid (app_id app) st))"

definition AppServer_DeleteApp :: "Control \<Rightarrow> CallCtx \<Rightarrow> string \<Rightarrow> string \<Rightarrow> World \<Rightarrow> unit response" where
  "AppServer_DeleteApp ctl ctx pid appID w =
     (case resolveApp (w_state w) pid appID of
        Inl e \<Rightarrow> (Inl e, w)
      | Inr app \<Rightarrow>
          api_then (\<lambda>w. api_each (\<lambda>e. api_apply ctl (user_actor ctx) (Command_DeleteEnvironment (env_id e)))
                          (ListEnvironments pid (app_id app) (w_state w)) w)
            (api_then (api_apply ctl (user_actor ctx) (Command_DeleteApp (app_id app))) (\<lambda>w. (Inr (), w))) w)"

text \<open>One environment of an applied configuration. The loop runs over a Go map: its order is that of
  the list, which is arbitrary.\<close>

definition seed_replicas :: "ServiceSpec \<Rightarrow> Environment \<Rightarrow> Environment" where
  "seed_replicas spec env =
     (if svc_scale_to_zero spec \<and> env_effective_replicas env = 0
      then env\<lparr>env_effective_replicas := (if replicas_min (svc_replicas spec) > 0 then replicas_min (svc_replicas spec) else 1)\<rparr>
      else env)"

definition apply_env ::
  "Control \<Rightarrow> CallCtx \<Rightarrow> string \<Rightarrow> App \<Rightarrow> (string, duration) gomap \<Rightarrow> string \<times> ServiceSpec \<Rightarrow> World \<Rightarrow> status option \<times> World" where
  "apply_env ctl ctx pid app idle p w =
     (case p of (name, spec) \<Rightarrow>
        if \<not> validDNSName name
        then (Some (Status InvalidArgument (''environment name '' @ Quote name @ '' is not DNS-safe'')), w)
        else if svc_scale_to_zero spec \<and> svc_stateful spec
        then (Some (Status InvalidArgument
               (''environment '' @ Quote name @ '': scale_to_zero cannot be combined with stateful'')), w)
        else case (case EnvironmentByName (app_id app) name (w_state w) of
                     Some env \<Rightarrow> (env\<lparr>env_service := spec,
                                  env_meta := (env_meta env)\<lparr>UpdatedAt := Some (clock_now ctl)\<rparr>\<rparr>, w)
                   | None \<Rightarrow> (case fresh_id ctl w of (i, w1) \<Rightarrow>
                       (zero_env\<lparr>env_meta := newMeta i (clock_now ctl), env_app_id := app_id app, env_project_id := pid,
                          env_name := name, env_type := envTypeForName name, env_service := spec\<rparr>, w1))) of
               (env, w1) \<Rightarrow>
                 api_apply ctl (user_actor ctx) (Command_PutEnvironment
                   (seed_replicas spec
                      (case map_of idle name of None \<Rightarrow> env | Some d \<Rightarrow> env\<lparr>env_idle_timeout := d\<rparr>))) w1)"

definition AppServer_ApplyAppConfig ::
  "Control \<Rightarrow> CallCtx \<Rightarrow> string \<Rightarrow> string \<Rightarrow> bytes option \<Rightarrow> bytes option \<Rightarrow> (string, ServiceSpec) gomap \<Rightarrow>
   (string, duration) gomap \<Rightarrow> World \<Rightarrow> (App option \<times> Environment list) response" where
  "AppServer_ApplyAppConfig ctl ctx pid appID build github specs idle w =
     (case resolveApp (w_state w) pid appID of
        Inl e \<Rightarrow> (Inl e, w)
      | Inr app \<Rightarrow>
          (let app1 = (case build of None \<Rightarrow> app | Some b \<Rightarrow> app\<lparr>app_build := b\<rparr>);
               app2 = (case github of None \<Rightarrow> app1 | Some g \<Rightarrow> app1\<lparr>app_github := g\<rparr>);
               app3 = app2\<lparr>app_meta := (app_meta app2)\<lparr>UpdatedAt := Some (clock_now ctl)\<rparr>\<rparr>
           in api_then (if build \<noteq> None \<or> github \<noteq> None
                        then api_apply ctl (user_actor ctx) (Command_PutApp app3) else (\<lambda>w. (None, w)))
               (api_then (api_each (apply_env ctl ctx pid app idle) specs)
                 (\<lambda>w. (Inr (App (app_id app) (w_state w), ListEnvironments pid (app_id app) (w_state w)), w))) w))"

text \<open>The values are sealed one by one, each with its own nonce.\<close>

fun seal_all ::
  "Crypto \<Rightarrow> Vault \<Rightarrow> (string \<Rightarrow> bytes option) \<Rightarrow> (string, string) gomap \<Rightarrow> status + (string, EncryptedValue) gomap" where
  "seal_all c v nonce [] = Inr []"
| "seal_all c v nonce ((k, x) # rest) =
     (case vault_Seal c v (nonce k) (bytes_of x) of
        Inl _ \<Rightarrow> Inl (Status Internal ''sealing failed'')
      | Inr sealed \<Rightarrow>
          (case seal_all c v nonce rest of Inl e \<Rightarrow> Inl e | Inr set' \<Rightarrow> Inr ((k, sealed) # set')))"

definition AppServer_SetEnvVars ::
  "Crypto \<Rightarrow> Vault \<Rightarrow> (string \<Rightarrow> bytes option) \<Rightarrow> Control \<Rightarrow> CallCtx \<Rightarrow> string \<Rightarrow> string \<Rightarrow> (string, string) gomap \<Rightarrow>
   string list \<Rightarrow> World \<Rightarrow> unit response" where
  "AppServer_SetEnvVars c v nonce ctl ctx pid envID req_set unset w =
     (case resolveEnv (w_state w) pid envID of
        Inl e \<Rightarrow> (Inl e, w)
      | Inr env \<Rightarrow>
          if length req_set > 0 \<and> \<not> Unsealed v
          then (Inl (Status FailedPrecondition ''cluster key is not unsealed; cannot store secrets''), w)
          else (case seal_all c v nonce req_set of
                  Inl e \<Rightarrow> (Inl e, w)
                | Inr set' \<Rightarrow>
                    api_then (api_apply ctl (user_actor ctx) (Command_SetEnvVars (env_id env) set' unset))
                      (\<lambda>w. (Inr (), w)) w))"

fun open_all :: "Crypto \<Rightarrow> Vault \<Rightarrow> bool \<Rightarrow> (string, EncryptedValue) gomap \<Rightarrow> status + (string, string) gomap" where
  "open_all c v reveal [] = Inr []"
| "open_all c v reveal ((k, x) # rest) =
     (case (if \<not> reveal then Inr ''''
            else if \<not> Unsealed v
            then Inl (Status FailedPrecondition ''cluster key is not unsealed; cannot reveal secrets'')
            else case vault_Open c v x of
                   Inl _ \<Rightarrow> Inl (Status Internal ''unsealing failed'')
                 | Inr pt \<Rightarrow> Inr (string_of pt)) of
        Inl e \<Rightarrow> Inl e
      | Inr val \<Rightarrow> (case open_all c v reveal rest of Inl e \<Rightarrow> Inl e | Inr out \<Rightarrow> Inr ((k, val) # out)))"

definition AppServer_GetEnvVars :: "Crypto \<Rightarrow> Vault \<Rightarrow> Store \<Rightarrow> string \<Rightarrow> string \<Rightarrow> bool \<Rightarrow> status + (string, string) gomap" where
  "AppServer_GetEnvVars c v st pid envID reveal =
     (case resolveEnv st pid envID of
        Inl e \<Rightarrow> Inl e
      | Inr env \<Rightarrow> open_all c v reveal (EnvVars (env_id env) st))"

text \<open>A stored environment always carries a service, so the default of a missing one is left out.\<close>

definition AppServer_SetReplicas ::
  "Control \<Rightarrow> CallCtx \<Rightarrow> string \<Rightarrow> string \<Rightarrow> uint32 \<Rightarrow> uint32 \<Rightarrow> World \<Rightarrow> Environment response" where
  "AppServer_SetReplicas ctl ctx pid envID min' max' w =
     (case resolveEnv (w_state w) pid envID of
        Inl e \<Rightarrow> (Inl e, w)
      | Inr env \<Rightarrow>
          if max' > 0 \<and> min' > max' then (Inl (Status InvalidArgument ''replicas.min > max''), w)
          else (let env1 = env\<lparr>env_service := (env_service env)\<lparr>svc_replicas := \<lparr>replicas_min = min', replicas_max = max'\<rparr>\<rparr>,
                               env_meta := (env_meta env)\<lparr>UpdatedAt := Some (clock_now ctl)\<rparr>\<rparr>
                in api_then (api_apply ctl (user_actor ctx) (Command_PutEnvironment env1)) (\<lambda>w. (Inr env1, w)) w))"

subsection \<open>Deployments\<close>

text \<open>Serialisation and SHA-256, and the resolver of an image's platforms if there is one.\<close>

record DeployServer =
  Platforms :: "(string \<Rightarrow> string list) option"
  marshal_spec :: "ServiceSpec \<Rightarrow> bytes option"
  marshal_value :: "EncryptedValue \<Rightarrow> bytes option"
  sha256_hex :: "bytes \<Rightarrow> string"

definition PutUint64 :: "uint64 \<Rightarrow> bytes" where
  "PutUint64 x = map (\<lambda>i. ucast (drop_bit (8 * i) x)) [7, 6, 5, 4, 3, 2, 1, 0]"

definition ConfigHash :: "DeployServer \<Rightarrow> ServiceSpec \<Rightarrow> uint64 \<Rightarrow> string" where
  "ConfigHash srv spec envVarVersion =
     sha256_hex srv ((case marshal_spec srv spec of None \<Rightarrow> bytes_of ''unmarshalable'' | Some b \<Rightarrow> b) @ PutUint64 envVarVersion)"

text \<open>The 64-bit FNV-1a hash, fed with the variables in the order of their names.\<close>

definition fnv64a_write :: "bytes \<Rightarrow> uint64 \<Rightarrow> uint64" where
  "fnv64a_write b h = fold (\<lambda>x h. (xor h (ucast x)) * 1099511628211) b h"

definition envVarVersion :: "DeployServer \<Rightarrow> Store \<Rightarrow> string \<Rightarrow> uint64" where
  "envVarVersion srv st envID =
     (let vars = EnvVars envID st
      in if vars = [] then 0
         else fold (\<lambda>k h. let h1 = fnv64a_write (bytes_of k) h
                           in case marshal_value srv (the (map_of vars k)) of None \<Rightarrow> h1 | Some b \<Rightarrow> fnv64a_write b h1)
                (sort (map fst vars)) 14695981039346656037)"

definition deploymentTerminal :: "DeploymentPhase \<Rightarrow> bool" where
  "deploymentTerminal p =
     (p \<in> {DEPLOYMENT_PHASE_SUCCEEDED, DEPLOYMENT_PHASE_FAILED, DEPLOYMENT_PHASE_ROLLED_BACK,
           DEPLOYMENT_PHASE_SUPERSEDED, DEPLOYMENT_PHASE_UNSPECIFIED})"

definition deploymentBlocksNewDeploy :: "DeploymentPhase \<Rightarrow> bool" where
  "deploymentBlocksNewDeploy p = (\<not> deploymentTerminal p \<and> p \<noteq> DEPLOYMENT_PHASE_DRAINING_OLD)"

definition hasActiveDeployment :: "Store \<Rightarrow> string \<Rightarrow> bool" where
  "hasActiveDeployment st envID = list_ex (\<lambda>d. deploymentBlocksNewDeploy (dep_phase d)) (ListDeployments envID st)"

definition deploy_resolveEnv :: "Store \<Rightarrow> string \<Rightarrow> status + Environment" where
  "deploy_resolveEnv st envID =
     (case Environment envID st of None \<Rightarrow> Inl (Status NotFound ''environment not found'') | Some env \<Rightarrow> Inr env)"

definition resolveImage :: "Store \<Rightarrow> string \<Rightarrow> string \<Rightarrow> status + string" where
  "resolveImage st image_ref bid =
     (if image_ref \<noteq> '''' then Inr image_ref
      else if bid \<noteq> ''''
      then (case Build bid st of
              None \<Rightarrow> Inl (Status NotFound ''build not found'')
            | Some b \<Rightarrow>
                if build_status b \<noteq> BUILD_STATUS_SUCCEEDED \<or> build_image_ref b = ''''
                then Inl (Status FailedPrecondition ''build has not produced an image yet'')
                else Inr (build_image_ref b))
      else Inl (Status InvalidArgument ''either image_ref or build_id is required''))"

definition resolvePlatforms :: "DeployServer \<Rightarrow> Store \<Rightarrow> string \<Rightarrow> string \<Rightarrow> string list" where
  "resolvePlatforms srv st bid imageRef =
     (if bid \<noteq> '''' then (case Build bid st of None \<Rightarrow> [] | Some b \<Rightarrow> build_platforms b)
      else case Platforms srv of None \<Rightarrow> [] | Some f \<Rightarrow> f imageRef)"

definition buildRelease ::
  "DeployServer \<Rightarrow> Control \<Rightarrow> Environment \<Rightarrow> string \<Rightarrow> World \<Rightarrow> Release \<times> World" where
  "buildRelease srv ctl env imageRef w =
     (case fresh_id ctl w of (i, w1) \<Rightarrow>
        (zero_release\<lparr>rel_meta := newMeta i (clock_now ctl), rel_environment_id := env_id env,
           rel_app_id := env_app_id env, rel_project_id := env_project_id env,
           rel_version := NextReleaseVersion (env_id env) (w_state w), rel_image_ref := imageRef,
           rel_config_hash := ConfigHash srv (env_service env) (envVarVersion srv (w_state w) (env_id env)),
           rel_service := env_service env\<rparr>, w1))"

definition buildDeployment :: "Control \<Rightarrow> Environment \<Rightarrow> string \<Rightarrow> bool \<Rightarrow> World \<Rightarrow> Deployment \<times> World" where
  "buildDeployment ctl env releaseID rollback w =
     (case fresh_id ctl w of (i, w1) \<Rightarrow>
        (zero_deployment\<lparr>dep_meta := newMeta i (clock_now ctl), dep_environment_id := env_id env,
           dep_app_id := env_app_id env, dep_project_id := env_project_id env, dep_release_id := releaseID,
           dep_previous_release_id := env_active_release_id env, dep_phase := DEPLOYMENT_PHASE_PENDING,
           dep_is_rollback := rollback\<rparr>, w1))"

definition previousRelease :: "Store \<Rightarrow> Environment \<Rightarrow> string option" where
  "previousRelease st env =
     (case Release (env_active_release_id env) st of
        None \<Rightarrow> None
      | Some active \<Rightarrow>
          map_option rel_id
            (fold (\<lambda>r best. if rel_version r \<ge> rel_version active then best
                             else case best of
                                    None \<Rightarrow> Some r
                                  | Some b \<Rightarrow> if rel_version r > rel_version b then Some r else best)
              (ListReleases (env_id env) st) None))"

definition commit_release :: "Control \<Rightarrow> CallCtx \<Rightarrow> Release \<Rightarrow> Deployment \<Rightarrow> World \<Rightarrow> Deployment response" where
  "commit_release ctl ctx rel dep =
     api_then (api_apply ctl (identity_Actor (caller ctx)) (Command_PutRelease rel))
       (api_then (api_apply ctl (identity_Actor (caller ctx)) (Command_PutDeployment dep)) (\<lambda>w. (Inr dep, w)))"

definition DeployServer_Deploy ::
  "DeployServer \<Rightarrow> Control \<Rightarrow> CallCtx \<Rightarrow> string \<Rightarrow> string \<Rightarrow> string \<Rightarrow> World \<Rightarrow> Deployment response" where
  "DeployServer_Deploy srv ctl ctx envID image_ref bid w =
     (case deploy_resolveEnv (w_state w) envID of
        Inl e \<Rightarrow> (Inl e, w)
      | Inr env \<Rightarrow>
          if hasActiveDeployment (w_state w) (env_id env)
          then (Inl (Status FailedPrecondition ''a deployment is already in progress for this environment''), w)
          else (case resolveImage (w_state w) image_ref bid of
                  Inl e \<Rightarrow> (Inl e, w)
                | Inr imageRef \<Rightarrow>
                    (case buildRelease srv ctl env imageRef w of (rel, w1) \<Rightarrow>
                       (case buildDeployment ctl env (rel_id rel) False w1 of (dep, w2) \<Rightarrow>
                          commit_release ctl ctx (rel\<lparr>rel_platforms := resolvePlatforms srv (w_state w) bid imageRef\<rparr>) dep w2))))"

definition DeployServer_Rollback ::
  "Control \<Rightarrow> CallCtx \<Rightarrow> string \<Rightarrow> string \<Rightarrow> World \<Rightarrow> Deployment response" where
  "DeployServer_Rollback ctl ctx envID to w =
     (case deploy_resolveEnv (w_state w) envID of
        Inl e \<Rightarrow> (Inl e, w)
      | Inr env \<Rightarrow>
          if hasActiveDeployment (w_state w) (env_id env)
          then (Inl (Status FailedPrecondition ''a deployment is already in progress for this environment''), w)
          else (case (if to = ''''
                      then (case previousRelease (w_state w) env of
                              None \<Rightarrow> Inl (Status FailedPrecondition ''no previous release to roll back to'')
                            | Some prev \<Rightarrow> Inr prev)
                      else (case Release to (w_state w) of
                              Some r \<Rightarrow> if rel_environment_id r \<noteq> env_id env
                                        then Inl (Status NotFound ''target release not found in this environment'')
                                        else Inr to
                            | None \<Rightarrow> Inl (Status NotFound ''target release not found in this environment''))) of
                  Inl e \<Rightarrow> (Inl e, w)
                | Inr target \<Rightarrow>
                    (case buildDeployment ctl env target True w of (dep, w1) \<Rightarrow>
                       api_then (api_apply ctl (identity_Actor (caller ctx)) (Command_PutDeployment dep)) (\<lambda>w. (Inr dep, w)) w1)))"

definition DeployServer_GetDeployment :: "Store \<Rightarrow> string \<Rightarrow> status + Deployment" where
  "DeployServer_GetDeployment st i =
     (case Deployment i st of None \<Rightarrow> Inl (Status NotFound ''deployment not found'') | Some d \<Rightarrow> Inr d)"

definition DeployServer_ListInstances :: "Store \<Rightarrow> string \<Rightarrow> string \<Rightarrow> Assignment list" where
  "DeployServer_ListInstances st envID appID =
     filter (\<lambda>a. \<not> (appID \<noteq> '''' \<and> asg_app_id a \<noteq> appID)) (ListAssignments envID st)"

end
