(* ===== verification/ServicesInfra.thy ===== *)
theory ServicesInfra
  imports Services
begin

text \<open>
  The services for domains (\<^verbatim>\<open>domains.go\<close>), jobs (\<^verbatim>\<open>jobs.go\<close>), volumes (\<^verbatim>\<open>volumes.go\<close>), nodes
  (\<^verbatim>\<open>nodes.go\<close>) and tokens (\<^verbatim>\<open>auth.go\<close>).
\<close>

subsection \<open>Domains\<close>

definition TrimRight :: "char \<Rightarrow> string \<Rightarrow> string" where
  "TrimRight c s = rev (dropWhile (\<lambda>x. x = c) (rev s))"

definition normalizeHostname :: "string \<Rightarrow> string" where
  "normalizeHostname h = ToLower (TrimSuffix (TrimSpace h) ''.'')"

definition normalizePathPrefix :: "string \<Rightarrow> string" where
  "normalizePathPrefix p =
     (let p1 = TrimSpace p
      in if p1 = '''' \<or> p1 = ''/'' then ''''
         else TrimRight (CHR ''/'') (if HasPrefix p1 ''/'' then p1 else ''/'' @ p1))"

definition validHostname :: "string \<Rightarrow> bool" where
  "validHostname h =
     (\<not> (h = '''' \<or> length h > 253) \<and> list_all (label_match 61) (Split (CHR ''.'') h))"

definition collidesWithClusterDomain :: "string \<Rightarrow> string \<Rightarrow> bool" where
  "collidesWithClusterDomain clusterDomain host =
     (clusterDomain \<noteq> '''' \<and> (host = clusterDomain \<or> HasSuffix host (''.'' @ clusterDomain)))"

definition DomainServer_put :: "Control \<Rightarrow> CallCtx \<Rightarrow> Domain \<Rightarrow> World \<Rightarrow> status option \<times> World" where
  "DomainServer_put ctl ctx d = api_apply ctl (identity_Actor (caller ctx)) (Command_PutDomain d)"

definition opt_dom_project :: "Domain option \<Rightarrow> string" where
  "opt_dom_project x = (case x of None \<Rightarrow> '''' | Some d \<Rightarrow> dom_project_id d)"

definition DomainServer_AddDomain ::
  "string \<Rightarrow> Control \<Rightarrow> CallCtx \<Rightarrow> string \<Rightarrow> string \<Rightarrow> string \<Rightarrow> string \<Rightarrow> string \<Rightarrow> World \<Rightarrow> Domain response" where
  "DomainServer_AddDomain clusterDomain ctl ctx pid envID hostname path_prefix portName w =
     (case (case Environment envID (w_state w) of
              Some env \<Rightarrow> if env_project_id env = pid then Some env else None | None \<Rightarrow> None) of
        None \<Rightarrow> (Inl (Status NotFound ''environment not found in this project''), w)
      | Some env \<Rightarrow>
          (let host = normalizeHostname hostname; prefix = normalizePathPrefix path_prefix
           in if \<not> validHostname host
              then (Inl (Status InvalidArgument (''invalid hostname '' @ Quote hostname)), w)
              else if collidesWithClusterDomain clusterDomain host
              then (Inl (Status InvalidArgument (''hostname '' @ Quote host @ '' is in the reserved cluster subdomain namespace'')), w)
              else if DomainByRoute host prefix (w_state w) \<noteq> None
              then (Inl (Status AlreadyExists
                      (if prefix = '''' then ''hostname '' @ Quote host @ '' is already in use''
                       else ''hostname '' @ Quote host @ '' with path prefix '' @ Quote prefix @ '' is already in use'')), w)
              else if list_ex (\<lambda>other. opt_dom_project other \<noteq> pid) (DomainsByHostname host (w_state w))
              then (Inl (Status PermissionDenied (''hostname '' @ Quote host @
                      '' is already used by another project; a hostname cannot be shared across projects'')), w)
              else case fresh_id ctl w of (i, w1) \<Rightarrow>
                (let d = zero_domain\<lparr>dom_meta := newMeta i (clock_now ctl), dom_project_id := pid,
                       dom_app_id := env_app_id env, dom_environment_id := env_id env, dom_hostname := host,
                       dom_path_prefix := prefix, dom_port_name := portName, dom_cert_status := CERT_STATUS_PENDING\<rparr>
                 in api_then (DomainServer_put ctl ctx d) (\<lambda>w. (Inr d, w)) w1)))"

definition project_domain :: "Store \<Rightarrow> string \<Rightarrow> string \<Rightarrow> Domain option" where
  "project_domain st pid domID =
     (case Domain domID st of
        Some d \<Rightarrow> if dom_project_id d = pid then Some d else None
      | None \<Rightarrow> None)"

definition DomainServer_RemoveDomain :: "Control \<Rightarrow> CallCtx \<Rightarrow> string \<Rightarrow> string \<Rightarrow> World \<Rightarrow> unit response" where
  "DomainServer_RemoveDomain ctl ctx pid domID w =
     (case project_domain (w_state w) pid domID of
        None \<Rightarrow> (Inl (Status NotFound ''domain not found''), w)
      | Some d \<Rightarrow>
          api_then (api_apply ctl (identity_Actor (caller ctx)) (Command_DeleteDomain (dom_id d))) (\<lambda>w. (Inr (), w)) w)"

definition DomainServer_SetMiddleware :: "Control \<Rightarrow> CallCtx \<Rightarrow> string \<Rightarrow> string \<Rightarrow> bytes \<Rightarrow> World \<Rightarrow> Domain response" where
  "DomainServer_SetMiddleware ctl ctx pid domID middleware w =
     (case project_domain (w_state w) pid domID of
        None \<Rightarrow> (Inl (Status NotFound ''domain not found''), w)
      | Some d \<Rightarrow>
          (let d1 = d\<lparr>dom_middleware := middleware\<rparr>
           in api_then (DomainServer_put ctl ctx d1) (\<lambda>w. (Inr d1, w)) w))"

text \<open>The callback of the certificate manager; errors are ignored. An index entry without a domain, which a
  well-formed store does not have, is skipped.\<close>

definition DomainServer_SetCertStatus :: "Control \<Rightarrow> CallCtx \<Rightarrow> string \<Rightarrow> CertStatus \<Rightarrow> World \<Rightarrow> World" where
  "DomainServer_SetCertStatus ctl ctx hostname cs w =
     fold (\<lambda>x w. case x of
                    None \<Rightarrow> w
                  | Some d \<Rightarrow> if dom_cert_status d = cs then w
                                else snd (DomainServer_put ctl ctx (d\<lparr>dom_cert_status := cs\<rparr>) w))
       (DomainsByHostname (normalizeHostname hostname) (w_state w)) w"

subsection \<open>Jobs\<close>

definition JobServer_RunJob :: "Control \<Rightarrow> CallCtx \<Rightarrow> string \<Rightarrow> string \<Rightarrow> uint32 \<Rightarrow> World \<Rightarrow> Job response" where
  "JobServer_RunJob ctl ctx envID command maxRetries w =
     (if TrimSpace command = '''' then (Inl (Status InvalidArgument ''command is required''), w)
      else case Environment envID (w_state w) of
        None \<Rightarrow> (Inl (Status NotFound ''environment not found''), w)
      | Some env \<Rightarrow>
          if env_active_release_id env = ''''
          then (Inl (Status FailedPrecondition ''environment has no active release to source an image from''), w)
          else (case fresh_id ctl w of (i, w1) \<Rightarrow>
            (let job = zero_job\<lparr>job_meta := newMeta i (clock_now ctl), job_project_id := env_project_id env,
                   job_app_id := env_app_id env, job_environment_id := env_id env,
                   job_release_id := env_active_release_id env, job_command := command,
                   job_status := JOB_STATUS_QUEUED, job_max_retries := maxRetries,
                   job_created_by_user_id := UserID (caller ctx)\<rparr>
             in api_then (api_apply ctl (identity_Actor (caller ctx)) (Command_PutJob job)) (\<lambda>w. (Inr job, w)) w1)))"

definition project_job :: "Store \<Rightarrow> string \<Rightarrow> string \<Rightarrow> Job option" where
  "project_job st pid jobID =
     (case Job jobID st of
        Some j \<Rightarrow> if pid \<noteq> '''' \<and> job_project_id j \<noteq> pid then None else Some j
      | None \<Rightarrow> None)"

definition JobServer_GetJob :: "Store \<Rightarrow> string \<Rightarrow> string \<Rightarrow> status + Job" where
  "JobServer_GetJob st pid jobID =
     (case project_job st pid jobID of None \<Rightarrow> Inl (Status NotFound ''job not found'') | Some j \<Rightarrow> Inr j)"

definition JobServer_ListJobs :: "Store \<Rightarrow> string \<Rightarrow> string \<Rightarrow> string \<Rightarrow> Job list" where
  "JobServer_ListJobs st pid envID cronName =
     filter (\<lambda>j. \<not> (cronName \<noteq> '''' \<and> job_cron_name j \<noteq> cronName)) (ListJobs pid envID st)"

definition JobServer_jobAssignment :: "Store \<Rightarrow> Job \<Rightarrow> Assignment option" where
  "JobServer_jobAssignment st job = find (\<lambda>a. asg_job_id a = job_id job) (ListAssignments (job_environment_id job) st)"

definition JobServer_CancelJob :: "Control \<Rightarrow> CallCtx \<Rightarrow> string \<Rightarrow> string \<Rightarrow> World \<Rightarrow> Job response" where
  "JobServer_CancelJob ctl ctx pid jobID w =
     (case project_job (w_state w) pid jobID of
        None \<Rightarrow> (Inl (Status NotFound ''job not found''), w)
      | Some job \<Rightarrow>
          if jobTerminal (job_status job) then (Inr job, w)
          else let put = api_apply ctl (identity_Actor (caller ctx));
                   job1 = job\<lparr>job_status := JOB_STATUS_CANCELED, job_finished_at := Some (clock_now ctl),
                              job_meta := (job_meta job)\<lparr>UpdatedAt := Some (clock_now ctl)\<rparr>\<rparr>
               in api_then
                    (case JobServer_jobAssignment (w_state w) job of
                       Some a \<Rightarrow> if asg_desired a \<noteq> ASSIGNMENT_DESIRED_STOP
                                 then put (Command_PutAssignments [a\<lparr>asg_desired := ASSIGNMENT_DESIRED_STOP\<rparr>])
                                 else (\<lambda>w. (None, w))
                     | None \<Rightarrow> (\<lambda>w. (None, w)))
                    (api_then (put (Command_PutJob job1)) (\<lambda>w. (Inr job1, w))) w)"

subsection \<open>Volumes\<close>

definition volumeMounted :: "time \<Rightarrow> Store \<Rightarrow> Volume \<Rightarrow> bool" where
  "volumeMounted now st v =
     ((case vol_lease v of
         None \<Rightarrow> False
       | Some l \<Rightarrow> (case lease_expires_at l of None \<Rightarrow> False | Some exp \<Rightarrow> now < exp))
      \<or> list_ex (\<lambda>a. asg_job_id a = '''' \<and> asg_desired a = ASSIGNMENT_DESIRED_RUN \<and> asg_node_id a = vol_node_id v)
          (ListAssignments (vol_environment_id v) st))"

text \<open>The API has its own copy of the scheduler's choice of a node.\<close>

definition VolumeServer_leastUsedVolumeNode :: "Store \<Rightarrow> string" where
  "VolumeServer_leastUsedVolumeNode st =
     (let counts = fold (\<lambda>v m. mput (vol_node_id v) (mget 0 m (vol_node_id v) + 1) m) (ListVolumes '''' st) []
      in fst (fold (\<lambda>n (best, bestCount).
                if node_status n \<noteq> NODE_STATUS_ALIVE \<or> \<not> node_schedulable n then (best, bestCount)
                else let i = node_id n; c = mget 0 counts i
                     in if best = '''' \<or> c < bestCount \<or> (c = bestCount \<and> i < best) then (i, c) else (best, bestCount))
              (ListNodes st) ('''', 0 :: int)))"

definition VolumeServer_CreateVolume ::
  "Control \<Rightarrow> CallCtx \<Rightarrow> string \<Rightarrow> string \<Rightarrow> string \<Rightarrow> string \<Rightarrow> SnapshotPolicy option \<Rightarrow> World \<Rightarrow> Volume response" where
  "VolumeServer_CreateVolume ctl ctx pid envID name nodeID policy w =
     (if \<not> validDNSName name then (Inl (Status InvalidArgument ''name must be DNS-safe: [a-z0-9-], 1-40 chars''), w)
      else if \<not> (case Environment envID (w_state w) of None \<Rightarrow> False | Some env \<Rightarrow> env_project_id env = pid)
      then (Inl (Status NotFound (''environment '' @ Quote envID @ '' not found'')), w)
      else if VolumeByName pid envID name (w_state w) \<noteq> None
      then (Inl (Status AlreadyExists (''volume '' @ Quote name @ '' already exists in this environment'')), w)
      else if nodeID \<noteq> '''' \<and> Node nodeID (w_state w) = None
      then (Inl (Status InvalidArgument (''node '' @ Quote nodeID @ '' not found'')), w)
      else let node = (if nodeID = '''' then VolumeServer_leastUsedVolumeNode (w_state w) else nodeID)
           in if node = ''''
              then (Inl (Status FailedPrecondition ''no schedulable node available for the volume''), w)
              else case fresh_id ctl w of (i, w1) \<Rightarrow>
                (let v = zero_volume\<lparr>vol_meta := newMeta i (clock_now ctl), vol_project_id := pid,
                       vol_environment_id := envID, vol_name := name, vol_node_id := node,
                       vol_status := VOLUME_STATUS_ACTIVE, vol_snapshot_policy := policy\<rparr>
                 in api_then (api_apply ctl (user_actor ctx) (Command_PutVolume v)) (\<lambda>w. (Inr v, w)) w1))"

text \<open>Deleting also asks the node to remove its copy; that call is best effort and touches no state.\<close>

definition VolumeServer_DeleteVolume :: "Control \<Rightarrow> CallCtx \<Rightarrow> string \<Rightarrow> string \<Rightarrow> World \<Rightarrow> unit response" where
  "VolumeServer_DeleteVolume ctl ctx pid volID w =
     (case (case Volume volID (w_state w) of Some v \<Rightarrow> if vol_project_id v = pid then Some v else None | None \<Rightarrow> None) of
        None \<Rightarrow> (Inl (Status NotFound (''volume '' @ Quote volID @ '' not found'')), w)
      | Some v \<Rightarrow>
          if volumeMounted (clock_now ctl) (w_state w) v
          then (Inl (Status FailedPrecondition ''volume is in use; stop the service before deleting it''), w)
          else api_then (api_apply ctl (user_actor ctx) (Command_DeleteVolume volID)) (\<lambda>w. (Inr (), w)) w)"

subsection \<open>Nodes\<close>

definition NodeServer_apply :: "Control \<Rightarrow> CallCtx \<Rightarrow> Mutation \<Rightarrow> World \<Rightarrow> status option \<times> World" where
  "NodeServer_apply ctl ctx = api_apply ctl (identity_Actor (caller ctx))"

definition set_status :: "string \<Rightarrow> NodeStatus \<Rightarrow> bool \<Rightarrow> Mutation" where
  "set_status nodeID status schedulable = Command_SetNodeStatus
     \<lparr>sns_node_id = nodeID, sns_status = status, sns_last_heartbeat_at = None,
      sns_schedulable_set = True, sns_schedulable = schedulable\<rparr>"

definition NodeServer_SetNodeLabels ::
  "Control \<Rightarrow> CallCtx \<Rightarrow> string \<Rightarrow> (string, string) gomap option \<Rightarrow> bool \<Rightarrow> World \<Rightarrow> Node response" where
  "NodeServer_SetNodeLabels ctl ctx nodeID labels schedulable w =
     (case Node nodeID (w_state w) of
        None \<Rightarrow> (Inl (Status NotFound ''node not found''), w)
      | Some n \<Rightarrow>
          (let n1 = (case labels of None \<Rightarrow> n | Some l \<Rightarrow> n\<lparr>node_labels := l\<rparr>);
               n2 = n1\<lparr>node_schedulable := schedulable, node_meta := (node_meta n1)\<lparr>UpdatedAt := Some (clock_now ctl)\<rparr>\<rparr>
           in api_then (NodeServer_apply ctl ctx (Command_PutNode n2)) (\<lambda>w. (Inr n2, w)) w))"

definition NodeServer_DrainNode :: "Control \<Rightarrow> CallCtx \<Rightarrow> string \<Rightarrow> World \<Rightarrow> Node option response" where
  "NodeServer_DrainNode ctl ctx nodeID w =
     (if Node nodeID (w_state w) = None then (Inl (Status NotFound ''node not found''), w)
      else api_then (NodeServer_apply ctl ctx (set_status nodeID NODE_STATUS_DRAINING False))
             (\<lambda>w. (Inr (Node nodeID (w_state w)), w)) w)"

definition NodeServer_CordonNode :: "Control \<Rightarrow> CallCtx \<Rightarrow> string \<Rightarrow> World \<Rightarrow> Node option response" where
  "NodeServer_CordonNode ctl ctx nodeID w =
     (case Node nodeID (w_state w) of
        None \<Rightarrow> (Inl (Status NotFound ''node not found''), w)
      | Some n \<Rightarrow>
          if node_status n = NODE_STATUS_DRAINING \<or> node_status n = NODE_STATUS_DRAINED then (Inr (Some n), w)
          else api_then (NodeServer_apply ctl ctx (set_status nodeID (node_status n) False))
                 (\<lambda>w. (Inr (Node nodeID (w_state w)), w)) w)"

definition NodeServer_UncordonNode :: "Control \<Rightarrow> CallCtx \<Rightarrow> string \<Rightarrow> World \<Rightarrow> Node option response" where
  "NodeServer_UncordonNode ctl ctx nodeID w =
     (case Node nodeID (w_state w) of
        None \<Rightarrow> (Inl (Status NotFound ''node not found''), w)
      | Some n \<Rightarrow>
          if node_status n = NODE_STATUS_DOWN
          then (Inl (Status FailedPrecondition ''node is down; it returns to service when it heartbeats again''), w)
          else api_then (NodeServer_apply ctl ctx (set_status nodeID NODE_STATUS_ALIVE True))
                 (\<lambda>w. (Inr (Node nodeID (w_state w)), w)) w)"

definition controlNodeCount :: "Store \<Rightarrow> int" where
  "controlNodeCount st =
     fold (\<lambda>n c. fold (\<lambda>r c. if r = NODE_ROLE_CONTROL then c + 1 else c) (node_roles n) c) (ListNodes st) 0"

definition opt_asg_ref :: "Assignment option \<Rightarrow> string" where
  "opt_asg_ref x = (case x of None \<Rightarrow> '''' | Some a \<Rightarrow> asg_id a)"

text \<open>Leaving the Raft quorum is the library's: \<open>removeServer\<close> is its error, if any.\<close>

definition NodeServer_RemoveNode ::
  "(string \<Rightarrow> string option) \<Rightarrow> Control \<Rightarrow> CallCtx \<Rightarrow> string \<Rightarrow> bool \<Rightarrow> World \<Rightarrow> unit response" where
  "NodeServer_RemoveNode removeServer ctl ctx nodeID force w =
     (case Node nodeID (w_state w) of
        None \<Rightarrow> (Inl (Status NotFound ''node not found''), w)
      | Some n \<Rightarrow>
          if \<not> force \<and> node_status n \<noteq> NODE_STATUS_DRAINED
          then (Inl (Status FailedPrecondition ''node is not drained; drain it first or pass force''), w)
          else let isControl = list_ex (\<lambda>r. r = NODE_ROLE_CONTROL) (node_roles n)
               in if isControl \<and> \<not> force \<and> controlNodeCount (w_state w) \<le> 1
                  then (Inl (Status FailedPrecondition ''refusing to remove the last control node without force''), w)
                  else case (if isControl then removeServer nodeID else None) of
                         Some e \<Rightarrow> (Inl (Status Unavailable (''remove control node from raft quorum: '' @ e)), w)
                       | None \<Rightarrow>
                           (let reap = map opt_asg_ref (ListAssignmentsByNode nodeID (w_state w))
                            in api_then (if reap \<noteq> [] then NodeServer_apply ctl ctx (Command_DeleteAssignments reap)
                                         else (\<lambda>w. (None, w)))
                                 (api_then (NodeServer_apply ctl ctx (Command_DeleteNode nodeID)) (\<lambda>w. (Inr (), w))) w))"

definition joinTokenPrefix :: string where "joinTokenPrefix = ''K10''"

definition joinTokenSep :: string where "joinTokenSep = ''::''"

definition redactJoinToken :: "JoinToken \<Rightarrow> JoinToken" where
  "redactJoinToken t = t\<lparr>jt_secret_hash := ''''\<rparr>"

definition NodeServer_CreateJoinToken ::
  "(string \<Rightarrow> string) \<Rightarrow> string \<Rightarrow> bytes option \<Rightarrow> Control \<Rightarrow> CallCtx \<Rightarrow> bool \<Rightarrow> NodeRole list \<Rightarrow> duration \<Rightarrow> World \<Rightarrow>
   (string \<times> JoinToken) response" where
  "NodeServer_CreateJoinToken hash caHash rnd ctl ctx singleUse roles ttl w =
     (case rnd of
        None \<Rightarrow> (Inl (Status Internal ''token generation failed''), w)
      | Some raw \<Rightarrow>
          (let secret = base62Encode raw; tokenStr = joinTokenPrefix @ caHash @ joinTokenSep @ secret
           in case fresh_id ctl w of (i, w1) \<Rightarrow>
                (let jt = \<lparr>jt_meta = newMeta i (clock_now ctl), jt_secret_hash = hash secret, jt_single_use = singleUse,
                       jt_used = False, jt_expires_at = (if ttl > 0 then Some (clock_now ctl + ttl) else None),
                       jt_roles = (if roles = [] then [NODE_ROLE_WORKER] else roles),
                       jt_created_by_user_id = UserID (caller ctx)\<rparr>
                 in api_then (NodeServer_apply ctl ctx (Command_PutJoinToken jt)) (\<lambda>w. (Inr (tokenStr, redactJoinToken jt), w)) w1)))"

subsection \<open>Tokens\<close>

definition redactToken :: "Token \<Rightarrow> Token" where
  "redactToken t = t\<lparr>token_secret_hash := ''''\<rparr>"

definition AuthServer_CreateToken ::
  "(string \<Rightarrow> string) \<Rightarrow> bytes option \<Rightarrow> Control \<Rightarrow> CallCtx \<Rightarrow> string \<Rightarrow> duration \<Rightarrow> World \<Rightarrow> (string \<times> Token) response" where
  "AuthServer_CreateToken hash rnd ctl ctx name ttl w =
     (let uid = UserID (caller ctx)
      in if uid = '''' then (Inl (Status Unauthenticated ''no user identity''), w)
         else case rnd of
           None \<Rightarrow> (Inl (Status Internal ''token generation failed''), w)
         | Some raw \<Rightarrow>
             (case MintToken hash raw of (token, secretHash) \<Rightarrow>
              case fresh_id ctl w of (i, w1) \<Rightarrow>
                (let tok = \<lparr>token_meta = newMeta i (clock_now ctl), token_user_id = uid, token_name = name,
                       token_secret_hash = secretHash, token_kind = TOKEN_KIND_PERSONAL,
                       token_expires_at = (if ttl > 0 then Some (clock_now ctl + ttl) else None),
                       token_last_used_at = None\<rparr>
                 in api_then (api_apply ctl (user_actor ctx) (Command_PutToken tok)) (\<lambda>w. (Inr (token, redactToken tok), w)) w1)))"

definition AuthServer_ListTokens :: "Store \<Rightarrow> CallCtx \<Rightarrow> status + Token list" where
  "AuthServer_ListTokens st ctx =
     (if UserID (caller ctx) = '''' then Inl (Status Unauthenticated ''no user identity'')
      else Inr (map redactToken (ListTokens (UserID (caller ctx)) st)))"

definition AuthServer_RevokeToken :: "Control \<Rightarrow> CallCtx \<Rightarrow> string \<Rightarrow> World \<Rightarrow> unit response" where
  "AuthServer_RevokeToken ctl ctx tokenID w =
     (let i = caller ctx
      in if UserID i = '''' then (Inl (Status Unauthenticated ''no user identity''), w)
         else case Token tokenID (w_state w) of
           None \<Rightarrow> (Inl (Status NotFound ''token not found''), w)
         | Some tok \<Rightarrow>
             if token_user_id tok \<noteq> UserID i \<and> \<not> (OrgRole i = ROLE_OWNER \<or> OrgRole i = ROLE_ADMIN)
             then (Inl (Status PermissionDenied ''cannot revoke another user's token''), w)
             else api_then (api_apply ctl (user_actor ctx) (Command_DeleteToken tokenID)) (\<lambda>w. (Inr (), w)) w)"

end
