(* ===== verification/ServicesProps.thy ===== *)
theory ServicesProps
  imports ServicesInfra AuthProps Replicas
begin

text \<open>
  What the services guarantee, for every outcome of their proposals: routes are never shared between
  projects, at most one rollout per environment is under way, secrets come back as they were set, a
  removed project leaves nothing behind and a removed node runs nothing.
\<close>

subsection \<open>Proposals of a service\<close>

lemma api_apply_world: "snd (api_apply ctl actor m w) = snd (propose ctl actor m w)"
  by (simp add: api_apply_def propose_def split_def)

lemma api_apply_cases:
  obtains (nothing) "w_state (snd (api_apply ctl actor m w)) = w_state w"
  | (performed) e where "w_state (snd (api_apply ctl actor m w)) =
        snd (apply_mutation (new_id ctl (w_ids w)) (Some (clock_now ctl)) m
               (recorded e (stamped ctl actor m w) (w_state w)))"
  unfolding api_apply_world by (rule propose_cases)

lemma api_apply_inv: "store_inv (w_state w) \<Longrightarrow> store_inv (w_state (snd (api_apply ctl actor m w)))"
  by (simp add: api_apply_world propose_inv)

text \<open>No request id drawn from now on was applied before; then a success is an applied command.\<close>

definition fresh_requests :: "Control \<Rightarrow> World \<Rightarrow> bool" where
  "fresh_requests ctl w \<longleftrightarrow>
     inj (new_id ctl) \<and> (\<forall>n \<ge> w_ids w. \<not> mhas (appliedSet (w_state w)) (new_id ctl n))"

lemma fresh_requests_id: "fresh_requests ctl w \<Longrightarrow> fresh_id ctl w = (i, w1) \<Longrightarrow> fresh_requests ctl w1 \<and> w_state w1 = w_state w"
  by (auto simp: fresh_requests_def fresh_id_def)

lemma api_apply_ids [simp]: "w_ids (snd (api_apply ctl actor m w)) = w_ids w + 1"
  by (auto simp: api_apply_def fresh_id_def Store_Apply_def commit_def Let_def split_def split: raft_outcome.split)

lemma api_apply_fresh:
  assumes "fresh_requests ctl w" and "\<And>rid now s. appliedSet (snd (apply_mutation rid now m s)) = appliedSet s"
  shows "fresh_requests ctl (snd (api_apply ctl actor m w))"
proof -
  have new: "\<not> mhas (appliedSet (w_state w)) (new_id ctl n)" if "n \<ge> w_ids w" for n
    using assms(1) that by (simp add: fresh_requests_def del: mhas_iff)
  have "\<not> mhas (appliedSet (w_state (snd (api_apply ctl actor m w)))) (new_id ctl n)" if "n \<ge> w_ids w + 1" for n
  proof (cases rule: api_apply_cases [of ctl actor m w])
    case nothing
    with new [of n] that show ?thesis by (simp del: mhas_iff)
  next
    case (performed e)
    show ?thesis
    proof
      assume "mhas (appliedSet (w_state (snd (api_apply ctl actor m w)))) (new_id ctl n)"
      then have "mhas (appliedSet (recorded e (stamped ctl actor m w) (w_state w))) (new_id ctl n)"
        by (simp only: performed assms(2))
      from recorded_applied [OF this] have "new_id ctl n = new_id ctl (w_ids w)"
        using new [of n] that by (auto simp: stamped_def simp del: mhas_iff)
      with assms(1) that show False by (auto simp: fresh_requests_def inj_eq)
    qed
  qed
  then show ?thesis using assms(1) by (simp add: fresh_requests_def del: mhas_iff)
qed

lemma api_apply_ok:
  assumes "fresh_requests ctl w" "fst (api_apply ctl actor m w) = None"
  obtains e where "w_state (snd (api_apply ctl actor m w)) =
      snd (apply_mutation (new_id ctl (w_ids w)) (Some (clock_now ctl)) m (recorded e (stamped ctl actor m w) (w_state w)))"
proof -
  let ?e = "\<lparr>entry_index = w_index w + 1, entry_data = Some (stamped ctl actor m w)\<rparr>"
  have net: "raft_net ctl (w_proposals w) = Committed"
    using assms(2) by (auto simp: api_apply_def fresh_id_def Store_Apply_def split_def Let_def split: raft_outcome.splits)
  have "\<not> mhas (appliedSet (w_state w)) (new_id ctl (w_ids w))"
    using assms(1) by (simp add: fresh_requests_def del: mhas_iff)
  then have "applied ctl actor m w =
      snd (apply_mutation (new_id ctl (w_ids w)) (Some (clock_now ctl)) m (recorded ?e (stamped ctl actor m w) (w_state w)))"
    unfolding applied_def by (subst FSM_Apply_fresh) (auto simp: fsm_apply_def stamped_def)
  with propose_committed [OF net, of actor m] show ?thesis
    by (intro that [of ?e]) (simp add: api_apply_world)
qed

lemma api_then_world:
  "snd (api_then f g w) = (case fst (f w) of Some _ \<Rightarrow> snd (f w) | None \<Rightarrow> snd (g (snd (f w))))"
  by (simp add: api_then_def split_def split: option.split)

lemma api_then_ok:
  "fst (api_then f g w) = Inr x \<longleftrightarrow> fst (f w) = None \<and> fst (g (snd (f w))) = Inr x"
  by (auto simp: api_then_def split_def split: option.split)

lemma api_then_last: "snd (api_then f (\<lambda>w. (Inr (h w), w)) w) = snd (f w)"
  by (simp add: api_then_def split_def split: option.split)

subsection \<open>Routes\<close>

text \<open>No hostname in two projects, no route twice, no hostname that is malformed or reserved.\<close>

definition route_agrees :: "string \<Rightarrow> Domain \<Rightarrow> string \<Rightarrow> Domain \<Rightarrow> bool" where
  "route_agrees i d j e \<longleftrightarrow>
     (dom_hostname e = dom_hostname d \<longrightarrow>
        dom_project_id e = dom_project_id d \<and> (dom_path_prefix e = dom_path_prefix d \<longrightarrow> j = i))"

definition routes_ok :: "string \<Rightarrow> Store \<Rightarrow> bool" where
  "routes_ok clusterDomain s \<longleftrightarrow>
     (\<forall>i d. map_of (domains s) i = Some d \<longrightarrow>
        validHostname (dom_hostname d) \<and> \<not> collidesWithClusterDomain clusterDomain (dom_hostname d)
        \<and> (\<forall>j e. map_of (domains s) j = Some e \<longrightarrow> route_agrees i d j e))"

text \<open>Putting a domain keeps the routes when it agrees with every other domain.\<close>

lemma routes_ok_put:
  assumes "routes_ok cd s" "validHostname (dom_hostname d)" "\<not> collidesWithClusterDomain cd (dom_hostname d)"
    and "\<And>j e. map_of (domains s) j = Some e \<Longrightarrow> j \<noteq> dom_id d \<Longrightarrow> dom_hostname e = dom_hostname d \<Longrightarrow>
           dom_project_id e = dom_project_id d \<and> dom_path_prefix e \<noteq> dom_path_prefix d"
    and "domains t = mput (dom_id d) d (domains s)"
  shows "routes_ok cd t"
proof -
  have mem: "map_of (domains t) j = Some e \<longleftrightarrow> (if j = dom_id d then e = d else map_of (domains s) j = Some e)" for j e
    by (auto simp: assms(5))
  have old: "route_agrees i x j e" if "map_of (domains s) i = Some x" "map_of (domains s) j = Some e" for i x j e
    using assms(1) that unfolding routes_ok_def by blast
  have new: "route_agrees (dom_id d) d j e" "route_agrees j e (dom_id d) d"
    if "map_of (domains s) j = Some e" "j \<noteq> dom_id d" for j e
    using assms(4) [OF that] unfolding route_agrees_def by metis+
  have "route_agrees i x j e" if "map_of (domains t) i = Some x" "map_of (domains t) j = Some e" for i x j e
  proof (cases "i = dom_id d")
    case i: True
    then have "x = d" using that(1) by (simp add: mem)
    show ?thesis
    proof (cases "j = dom_id d")
      case True
      then show ?thesis using that(2) i \<open>x = d\<close> by (simp add: mem route_agrees_def)
    next
      case False
      then show ?thesis using new(1) [of j e] that(2) i \<open>x = d\<close> by (simp add: mem)
    qed
  next
    case i: False
    then have x: "map_of (domains s) i = Some x" using that(1) by (simp add: mem)
    show ?thesis
    proof (cases "j = dom_id d")
      case True
      then show ?thesis using new(2) [OF x i] that(2) by (simp add: mem)
    next
      case False
      then show ?thesis using old [OF x, of j e] that(2) by (simp add: mem)
    qed
  qed
  moreover have "validHostname (dom_hostname x) \<and> \<not> collidesWithClusterDomain cd (dom_hostname x)"
    if "map_of (domains t) i = Some x" for i x
    using that assms(1-3) unfolding mem routes_ok_def by (cases "i = dom_id d") auto
  ultimately show ?thesis unfolding routes_ok_def by blast
qed

lemma routes_ok_shrink:
  "routes_ok cd s \<Longrightarrow> (\<And>i d. map_of (domains t) i = Some d \<Longrightarrow> map_of (domains s) i = Some d) \<Longrightarrow> routes_ok cd t"
  unfolding routes_ok_def by blast

text \<open>Replacing a domain by one with the same route and project.\<close>

lemma routes_ok_replace:
  assumes "routes_ok cd s" "map_of (domains s) (dom_id d) = Some d0" "dom_hostname d = dom_hostname d0"
    "dom_project_id d = dom_project_id d0" "dom_path_prefix d = dom_path_prefix d0"
    "domains t = mput (dom_id d) d (domains s)"
  shows "routes_ok cd t"
proof (rule routes_ok_put [OF assms(1) _ _ _ assms(6)])
  show "validHostname (dom_hostname d)" "\<not> collidesWithClusterDomain cd (dom_hostname d)"
    using assms(1-3) unfolding routes_ok_def by auto
  fix j e
  assume "map_of (domains s) j = Some e" "j \<noteq> dom_id d" "dom_hostname e = dom_hostname d"
  moreover from this(1) have "route_agrees (dom_id d) d0 j e" using assms(1,2) unfolding routes_ok_def by blast
  ultimately show "dom_project_id e = dom_project_id d \<and> dom_path_prefix e \<noteq> dom_path_prefix d"
    using assms(3-5) by (simp add: route_agrees_def)
qed

lemma recorded_domains [simp]:
  "domains (recorded e c s) = domains s" "domainsByHostname (recorded e c s) = domainsByHostname s"
  "projects (recorded e c s) = projects s" "apps (recorded e c s) = apps s" "envVars (recorded e c s) = envVars s"
  by (simp_all add: recorded_def MarkApplied_def Let_def)

lemma domains_put: "domains (PutDomain d s) = mput (dom_id d) d (domains s)"
  by (simp add: PutDomain_def touch_def Let_def)

lemma domains_delete: "map_of (domains (DeleteDomain i s)) j = Some d \<Longrightarrow> map_of (domains s) j = Some d"
  by (auto simp: DeleteDomain_def touch_def split: option.splits if_splits)

lemma DomainsByHostname_set:
  "store_inv s \<Longrightarrow> set (DomainsByHostname h s) = Some ` {d. Domain (dom_id d) s = Some d \<and> dom_hostname d = h}"
  using midx_listing [OF store_keyed(3) store_indexed(3), of s h] by (simp add: DomainsByHostname_def Domain_def)

lemma DomainByRoute_none:
  assumes "store_inv s" "DomainByRoute h p s = None" "map_of (domains s) i = Some d" "dom_hostname d = h"
  shows "dom_path_prefix d \<noteq> p"
proof
  assume p: "dom_path_prefix d = p"
  have "Domain (dom_id d) s = Some d" using keyed_self [OF store_keyed(3) [OF assms(1)] assms(3)] by (simp add: Domain_def)
  then have "Some d \<in> (\<lambda>p. map_of (domains s) (fst p)) ` set (inner (domainsByHostname s) h)"
    using midx_listing [OF store_keyed(3) store_indexed(3), OF assms(1) assms(1), of h] assms(4) by (simp add: Domain_def)
  then have "Some d \<in> set (map (\<lambda>p. map_of (domains s) (fst p)) (inner (domainsByHostname s) h))" by (simp only: set_map)
  moreover have "opt_path_prefix (Some d) = p" using p by (simp add: opt_path_prefix_def)
  ultimately show False using assms(2) unfolding DomainByRoute_def find_None_iff by blast
qed

lemma put_domain_routes:
  assumes "\<And>s. domains s = domains (w_state w) \<Longrightarrow> routes_ok cd (PutDomain d s)" "routes_ok cd (w_state w)"
  shows "routes_ok cd (w_state (snd (DomainServer_put ctl ctx d w)))"
  unfolding DomainServer_put_def
  by (cases rule: api_apply_cases [of ctl "identity_Actor (caller ctx)" "Command_PutDomain d" w]) (simp_all add: assms)

lemma AddDomain_routes:
  assumes "store_inv (w_state w)" "routes_ok cd (w_state w)"
  shows "routes_ok cd (w_state (snd (DomainServer_AddDomain cd ctl ctx pid envID hostname pp port w)))"
proof -
  let ?s = "w_state w" and ?host = "normalizeHostname hostname" and ?prefix = "normalizePathPrefix pp"
  let ?go = "\<exists>env. Environment envID ?s = Some env \<and> env_project_id env = pid"
  show ?thesis
  proof (cases "?go \<and> validHostname ?host \<and> \<not> collidesWithClusterDomain cd ?host \<and> DomainByRoute ?host ?prefix ?s = None
      \<and> \<not> list_ex (\<lambda>other. opt_dom_project other \<noteq> pid) (DomainsByHostname ?host ?s)")
    case False
    then have "snd (DomainServer_AddDomain cd ctl ctx pid envID hostname pp port w) = w"
      by (auto simp: DomainServer_AddDomain_def Let_def split: option.splits if_splits)
    with assms(2) show ?thesis by simp
  next
    case True
    then obtain env where env: "Environment envID ?s = Some env" "env_project_id env = pid" by blast
    define d where "d = zero_domain\<lparr>dom_meta := newMeta (new_id ctl (w_ids w)) (clock_now ctl), dom_project_id := pid,
       dom_app_id := env_app_id env, dom_environment_id := env_id env, dom_hostname := ?host,
       dom_path_prefix := ?prefix, dom_port_name := port, dom_cert_status := CERT_STATUS_PENDING\<rparr>"
    define w1 where "w1 = w\<lparr>w_ids := w_ids w + 1\<rparr>"
    have d: "dom_hostname d = ?host" "dom_path_prefix d = ?prefix" "dom_project_id d = pid" and w1: "w_state w1 = ?s"
      by (simp_all add: d_def w1_def)
    have res: "snd (DomainServer_AddDomain cd ctl ctx pid envID hostname pp port w) = snd (DomainServer_put ctl ctx d w1)"
      using True env by (simp add: DomainServer_AddDomain_def Let_def fresh_id_def api_then_last d_def w1_def)
    have "dom_project_id e = pid \<and> dom_path_prefix e \<noteq> ?prefix"
      if "map_of (domains ?s) j = Some e" "dom_hostname e = ?host" for j e
    proof -
      have "Domain (dom_id e) ?s = Some e" using keyed_self [OF store_keyed(3) [OF assms(1)] that(1)] by (simp add: Domain_def)
      then have "Some e \<in> set (DomainsByHostname ?host ?s)"
        using that(2) by (simp add: DomainsByHostname_set [OF assms(1)])
      with True have "dom_project_id e = pid" by (auto simp: list_ex_iff opt_dom_project_def)
      moreover have "dom_path_prefix e \<noteq> ?prefix" using True that by (auto dest: DomainByRoute_none [OF assms(1)])
      ultimately show ?thesis by simp
    qed
    then have "routes_ok cd (PutDomain d s)" if "domains s = domains (w_state w1)" for s
      by (intro routes_ok_put [OF assms(2)]) (use True d w1 that in \<open>auto simp: domains_put\<close>)
    moreover have "routes_ok cd (w_state w1)" using assms(2) by (simp only: w1)
    ultimately show ?thesis unfolding res by (rule put_domain_routes)
  qed
qed

lemma project_domain_stored: "project_domain s pid i = Some d \<Longrightarrow> map_of (domains s) i = Some d"
  by (auto simp: project_domain_def Domain_def split: option.splits if_splits)

lemma RemoveDomain_routes:
  assumes "routes_ok cd (w_state w)"
  shows "routes_ok cd (w_state (snd (DomainServer_RemoveDomain ctl ctx pid i w)))"
proof (cases "project_domain (w_state w) pid i")
  case (Some d)
  have "routes_ok cd (w_state (snd (api_apply ctl (identity_Actor (caller ctx)) (Command_DeleteDomain (dom_id d)) w)))"
  proof (cases rule: api_apply_cases [of ctl "identity_Actor (caller ctx)" "Command_DeleteDomain (dom_id d)" w])
    case (performed e)
    show ?thesis unfolding performed
      by (rule routes_ok_shrink [OF assms]) (auto dest!: domains_delete)
  qed (simp add: assms)
  then show ?thesis by (simp add: DomainServer_RemoveDomain_def Some api_then_last)
qed (simp add: DomainServer_RemoveDomain_def assms)

lemma replace_routes:
  assumes "routes_ok cd (w_state w)" "map_of (domains (w_state w)) (dom_id d1) = Some d"
    and "dom_hostname d1 = dom_hostname d" "dom_project_id d1 = dom_project_id d" "dom_path_prefix d1 = dom_path_prefix d"
  shows "routes_ok cd (w_state (snd (DomainServer_put ctl ctx d1 w)))"
proof (rule put_domain_routes [OF _ assms(1)])
  fix s :: Store
  assume s: "domains s = domains (w_state w)"
  show "routes_ok cd (PutDomain d1 s)"
    by (rule routes_ok_replace [OF assms]) (simp add: domains_put s)
qed

lemma SetMiddleware_routes:
  assumes "store_inv (w_state w)" "routes_ok cd (w_state w)"
  shows "routes_ok cd (w_state (snd (DomainServer_SetMiddleware ctl ctx pid i mw w)))"
proof (cases "project_domain (w_state w) pid i")
  case (Some d)
  have "map_of (domains (w_state w)) (dom_id d) = Some d"
    using keyed_self [OF store_keyed(3) [OF assms(1)] project_domain_stored [OF Some]] .
  then have "routes_ok cd (w_state (snd (DomainServer_put ctl ctx (d\<lparr>dom_middleware := mw\<rparr>) w)))"
    by (intro replace_routes [OF assms(2), where d = d]) simp_all
  then show ?thesis by (simp add: DomainServer_SetMiddleware_def Some Let_def api_then_last)
qed (simp add: DomainServer_SetMiddleware_def assms)

text \<open>The callback writes clones listed before the first write; they still are the stored domains, but
  for the status.\<close>

definition same_routes :: "Domain list \<Rightarrow> Store \<Rightarrow> bool" where
  "same_routes ds s \<longleftrightarrow>
     (\<forall>d \<in> set ds. \<exists>e. map_of (domains s) (dom_id d) = Some e \<and> dom_hostname e = dom_hostname d
        \<and> dom_project_id e = dom_project_id d \<and> dom_path_prefix e = dom_path_prefix d)"

lemma put_same_routes:
  fixes ctl ctx
  assumes "store_inv (w_state w)" "routes_ok cd (w_state w)" "same_routes ds (w_state w)" "d \<in> set ds"
    and "dom_meta d1 = dom_meta d" "dom_hostname d1 = dom_hostname d" "dom_project_id d1 = dom_project_id d"
      "dom_path_prefix d1 = dom_path_prefix d"
  defines "w1 \<equiv> snd (DomainServer_put ctl ctx d1 w)"
  shows "store_inv (w_state w1) \<and> routes_ok cd (w_state w1) \<and> same_routes ds (w_state w1)"
proof -
  from assms(3,4) obtain e where e: "map_of (domains (w_state w)) (dom_id d) = Some e" "dom_hostname e = dom_hostname d"
      "dom_project_id e = dom_project_id d" "dom_path_prefix e = dom_path_prefix d"
    unfolding same_routes_def by blast
  have id: "dom_id d1 = dom_id d" using assms(5) by simp
  have "routes_ok cd (w_state w1)" unfolding w1_def
    by (rule replace_routes [OF assms(2), where d = e]) (simp_all add: id e assms(6-8))
  moreover have "store_inv (w_state w1)" by (simp add: w1_def DomainServer_put_def api_apply_inv assms(1))
  moreover have "same_routes ds (w_state w1)"
  proof (cases rule: api_apply_cases [of ctl "identity_Actor (caller ctx)" "Command_PutDomain d1" w])
    case (performed x)
    then have "domains (w_state w1) = mput (dom_id d) d1 (domains (w_state w))"
      by (simp add: w1_def DomainServer_put_def domains_put id)
    with assms(3) e assms(6-8) show ?thesis unfolding same_routes_def by (auto split: if_splits)
  qed (simp add: w1_def DomainServer_put_def assms(3))
  ultimately show ?thesis by blast
qed

lemma SetCertStatus_routes:
  assumes "store_inv (w_state w)" "routes_ok cd (w_state w)"
  shows "routes_ok cd (w_state (DomainServer_SetCertStatus ctl ctx h cs w))"
proof -
  define f where "f = (\<lambda>x w. case x of None \<Rightarrow> w
    | Some d \<Rightarrow> if dom_cert_status d = cs then w else snd (DomainServer_put ctl ctx (d\<lparr>dom_cert_status := cs\<rparr>) w))"
  have "store_inv (w_state (fold f xs w)) \<and> routes_ok cd (w_state (fold f xs w))"
    if "same_routes (List.map_filter (\<lambda>x. x) xs) (w_state w)" "store_inv (w_state w)" "routes_ok cd (w_state w)" for xs w
    using that
  proof (induction xs arbitrary: w)
    case (Cons x xs)
    have tail: "same_routes (List.map_filter (\<lambda>x. x) xs) (w_state (f x w)) \<and> store_inv (w_state (f x w))
        \<and> routes_ok cd (w_state (f x w))"
    proof (cases x)
      case (Some d)
      let ?ds = "List.map_filter (\<lambda>x. x) (x # xs)"
      have "d \<in> set ?ds" by (simp add: Some map_filter_simps)
      from put_same_routes [OF Cons.prems(2,3,1) this, of "d\<lparr>dom_cert_status := cs\<rparr>" ctl ctx] Cons.prems Some show ?thesis
        by (auto simp: f_def same_routes_def map_filter_simps)
    qed (use Cons.prems in \<open>auto simp: f_def map_filter_simps\<close>)
    from Cons.IH [of "f x w"] tail show ?case by simp
  qed simp
  moreover have "same_routes (List.map_filter (\<lambda>x. x) (DomainsByHostname (normalizeHostname h) (w_state w))) (w_state w)"
    unfolding same_routes_def
    by (auto simp: map_filter_def DomainsByHostname_set [OF assms(1)] Domain_def)
  ultimately show ?thesis using assms unfolding DomainServer_SetCertStatus_def f_def by blast
qed

text \<open>Any sequence of requests.\<close>

datatype domain_request =
    AddDomain Control CallCtx string string string string string
  | RemoveDomain Control CallCtx string string
  | SetMiddleware Control CallCtx string string bytes
  | SetCertStatus Control CallCtx string CertStatus

fun serve_domain :: "string \<Rightarrow> domain_request \<Rightarrow> World \<Rightarrow> World" where
  "serve_domain cd (AddDomain ctl ctx pid envID h pp port) w = snd (DomainServer_AddDomain cd ctl ctx pid envID h pp port w)"
| "serve_domain cd (RemoveDomain ctl ctx pid i) w = snd (DomainServer_RemoveDomain ctl ctx pid i w)"
| "serve_domain cd (SetMiddleware ctl ctx pid i mw) w = snd (DomainServer_SetMiddleware ctl ctx pid i mw w)"
| "serve_domain cd (SetCertStatus ctl ctx h cs) w = DomainServer_SetCertStatus ctl ctx h cs w"

lemma serve_domain_ok:
  assumes "store_inv (w_state w)" "routes_ok cd (w_state w)"
  shows "routes_ok cd (w_state (serve_domain cd r w))"
  using assms by (cases r) (simp_all add: AddDomain_routes RemoveDomain_routes SetMiddleware_routes SetCertStatus_routes)

lemma DomainServer_put_inv: "store_inv (w_state w) \<Longrightarrow> store_inv (w_state (snd (DomainServer_put ctl ctx d w)))"
  by (simp add: DomainServer_put_def api_apply_inv)

lemma fold_world_inv: "(\<And>x w. I w \<Longrightarrow> I (f x w)) \<Longrightarrow> I w \<Longrightarrow> I (fold f xs w)"
  by (induction xs arbitrary: w) auto

lemma fresh_id_state [simp]: "w_state (snd (fresh_id ctl w)) = w_state w"
  by (simp add: fresh_id_def)

lemma serve_domain_inv: "store_inv (w_state w) \<Longrightarrow> store_inv (w_state (serve_domain cd r w))"
proof (cases r)
  case (SetCertStatus ctl ctx h cs)
  assume "store_inv (w_state w)"
  then show ?thesis
    unfolding SetCertStatus serve_domain.simps DomainServer_SetCertStatus_def
    by (intro fold_world_inv [where I = "\<lambda>w. store_inv (w_state w)"])
      (auto simp: DomainServer_put_inv split: option.split)
qed (auto simp: DomainServer_AddDomain_def DomainServer_RemoveDomain_def DomainServer_SetMiddleware_def Let_def
    split_def api_then_last DomainServer_put_inv api_apply_inv split: option.split)


definition sample_projects :: World where
  "sample_projects = \<lparr>w_state = run_log
     [entry 1 ''r1'' (Command_PutEnvironment (zero_env\<lparr>env_meta := meta_of ''e1'', env_project_id := ''p1''\<rparr>)),
      entry 2 ''r2'' (Command_PutEnvironment (zero_env\<lparr>env_meta := meta_of ''e2'', env_project_id := ''p2''\<rparr>))] New,
     w_index = 2, w_ids = 0, w_proposals = 0\<rparr>"

definition sample_domain_requests :: "domain_request list" where
  "sample_domain_requests =
     (let ctl = sample_control (\<lambda>_. Committed)
      in [AddDomain ctl sample_call ''p1'' ''e1'' ''Shop.example.com.'' '''' ''http'',
          AddDomain ctl sample_call ''p2'' ''e2'' ''shop.example.com'' ''/api'' ''http'',
          AddDomain ctl sample_call ''p1'' ''e1'' ''shop.example.com'' ''api/'' ''http''])"

lemma sample_domains_served:
  "map (\<lambda>d. (dom_project_id d, dom_hostname d, dom_path_prefix d))
     (ListDomains '''' (w_state (fold (serve_domain ''zattera.app'') sample_domain_requests sample_projects)))
   = [(''p1'', ''shop.example.com'', ''''), (''p1'', ''shop.example.com'', ''/api'')]"
  by code_simp


subsection \<open>Rollouts\<close>

text \<open>At most one deployment of an environment is on its way to a promotion.\<close>

definition one_rollout :: "Store \<Rightarrow> bool" where
  "one_rollout s \<longleftrightarrow>
     (\<forall>i j d e. deps s i = Some d \<longrightarrow> deps s j = Some e \<longrightarrow> dep_environment_id d = dep_environment_id e \<longrightarrow>
        deploymentBlocksNewDeploy (dep_phase d) \<longrightarrow> deploymentBlocksNewDeploy (dep_phase e) \<longrightarrow> i = j)"

lemma hasActive_false:
  assumes "store_inv s" "\<not> hasActiveDeployment s envID" "deps s i = Some d" "dep_environment_id d = envID"
  shows "\<not> deploymentBlocksNewDeploy (dep_phase d)"
proof -
  have "d \<in> set (ListDeployments envID s)"
    using assms(3,4) deployment_rc.in_list_iff [OF store_keyed(8) [OF assms(1)], of d envID]
      keyed_self [OF store_keyed(8) [OF assms(1)] assms(3)] by (simp add: Deployment_def)
  with assms(2) show ?thesis by (auto simp: hasActiveDeployment_def list_ex_iff)
qed

lemma phase_edge_blocks: "phase_edge b p q \<Longrightarrow> deploymentBlocksNewDeploy q \<Longrightarrow> deploymentBlocksNewDeploy p"
  by (induction rule: phase_edge.induct) (auto simp: deploymentBlocksNewDeploy_def deploymentTerminal_def isTerminalPhase_def)

lemma stepped_blocks:
  assumes "stepped x y" "y = Some d'" "deploymentBlocksNewDeploy (dep_phase d')"
  shows "\<exists>d. x = Some d \<and> deploymentBlocksNewDeploy (dep_phase d) \<and> dep_environment_id d = dep_environment_id d'"
  using assms phase_edge_blocks unfolding stepped_def by (metis option.inject)

lemma pass_one_rollout:
  assumes "store_inv (w_state w)" "one_rollout (w_state w)"
  shows "one_rollout (after (reconcileAll ctl) w)"
  unfolding one_rollout_def
proof (intro allI impI)
  let ?t = "after (reconcileAll ctl) w"
  have st: "stepped (deps (w_state w) i) (deps ?t i)" for i using reconcileAll_stepped [OF assms(1), of ctl] by blast
  fix i j d e
  assume "deps ?t i = Some d" "deps ?t j = Some e" "dep_environment_id d = dep_environment_id e"
    "deploymentBlocksNewDeploy (dep_phase d)" "deploymentBlocksNewDeploy (dep_phase e)"
  then show "i = j"
    using stepped_blocks [OF st, of i d] stepped_blocks [OF st, of j e] assms(2) unfolding one_rollout_def by metis
qed

text \<open>Storing a new pending deployment of an environment without one.\<close>

lemma put_one_rollout:
  assumes "one_rollout s" "deps t = (deps s)(dep_id d \<mapsto> d)"
    and "\<And>i e. deps s i = Some e \<Longrightarrow> dep_environment_id e = dep_environment_id d \<Longrightarrow> \<not> deploymentBlocksNewDeploy (dep_phase e)"
  shows "one_rollout t"
  unfolding one_rollout_def
proof (intro allI impI)
  fix i j x y
  assume h: "deps t i = Some x" "deps t j = Some y" "dep_environment_id x = dep_environment_id y"
    "deploymentBlocksNewDeploy (dep_phase x)" "deploymentBlocksNewDeploy (dep_phase y)"
  show "i = j"
  proof (cases "i = dep_id d \<or> j = dep_id d")
    case True
    with h assms(3) show ?thesis by (auto simp: assms(2) split: if_splits)
  next
    case False
    with h have "deps s i = Some x" "deps s j = Some y" by (simp_all add: assms(2))
    with h(3-) assms(1) show ?thesis unfolding one_rollout_def by blast
  qed
qed

lemma apply_PutDeployment_rollout:
  assumes "one_rollout (w_state w)"
    and "\<And>i e. deps (w_state w) i = Some e \<Longrightarrow> dep_environment_id e = dep_environment_id d \<Longrightarrow> \<not> deploymentBlocksNewDeploy (dep_phase e)"
  shows "one_rollout (w_state (snd (api_apply ctl actor (Command_PutDeployment d) w)))"
proof (cases rule: api_apply_cases [of ctl actor "Command_PutDeployment d" w])
  case (performed e)
  show ?thesis
    by (rule put_one_rollout [OF assms(1) _ assms(2)]) (auto simp: performed PutDeployment_def touch_def)
qed (simp add: assms(1))

lemma apply_PutRelease_deps: "deps (w_state (snd (api_apply ctl actor (Command_PutRelease r) w))) = deps (w_state w)"
  by (cases rule: api_apply_cases [of ctl actor "Command_PutRelease r" w]) (simp_all add: PutRelease_def touch_def)

lemma one_rollout_cong: "deps t = deps s \<Longrightarrow> one_rollout t = one_rollout s"
  by (simp only: one_rollout_def)

lemma commit_release_rollout:
  assumes "one_rollout (w_state w)"
    and "\<And>i e. deps (w_state w) i = Some e \<Longrightarrow> dep_environment_id e = dep_environment_id d \<Longrightarrow> \<not> deploymentBlocksNewDeploy (dep_phase e)"
  shows "one_rollout (w_state (snd (commit_release ctl ctx r d w)))"
proof -
  let ?w1 = "snd (api_apply ctl (identity_Actor (caller ctx)) (Command_PutRelease r) w)"
  have d1: "deps (w_state ?w1) = deps (w_state w)" by (rule apply_PutRelease_deps)
  then have one: "one_rollout (w_state ?w1)" using assms(1) one_rollout_cong by blast
  have "one_rollout (w_state (snd (api_apply ctl (identity_Actor (caller ctx)) (Command_PutDeployment d) ?w1)))"
    by (rule apply_PutDeployment_rollout [OF one]) (use d1 assms(2) in auto)
  with one show ?thesis by (simp add: commit_release_def api_then_world split: option.split)
qed

lemma Deploy_rollout:
  assumes "store_inv (w_state w)" "one_rollout (w_state w)"
  shows "one_rollout (w_state (snd (DeployServer_Deploy srv ctl ctx envID img bid w)))"
proof (cases "deploy_resolveEnv (w_state w) envID")
  case (Inr env)
  show ?thesis
  proof (cases "hasActiveDeployment (w_state w) (env_id env)")
    case False
    show ?thesis
    proof (cases "resolveImage (w_state w) img bid")
      case ref: (Inr ref)
      obtain rel w1 where r: "buildRelease srv ctl env ref w = (rel, w1)" by fastforce
      obtain d w2 where d: "buildDeployment ctl env (rel_id rel) False w1 = (d, w2)" by fastforce
      have w2: "w_state w2 = w_state w" and env: "dep_environment_id d = env_id env"
        using r d by (auto simp: buildRelease_def buildDeployment_def fresh_id_def)
      have "one_rollout (w_state w2)" using assms(2) w2 by simp
      then have "one_rollout (w_state (snd (commit_release ctl ctx
          (rel\<lparr>rel_platforms := resolvePlatforms srv (w_state w) bid ref\<rparr>) d w2)))"
        by (rule commit_release_rollout) (use hasActive_false [OF assms(1) False] w2 env in auto)
      then show ?thesis by (simp add: DeployServer_Deploy_def Inr False ref r d)
    qed (simp add: DeployServer_Deploy_def Inr False assms(2))
  qed (simp add: DeployServer_Deploy_def Inr assms(2))
qed (simp add: DeployServer_Deploy_def assms(2))

lemma Rollback_rollout:
  assumes "store_inv (w_state w)" "one_rollout (w_state w)"
  shows "one_rollout (w_state (snd (DeployServer_Rollback ctl ctx envID to w)))"
proof -
  have put: "one_rollout (w_state (snd (api_apply ctl actor (Command_PutDeployment (fst (buildDeployment ctl env r True w)))
      (snd (buildDeployment ctl env r True w)))))"
    if "\<not> hasActiveDeployment (w_state w) (env_id env)" for actor env r
    by (rule apply_PutDeployment_rollout)
      (use assms hasActive_false [OF assms(1) that] in \<open>auto simp: buildDeployment_def fresh_id_def\<close>)
  then show ?thesis
    using assms(2) by (auto simp: DeployServer_Rollback_def split_def api_then_last split: sum.split)
qed

text \<open>Requests and passes of the orchestrator, in any order.\<close>

datatype rollout_event =
    Deploy DeployServer Control CallCtx string string string
  | Rollback Control CallCtx string string
  | OrchestratorPass Control

fun rollout_step :: "rollout_event \<Rightarrow> World \<Rightarrow> World" where
  "rollout_step (Deploy srv ctl ctx envID img bid) w = snd (DeployServer_Deploy srv ctl ctx envID img bid w)"
| "rollout_step (Rollback ctl ctx envID to) w = snd (DeployServer_Rollback ctl ctx envID to w)"
| "rollout_step (OrchestratorPass ctl) w = snd (reconcileAll ctl w)"

lemma rollout_step_inv:
  assumes "store_inv (w_state w)"
  shows "store_inv (w_state (rollout_step e w))"
proof (cases e)
  case (OrchestratorPass ctl)
  then show ?thesis using reconcileAll_stepped [OF assms, of ctl] by (simp add: after_def)
qed (use assms in \<open>auto simp: DeployServer_Deploy_def DeployServer_Rollback_def commit_release_def api_then_world
    buildRelease_def buildDeployment_def fresh_id_def api_then_last api_apply_inv split: sum.split option.split prod.split\<close>)

lemma rollout_step_one:
  assumes "store_inv (w_state w)" "one_rollout (w_state w)"
  shows "one_rollout (w_state (rollout_step e w))"
  using assms pass_one_rollout [OF assms] Deploy_rollout [OF assms] Rollback_rollout [OF assms]
  by (cases e) (simp_all add: after_def)


definition sample_server :: DeployServer where
  "sample_server = \<lparr>Platforms = None, marshal_spec = (\<lambda>_. Some []), marshal_value = (\<lambda>_. Some []),
     sha256_hex = (\<lambda>b. replicate (length b) (CHR ''a''))\<rparr>"

definition sample_env_world :: World where
  "sample_env_world = \<lparr>w_state = run_log
     [entry 1 ''r1'' (Command_PutEnvironment (zero_env\<lparr>env_meta := meta_of ''e'', env_project_id := ''p''\<rparr>))] New,
     w_index = 1, w_ids = 0, w_proposals = 0\<rparr>"

definition sample_rollout :: "rollout_event list" where
  "sample_rollout =
     (let ctl = sample_control (\<lambda>_. Committed)
      in [Deploy sample_server ctl sample_call ''e'' ''img:1'' '''', Deploy sample_server ctl sample_call ''e'' ''img:2'' ''''])"

lemma sample_rollout_eval:
  "map dep_phase (ListDeployments ''e'' (w_state (fold rollout_step sample_rollout sample_env_world))) = [DEPLOYMENT_PHASE_PENDING]"
  by code_simp


subsection \<open>Secrets\<close>

lemma seal_all_open:
  assumes "crypto_ok c" "vault_ok v" "seal_all c v nonce xs = Inr ys"
  shows "map fst ys = map fst xs \<and> open_all c v True ys = Inr xs"
  using assms(3)
proof (induction xs arbitrary: ys)
  case (Cons p xs)
  obtain k x where p: "p = (k, x)" by fastforce
  from Cons.prems obtain z zs where z: "vault_Seal c v (nonce k) (bytes_of x) = Inr z" "seal_all c v nonce xs = Inr zs"
      "ys = (k, z) # zs"
    by (auto simp: p split: sum.splits)
  moreover have "Unsealed v" using z(1) by (auto simp: vault_Seal_def Unsealed_def split: option.splits)
  ultimately show ?case using Cons.IH [OF z(2)] vault_roundtrip [OF assms(1,2) z(1)] by (simp add: p)
qed simp

lemma open_all_lookup:
  "open_all c v True ys = Inr out \<Longrightarrow>
     (case map_of ys k of None \<Rightarrow> map_of out k = None
      | Some z \<Rightarrow> \<exists>pt. vault_Open c v z = Inr pt \<and> map_of out k = Some (string_of pt))"
  by (induction ys arbitrary: out) (auto split: sum.splits if_splits option.splits)

lemma open_all_total:
  assumes "Unsealed v" "\<And>k z. (k, z) \<in> set ys \<Longrightarrow> \<exists>pt. vault_Open c v z = Inr pt"
  shows "\<exists>out. open_all c v True ys = Inr out"
  using assms(2)
proof (induction ys)
  case (Cons p ys)
  obtain k z where p: "p = (k, z)" by fastforce
  obtain pt where "vault_Open c v z = Inr pt" using Cons.prems [of k z] by (auto simp: p)
  moreover obtain out where "open_all c v True ys = Inr out" using Cons.IH Cons.prems by fastforce
  ultimately show ?case by (simp add: p assms(1))
qed simp

lemma fold_mdel_lookup: "map_of (fold mdel us m) k = (if k \<in> set us then None else map_of m k)"
  by (induction us arbitrary: m) auto

lemma SetEnvVars_lookup:
  "mwf set' \<Longrightarrow> map_of (EnvVars e (SetEnvVars e set' unset s)) k =
     (if k \<in> set unset then None else case map_of set' k of Some x \<Rightarrow> Some x | None \<Rightarrow> map_of (EnvVars e s) k)"
  by (simp add: EnvVars_def SetEnvVars_def touch_def Let_def inner_def fold_mdel_lookup fold_mput_map_of map_add_def
      split: option.split)

lemma resolveEnv_cong: "environments t = environments s \<Longrightarrow> resolveEnv t pid e = resolveEnv s pid e"
  by (simp add: resolveEnv_def Environment_def)

lemma resolveEnv_id: "store_inv s \<Longrightarrow> resolveEnv s pid e = Inr env \<Longrightarrow> env_id env = e \<and> env_project_id env = pid"
  using keyedD [OF store_keyed(6), of s e env] by (auto simp: resolveEnv_def Environment_def split: option.splits if_splits)

lemma open_all_sealed:
  assumes "crypto_ok c" "vault_ok v" "seal_all c v nonce xs = Inr ys" "mwf xs" "map_of ys k = Some z"
  shows "\<exists>x. map_of xs k = Some x \<and> vault_Open c v z = Inr (bytes_of x)"
  using assms(3-5)
proof (induction xs arbitrary: ys)
  case (Cons p xs)
  obtain j x where p: "p = (j, x)" by fastforce
  from Cons.prems(1) obtain y zs where z: "vault_Seal c v (nonce j) (bytes_of x) = Inr y" "seal_all c v nonce xs = Inr zs"
      "ys = (j, y) # zs"
    by (auto simp: p split: sum.splits)
  show ?case
  proof (cases "k = j")
    case True
    then show ?thesis using Cons.prems(3) vault_roundtrip [OF assms(1,2) z(1)] by (simp add: z p)
  next
    case False
    then show ?thesis using Cons.IH [OF z(2)] Cons.prems(2,3) by (simp add: z p mwf_def)
  qed
qed simp

lemma seal_all_keys: "seal_all c v nonce xs = Inr ys \<Longrightarrow> map fst ys = map fst xs"
  by (induction xs arbitrary: ys) (auto split: sum.splits)

text \<open>C34 (environment variables): values that were stored for an environment of the caller's project are
  revealed exactly as they were set, unset names are gone, and all other variables keep their values.\<close>

theorem env_vars_roundtrip:
  assumes "crypto_ok c" "vault_ok v" "Unsealed v" "store_inv (w_state w)" "fresh_requests ctl w" "mwf req"
    and "AppServer_SetEnvVars c v nonce ctl ctx pid envID req unset w = (Inr (), w')"
    and "AppServer_GetEnvVars c v (w_state w) pid envID True = Inr before"
  shows "\<exists>out. AppServer_GetEnvVars c v (w_state w') pid envID True = Inr out
     \<and> map_of out = (\<lambda>k. if k \<in> set unset then None
          else case map_of req k of Some x \<Rightarrow> Some x | None \<Rightarrow> map_of before k)"
proof -
  from assms(7) obtain env set' where env: "resolveEnv (w_state w) pid envID = Inr env"
    and sealed: "seal_all c v nonce req = Inr set'"
    and ok: "fst (api_apply ctl (user_actor ctx) (Command_SetEnvVars (env_id env) set' unset) w) = None"
    and w': "w' = snd (api_apply ctl (user_actor ctx) (Command_SetEnvVars (env_id env) set' unset) w)"
    by (auto simp: AppServer_SetEnvVars_def api_then_def split_def split: sum.splits if_splits option.splits)
  have mwf: "mwf set'" using assms(6) seal_all_keys [OF sealed] by (simp add: mwf_def)
  obtain e where st: "w_state w' = SetEnvVars (env_id env) set' unset
      (recorded e (stamped ctl (user_actor ctx) (Command_SetEnvVars (env_id env) set' unset) w) (w_state w))"
    using api_apply_ok [OF assms(5) ok] w' by auto
  have env': "resolveEnv (w_state w') pid envID = Inr env"
    using env resolveEnv_cong [of "w_state w'" "w_state w"] by (simp add: st SetEnvVars_def touch_def Let_def)
  have vars: "map_of (EnvVars (env_id env) (w_state w')) k =
     (if k \<in> set unset then None else case map_of set' k of Some x \<Rightarrow> Some x | None \<Rightarrow> map_of (EnvVars (env_id env) (w_state w)) k)" for k
    by (simp add: st SetEnvVars_lookup [OF mwf] split: option.split) (simp add: EnvVars_def)
  have before: "open_all c v True (EnvVars (env_id env) (w_state w)) = Inr before"
    using assms(8) env by (simp add: AppServer_GetEnvVars_def)
  let ?vars = "EnvVars (env_id env) (w_state w')"
  have "store_inv (w_state w')" using api_apply_inv [OF assms(4)] by (simp add: w')
  then have mv: "mwf ?vars" by (simp add: EnvVars_def store_inv_def inv_nested_def)
  define want where "want = (\<lambda>k. if k \<in> set unset then None
      else case map_of req k of Some x \<Rightarrow> Some x | None \<Rightarrow> map_of before k)"
  have keys: "map_of req k = None \<longleftrightarrow> map_of set' k = None" for k
    using arg_cong [where f = set, OF seal_all_keys [OF sealed]] by (simp add: map_of_eq_None_iff)
  have opens: "case map_of ?vars k of None \<Rightarrow> want k = None
      | Some z \<Rightarrow> \<exists>pt. vault_Open c v z = Inr pt \<and> want k = Some (string_of pt)" for k
  proof (cases "map_of set' k")
    case None
    then show ?thesis
      using open_all_lookup [OF before, of k] keys [of k] by (auto simp: vars want_def split: option.splits)
  next
    case (Some y)
    then show ?thesis
      using open_all_sealed [OF assms(1,2) sealed assms(6) Some] by (auto simp: vars want_def)
  qed
  have "\<exists>pt. vault_Open c v z = Inr pt" if "(k, z) \<in> set ?vars" for k z
    using opens [of k] map_of_is_SomeI [OF _ that] mv by (auto simp: mwf_def)
  then have "\<exists>out. open_all c v True ?vars = Inr out" by (rule open_all_total [OF assms(3)])
  then obtain out where out: "open_all c v True ?vars = Inr out" by blast
  have "map_of out k = want k" for k
    using open_all_lookup [OF out, of k] opens [of k] by (auto split: option.splits)
  then show ?thesis using out env' by (auto simp: AppServer_GetEnvVars_def want_def)
qed

definition sample_vault :: Vault where
  "sample_vault = \<lparr>v_keyring = Some \<lparr>kr_dataKey = replicate 32 1, kr_keyVersion = 1\<rparr>,
     v_sealer = Some \<lparr>sl_key = replicate 32 1, sl_keyVersion = 1\<rparr>, v_onUnseal = []\<rparr>"

definition sample_vars :: "(string, string) gomap" where
  "sample_vars = [(''TOKEN'', ''s3cret''), (''MODE'', ''prod'')]"

definition sample_ids :: "nat \<Rightarrow> string" where
  "sample_ids n = replicate (n + 1) (CHR ''i'')"

definition sample_set_control :: Control where
  "sample_set_control = (sample_control (\<lambda>_. Committed))\<lparr>new_id := sample_ids\<rparr>"

definition sample_set_vars :: "unit response" where
  "sample_set_vars = AppServer_SetEnvVars sample_crypto sample_vault (\<lambda>_. Some []) sample_set_control sample_call ''p'' ''e''
     sample_vars [''MODE''] sample_env_world"

lemma sample_ids_inj: "inj sample_ids"
  by (rule injI) (simp add: sample_ids_def)

lemma sample_env_fresh: "fresh_requests sample_set_control sample_env_world"
proof -
  have "map fst (appliedSet (w_state sample_env_world)) = [''r1'']" by code_simp
  then have keys: "fst ` set (appliedSet (w_state sample_env_world)) = {''r1''}" by (metis list.set_map list.simps(15) empty_set)
  have "sample_ids n \<noteq> ''r1''" for n by (cases n) (simp_all add: sample_ids_def)
  then have "\<not> mhas (appliedSet (w_state sample_env_world)) (sample_ids n)" for n
    unfolding mhas_def using keys map_of_eq_None_iff [of "appliedSet (w_state sample_env_world)" "sample_ids n"] by auto
  then show ?thesis by (simp add: fresh_requests_def sample_set_control_def sample_ids_inj)
qed

lemma sample_set_vars_eval:
  "fst sample_set_vars = Inr () \<and> AppServer_GetEnvVars sample_crypto sample_vault (w_state sample_env_world) ''p'' ''e'' True = Inr []"
  by code_simp

theorem env_vars_roundtrip_witness:
  "\<exists>out. AppServer_GetEnvVars sample_crypto sample_vault (w_state (snd sample_set_vars)) ''p'' ''e'' True = Inr out
     \<and> map_of out ''TOKEN'' = Some ''s3cret'' \<and> map_of out ''MODE'' = None"
proof -
  have "vault_ok sample_vault" "Unsealed sample_vault" by (simp_all add: vault_ok_def Unsealed_def sample_vault_def keyLen_def)
  moreover have "store_inv (w_state sample_env_world)" by (simp only: sample_env_world_def World.simps reachable_inv)
  moreover have "mwf sample_vars" by (simp add: mwf_def sample_vars_def)
  moreover have "sample_set_vars = (Inr (), snd sample_set_vars)" using sample_set_vars_eval by (metis prod.collapse)
  then have "AppServer_SetEnvVars sample_crypto sample_vault (\<lambda>_. Some []) sample_set_control sample_call ''p'' ''e''
     sample_vars [''MODE''] sample_env_world = (Inr (), snd sample_set_vars)"
    unfolding sample_set_vars_def .
  moreover note conjunct2 [OF sample_set_vars_eval]
  ultimately have "\<exists>out. AppServer_GetEnvVars sample_crypto sample_vault (w_state (snd sample_set_vars)) ''p'' ''e'' True = Inr out
      \<and> map_of out = (\<lambda>k. if k \<in> set [''MODE''] then None
          else case map_of sample_vars k of Some x \<Rightarrow> Some x | None \<Rightarrow> map_of [] k)"
    by (intro env_vars_roundtrip [OF sample_crypto_ok _ _ _ sample_env_fresh])
  then show ?thesis by (auto simp: sample_vars_def)
qed

subsection \<open>Removing a project\<close>

text \<open>A loop of commands acts on what it is observed through as the loop of their effects.\<close>

lemma api_each_view:
  assumes "\<And>i rid now s. view (snd (apply_mutation rid now (cmd i) s)) = step i (view s)"
    and "\<And>e c s. view (recorded e c s) = view s"
    and "\<And>i rid now s. appliedSet (snd (apply_mutation rid now (cmd i) s)) = appliedSet s"
    and "fresh_requests ctl w" "fst (api_each (\<lambda>x. api_apply ctl actor (cmd (k x))) xs w) = None"
  shows "let w' = snd (api_each (\<lambda>x. api_apply ctl actor (cmd (k x))) xs w)
    in fresh_requests ctl w' \<and> view (w_state w') = fold step (map k xs) (view (w_state w))"
  using assms(4,5)
proof (induction xs arbitrary: w)
  case (Cons x xs)
  let ?w1 = "snd (api_apply ctl actor (cmd (k x)) w)"
  have ok: "fst (api_apply ctl actor (cmd (k x)) w) = None"
    and rest: "api_each (\<lambda>x. api_apply ctl actor (cmd (k x))) (x # xs) w = api_each (\<lambda>x. api_apply ctl actor (cmd (k x))) xs ?w1"
    using Cons.prems(2) by (auto simp: split_def split: option.splits)
  from api_apply_ok [OF Cons.prems(1) ok] obtain e where "w_state ?w1 =
      snd (apply_mutation (new_id ctl (w_ids w)) (Some (clock_now ctl)) (cmd (k x)) (recorded e (stamped ctl actor (cmd (k x)) w) (w_state w)))" .
  then have "view (w_state ?w1) = step (k x) (view (w_state w))" by (simp add: assms(1,2))
  moreover have "fresh_requests ctl ?w1" by (rule api_apply_fresh [OF Cons.prems(1) assms(3)])
  ultimately show ?case using Cons.IH [of ?w1] Cons.prems(2) unfolding rest by (simp add: Let_def)
qed (simp add: Let_def)

text \<open>What belongs to projects.\<close>

type_synonym holdings = "(string \<Rightarrow> Environment option) \<times> (string \<Rightarrow> App option) \<times> (string \<Rightarrow> Domain option)
  \<times> (string \<Rightarrow> Volume option) \<times> (string \<Rightarrow> Project option) \<times> (string \<Rightarrow> string \<Rightarrow> ProjectMember option)"

definition holdings :: "Store \<Rightarrow> holdings" where
  "holdings s = (map_of (environments s), map_of (apps s), map_of (domains s), map_of (volumes s),
     map_of (projects s), \<lambda>p u. ProjectMember p u s)"

lemma holdings_recorded [simp]: "holdings (recorded e c s) = holdings s"
  by (simp add: holdings_def ProjectMember_def) (simp add: recorded_def MarkApplied_def Let_def)

lemma not_mhas_upd: "\<not> mhas m i \<Longrightarrow> map_of m = (map_of m)(i := None)"
  by (auto simp: mhas_def)

lemma holdings_delete:
  "holdings (DeleteEnvironment i s) = (case holdings s of (e, r) \<Rightarrow> (e(i := None), r))"
  "holdings (DeleteApp i s) = (case holdings s of (e, a, r) \<Rightarrow> (e, a(i := None), r))"
  "holdings (DeleteDomain i s) = (case holdings s of (e, a, d, r) \<Rightarrow> (e, a, d(i := None), r))"
  "holdings (DeleteVolume i s) = (case holdings s of (e, a, d, v, r) \<Rightarrow> (e, a, d, v(i := None), r))"
  "holdings (DeleteProject i s) = (case holdings s of (e, a, d, v, p, m) \<Rightarrow>
     (e, a, d, v, p(i := None), if mhas (projects s) i then (\<lambda>q. if q = i then (\<lambda>u. None) else m q) else m))"
  by (auto simp: holdings_def DeleteEnvironment_def DeleteApp_def DeleteDomain_def DeleteVolume_def DeleteProject_def
      ProjectMember_def touch_def fun_eq_iff mhas_def split: option.splits)

lemma deletes_applied:
  "appliedSet (DeleteEnvironment i s) = appliedSet s" "appliedSet (DeleteApp i s) = appliedSet s"
  "appliedSet (DeleteDomain i s) = appliedSet s" "appliedSet (DeleteVolume i s) = appliedSet s"
  "appliedSet (DeleteProject i s) = appliedSet s"
  by (auto simp: DeleteEnvironment_def DeleteApp_def DeleteDomain_def DeleteVolume_def DeleteProject_def touch_def
      split: option.split)

lemma fold_unset: "fold (\<lambda>i f. f(i := None)) xs f = (\<lambda>j. if j \<in> set xs then None else f j)"
  by (induction xs arbitrary: f) (auto simp: fun_eq_iff)

definition purge :: "('v \<Rightarrow> string) \<Rightarrow> string \<Rightarrow> (string \<Rightarrow> 'v option) \<Rightarrow> string \<Rightarrow> 'v option" where
  "purge proj pid f i = (case f i of None \<Rightarrow> None | Some x \<Rightarrow> if proj x = pid then None else Some x)"

lemma purge_listed:
  assumes "keyed vid m" "\<And>x. x \<in> set xs \<longleftrightarrow> map_of m (vid x) = Some x \<and> proj x = pid"
  shows "(\<lambda>j. if j \<in> set (map vid xs) then None else map_of m j) = purge proj pid (map_of m)"
proof
  fix j
  have "j \<in> vid ` set xs \<longleftrightarrow> (\<exists>x. map_of m j = Some x \<and> proj x = pid)"
    using assms(2) keyedD [OF assms(1)] by (auto simp: image_iff)
  then show "(if j \<in> set (map vid xs) then None else map_of m j) = purge proj pid (map_of m) j"
    by (auto simp: purge_def split: option.split)
qed

lemma fold_holdings:
  "fold (\<lambda>i h. case h of (e, r) \<Rightarrow> (e(i := None), r)) xs (e, r) = (\<lambda>j. if j \<in> set xs then None else e j, r)"
  "fold (\<lambda>i h. case h of (e, a, r) \<Rightarrow> (e, a(i := None), r)) xs (e, a, q) = (e, \<lambda>j. if j \<in> set xs then None else a j, q)"
  "fold (\<lambda>i h. case h of (e, a, d, r) \<Rightarrow> (e, a, d(i := None), r)) xs (e, a, d, t) = (e, a, \<lambda>j. if j \<in> set xs then None else d j, t)"
  "fold (\<lambda>i h. case h of (e, a, d, v, r) \<Rightarrow> (e, a, d, v(i := None), r)) xs (e, a, d, v, u)
     = (e, a, d, \<lambda>j. if j \<in> set xs then None else v j, u)"
  by (induction xs arbitrary: e a d v) (auto simp: fun_eq_iff)

lemma api_each_inv:
  "(\<And>x w. store_inv (w_state w) \<Longrightarrow> store_inv (w_state (snd (f x w)))) \<Longrightarrow> store_inv (w_state w) \<Longrightarrow>
     store_inv (w_state (snd (api_each f xs w)))"
  by (induction xs arbitrary: w) (auto simp: split_def split: option.split)

lemma store_keyed_project: "store_inv s \<Longrightarrow> keyed app_id (apps s)" "store_inv s \<Longrightarrow> keyed project_id (projects s)"
  by (simp_all add: store_inv_def inv_coll_def)

lemma listed_of_project:
  assumes "store_inv s" "pid \<noteq> ''''"
  shows "x \<in> set (ListEnvironments pid '''' s) \<longleftrightarrow> map_of (environments s) (env_id x) = Some x \<and> env_project_id x = pid"
    "a \<in> set (ListApps pid s) \<longleftrightarrow> map_of (apps s) (app_id a) = Some a \<and> app_project_id a = pid"
    "d \<in> set (ListDomains pid s) \<longleftrightarrow> map_of (domains s) (dom_id d) = Some d \<and> dom_project_id d = pid"
    "v \<in> set (ListVolumes pid s) \<longleftrightarrow> map_of (volumes s) (vol_id v) = Some v \<and> vol_project_id v = pid"
  using assms(2) env_rc.in_list_iff [OF store_keyed(6) [OF assms(1)], of x "(pid, '''')"]
    app_rc.in_list_iff [OF store_keyed_project(1) [OF assms(1)], of a pid]
    domain_rc.in_list_iff [OF store_keyed(3) [OF assms(1)], of d pid] volume_rc.in_list_iff [OF store_keyed(10) [OF assms(1)], of v pid]
  by (simp_all add: App_def Domain_def Volume_def Environment_def)

text \<open>One loop of the cascade.\<close>

lemma purge_loop:
  assumes "store_inv (w_state w)" "fresh_requests ctl w"
    and "\<And>i rid now s. holdings (snd (apply_mutation rid now (cmd i) s)) = step i (holdings s)"
    and "\<And>i rid now s. appliedSet (snd (apply_mutation rid now (cmd i) s)) = appliedSet s"
    and "fst (api_each (\<lambda>x. api_apply ctl actor (cmd (k x))) xs w) = None"
  defines "w' \<equiv> snd (api_each (\<lambda>x. api_apply ctl actor (cmd (k x))) xs w)"
  shows "store_inv (w_state w') \<and> fresh_requests ctl w' \<and> holdings (w_state w') = fold step (map k xs) (holdings (w_state w))"
  using api_each_view [where view = holdings and cmd = cmd and step = step and k = k, OF assms(3) holdings_recorded assms(4) assms(2,5)]
    api_each_inv [OF api_apply_inv assms(1)]
  by (simp add: w'_def Let_def)

lemmas purge_simps = apply_mutation.simps snd_conv holdings_delete deletes_applied fold_holdings Let_def

lemma purge_loops:
  assumes "store_inv (w_state w)" "fresh_requests ctl w" "pid \<noteq> ''''" "holdings (w_state w) = (e, a, d, v, r)"
  shows
    "fst (api_each (\<lambda>x. api_apply ctl actor (Command_DeleteEnvironment (env_id x))) (ListEnvironments pid '''' (w_state w)) w) = None \<Longrightarrow>
       let w' = snd (api_each (\<lambda>x. api_apply ctl actor (Command_DeleteEnvironment (env_id x))) (ListEnvironments pid '''' (w_state w)) w)
       in store_inv (w_state w') \<and> fresh_requests ctl w' \<and> holdings (w_state w') = (purge env_project_id pid e, a, d, v, r)"
    "fst (api_each (\<lambda>x. api_apply ctl actor (Command_DeleteApp (app_id x))) (ListApps pid (w_state w)) w) = None \<Longrightarrow>
       let w' = snd (api_each (\<lambda>x. api_apply ctl actor (Command_DeleteApp (app_id x))) (ListApps pid (w_state w)) w)
       in store_inv (w_state w') \<and> fresh_requests ctl w' \<and> holdings (w_state w') = (e, purge app_project_id pid a, d, v, r)"
    "fst (api_each (\<lambda>x. api_apply ctl actor (Command_DeleteDomain (dom_id x))) (ListDomains pid (w_state w)) w) = None \<Longrightarrow>
       let w' = snd (api_each (\<lambda>x. api_apply ctl actor (Command_DeleteDomain (dom_id x))) (ListDomains pid (w_state w)) w)
       in store_inv (w_state w') \<and> fresh_requests ctl w' \<and> holdings (w_state w') = (e, a, purge dom_project_id pid d, v, r)"
    "fst (api_each (\<lambda>x. api_apply ctl actor (Command_DeleteVolume (vol_id x))) (ListVolumes pid (w_state w)) w) = None \<Longrightarrow>
       let w' = snd (api_each (\<lambda>x. api_apply ctl actor (Command_DeleteVolume (vol_id x))) (ListVolumes pid (w_state w)) w)
       in store_inv (w_state w') \<and> fresh_requests ctl w' \<and> holdings (w_state w') = (e, a, d, purge vol_project_id pid v, r)"
proof -
  have h: "e = map_of (environments (w_state w))" "a = map_of (apps (w_state w))" "d = map_of (domains (w_state w))"
      "v = map_of (volumes (w_state w))"
    using assms(4) by (simp_all add: holdings_def)
  note listed = purge_listed [OF store_keyed(6) [OF assms(1)] listed_of_project(1) [OF assms(1,3)], folded h]
    purge_listed [OF store_keyed_project(1) [OF assms(1)] listed_of_project(2) [OF assms(1,3)], folded h]
    purge_listed [OF store_keyed(3) [OF assms(1)] listed_of_project(3) [OF assms(1,3)], folded h]
    purge_listed [OF store_keyed(10) [OF assms(1)] listed_of_project(4) [OF assms(1,3)], folded h]
  show "let w' = snd (api_each (\<lambda>x. api_apply ctl actor (Command_DeleteEnvironment (env_id x))) (ListEnvironments pid '''' (w_state w)) w)
       in store_inv (w_state w') \<and> fresh_requests ctl w' \<and> holdings (w_state w') = (purge env_project_id pid e, a, d, v, r)"
    if "fst (api_each (\<lambda>x. api_apply ctl actor (Command_DeleteEnvironment (env_id x))) (ListEnvironments pid '''' (w_state w)) w) = None"
    using purge_loop [where cmd = Command_DeleteEnvironment and step = "\<lambda>i h. case h of (e, r) \<Rightarrow> (e(i := None), r)",
        OF assms(1,2) _ _ that]
    by (simp only: purge_simps assms(4) listed)
  show "let w' = snd (api_each (\<lambda>x. api_apply ctl actor (Command_DeleteApp (app_id x))) (ListApps pid (w_state w)) w)
       in store_inv (w_state w') \<and> fresh_requests ctl w' \<and> holdings (w_state w') = (e, purge app_project_id pid a, d, v, r)"
    if "fst (api_each (\<lambda>x. api_apply ctl actor (Command_DeleteApp (app_id x))) (ListApps pid (w_state w)) w) = None"
    using purge_loop [where cmd = Command_DeleteApp and step = "\<lambda>i h. case h of (e, a, r) \<Rightarrow> (e, a(i := None), r)",
        OF assms(1,2) _ _ that]
    by (simp only: purge_simps assms(4) listed)
  show "let w' = snd (api_each (\<lambda>x. api_apply ctl actor (Command_DeleteDomain (dom_id x))) (ListDomains pid (w_state w)) w)
       in store_inv (w_state w') \<and> fresh_requests ctl w' \<and> holdings (w_state w') = (e, a, purge dom_project_id pid d, v, r)"
    if "fst (api_each (\<lambda>x. api_apply ctl actor (Command_DeleteDomain (dom_id x))) (ListDomains pid (w_state w)) w) = None"
    using purge_loop [where cmd = Command_DeleteDomain and step = "\<lambda>i h. case h of (e, a, d, r) \<Rightarrow> (e, a, d(i := None), r)",
        OF assms(1,2) _ _ that]
    by (simp only: purge_simps assms(4) listed)
  show "let w' = snd (api_each (\<lambda>x. api_apply ctl actor (Command_DeleteVolume (vol_id x))) (ListVolumes pid (w_state w)) w)
       in store_inv (w_state w') \<and> fresh_requests ctl w' \<and> holdings (w_state w') = (e, a, d, purge vol_project_id pid v, r)"
    if "fst (api_each (\<lambda>x. api_apply ctl actor (Command_DeleteVolume (vol_id x))) (ListVolumes pid (w_state w)) w) = None"
    using purge_loop [where cmd = Command_DeleteVolume and step = "\<lambda>i h. case h of (e, a, d, v, r) \<Rightarrow> (e, a, d, v(i := None), r)",
        OF assms(1,2) _ _ that]
    by (simp only: purge_simps assms(4) listed)
qed

text \<open>C36 (deleted projects): a project that was deleted successfully is gone with its members, and so is
  every environment, app, domain and volume of it, while those of all other projects are untouched.\<close>

theorem DeleteProject_cascades:
  assumes "store_inv (w_state w)" "fresh_requests ctl w" "pid \<noteq> ''''"
    and "ProjectServer_DeleteProject ctl ctx pid w = (Inr (), w')"
  shows "holdings (w_state w') =
    (case holdings (w_state w) of (e, a, d, v, p, m) \<Rightarrow>
       (purge env_project_id pid e, purge app_project_id pid a, purge dom_project_id pid d, purge vol_project_id pid v,
        p(pid := None), \<lambda>q. if q = pid then (\<lambda>u. None) else m q))"
proof -
  let ?del = "api_apply ctl (user_actor ctx)"
  define w1 where "w1 = snd (api_each (\<lambda>e. ?del (Command_DeleteEnvironment (env_id e))) (ListEnvironments pid '''' (w_state w)) w)"
  define w2 where "w2 = snd (api_each (\<lambda>a. ?del (Command_DeleteApp (app_id a))) (ListApps pid (w_state w1)) w1)"
  define w3 where "w3 = snd (api_each (\<lambda>d. ?del (Command_DeleteDomain (dom_id d))) (ListDomains pid (w_state w2)) w2)"
  define w4 where "w4 = snd (api_each (\<lambda>v. ?del (Command_DeleteVolume (vol_id v))) (ListVolumes pid (w_state w3)) w3)"
  have exists: "Project pid (w_state w) \<noteq> None"
    using assms(4) by (auto simp: ProjectServer_DeleteProject_def Let_def split: if_splits)
  from assms(4) have ok: "fst (api_each (\<lambda>e. ?del (Command_DeleteEnvironment (env_id e))) (ListEnvironments pid '''' (w_state w)) w) = None"
      "fst (api_each (\<lambda>a. ?del (Command_DeleteApp (app_id a))) (ListApps pid (w_state w1)) w1) = None"
      "fst (api_each (\<lambda>d. ?del (Command_DeleteDomain (dom_id d))) (ListDomains pid (w_state w2)) w2) = None"
      "fst (api_each (\<lambda>v. ?del (Command_DeleteVolume (vol_id v))) (ListVolumes pid (w_state w3)) w3) = None"
      "fst (?del (Command_DeleteProject pid) w4) = None"
    and w': "w' = snd (?del (Command_DeleteProject pid) w4)"
    using exists
    by (auto simp: ProjectServer_DeleteProject_def Let_def api_then_def split_def w1_def w2_def w3_def w4_def
        split: option.splits)
  obtain e a d v p m where h: "holdings (w_state w) = (e, a, d, v, p, m)" by (metis prod_cases6)
  note s1 = purge_loops(1) [OF assms(1-3) h ok(1), folded w1_def, unfolded Let_def]
  note s2 = purge_loops(2) [OF conjunct1 [OF s1] conjunct1 [OF conjunct2 [OF s1]] assms(3) conjunct2 [OF conjunct2 [OF s1]] ok(2), folded w2_def, unfolded Let_def]
  note s3 = purge_loops(3) [OF conjunct1 [OF s2] conjunct1 [OF conjunct2 [OF s2]] assms(3) conjunct2 [OF conjunct2 [OF s2]] ok(3), folded w3_def, unfolded Let_def]
  note s4 = purge_loops(4) [OF conjunct1 [OF s3] conjunct1 [OF conjunct2 [OF s3]] assms(3) conjunct2 [OF conjunct2 [OF s3]] ok(4), folded w4_def, unfolded Let_def]
  have "fresh_requests ctl w4" and h4: "holdings (w_state w4) =
     (purge env_project_id pid e, purge app_project_id pid a, purge dom_project_id pid d, purge vol_project_id pid v, p, m)"
    using s4 by blast+
  from api_apply_ok [OF this(1) ok(5)] obtain x where st: "w_state w' = DeleteProject pid
      (recorded x (stamped ctl (user_actor ctx) (Command_DeleteProject pid) w4) (w_state w4))"
    by (auto simp: w')
  have "p = map_of (projects (w_state w))" "p = map_of (projects (w_state w4))"
    using h h4 by (simp_all add: holdings_def)
  then have "mhas (projects (w_state w4)) pid" using exists by (simp add: Project_def mhas_def)
  then show ?thesis by (simp add: st holdings_delete h4 h del: mhas_iff)
qed

definition sample_two_projects :: World where
  "sample_two_projects = \<lparr>w_state = run_log
     [entry 1 ''r1'' (Command_PutProject \<lparr>project_meta = meta_of ''p'', project_org_id = '''', project_name = ''web''\<rparr>),
      entry 2 ''r2'' (Command_PutEnvironment (zero_env\<lparr>env_meta := meta_of ''e1'', env_project_id := ''p''\<rparr>)),
      entry 3 ''r3'' (Command_PutEnvironment (zero_env\<lparr>env_meta := meta_of ''e2'', env_project_id := ''q''\<rparr>)),
      entry 4 ''r4'' (Command_PutVolume (zero_volume\<lparr>vol_meta := meta_of ''v1'', vol_project_id := ''p''\<rparr>))] New,
     w_index = 4, w_ids = 0, w_proposals = 0\<rparr>"

lemma sample_fresh:
  assumes "list_all (\<lambda>r. hd r \<noteq> CHR ''i'') (map fst (appliedSet (w_state w)))"
  shows "fresh_requests sample_set_control w"
proof -
  have "\<not> mhas (appliedSet (w_state w)) (sample_ids n)" for n
  proof
    assume "mhas (appliedSet (w_state w)) (sample_ids n)"
    then have "sample_ids n \<in> fst ` set (appliedSet (w_state w))" by (simp add: mhas_def map_of_eq_None_iff del: mhas_iff)
    with assms have "hd (sample_ids n) \<noteq> CHR ''i''" by (auto simp: list_all_iff)
    then show False by (simp add: sample_ids_def)
  qed
  then show ?thesis by (simp add: fresh_requests_def sample_set_control_def sample_ids_inj)
qed

lemma sample_delete_eval:
  "list_all (\<lambda>r. hd r \<noteq> CHR ''i'') (map fst (appliedSet (w_state sample_two_projects)))
   \<and> fst (ProjectServer_DeleteProject sample_set_control sample_call ''p'' sample_two_projects) = Inr ()"
  by code_simp

theorem DeleteProject_cascades_witness:
  "fst (holdings (w_state (snd (ProjectServer_DeleteProject sample_set_control sample_call ''p'' sample_two_projects))))
   = purge env_project_id ''p'' (map_of (environments (w_state sample_two_projects)))"
proof -
  have inv: "store_inv (w_state sample_two_projects)" by (simp only: sample_two_projects_def World.simps reachable_inv)
  have "ProjectServer_DeleteProject sample_set_control sample_call ''p'' sample_two_projects
      = (Inr (), snd (ProjectServer_DeleteProject sample_set_control sample_call ''p'' sample_two_projects))"
    using sample_delete_eval by (metis prod.collapse)
  from DeleteProject_cascades [OF inv sample_fresh [OF conjunct1 [OF sample_delete_eval]] _ this] show ?thesis
    by (simp add: holdings_def)
qed

subsection \<open>Removing a node\<close>

lemma opt_asg_ref_Some [simp]: "opt_asg_ref (Some a) = asg_id a"
  by (simp add: opt_asg_ref_def)

lemma reaped_ids:
  assumes "store_inv s"
  shows "set (map opt_asg_ref (ListAssignmentsByNode n s)) = {i. \<exists>a. asgs s i = Some a \<and> asg_node_id a = n}"
proof -
  have "set (ListAssignmentsByNode n s) = Some ` {a. asgs s (asg_id a) = Some a \<and> asg_node_id a = n}"
    using midx_listing [OF store_keyed(4) store_indexed(4), OF assms assms, of n]
    by (simp add: ListAssignmentsByNode_def sortByID_def)
  then have "set (map opt_asg_ref (ListAssignmentsByNode n s)) = asg_id ` {a. asgs s (asg_id a) = Some a \<and> asg_node_id a = n}"
    by (simp add: image_image)
  also have "\<dots> = {i. \<exists>a. asgs s i = Some a \<and> asg_node_id a = n}"
    using keyedD [OF store_keyed(4) [OF assms]] by (auto simp: image_iff)
  finally show ?thesis .
qed

lemma nodes_DeleteAssignments [simp]: "nodes (DeleteAssignments is s) = nodes s"
  by (simp add: DeleteAssignments_def fold_frame [where g = nodes] deleteAssignmentLocked_def touch_def split: option.split)

lemma reap_and_delete:
  fixes n ctx
  assumes "store_inv (w_state w)" "fresh_requests ctl w"
  defines "reap \<equiv> map opt_asg_ref (ListAssignmentsByNode n (w_state w))"
  defines "f \<equiv> (if reap \<noteq> [] then NodeServer_apply ctl ctx (Command_DeleteAssignments reap) else (\<lambda>w. (None, w)))"
  assumes run: "api_then f (api_then (NodeServer_apply ctl ctx (Command_DeleteNode n)) (\<lambda>w. (Inr (), w))) w = (Inr (), w')"
  shows "Node n (w_state w') = None \<and> asgs (w_state w') = (\<lambda>i. case asgs (w_state w) i of
      Some a \<Rightarrow> if asg_node_id a = n then None else Some a | None \<Rightarrow> None)"
proof -
  from run have ok: "fst (f w) = None" "fst (NodeServer_apply ctl ctx (Command_DeleteNode n) (snd (f w))) = None"
    and w': "w' = snd (NodeServer_apply ctl ctx (Command_DeleteNode n) (snd (f w)))"
    by (auto simp: api_then_def split_def split: option.splits)
  have f: "fresh_requests ctl (snd (f w)) \<and> asgs (w_state (snd (f w))) = del_all reap (asgs (w_state w))"
  proof (cases "reap = []")
    case False
    then have "fst (api_apply ctl (identity_Actor (caller ctx)) (Command_DeleteAssignments reap) w) = None"
      using ok(1) by (simp add: f_def NodeServer_apply_def)
    from api_apply_ok [OF assms(2) this] obtain e where "w_state (snd (f w)) = DeleteAssignments reap
        (recorded e (stamped ctl (identity_Actor (caller ctx)) (Command_DeleteAssignments reap) w) (w_state w))"
      using False by (simp add: f_def NodeServer_apply_def) blast
    moreover have "fresh_requests ctl (snd (f w))"
      using api_apply_fresh [OF assms(2) assignment_mutations_applied(2)] False by (simp add: f_def NodeServer_apply_def)
    ultimately show ?thesis by (simp add: asgs_DeleteAssignments)
  qed (use assms(2) in \<open>simp add: f_def del_all_def\<close>)
  obtain e where st: "w_state w' = DeleteNode n (recorded e (stamped ctl (identity_Actor (caller ctx)) (Command_DeleteNode n) (snd (f w))) (w_state (snd (f w))))"
    using api_apply_ok [OF conjunct1 [OF f] ok(2) [unfolded NodeServer_apply_def]] by (auto simp: w' NodeServer_apply_def)
  have "Node n (w_state w') = None" by (simp add: st DeleteNode_def Node_def touch_def mhas_def)
  moreover have "asgs (w_state w') = del_all reap (asgs (w_state w))"
    using f by (simp add: st DeleteNode_def touch_def)
  moreover have "del_all reap (asgs (w_state w)) = (\<lambda>i. case asgs (w_state w) i of
             Some a \<Rightarrow> if asg_node_id a = n then None else Some a | None \<Rightarrow> None)"
    unfolding reap_def by (rule ext) (auto simp: del_all_apply reaped_ids [OF assms(1)] simp del: set_map split: option.split)
  ultimately show ?thesis by simp
qed

text \<open>
  Removed nodes: a node is removed only when it is drained or the removal is forced, and never the
  last control node without force; a refusal changes nothing. After a removal the node and every
  assignment on it are gone, and the assignments on other nodes are untouched.\<close>

theorem RemoveNode_exact:
  assumes "store_inv (w_state w)" "fresh_requests ctl w"
    and "NodeServer_RemoveNode removeServer ctl ctx n force w = (res, w')"
  shows "(res = Inr () \<longrightarrow>
            Node n (w_state w') = None
            \<and> asgs (w_state w') = (\<lambda>i. case asgs (w_state w) i of
                 Some a \<Rightarrow> if asg_node_id a = n then None else Some a | None \<Rightarrow> None)
            \<and> (\<exists>x. Node n (w_state w) = Some x \<and> (force \<or> node_status x = NODE_STATUS_DRAINED
                 \<and> (NODE_ROLE_CONTROL \<in> set (node_roles x) \<longrightarrow> controlNodeCount (w_state w) > 1))))
     \<and> (\<forall>x. Node n (w_state w) = Some x \<longrightarrow> \<not> force \<longrightarrow>
          node_status x \<noteq> NODE_STATUS_DRAINED \<or> NODE_ROLE_CONTROL \<in> set (node_roles x) \<and> controlNodeCount (w_state w) \<le> 1 \<longrightarrow>
          w' = w \<and> (\<exists>e. res = Inl e))"
proof (cases "Node n (w_state w)")
  case None
  with assms(3) show ?thesis by (auto simp: NodeServer_RemoveNode_def)
next
  case (Some x)
  let ?control = "NODE_ROLE_CONTROL \<in> set (node_roles x)"
  have isc: "list_ex (\<lambda>r. r = NODE_ROLE_CONTROL) (node_roles x) = ?control" by (auto simp: list_ex_iff)
  show ?thesis
  proof (cases "\<not> force \<and> (node_status x \<noteq> NODE_STATUS_DRAINED \<or> ?control \<and> controlNodeCount (w_state w) \<le> 1)")
    case True
    with assms(3) Some show ?thesis by (auto simp: NodeServer_RemoveNode_def Let_def isc split: if_splits)
  next
    case False
    have "Node n (w_state w') = None \<and> asgs (w_state w') = (\<lambda>i. case asgs (w_state w) i of
                 Some a \<Rightarrow> if asg_node_id a = n then None else Some a | None \<Rightarrow> None)" if "res = Inr ()"
      using reap_and_delete [OF assms(1,2), where n = n and w' = w' and ctx = ctx] assms(3) Some False that
      by (auto simp: NodeServer_RemoveNode_def Let_def isc split: option.splits if_splits)
    with Some False show ?thesis by auto
  qed
qed

definition sample_drained :: World where
  "sample_drained = \<lparr>w_state = run_log
     [entry 1 ''r1'' (Command_PutNode (zero_node\<lparr>node_meta := meta_of ''n'', node_status := NODE_STATUS_DRAINED,
        node_roles := [NODE_ROLE_WORKER]\<rparr>)),
      entry 2 ''r2'' (Command_PutAssignments [zero_assignment\<lparr>asg_meta := meta_of ''a'', asg_node_id := ''n''\<rparr>,
        zero_assignment\<lparr>asg_meta := meta_of ''b'', asg_node_id := ''other''\<rparr>])] New,
     w_index = 2, w_ids = 0, w_proposals = 0\<rparr>"

lemma sample_drained_eval:
  "list_all (\<lambda>r. hd r \<noteq> CHR ''i'') (map fst (appliedSet (w_state sample_drained)))
   \<and> fst (NodeServer_RemoveNode (\<lambda>_. None) sample_set_control sample_call ''n'' False sample_drained) = Inr ()"
  by code_simp

theorem RemoveNode_exact_witness:
  "Node ''n'' (w_state (snd (NodeServer_RemoveNode (\<lambda>_. None) sample_set_control sample_call ''n'' False sample_drained))) = None"
proof -
  have inv: "store_inv (w_state sample_drained)" by (simp only: sample_drained_def World.simps reachable_inv)
  have "NodeServer_RemoveNode (\<lambda>_. None) sample_set_control sample_call ''n'' False sample_drained
      = (Inr (), snd (NodeServer_RemoveNode (\<lambda>_. None) sample_set_control sample_call ''n'' False sample_drained))"
    using sample_drained_eval by (metis prod.collapse)
  from RemoveNode_exact [OF inv sample_fresh [OF conjunct1 [OF sample_drained_eval]] this] show ?thesis by simp
qed

subsection \<open>Requests across projects\<close>

text \<open>
  Deploying checks the role of the caller in the project the request names, and then acts on the
  environment it names, whatever its project: a developer of one project deploys into another. The
  handlers of the other services compare the two.
\<close>

definition sample_intruder :: World where
  "sample_intruder = \<lparr>w_state = run_log
     [entry 1 ''r1'' (Command_PutUser (zero_user\<lparr>user_meta := meta_of ''u'', user_email := ''u@x''\<rparr>)),
      entry 2 ''r2'' (Command_PutProject \<lparr>project_meta = meta_of ''mine'', project_org_id = '''', project_name = ''mine''\<rparr>),
      entry 3 ''r3'' (Command_PutProjectMember \<lparr>pm_project_id = ''mine'', pm_user_id = ''u'', pm_role = ROLE_DEVELOPER\<rparr>),
      entry 4 ''r4'' (Command_PutToken \<lparr>token_meta = meta_of ''t'', token_user_id = ''u'', token_name = '''',
         token_secret_hash = rev ''zpat_7'', token_kind = TOKEN_KIND_PERSONAL, token_expires_at = None,
         token_last_used_at = None\<rparr>),
      entry 5 ''r5'' (Command_PutEnvironment (zero_env\<lparr>env_meta := meta_of ''their-env'', env_project_id := ''theirs''\<rparr>))] New,
     w_index = 5, w_ids = 0, w_proposals = 0\<rparr>"

definition sample_intrusion :: "status + Deployment" where
  "sample_intrusion =
     (case fst (unary_call rev 50 (w_state sample_intruder) ''/zattera.v1.DeployService/Deploy'' sample_call (Some ''mine'') []) of
        Inl e \<Rightarrow> Inl e
      | Inr (ctx, _) \<Rightarrow> fst (DeployServer_Deploy sample_server sample_set_control ctx ''their-env'' ''evil:1'' '''' sample_intruder))"

lemma deploy_crosses_projects:
  "ProjectMember ''theirs'' ''u'' (w_state sample_intruder) = None
   \<and> (case sample_intrusion of
        Inl _ \<Rightarrow> False
      | Inr d \<Rightarrow> dep_project_id d = ''theirs'' \<and> dep_environment_id d = ''their-env'' \<and> dep_phase d = DEPLOYMENT_PHASE_PENDING)"
  by code_simp

end
