(* ===== verification/Routes.thy ===== *)
theory Routes
  imports Jobs
begin

text \<open>
  The path of a request. The control plane builds a snapshot of all routes from the replicated state
  (\<^verbatim>\<open>internal/daemon/scheduler/routes.go\<close>) and hands the newest one to its subscribers; the ingress
  proxy of a node matches a request against the snapshot, honours a sticky cookie, and otherwise
  chooses between two endpoints by their load (\<^verbatim>\<open>internal/daemon/proxy\<close>: \<^verbatim>\<open>l7.go\<close>, \<^verbatim>\<open>lb.go\<close>,
  \<^verbatim>\<open>sticky.go\<close>). A domain's middleware is opaque; whether it asks for sticky sessions is a
  parameter, as is the random source.
\<close>

subsection \<open>Messages\<close>

record Endpoint =
  ep_assignment_id :: string
  ep_node_id :: string
  ep_addr :: string
  ep_healthy :: bool

record HTTPRoute =
  rt_hostname :: string
  rt_path_prefix :: string
  rt_project_id :: string
  rt_app_id :: string
  rt_environment_id :: string
  rt_app_name :: string
  rt_environment_name :: string
  rt_middleware :: bytes
  rt_endpoints :: "Endpoint list"
  rt_scale_to_zero :: bool
  rt_max_concurrency :: uint32
  rt_rate_limit :: "RateLimit option"
  rt_route_generation :: uint64

record L4Route =
  l4_public_port :: uint32
  l4_protocol :: string
  l4_environment_id :: string
  l4_endpoints :: "Endpoint list"

record InternalPort =
  ip_name :: string
  ip_port :: uint32
  ip_protocol :: string
  ip_endpoints :: "Endpoint list"

record InternalService =
  is_fqdn :: string
  is_project_id :: string
  is_environment_id :: string
  is_vip :: string
  is_ports :: "InternalPort list"

record RouteSnapshot =
  snap_version :: uint64
  snap_http_routes :: "HTTPRoute list"
  snap_l4_routes :: "L4Route list"
  snap_internal_services :: "InternalService list"
  snap_cert_hosts :: "string list"

subsection \<open>Building the snapshot\<close>

definition httpPortName :: "ServiceSpec \<Rightarrow> string" where
  "httpPortName spec =
     (case find (\<lambda>p. port_protocol p = PROTOCOL_HTTP \<or> port_protocol p = PROTOCOL_UNSPECIFIED) (svc_ports spec) of
        Some p \<Rightarrow> port_name p
      | None \<Rightarrow> (case svc_ports spec of p # _ \<Rightarrow> port_name p | [] \<Rightarrow> ''http''))"

definition projectName :: "Store \<Rightarrow> string \<Rightarrow> string" where
  "projectName st projectID = (case Project projectID st of Some p \<Rightarrow> project_name p | None \<Rightarrow> projectID)"

definition sortedKeys :: "(string, bool) gomap \<Rightarrow> string list" where
  "sortedKeys m = sort (map fst m)"

definition endpoint_of :: "Store \<Rightarrow> string \<Rightarrow> string \<Rightarrow> Assignment \<Rightarrow> Endpoint option" where
  "endpoint_of st active portName a =
     (if asg_release_id a \<noteq> active \<or> asg_desired a \<noteq> ASSIGNMENT_DESIRED_RUN then None
      else if obs_state (asg_observed a) \<noteq> INSTANCE_STATE_HEALTHY then None
      else let port = mget 0 (asg_mesh_port_bindings a) portName
           in if port = 0 then None
              else case Node (asg_node_id a) st of
                     None \<Rightarrow> None
                   | Some n \<Rightarrow>
                       if node_status n = NODE_STATUS_DOWN \<or> node_status n = NODE_STATUS_DRAINED then None
                       else Some \<lparr>ep_assignment_id = asg_id a, ep_node_id = asg_node_id a,
                              ep_addr = (if node_mesh_ip n \<noteq> '''' then node_mesh_ip n else ''127.0.0.1'')
                                          @ '':'' @ Itoa (unat port),
                              ep_healthy = True\<rparr>)"

definition endpoints :: "Store \<Rightarrow> Environment \<Rightarrow> string \<Rightarrow> Endpoint list" where
  "endpoints st env portName =
     (let active = env_active_release_id env
      in if active = '''' then []
         else sort_key ep_assignment_id (List.map_filter (endpoint_of st active portName) (ListAssignments (env_id env) st)))"

definition route_of :: "Store \<Rightarrow> App \<Rightarrow> Environment \<Rightarrow> string \<Rightarrow> string \<Rightarrow> bytes \<Rightarrow> string \<Rightarrow> HTTPRoute" where
  "route_of st app env hostname prefix middleware portName =
     \<lparr>rt_hostname = hostname, rt_path_prefix = prefix, rt_project_id = env_project_id env, rt_app_id = env_app_id env,
      rt_environment_id = env_id env, rt_app_name = app_name app, rt_environment_name = env_name env,
      rt_middleware = middleware, rt_endpoints = endpoints st env portName,
      rt_scale_to_zero = svc_scale_to_zero (env_service env), rt_max_concurrency = svc_max_concurrency (env_service env),
      rt_rate_limit = svc_rate_limit (env_service env), rt_route_generation = env_route_generation env\<rparr>"

definition domain_routes :: "Store \<Rightarrow> App \<Rightarrow> Environment \<Rightarrow> HTTPRoute list" where
  "domain_routes st app env =
     map (\<lambda>d. route_of st app env (dom_hostname d) (dom_path_prefix d) (dom_middleware d)
                (if dom_port_name d = '''' then httpPortName (env_service env) else dom_port_name d))
       (filter (\<lambda>d. dom_environment_id d = env_id env) (ListDomains (env_project_id env) st))"

definition implicit_host :: "string \<Rightarrow> App \<Rightarrow> Environment \<Rightarrow> string" where
  "implicit_host domain app env = app_name app @ ''-'' @ env_name env @ ''.'' @ domain"

text \<open>The routes of one environment; the set of hosts for certificates is accumulated beside them.\<close>

definition build_env ::
  "string \<Rightarrow> Store \<Rightarrow> Environment \<Rightarrow> RouteSnapshot \<times> (string, bool) gomap \<Rightarrow> RouteSnapshot \<times> (string, bool) gomap" where
  "build_env domain st env acc =
     (case App (env_app_id env) st of
        None \<Rightarrow> acc
      | Some app \<Rightarrow>
          (let spec = env_service env;
               named = domain_routes st app env;
               implicit = (if domain \<noteq> '''' then [route_of st app env (implicit_host domain app env) '''' [] (httpPortName spec)] else []);
               l4 = map (\<lambda>p. \<lparr>l4_public_port = public_l4_port p, l4_protocol = ''tcp'', l4_environment_id = env_id env,
                               l4_endpoints = endpoints st env (port_name p)\<rparr>)
                      (filter (\<lambda>p. public_l4_port p \<noteq> 0) (svc_ports spec));
               internal = (case ServiceVIP (env_id env) st of
                             None \<Rightarrow> []
                           | Some vip \<Rightarrow> [\<lparr>is_fqdn = app_name app @ ''.'' @ env_name env @ ''.'' @ projectName st (env_project_id env) @ ''.internal.'',
                               is_project_id = env_project_id env, is_environment_id = env_id env, is_vip = vip,
                               is_ports = map (\<lambda>p. \<lparr>ip_name = port_name p, ip_port = container_port p, ip_protocol = ''tcp'',
                                                    ip_endpoints = endpoints st env (port_name p)\<rparr>) (svc_ports spec)\<rparr>])
           in case acc of (snap, hosts) \<Rightarrow>
                (snap\<lparr>snap_http_routes := snap_http_routes snap @ named @ implicit,
                      snap_l4_routes := snap_l4_routes snap @ l4,
                      snap_internal_services := snap_internal_services snap @ internal\<rparr>,
                 fold (\<lambda>r. mput (rt_hostname r) True) (named @ implicit) hosts)))"

definition build :: "string \<Rightarrow> Store \<Rightarrow> RouteSnapshot" where
  "build domain st =
     (case fold (build_env domain st) (ListEnvironments '''' '''' st)
             (\<lparr>snap_version = version st, snap_http_routes = [], snap_l4_routes = [], snap_internal_services = [],
               snap_cert_hosts = []\<rparr>, []) of
        (snap, hosts) \<Rightarrow> snap\<lparr>snap_cert_hosts := sortedKeys hosts\<rparr>)"

subsection \<open>Subscribers\<close>

text \<open>A subscriber's channel holds at most one snapshot.\<close>

record RouteBuilder =
  rb_domain :: string
  rb_current :: RouteSnapshot
  rb_subs :: "(nat, RouteSnapshot option) gomap"
  rb_nextID :: nat

function pushLatest :: "'a option \<Rightarrow> 'a \<Rightarrow> 'a option" where
  "pushLatest None snap = Some snap"
| "pushLatest (Some _) snap = pushLatest None snap"
  by pat_completeness auto

termination
  by (relation "measure (\<lambda>(ch, _). case ch of None \<Rightarrow> 0 | Some _ \<Rightarrow> 1)") auto

definition Subscribe :: "RouteBuilder \<Rightarrow> nat \<times> RouteBuilder" where
  "Subscribe b = (rb_nextID b, b\<lparr>rb_nextID := rb_nextID b + 1, rb_subs := mput (rb_nextID b) None (rb_subs b)\<rparr>)"

definition Unsubscribe :: "nat \<Rightarrow> RouteBuilder \<Rightarrow> RouteBuilder" where
  "Unsubscribe i b = b\<lparr>rb_subs := mdel i (rb_subs b)\<rparr>"

definition rebuild :: "Store \<Rightarrow> RouteBuilder \<Rightarrow> RouteBuilder" where
  "rebuild st b =
     (let snap = build (rb_domain b) st
      in b\<lparr>rb_current := snap, rb_subs := map (\<lambda>(i, ch). (i, pushLatest ch snap)) (rb_subs b)\<rparr>)"

subsection \<open>Matching a request\<close>

text \<open>\<^verbatim>\<open>net.SplitHostPort\<close>: none for an error.\<close>

definition last_colon :: "string \<Rightarrow> nat option" where
  "last_colon s = (if CHR '':'' \<in> set s then Some (length s - 1 - length (takeWhile (\<lambda>c. c \<noteq> CHR '':'') (rev s))) else None)"

definition SplitHostPort :: "string \<Rightarrow> (string \<times> string) option" where
  "SplitHostPort hostport =
     (case last_colon hostport of
        None \<Rightarrow> None
      | Some i \<Rightarrow>
          if take 1 hostport = ''[''
          then let e = length (takeWhile (\<lambda>c. c \<noteq> CHR '']'') hostport)
               in if e = length hostport \<or> e + 1 \<noteq> i then None
                  else if CHR ''['' \<in> set (drop 1 hostport) \<or> CHR '']'' \<in> set (drop (e + 1) hostport) then None
                  else Some (take (e - 1) (drop 1 hostport), drop (i + 1) hostport)
          else if CHR '':'' \<in> set (take i hostport) then None
          else if CHR ''['' \<in> set hostport \<or> CHR '']'' \<in> set hostport then None
          else Some (take i hostport, drop (i + 1) hostport))"

definition stripPort :: "string \<Rightarrow> string" where
  "stripPort host = (case SplitHostPort host of Some (h, _) \<Rightarrow> h | None \<Rightarrow> host)"

definition EqualFold :: "string \<Rightarrow> string \<Rightarrow> bool" where
  "EqualFold s t = (ToLower s = ToLower t)"

definition matchHTTP :: "RouteSnapshot \<Rightarrow> string \<Rightarrow> string \<Rightarrow> HTTPRoute option" where
  "matchHTTP snap rhost path =
     (let host = ToLower (stripPort rhost)
      in fold (\<lambda>rt best.
             if \<not> EqualFold (rt_hostname rt) host then best
             else if \<not> HasPrefix path (rt_path_prefix rt) then best
             else case best of
                    None \<Rightarrow> Some rt
                  | Some b \<Rightarrow> if length (rt_path_prefix rt) > length (rt_path_prefix b) then Some rt else best)
           (snap_http_routes snap) None)"

subsection \<open>Choosing an endpoint\<close>

record balancer =
  lb_local :: string
  lb_inflight :: "(string, int) gomap"

definition lb_load :: "balancer \<Rightarrow> string \<Rightarrow> int" where
  "lb_load b addr = mget 0 (lb_inflight b) addr"

definition lb_acquire :: "string \<Rightarrow> balancer \<Rightarrow> balancer" where
  "lb_acquire addr b = b\<lparr>lb_inflight := mput addr (lb_load b addr + 1) (lb_inflight b)\<rparr>"

definition lb_release :: "string \<Rightarrow> balancer \<Rightarrow> balancer" where
  "lb_release addr b = b\<lparr>lb_inflight := mput addr (lb_load b addr - 1) (lb_inflight b)\<rparr>"

text \<open>The two random draws are the arguments \<open>i\<close> and \<open>j\<close>, in the ranges \<^verbatim>\<open>rnd\<close> promises.\<close>

definition lb_pick :: "balancer \<Rightarrow> Endpoint list \<Rightarrow> (nat \<Rightarrow> nat) \<Rightarrow> (nat \<Rightarrow> nat) \<Rightarrow> uint32 \<Rightarrow> Endpoint option" where
  "lb_pick b eps rnd1 rnd2 maxConc =
     (let avail = filter (\<lambda>e. ep_healthy e \<and> \<not> (maxConc > 0 \<and> lb_load b (ep_addr e) \<ge> uint maxConc)) eps
      in case avail of
           [] \<Rightarrow> None
         | [e] \<Rightarrow> Some e
         | _ \<Rightarrow>
             (let i = rnd1 (length avail);
                  j0 = rnd2 (length avail - 1);
                  j = (if j0 \<ge> i then j0 + 1 else j0);
                  a = avail ! i; c = avail ! j;
                  la = lb_load b (ep_addr a); lc = lb_load b (ep_addr c)
              in if la \<noteq> lc then (if la < lc then Some a else Some c)
                 else if ep_node_id a = lb_local b \<and> ep_node_id c \<noteq> lb_local b then Some a
                 else if ep_node_id c = lb_local b \<and> ep_node_id a \<noteq> lb_local b then Some c
                 else Some a))"

definition anyHealthy :: "Endpoint list \<Rightarrow> bool" where
  "anyHealthy eps = list_ex ep_healthy eps"

text \<open>\<^verbatim>\<open>strconv.FormatUint\<close> in base 36.\<close>

definition digits36 :: string where "digits36 = ''0123456789abcdefghijklmnopqrstuvwxyz''"

fun FormatUint36 :: "nat \<Rightarrow> string" where
  "FormatUint36 n = (if n < 36 then [digits36 ! n] else FormatUint36 (n div 36) @ [digits36 ! (n mod 36)])"

declare FormatUint36.simps [simp del]

definition stickyID :: "Endpoint \<Rightarrow> string" where
  "stickyID ep =
     FormatUint36 (unat (fnv32a (if ep_assignment_id ep = '''' then ep_addr ep else ep_assignment_id ep)))"

definition healthyByStickyID :: "Endpoint list \<Rightarrow> string \<Rightarrow> Endpoint option" where
  "healthyByStickyID eps i = (if i = '''' then None else find (\<lambda>e. ep_healthy e \<and> stickyID e = i) eps)"

text \<open>The endpoint, and the cookie to set, empty for none. The cookie of the request may be absent.\<close>

definition selectEndpoint ::
  "(bytes \<Rightarrow> bool) \<Rightarrow> balancer \<Rightarrow> (nat \<Rightarrow> nat) \<Rightarrow> (nat \<Rightarrow> nat) \<Rightarrow> HTTPRoute \<Rightarrow> string option \<Rightarrow> Endpoint option \<times> string" where
  "selectEndpoint stickySessions b rnd1 rnd2 route cookie =
     (let sticky = stickySessions (rt_middleware route)
      in case (if sticky then (case cookie of None \<Rightarrow> None | Some v \<Rightarrow> healthyByStickyID (rt_endpoints route) v) else None) of
           Some e \<Rightarrow> (Some e, '''')
         | None \<Rightarrow>
             (case lb_pick b (rt_endpoints route) rnd1 rnd2 (rt_max_concurrency route) of
                None \<Rightarrow> (None, '''')
              | Some ep \<Rightarrow> (Some ep, if sticky then stickyID ep else '''')))"

end
