(* ===== verification/RoutesProps.thy ===== *)
theory RoutesProps
  imports Routes StoreFacts DeploymentProps
begin

text \<open>
  Where requests end: the endpoints of a route are exactly the reachable, healthy instances of the
  active release, the proxy chooses among them, and so a request is only ever sent to an instance of
  the release that was promoted for the environment its host is registered for.
\<close>

subsection \<open>Endpoints\<close>

text \<open>An assignment serves a port of an environment.\<close>

definition serves :: "Store \<Rightarrow> Environment \<Rightarrow> string \<Rightarrow> Assignment \<Rightarrow> Node \<Rightarrow> uint32 \<Rightarrow> bool" where
  "serves st env portName a n port \<longleftrightarrow>
     Assignment (asg_id a) st = Some a \<and> asg_environment_id a = env_id env
     \<and> env_active_release_id env \<noteq> '''' \<and> asg_release_id a = env_active_release_id env
     \<and> asg_desired a = ASSIGNMENT_DESIRED_RUN \<and> obs_state (asg_observed a) = INSTANCE_STATE_HEALTHY
     \<and> map_of (asg_mesh_port_bindings a) portName = Some port \<and> port \<noteq> 0
     \<and> Node (asg_node_id a) st = Some n \<and> node_status n \<noteq> NODE_STATUS_DOWN \<and> node_status n \<noteq> NODE_STATUS_DRAINED"

definition address :: "Node \<Rightarrow> uint32 \<Rightarrow> string" where
  "address n port = (if node_mesh_ip n \<noteq> '''' then node_mesh_ip n else ''127.0.0.1'') @ '':'' @ Itoa (unat port)"

lemma endpoint_of_Some:
  "endpoint_of st active portName a = Some ep \<longleftrightarrow>
     asg_release_id a = active \<and> asg_desired a = ASSIGNMENT_DESIRED_RUN \<and> obs_state (asg_observed a) = INSTANCE_STATE_HEALTHY
     \<and> (\<exists>port n. map_of (asg_mesh_port_bindings a) portName = Some port \<and> port \<noteq> 0 \<and> Node (asg_node_id a) st = Some n
          \<and> node_status n \<noteq> NODE_STATUS_DOWN \<and> node_status n \<noteq> NODE_STATUS_DRAINED
          \<and> ep = \<lparr>ep_assignment_id = asg_id a, ep_node_id = asg_node_id a, ep_addr = address n port, ep_healthy = True\<rparr>)"
  by (auto simp: endpoint_of_def address_def mget_def Let_def split: option.splits if_splits)

lemma in_map_filter_iff: "y \<in> set (List.map_filter f xs) \<longleftrightarrow> (\<exists>x \<in> set xs. f x = Some y)"
  by (induction xs) (auto simp: map_filter_simps split: option.split)

lemma endpoints_exact:
  assumes "store_inv st" "env_id env \<noteq> ''''"
  shows "ep \<in> set (endpoints st env portName) \<longleftrightarrow>
    (\<exists>a n port. serves st env portName a n port
       \<and> ep = \<lparr>ep_assignment_id = asg_id a, ep_node_id = asg_node_id a, ep_addr = address n port, ep_healthy = True\<rparr>)"
proof -
  have listed: "a \<in> set (ListAssignments (env_id env) st) \<longleftrightarrow> Assignment (asg_id a) st = Some a \<and> asg_environment_id a = env_id env" for a
    using assignment_rc.in_list_iff [OF store_keyed(4) [OF assms(1)], of a "env_id env"] assms(2) by simp
  show ?thesis
  proof (cases "env_active_release_id env = ''''")
    case True
    then show ?thesis by (simp add: endpoints_def serves_def)
  next
    case False
    then have "ep \<in> set (endpoints st env portName) \<longleftrightarrow>
        (\<exists>a. a \<in> set (ListAssignments (env_id env) st) \<and> endpoint_of st (env_active_release_id env) portName a = Some ep)"
      by (auto simp: endpoints_def Let_def in_map_filter_iff)
    with False show ?thesis unfolding listed endpoint_of_Some serves_def by blast
  qed
qed

subsection \<open>The snapshot\<close>

lemma fold_build_env_http:
  "snap_http_routes (fst (fold (build_env domain st) es acc)) =
     snap_http_routes (fst acc) @ concat (map (\<lambda>env. case App (env_app_id env) st of
        None \<Rightarrow> []
      | Some app \<Rightarrow> domain_routes st app env
          @ (if domain \<noteq> '''' then [route_of st app env (implicit_host domain app env) '''' [] (httpPortName (env_service env))] else [])) es)"
  by (induction es arbitrary: acc) (auto simp: build_env_def Let_def split_def split: option.split)

lemma build_http_routes:
  "snap_http_routes (build domain st) = concat (map (\<lambda>env. case App (env_app_id env) st of
        None \<Rightarrow> []
      | Some app \<Rightarrow> domain_routes st app env
          @ (if domain \<noteq> '''' then [route_of st app env (implicit_host domain app env) '''' [] (httpPortName (env_service env))] else []))
      (ListEnvironments '''' '''' st))"
  using fold_build_env_http [of domain st "ListEnvironments '''' '''' st"] by (simp add: build_def split_def)

text \<open>Why a route is in the snapshot: a registered domain, or the name of app and environment.\<close>

definition routed :: "string \<Rightarrow> Store \<Rightarrow> Environment \<Rightarrow> string \<Rightarrow> string \<Rightarrow> bool" where
  "routed domain st env hostname prefix \<longleftrightarrow>
     (\<exists>d. Domain (dom_id d) st = Some d \<and> dom_environment_id d = env_id env
        \<and> (env_project_id env = '''' \<or> dom_project_id d = env_project_id env)
        \<and> dom_hostname d = hostname \<and> dom_path_prefix d = prefix)
     \<or> (\<exists>app. domain \<noteq> '''' \<and> App (env_app_id env) st = Some app \<and> hostname = implicit_host domain app env \<and> prefix = '''')"

lemma build_routes:
  assumes "store_inv st" "rt \<in> set (snap_http_routes (build domain st))"
  shows "\<exists>env port. Environment (env_id env) st = Some env \<and> rt_environment_id rt = env_id env
     \<and> routed domain st env (rt_hostname rt) (rt_path_prefix rt)
     \<and> rt_endpoints rt = endpoints st env port \<and> rt_max_concurrency rt = svc_max_concurrency (env_service env)"
proof -
  from assms(2) obtain env where listed: "env \<in> set (ListEnvironments '''' '''' st)"
    and among: "rt \<in> set (case App (env_app_id env) st of
        None \<Rightarrow> []
      | Some app \<Rightarrow> domain_routes st app env
          @ (if domain \<noteq> '''' then [route_of st app env (implicit_host domain app env) '''' [] (httpPortName (env_service env))] else []))"
    by (simp only: build_http_routes set_concat set_map UN_iff image_iff Bex_def) blast
  from among obtain app where app: "App (env_app_id env) st = Some app"
    by (cases "App (env_app_id env) st") simp_all
  have rt: "rt \<in> set (domain_routes st app env)
      \<or> domain \<noteq> '''' \<and> rt = route_of st app env (implicit_host domain app env) '''' [] (httpPortName (env_service env))"
    using among app by (cases "domain = ''''") (simp_all add: disj_commute)
  note env = listed app
  have stored: "Environment (env_id env) st = Some env"
    using env_rc.in_list_iff [OF store_keyed(6) [OF assms(1)], of env "('''', '''')"] env(1) by simp
  from rt show ?thesis
  proof
    assume "rt \<in> set (domain_routes st app env)"
    then obtain d where d: "d \<in> set (ListDomains (env_project_id env) st)" "dom_environment_id d = env_id env"
      and r: "rt = route_of st app env (dom_hostname d) (dom_path_prefix d) (dom_middleware d)
                (if dom_port_name d = '''' then httpPortName (env_service env) else dom_port_name d)"
      by (auto simp: domain_routes_def)
    have "routed domain st env (rt_hostname rt) (rt_path_prefix rt)"
      using d domain_rc.in_list_iff [OF store_keyed(3) [OF assms(1)], of d "env_project_id env"]
      by (auto simp: routed_def r route_of_def)
    with stored show ?thesis by (intro exI [of _ env]) (auto simp: r route_of_def)
  next
    assume "domain \<noteq> '''' \<and> rt = route_of st app env (implicit_host domain app env) '''' [] (httpPortName (env_service env))"
    with stored env(2) show ?thesis by (intro exI [of _ env]) (auto simp: route_of_def routed_def)
  qed
qed

subsection \<open>Matching\<close>

text \<open>A fold that keeps the first element with the greatest measure among those that qualify.\<close>

definition keep_max :: "('a \<Rightarrow> bool) \<Rightarrow> ('a \<Rightarrow> nat) \<Rightarrow> 'a \<Rightarrow> 'a option \<Rightarrow> 'a option" where
  "keep_max P m x best =
     (if P x then (case best of None \<Rightarrow> Some x | Some b \<Rightarrow> if m b < m x then Some x else best) else best)"

lemma keep_max_le: "P x \<Longrightarrow> \<exists>y. keep_max P m x best = Some y \<and> m x \<le> m y"
  by (auto simp: keep_max_def split: option.split)

lemma keep_max_mono: "best = Some b \<Longrightarrow> \<exists>y. keep_max P m x best = Some y \<and> m b \<le> m y"
  by (auto simp: keep_max_def)

lemma keep_max_origin: "keep_max P m x best = Some y \<Longrightarrow> best = Some y \<or> y = x \<and> P x"
  by (auto simp: keep_max_def split: option.splits if_splits)

lemma fold_keep_max_mono: "best = Some b \<Longrightarrow> \<exists>y. fold (keep_max P m) xs best = Some y \<and> m b \<le> m y"
proof (induction xs arbitrary: best b)
  case (Cons x xs)
  obtain y where "keep_max P m x best = Some y" "m b \<le> m y" using keep_max_mono [OF Cons.prems] by blast
  moreover from Cons.IH [OF this(1)] obtain z where "fold (keep_max P m) xs (keep_max P m x best) = Some z" "m y \<le> m z" by blast
  ultimately show ?case by (intro exI [of _ z]) simp
qed simp

lemma fold_keep_max_ge: "x \<in> set xs \<Longrightarrow> P x \<Longrightarrow> \<exists>y. fold (keep_max P m) xs best = Some y \<and> m x \<le> m y"
proof (induction xs arbitrary: best)
  case (Cons z xs)
  show ?case
  proof (cases "x = z")
    case True
    obtain y where y: "keep_max P m z best = Some y" "m x \<le> m y" using keep_max_le [of P z m best] Cons.prems(2) True by auto
    from fold_keep_max_mono [OF y(1), of P m xs] obtain w where "fold (keep_max P m) xs (keep_max P m z best) = Some w" "m y \<le> m w" by blast
    with y(2) show ?thesis by (intro exI [of _ w]) simp
  next
    case False
    with Cons show ?thesis by simp
  qed
qed simp

lemma fold_keep_max_origin: "fold (keep_max P m) xs best = Some y \<Longrightarrow> best = Some y \<or> y \<in> set xs \<and> P y"
proof (induction xs arbitrary: best)
  case (Cons z xs)
  from Cons.IH [of "keep_max P m z best"] Cons.prems keep_max_origin [of P m z best y] show ?case by auto
qed simp

lemma matchHTTP_keep_max:
  "matchHTTP snap rhost path =
     fold (keep_max (\<lambda>rt. EqualFold (rt_hostname rt) (ToLower (stripPort rhost)) \<and> HasPrefix path (rt_path_prefix rt))
             (\<lambda>rt. length (rt_path_prefix rt))) (snap_http_routes snap) None"
  unfolding matchHTTP_def Let_def
  by (rule arg_cong [where f = "\<lambda>f. fold f (snap_http_routes snap) None"]) (intro ext, simp add: keep_max_def split: option.split)

lemma matchHTTP_spec:
  "case matchHTTP snap rhost path of
     None \<Rightarrow> \<forall>rt \<in> set (snap_http_routes snap). \<not> (EqualFold (rt_hostname rt) (ToLower (stripPort rhost)) \<and> HasPrefix path (rt_path_prefix rt))
   | Some r \<Rightarrow> r \<in> set (snap_http_routes snap) \<and> EqualFold (rt_hostname r) (ToLower (stripPort rhost)) \<and> HasPrefix path (rt_path_prefix r)
       \<and> (\<forall>rt \<in> set (snap_http_routes snap). EqualFold (rt_hostname rt) (ToLower (stripPort rhost)) \<longrightarrow> HasPrefix path (rt_path_prefix rt) \<longrightarrow>
            length (rt_path_prefix rt) \<le> length (rt_path_prefix r))"
proof (cases "matchHTTP snap rhost path")
  case None
  then show ?thesis
    using fold_keep_max_ge [of _ "snap_http_routes snap"
      "\<lambda>rt. EqualFold (rt_hostname rt) (ToLower (stripPort rhost)) \<and> HasPrefix path (rt_path_prefix rt)"
      "\<lambda>rt. length (rt_path_prefix rt)" None]
    unfolding matchHTTP_keep_max by fastforce
next
  case (Some r)
  then have "r \<in> set (snap_http_routes snap)
      \<and> EqualFold (rt_hostname r) (ToLower (stripPort rhost)) \<and> HasPrefix path (rt_path_prefix r)"
    unfolding matchHTTP_keep_max by (auto dest: fold_keep_max_origin)
  moreover have "length (rt_path_prefix rt) \<le> length (rt_path_prefix r)"
    if "rt \<in> set (snap_http_routes snap)" "EqualFold (rt_hostname rt) (ToLower (stripPort rhost))"
      "HasPrefix path (rt_path_prefix rt)" for rt
    using fold_keep_max_ge [of rt "snap_http_routes snap"
      "\<lambda>rt. EqualFold (rt_hostname rt) (ToLower (stripPort rhost)) \<and> HasPrefix path (rt_path_prefix rt)"
      "\<lambda>rt. length (rt_path_prefix rt)" None] that Some
    unfolding matchHTTP_keep_max by simp
  ultimately show ?thesis by (simp add: Some)
qed


subsection \<open>Choosing\<close>

text \<open>An endpoint may take one more request.\<close>

definition available :: "balancer \<Rightarrow> uint32 \<Rightarrow> Endpoint \<Rightarrow> bool" where
  "available b maxConc e \<longleftrightarrow> ep_healthy e \<and> (maxConc = 0 \<or> lb_load b (ep_addr e) < uint maxConc)"

text \<open>The random source: a draw below its bound.\<close>

definition draws :: "(nat \<Rightarrow> nat) \<Rightarrow> bool" where
  "draws rnd \<longleftrightarrow> (\<forall>n > 0. rnd n < n)"

lemma lb_pick_alt:
  "lb_pick b eps rnd1 rnd2 maxConc =
     (let avail = filter (available b maxConc) eps
      in case avail of
           [] \<Rightarrow> None
         | [e] \<Rightarrow> Some e
         | _ \<Rightarrow>
             (let i = rnd1 (length avail);
                  j0 = rnd2 (length avail - 1);
                  j = (if j0 \<ge> i then j0 + 1 else j0);
                  a = avail ! i; c = avail ! j;
                  la = lb_load b (ep_addr a); lc = lb_load b (ep_addr c)
              in if la \<noteq> lc then (if la < lc then Some a else Some c)
                 else if ep_node_id a = lb_local b \<and> ep_node_id c \<noteq> lb_local b then Some a
                 else if ep_node_id c = lb_local b \<and> ep_node_id a \<noteq> lb_local b then Some c
                 else Some a))"
proof -
  have "(\<lambda>e. ep_healthy e \<and> \<not> (maxConc > 0 \<and> lb_load b (ep_addr e) \<ge> uint maxConc)) = available b maxConc"
    by (auto simp: available_def fun_eq_iff not_le word_greater_zero_iff)
  then show ?thesis by (simp only: lb_pick_def)
qed

lemma second_draw:
  assumes "draws rnd1" "draws rnd2" "2 \<le> n"
  shows "rnd1 n < n" "(if rnd2 (n - 1) \<ge> rnd1 n then rnd2 (n - 1) + 1 else rnd2 (n - 1)) < n"
    "(if rnd2 (n - 1) \<ge> rnd1 n then rnd2 (n - 1) + 1 else rnd2 (n - 1)) \<noteq> rnd1 n"
proof -
  from assms have "rnd1 n < n" "rnd2 (n - 1) < n - 1" by (simp_all add: draws_def)
  then show "rnd1 n < n" "(if rnd2 (n - 1) \<ge> rnd1 n then rnd2 (n - 1) + 1 else rnd2 (n - 1)) < n"
    "(if rnd2 (n - 1) \<ge> rnd1 n then rnd2 (n - 1) + 1 else rnd2 (n - 1)) \<noteq> rnd1 n"
    by auto
qed

text \<open>The choice between two distinct available endpoints; none only when none is available.\<close>

lemma lb_pick_cases:
  assumes "draws rnd1" "draws rnd2"
  shows "(lb_pick b eps rnd1 rnd2 maxConc = None \<and> filter (available b maxConc) eps = [])
    \<or> (\<exists>e. lb_pick b eps rnd1 rnd2 maxConc = Some e \<and> filter (available b maxConc) eps = [e])
    \<or> (\<exists>i j e. i < length (filter (available b maxConc) eps) \<and> j < length (filter (available b maxConc) eps) \<and> i \<noteq> j
         \<and> lb_pick b eps rnd1 rnd2 maxConc = Some e
         \<and> (e = filter (available b maxConc) eps ! i \<or> e = filter (available b maxConc) eps ! j)
         \<and> lb_load b (ep_addr e) \<le> lb_load b (ep_addr (filter (available b maxConc) eps ! i))
         \<and> lb_load b (ep_addr e) \<le> lb_load b (ep_addr (filter (available b maxConc) eps ! j)))"
proof -
  define avail where "avail = filter (available b maxConc) eps"
  consider "avail = []" | e where "avail = [e]" | e e' rest where "avail = e # e' # rest"
    by (metis list.exhaust)
  then show ?thesis
  proof cases
    case 3
    define i where "i = rnd1 (length avail)"
    define j where "j = (if rnd2 (length avail - 1) \<ge> i then rnd2 (length avail - 1) + 1 else rnd2 (length avail - 1))"
    have two: "2 \<le> length avail" using 3 by simp
    note ij = second_draw [OF assms two, folded i_def, folded j_def]
    have pick: "lb_pick b eps rnd1 rnd2 maxConc =
        (let a = avail ! i; c = avail ! j; la = lb_load b (ep_addr a); lc = lb_load b (ep_addr c)
         in if la \<noteq> lc then (if la < lc then Some a else Some c)
            else if ep_node_id a = lb_local b \<and> ep_node_id c \<noteq> lb_local b then Some a
            else if ep_node_id c = lb_local b \<and> ep_node_id a \<noteq> lb_local b then Some c
            else Some a)"
      unfolding lb_pick_alt avail_def [symmetric] Let_def i_def j_def unfolding 3 list.case by (rule refl)
    have "\<exists>e. lb_pick b eps rnd1 rnd2 maxConc = Some e \<and> (e = avail ! i \<or> e = avail ! j)
         \<and> lb_load b (ep_addr e) \<le> lb_load b (ep_addr (avail ! i)) \<and> lb_load b (ep_addr e) \<le> lb_load b (ep_addr (avail ! j))"
      unfolding pick Let_def by auto
    with ij show ?thesis unfolding avail_def by metis
  qed (simp_all add: lb_pick_alt avail_def)
qed

lemma lb_pick_available:
  assumes "draws rnd1" "draws rnd2" "lb_pick b eps rnd1 rnd2 maxConc = Some e"
  shows "e \<in> set eps \<and> available b maxConc e"
proof -
  have "e \<in> set (filter (available b maxConc) eps)"
    using lb_pick_cases [OF assms(1,2), of b eps maxConc] assms(3) by (elim disjE exE conjE) (auto simp del: set_filter intro: nth_mem)
  then show ?thesis by simp
qed


lemma selectEndpoint_healthy:
  assumes "draws rnd1" "draws rnd2" "selectEndpoint stickySessions b rnd1 rnd2 route cookie = (Some ep, c)"
  shows "ep \<in> set (rt_endpoints route) \<and> ep_healthy ep
    \<and> (\<not> stickySessions (rt_middleware route) \<or> cookie = None \<longrightarrow> available b (rt_max_concurrency route) ep)"
proof (cases "if stickySessions (rt_middleware route)
    then (case cookie of None \<Rightarrow> None | Some v \<Rightarrow> healthyByStickyID (rt_endpoints route) v) else None")
  case None
  with assms(3) have "lb_pick b (rt_endpoints route) rnd1 rnd2 (rt_max_concurrency route) = Some ep"
    by (simp add: selectEndpoint_def split: option.splits)
  from lb_pick_available [OF assms(1,2) this] show ?thesis by (simp add: available_def)
next
  case (Some e)
  with assms(3) have "e = ep" by (simp add: selectEndpoint_def)
  moreover from Some obtain v where "stickySessions (rt_middleware route)" "cookie = Some v"
    "healthyByStickyID (rt_endpoints route) v = Some e"
    by (cases cookie) (simp_all split: if_splits)
  ultimately show ?thesis by (auto simp: healthyByStickyID_def find_Some_iff split: if_splits)
qed


subsection \<open>Properties\<close>

text \<open>C4 (a request reaches the active release): whatever host and path a request has, and whatever the load, the
  random draws and the sticky cookie, an endpoint the proxy selects for it is a healthy instance, on a node
  that is neither down nor drained, of the release that is active in a stored environment; and that environment
  has the route because one of its domains (or the name of app and environment under the cluster's
  domain) is the host of the request and a prefix of its path.\<close>

theorem request_reaches_active_release:
  assumes "store_inv st" "Environment '''' st = None"
    and "matchHTTP (build domain st) rhost path = Some rt"
    and "draws rnd1" "draws rnd2" "selectEndpoint stickySessions b rnd1 rnd2 rt cookie = (Some ep, c)"
  shows "\<exists>env a n portName port. Environment (env_id env) st = Some env
    \<and> routed domain st env (rt_hostname rt) (rt_path_prefix rt)
    \<and> ToLower (rt_hostname rt) = ToLower (ToLower (stripPort rhost)) \<and> HasPrefix path (rt_path_prefix rt)
    \<and> serves st env portName a n port
    \<and> ep = \<lparr>ep_assignment_id = asg_id a, ep_node_id = asg_node_id a, ep_addr = address n port, ep_healthy = True\<rparr>"
proof -
  from matchHTTP_spec [of "build domain st" rhost path] assms(3)
  have rt: "rt \<in> set (snap_http_routes (build domain st))"
    and host: "ToLower (rt_hostname rt) = ToLower (ToLower (stripPort rhost))" "HasPrefix path (rt_path_prefix rt)"
    by (simp_all add: EqualFold_def)
  from build_routes [OF assms(1) rt] obtain env portName where env: "Environment (env_id env) st = Some env"
    "routed domain st env (rt_hostname rt) (rt_path_prefix rt)" "rt_endpoints rt = endpoints st env portName" by blast
  from selectEndpoint_healthy [OF assms(4-6)] env(3) have "ep \<in> set (endpoints st env portName)" by simp
  moreover have "env_id env \<noteq> ''''" using env(1) assms(2) by auto
  ultimately obtain a n port where "serves st env portName a n port"
      "ep = \<lparr>ep_assignment_id = asg_id a, ep_node_id = asg_node_id a, ep_addr = address n port, ep_healthy = True\<rparr>"
    using endpoints_exact [OF assms(1)] by blast
  with env(1,2) host show ?thesis by blast
qed

text \<open>
  Balanced within the cap: the balancer returns no endpoint exactly when every healthy one is at the
  concurrency limit, and otherwise a healthy one below the limit that carries no more requests than one
  other such endpoint, if there is one.\<close>

theorem lb_pick_two_choices:
  assumes "draws rnd1" "draws rnd2"
  shows "case lb_pick b eps rnd1 rnd2 maxConc of
      None \<Rightarrow> \<forall>e \<in> set eps. ep_healthy e \<longrightarrow> maxConc > 0 \<and> lb_load b (ep_addr e) \<ge> uint maxConc
    | Some e \<Rightarrow> e \<in> set eps \<and> ep_healthy e \<and> (maxConc > 0 \<longrightarrow> lb_load b (ep_addr e) < uint maxConc)
        \<and> (length (filter (available b maxConc) eps) \<ge> 2 \<longrightarrow>
            (\<exists>i j. i < length (filter (available b maxConc) eps) \<and> j < length (filter (available b maxConc) eps) \<and> i \<noteq> j
              \<and> e = filter (available b maxConc) eps ! i
              \<and> lb_load b (ep_addr e) \<le> lb_load b (ep_addr (filter (available b maxConc) eps ! j))))"
proof (cases "lb_pick b eps rnd1 rnd2 maxConc")
  case None
  with lb_pick_cases [OF assms, of b eps maxConc] have "\<forall>e \<in> set eps. \<not> available b maxConc e"
    by (simp add: filter_empty_conv)
  with None show ?thesis by (auto simp: available_def not_less word_greater_zero_iff)
next
  case (Some e)
  have "\<exists>i j. i < length (filter (available b maxConc) eps) \<and> j < length (filter (available b maxConc) eps) \<and> i \<noteq> j
      \<and> e = filter (available b maxConc) eps ! i
      \<and> lb_load b (ep_addr e) \<le> lb_load b (ep_addr (filter (available b maxConc) eps ! j))"
    if "length (filter (available b maxConc) eps) \<ge> 2"
    using lb_pick_cases [OF assms, of b eps maxConc] Some that by (elim disjE exE conjE) (simp_all, metis+)
  moreover from lb_pick_available [OF assms Some] have "e \<in> set eps" "ep_healthy e"
    "maxConc > 0 \<longrightarrow> lb_load b (ep_addr e) < uint maxConc"
    by (auto simp: available_def)
  ultimately show ?thesis by (simp add: Some)
qed


text \<open>Two projects with an app and an environment of the same names, each with one healthy instance.\<close>

definition sample_instance :: "string \<Rightarrow> string \<Rightarrow> string \<Rightarrow> Assignment" where
  "sample_instance i e r = zero_assignment\<lparr>asg_meta := meta_of i, asg_node_id := ''n1'', asg_environment_id := e,
     asg_release_id := r, asg_desired := ASSIGNMENT_DESIRED_RUN, asg_mesh_port_bindings := [(''http'', 8)],
     asg_observed := zero_observed\<lparr>obs_state := INSTANCE_STATE_HEALTHY\<rparr>\<rparr>"

definition sample_app :: "string \<Rightarrow> string \<Rightarrow> App" where
  "sample_app i p = \<lparr>app_meta = meta_of i, app_project_id = p, app_name = ''api'', app_build = [], app_github = []\<rparr>"

definition sample_environment :: "string \<Rightarrow> string \<Rightarrow> string \<Rightarrow> string \<Rightarrow> Environment" where
  "sample_environment i a p r = zero_env\<lparr>env_meta := meta_of i, env_app_id := a, env_project_id := p,
     env_name := ''production'', env_active_release_id := r\<rparr>"

definition sample_domain :: Domain where
  "sample_domain = zero_domain\<lparr>dom_meta := meta_of ''d1'', dom_project_id := ''p2'', dom_environment_id := ''e2'',
     dom_hostname := ''shop.example.com'', dom_path_prefix := ''/v2''\<rparr>"

definition sample_routed :: Store where
  "sample_routed = run_log
     [entry 1 ''r1'' (Command_PutNode (zero_node\<lparr>node_meta := meta_of ''n1'', node_mesh_ip := ''10.90.0.1'', node_status := NODE_STATUS_ALIVE\<rparr>)),
      entry 2 ''r2'' (Command_PutApp (sample_app ''a1'' ''p1'')),
      entry 3 ''r3'' (Command_PutApp (sample_app ''a2'' ''p2'')),
      entry 4 ''r4'' (Command_PutEnvironment (sample_environment ''e1'' ''a1'' ''p1'' ''rel1'')),
      entry 5 ''r5'' (Command_PutEnvironment (sample_environment ''e2'' ''a2'' ''p2'' ''rel2'')),
      entry 6 ''r6'' (Command_PutAssignments [sample_instance ''s1'' ''e1'' ''rel1'', sample_instance ''s2'' ''e2'' ''rel2'']),
      entry 7 ''r7'' (Command_PutDomain sample_domain)] New"

definition sample_balancer :: balancer where
  "sample_balancer = \<lparr>lb_local = ''n1'', lb_inflight = [(''10.90.0.1:8'', 2)]\<rparr>"

definition sample_shop_route :: "HTTPRoute option" where
  "sample_shop_route = matchHTTP (build ''apps.example.com'' sample_routed) ''Shop.example.com:443'' ''/v2/cart''"

definition sample_endpoint :: "string \<Rightarrow> Endpoint" where
  "sample_endpoint i = \<lparr>ep_assignment_id = i, ep_node_id = ''n1'', ep_addr = ''10.90.0.1:8'', ep_healthy = True\<rparr>"

lemma sample_routed_state_1:
  "ListEnvironments '''' '''' sample_routed = [sample_environment ''e1'' ''a1'' ''p1'' ''rel1'', sample_environment ''e2'' ''a2'' ''p2'' ''rel2'']"
  by code_simp

lemma sample_routed_state_2:
  "App ''a1'' sample_routed = Some (sample_app ''a1'' ''p1'')"
  by code_simp

lemma sample_routed_state_3:
  "App ''a2'' sample_routed = Some (sample_app ''a2'' ''p2'')"
  by code_simp

lemma sample_routed_state_4:
  "ListDomains ''p1'' sample_routed = []"
  by code_simp

lemma sample_routed_state_5:
  "ListDomains ''p2'' sample_routed = [sample_domain]"
  by code_simp

lemma sample_routed_state_6:
  "endpoints sample_routed (sample_environment ''e1'' ''a1'' ''p1'' ''rel1'') ''http'' = [sample_endpoint ''s1'']"
  by code_simp

lemma sample_routed_state_7:
  "endpoints sample_routed (sample_environment ''e2'' ''a2'' ''p2'' ''rel2'') ''http'' = [sample_endpoint ''s2'']"
  by code_simp

lemmas sample_routed_state = sample_routed_state_1 sample_routed_state_2 sample_routed_state_3 sample_routed_state_4 sample_routed_state_5 sample_routed_state_6 sample_routed_state_7

lemma sample_fields:
  "env_app_id (sample_environment i a p r) = a" "env_project_id (sample_environment i a p r) = p"
  "env_id (sample_environment i a p r) = i" "httpPortName (env_service (sample_environment i a p r)) = ''http''"
  "env_name (sample_environment i a p r) = ''production''" "app_name (sample_app i p) = ''api''"
  "dom_hostname sample_domain = ''shop.example.com''" "dom_path_prefix sample_domain = ''/v2''" "dom_middleware sample_domain = []"
  "dom_port_name sample_domain = ''''" "dom_environment_id sample_domain = ''e2''"
  "svc_max_concurrency (env_service (sample_environment i a p r)) = 0"
  by (simp_all add: sample_environment_def sample_app_def sample_domain_def sample_defs httpPortName_def)

lemma sample_routes:
  "snap_http_routes (build ''apps.example.com'' sample_routed) =
     (let e1 = sample_environment ''e1'' ''a1'' ''p1'' ''rel1''; e2 = sample_environment ''e2'' ''a2'' ''p2'' ''rel2''
      in [route_of sample_routed (sample_app ''a1'' ''p1'') e1 ''api-production.apps.example.com'' '''' [] ''http'',
          route_of sample_routed (sample_app ''a2'' ''p2'') e2 ''shop.example.com'' ''/v2'' [] ''http'',
          route_of sample_routed (sample_app ''a2'' ''p2'') e2 ''api-production.apps.example.com'' '''' [] ''http''])"
  unfolding build_http_routes
  by (simp add: sample_routed_state sample_fields domain_routes_def implicit_host_def Let_def)

lemma sample_shop:
  "sample_shop_route = Some (route_of sample_routed (sample_app ''a2'' ''p2'') (sample_environment ''e2'' ''a2'' ''p2'' ''rel2'')
     ''shop.example.com'' ''/v2'' [] ''http'')"
proof -
  have hosts: "ToLower (stripPort ''Shop.example.com:443'') = ''shop.example.com''"
    "ToLower ''api-production.apps.example.com'' = ''api-production.apps.example.com''"
    "ToLower ''shop.example.com'' = ''shop.example.com''" by code_simp+
  show ?thesis
    unfolding sample_shop_route_def matchHTTP_def
    by (simp add: sample_routes hosts EqualFold_def HasPrefix_def Let_def route_of_def)
qed

lemma sample_selected:
  "selectEndpoint (\<lambda>_. False) sample_balancer (\<lambda>_. 0) (\<lambda>_. 0) (the sample_shop_route) None = (Some (sample_endpoint ''s2''), '''')"
  by (simp add: sample_shop selectEndpoint_def lb_pick_def route_of_def sample_routed_state sample_fields sample_endpoint_def Let_def)

theorem request_reaches_active_release_witness:
  "\<exists>env a n portName port. Environment (env_id env) sample_routed = Some env
     \<and> routed ''apps.example.com'' sample_routed env ''shop.example.com'' ''/v2''
     \<and> serves sample_routed env portName a n port \<and> asg_id a = ''s2'' \<and> address n port = ''10.90.0.1:8''"
proof -
  define rt where "rt = the sample_shop_route"
  have some: "matchHTTP (build ''apps.example.com'' sample_routed) ''Shop.example.com:443'' ''/v2/cart'' = Some rt"
    unfolding rt_def sample_shop option.sel by (rule sample_shop [unfolded sample_shop_route_def])
  have inv: "store_inv sample_routed" unfolding sample_routed_def by (rule reachable_inv)
  have empty: "Environment '''' sample_routed = None" by code_simp
  have draws: "draws (\<lambda>_. 0)" by (simp add: draws_def)
  have host: "rt_hostname rt = ''shop.example.com''" "rt_path_prefix rt = ''/v2''"
    by (simp_all add: rt_def sample_shop route_of_def)
  from request_reaches_active_release [OF inv empty some draws draws sample_selected [folded rt_def]]
  obtain env a n portName port where "Environment (env_id env) sample_routed = Some env"
    "routed ''apps.example.com'' sample_routed env ''shop.example.com'' ''/v2''" "serves sample_routed env portName a n port"
    "sample_endpoint ''s2'' = \<lparr>ep_assignment_id = asg_id a, ep_node_id = asg_node_id a, ep_addr = address n port, ep_healthy = True\<rparr>"
    unfolding host by blast
  moreover from this(4) have "asg_id a = ''s2''" "address n port = ''10.90.0.1:8''" by (simp_all add: sample_endpoint_def)
  ultimately show ?thesis by blast
qed

theorem lb_pick_two_choices_witness:
  "\<exists>e. lb_pick sample_balancer [\<lparr>ep_assignment_id = ''s1'', ep_node_id = ''n1'', ep_addr = ''10.90.0.1:8'', ep_healthy = True\<rparr>,
       \<lparr>ep_assignment_id = ''s2'', ep_node_id = ''n2'', ep_addr = ''10.90.0.2:8'', ep_healthy = True\<rparr>] (\<lambda>_. 0) (\<lambda>_. 0) 4 = Some e
     \<and> ep_assignment_id e = ''s2'' \<and> lb_load sample_balancer (ep_addr e) < 4"
proof -
  have draws: "draws (\<lambda>_. 0)" by (simp add: draws_def)
  from lb_pick_two_choices [OF draws draws, where b = sample_balancer and maxConc = 4 and eps =
      "[\<lparr>ep_assignment_id = ''s1'', ep_node_id = ''n1'', ep_addr = ''10.90.0.1:8'', ep_healthy = True\<rparr>,
       \<lparr>ep_assignment_id = ''s2'', ep_node_id = ''n2'', ep_addr = ''10.90.0.2:8'', ep_healthy = True\<rparr>]"]
  show ?thesis by (simp add: lb_pick_def lb_load_def sample_balancer_def mget_def)
qed

text \<open>
  The name of an environment under the cluster's domain is not unique: with an app and an environment
  of the same names in two projects, every request for the name goes to the environment listed first,
  and the second one cannot be reached by its name.
\<close>

lemma implicit_host_collision:
  "map (\<lambda>rt. (rt_hostname rt, rt_environment_id rt)) (snap_http_routes (build ''apps.example.com'' sample_routed))
     = [(''api-production.apps.example.com'', ''e1''), (''shop.example.com'', ''e2''), (''api-production.apps.example.com'', ''e2'')]"
  "map_option rt_environment_id (matchHTTP (build ''apps.example.com'' sample_routed) ''api-production.apps.example.com'' path) = Some ''e1''"
proof -
  have hosts: "ToLower (stripPort ''api-production.apps.example.com'') = ''api-production.apps.example.com''"
    "ToLower ''api-production.apps.example.com'' = ''api-production.apps.example.com''"
    "ToLower ''shop.example.com'' = ''shop.example.com''" by code_simp+
  show "map (\<lambda>rt. (rt_hostname rt, rt_environment_id rt)) (snap_http_routes (build ''apps.example.com'' sample_routed))
     = [(''api-production.apps.example.com'', ''e1''), (''shop.example.com'', ''e2''), (''api-production.apps.example.com'', ''e2'')]"
    by (simp add: sample_routes route_of_def sample_fields Let_def)
  show "map_option rt_environment_id (matchHTTP (build ''apps.example.com'' sample_routed) ''api-production.apps.example.com'' path) = Some ''e1''"
    by (simp add: matchHTTP_def sample_routes EqualFold_def hosts HasPrefix_def Let_def route_of_def sample_fields)
qed


text \<open>A pinned session goes to its instance however many requests that instance already has.\<close>

lemma sticky_pin_ignores_cap:
  assumes "stickySessions (rt_middleware route)" "rt_endpoints route = e # eps" "ep_healthy e" "stickyID e \<noteq> ''''"
  shows "selectEndpoint stickySessions b rnd1 rnd2 route (Some (stickyID e)) = (Some e, '''')"
  using assms by (simp add: selectEndpoint_def healthyByStickyID_def)

end
