(* ===== verification/Liveness.thy ===== *)
theory Liveness
  imports Changes
begin

text \<open>
  Which nodes are alive. The leader keeps the newest heartbeat of every connected node in memory
  (\<^verbatim>\<open>internal/daemon/livestate\<close>), combines it with the view of the gossip failure detector
  (\<^verbatim>\<open>internal/daemon/nodehealth\<close>), and a monitor turns the two signals into the durable status of
  the node (\<^verbatim>\<open>internal/daemon/api/liveness.go\<close>). Of a heartbeat only the proxy counters are kept;
  its load samples in floating point feed the autoscaler, whose load is a parameter of the model.
\<close>

subsection \<open>Heartbeats\<close>

record ProxySample =
  px_inflight :: uint32
  px_last_request_at :: "time option"

record Heartbeat =
  hb_proxy :: "(string, ProxySample) gomap"

text \<open>The instant of the last heartbeat is absent until the first one (Go's zero time).\<close>

record LiveNode =
  ln_gen :: uint64
  ln_connected :: bool
  ln_lastHeartbeat :: "time option"
  ln_heartbeat :: "Heartbeat option"

type_synonym LiveRegistry = "(string, LiveNode) gomap"

definition new_live_node :: LiveNode where
  "new_live_node = \<lparr>ln_gen = 0, ln_connected = False, ln_lastHeartbeat = None, ln_heartbeat = None\<rparr>"

definition live_node :: "LiveRegistry \<Rightarrow> string \<Rightarrow> LiveNode" where
  "live_node r nodeID = (case map_of r nodeID of None \<Rightarrow> new_live_node | Some n \<Rightarrow> n)"

text \<open>\<^verbatim>\<open>Connect\<close> returns the generation its release function closes over.\<close>

definition live_Connect :: "string \<Rightarrow> LiveRegistry \<Rightarrow> uint64 \<times> LiveRegistry" where
  "live_Connect nodeID r =
     (let n = live_node r nodeID; gen = ln_gen n + 1
      in (gen, mput nodeID (n\<lparr>ln_gen := gen, ln_connected := True\<rparr>) r))"

definition live_release :: "string \<Rightarrow> uint64 \<Rightarrow> LiveRegistry \<Rightarrow> LiveRegistry" where
  "live_release nodeID gen r =
     (case map_of r nodeID of
        None \<Rightarrow> r
      | Some cur \<Rightarrow> if ln_gen cur = gen then mput nodeID (cur\<lparr>ln_connected := False\<rparr>) r else r)"

definition live_Heartbeat :: "time \<Rightarrow> string \<Rightarrow> Heartbeat option \<Rightarrow> LiveRegistry \<Rightarrow> LiveRegistry" where
  "live_Heartbeat now nodeID hb r =
     (let n = (live_node r nodeID)\<lparr>ln_lastHeartbeat := Some now\<rparr>
      in mput nodeID (if hb \<noteq> None then n\<lparr>ln_heartbeat := hb\<rparr> else n) r)"

definition live_Get :: "string \<Rightarrow> LiveRegistry \<Rightarrow> LiveNode option" where
  "live_Get nodeID r = map_of r nodeID"

definition live_Snapshot :: "LiveRegistry \<Rightarrow> LiveNode list" where
  "live_Snapshot r = map snd r"

subsection \<open>The two failure detectors\<close>

definition GossipDownStaleThreshold :: duration where "GossipDownStaleThreshold = 10 * Second"

record GossipLiveness =
  gl_Alive :: bool
  gl_Since :: time

datatype Verdict = VerdictNoChange | VerdictAlive | VerdictDown

record LivenessInputs =
  GossipKnown :: bool
  GossipAlive :: bool
  HeartbeatReceived :: bool
  HeartbeatStaleFor :: duration

definition Decide :: "LivenessInputs \<Rightarrow> Verdict" where
  "Decide i =
     (let heartbeatFresh = HeartbeatReceived i \<and> HeartbeatStaleFor i \<le> GossipDownStaleThreshold
      in if heartbeatFresh \<or> (GossipKnown i \<and> GossipAlive i) then VerdictAlive
         else if GossipKnown i \<and> \<not> GossipAlive i
                 \<and> (\<not> HeartbeatReceived i \<or> HeartbeatStaleFor i > GossipDownStaleThreshold) then VerdictDown
         else VerdictNoChange)"

subsection \<open>The monitor\<close>

definition heartbeatDeadline :: duration where "heartbeatDeadline = 30 * Second"
definition leaderGracePeriod :: duration where "leaderGracePeriod = 45 * Second"
definition heartbeatFlushEvery :: duration where "heartbeatFlushEvery = 60 * Second"

record LivenessMonitor =
  lm_localNodeID :: string
  lm_gossip :: "(string, GossipLiveness) gomap option"
  lm_leaderSince :: time
  lm_lastFlush :: "(string, time) gomap"

definition desiredStatus :: "LivenessInputs \<Rightarrow> bool \<Rightarrow> bool \<Rightarrow> NodeStatus \<Rightarrow> NodeStatus \<times> bool" where
  "desiredStatus i baselineFresh inGrace current =
     (case Decide i of
        VerdictAlive \<Rightarrow> (NODE_STATUS_ALIVE, True)
      | VerdictDown \<Rightarrow> (NODE_STATUS_DOWN, True)
      | VerdictNoChange \<Rightarrow>
          if baselineFresh then (NODE_STATUS_ALIVE, True)
          else if inGrace \<and> current \<noteq> NODE_STATUS_DOWN then (current, False)
          else (NODE_STATUS_DOWN, True))"

definition nodeLabel :: "Node \<Rightarrow> string" where
  "nodeLabel n = (if node_name n \<noteq> '''' then node_name n else node_id n)"

text \<open>\<^verbatim>\<open>Apply\<close> with a stamped command; unlike the helper of the control loops it passes every error on.\<close>

definition raft_Apply :: "Control \<Rightarrow> string \<Rightarrow> Mutation \<Rightarrow> action" where
  "raft_Apply ctl actor m w =
     (case fresh_id ctl w of (rid, w1) \<Rightarrow>
        Store_Apply ctl \<lparr>RequestId = rid, Actor = actor, Time = Some (clock_now ctl), Mutation = m\<rparr> w1)"

definition api_emitEvent :: "Control \<Rightarrow> string \<Rightarrow> Event \<Rightarrow> World \<Rightarrow> World" where
  "api_emitEvent ctl actor ev w =
     (case fresh_id ctl w of (i, w1) \<Rightarrow>
        snd (raft_Apply ctl actor
               (Command_AppendEvents [ev\<lparr>event_meta := \<lparr>Id = i, CreatedAt = Some (clock_now ctl), UpdatedAt = None\<rparr>\<rparr>]) w1))"

definition node_down_event :: "Node \<Rightarrow> Event" where
  "node_down_event n =
     \<lparr>event_meta = meta_of '''', event_kind = ''node.down'', event_severity = ''error'', event_project_id = '''',
      event_app_id = '''', event_environment_id = '''', event_node_id = node_id n,
      event_message = ''node '' @ nodeLabel n @ '' is down'', event_fields = []\<rparr>"

text \<open>The signals for one node, and what follows from them.\<close>

definition heartbeat_age :: "Control \<Rightarrow> LiveRegistry \<Rightarrow> string \<Rightarrow> duration option" where
  "heartbeat_age ctl live i =
     (case live_Get i live of
        None \<Rightarrow> None
      | Some ns \<Rightarrow> map_option (\<lambda>t. clock_now ctl - t) (ln_lastHeartbeat ns))"

definition gossip_view :: "LivenessMonitor \<Rightarrow> string \<Rightarrow> bool option" where
  "gossip_view m i = (case lm_gossip m of None \<Rightarrow> None | Some g \<Rightarrow> map_option gl_Alive (map_of g i))"

definition liveness_inputs :: "Control \<Rightarrow> LiveRegistry \<Rightarrow> LivenessMonitor \<Rightarrow> string \<Rightarrow> LivenessInputs" where
  "liveness_inputs ctl live m i =
     \<lparr>GossipKnown = gossip_view m i \<noteq> None,
      GossipAlive = (case gossip_view m i of None \<Rightarrow> False | Some alive \<Rightarrow> alive),
      HeartbeatReceived = heartbeat_age ctl live i \<noteq> None,
      HeartbeatStaleFor = (case heartbeat_age ctl live i of None \<Rightarrow> 0 | Some d \<Rightarrow> d)\<rparr>"

definition baseline_fresh :: "Control \<Rightarrow> LiveRegistry \<Rightarrow> string \<Rightarrow> bool" where
  "baseline_fresh ctl live i = (case heartbeat_age ctl live i of None \<Rightarrow> False | Some d \<Rightarrow> d \<le> heartbeatDeadline)"

definition in_grace :: "Control \<Rightarrow> LivenessMonitor \<Rightarrow> bool" where
  "in_grace ctl m = (clock_now ctl - lm_leaderSince m < leaderGracePeriod)"

definition flush_due :: "Control \<Rightarrow> LivenessMonitor \<Rightarrow> string \<Rightarrow> bool" where
  "flush_due ctl m i =
     (case map_of (lm_lastFlush m) i of None \<Rightarrow> True | Some t \<Rightarrow> clock_now ctl - t \<ge> heartbeatFlushEvery)"

text \<open>The body of the loop for the node \<open>n\<close> as listed; the first component tells to stop the pass.\<close>

definition liveness_node ::
  "Control \<Rightarrow> LiveRegistry \<Rightarrow> Node \<Rightarrow> LivenessMonitor \<times> World \<Rightarrow> bool \<times> LivenessMonitor \<times> World" where
  "liveness_node ctl live n mw =
     (case mw of (m, w) \<Rightarrow>
        if node_id n = lm_localNodeID m \<or> node_status n \<in> {NODE_STATUS_DRAINING, NODE_STATUS_DRAINED} then (False, m, w)
        else
          (let i = node_id n;
               fresh = baseline_fresh ctl live i;
               (desired, act) = desiredStatus (liveness_inputs ctl live m i) fresh (in_grace ctl m) (node_status n);
               statusChanged = (act \<and> node_status n \<noteq> desired);
               flushHB = (fresh \<and> flush_due ctl m i)
           in if \<not> statusChanged \<and> \<not> flushHB then (False, m, w)
              else
                (case raft_Apply ctl ''system:liveness''
                        (Command_SetNodeStatus
                           \<lparr>sns_node_id = i, sns_status = (if act then desired else node_status n),
                            sns_last_heartbeat_at = (if fresh then ln_lastHeartbeat (live_node live i) else None),
                            sns_schedulable_set = False, sns_schedulable = False\<rparr>) w of
                   (Some ErrNotLeader, w1) \<Rightarrow> (True, m, w1)
                 | (Some _, w1) \<Rightarrow> (False, m, w1)
                 | (None, w1) \<Rightarrow>
                     (False,
                      (if flushHB then m\<lparr>lm_lastFlush := mput i (clock_now ctl) (lm_lastFlush m)\<rparr> else m),
                      (if statusChanged \<and> desired = NODE_STATUS_DOWN
                       then api_emitEvent ctl ''system:liveness'' (node_down_event n) w1 else w1)))))"

fun liveness_loop :: "Control \<Rightarrow> LiveRegistry \<Rightarrow> Node list \<Rightarrow> LivenessMonitor \<times> World \<Rightarrow> LivenessMonitor \<times> World" where
  "liveness_loop ctl live [] mw = mw"
| "liveness_loop ctl live (n # ns) mw =
     (case liveness_node ctl live n mw of (stop, mw') \<Rightarrow> if stop then mw' else liveness_loop ctl live ns mw')"

definition LivenessMonitor_evaluate :: "Control \<Rightarrow> LiveRegistry \<Rightarrow> LivenessMonitor \<times> World \<Rightarrow> LivenessMonitor \<times> World" where
  "LivenessMonitor_evaluate ctl live mw =
     (if is_leader ctl then liveness_loop ctl live (ListNodes (w_state (snd mw))) mw else mw)"

end
