(* ===== verification/Images.thy ===== *)
theory Images
  imports Liveness Registry
begin

text \<open>
  The life of an image: the build dispatcher hands queued builds to builder nodes and records what
  they produce (\<^verbatim>\<open>internal/daemon/scheduler/builds.go\<close>); the retention loop deletes old releases and
  removes their images from the registry (\<^verbatim>\<open>internal/daemon/scheduler/retention.go\<close>). What a builder
  streams back is a parameter: the list of what the calls of \<^verbatim>\<open>recv\<close> return, whose end is the end
  of the stream.
\<close>

subsection \<open>Builds\<close>

definition buildLogRingSize :: nat where "buildLogRingSize = 500"

record BuildEvent =
  be_log_line :: string
  be_image_digest :: string
  be_platforms :: "string list"
  be_error :: string
  be_status :: BuildStatus

datatype build_recv = Received BuildEvent | BuilderLost | StreamFailed string

record BuildDispatcherConfig =
  SourceURLBase :: string
  RegistryAddr :: string
  LocalLoad :: bool

record BuildDispatcher =
  bd_cfg :: BuildDispatcherConfig
  bd_inflight :: "(string, bool) gomap"
  bd_rings :: "(string, string list) gomap"
  bd_noBuilderWarned :: "(string, bool) gomap"

record RunBuildRequest =
  rb_build :: Build
  rb_source_url :: string
  rb_push_image_ref :: string

text \<open>What \<^verbatim>\<open>RunBuild\<close> of a node answers: an error, or a stream.\<close>

type_synonym build_dialer = "Node \<Rightarrow> RunBuildRequest \<Rightarrow> string + build_recv list"

definition builder_apply :: "Control \<Rightarrow> Mutation \<Rightarrow> action" where
  "builder_apply ctl m = raft_Apply ctl ''system:builder'' m"

definition putBuild :: "Control \<Rightarrow> Build \<Rightarrow> action" where
  "putBuild ctl b = builder_apply ctl (Command_PutBuild b)"

definition build_fail :: "Control \<Rightarrow> Build \<Rightarrow> string \<Rightarrow> World \<Rightarrow> World" where
  "build_fail ctl b msg w =
     snd (putBuild ctl (b\<lparr>build_status := BUILD_STATUS_FAILED, build_error := msg, build_finished_at := Some (clock_now ctl)\<rparr>) w)"

definition build_succeed :: "Control \<Rightarrow> Build \<Rightarrow> string \<Rightarrow> World \<Rightarrow> World" where
  "build_succeed ctl b imageRef w =
     snd (putBuild ctl (b\<lparr>build_status := BUILD_STATUS_SUCCEEDED, build_image_ref := imageRef, build_finished_at := Some (clock_now ctl)\<rparr>) w)"

definition claim_build :: "string \<Rightarrow> BuildDispatcher \<Rightarrow> bool \<times> BuildDispatcher" where
  "claim_build i d =
     (if mget False (bd_inflight d) i then (False, d) else (True, d\<lparr>bd_inflight := mput i True (bd_inflight d)\<rparr>))"

definition release_build :: "string \<Rightarrow> BuildDispatcher \<Rightarrow> BuildDispatcher" where
  "release_build i d = d\<lparr>bd_inflight := mdel i (bd_inflight d)\<rparr>"

definition runningBuildsByNode :: "Store \<Rightarrow> (string, nat) gomap" where
  "runningBuildsByNode st =
     fold (\<lambda>b m. if build_status b = BUILD_STATUS_RUNNING \<and> build_node_id b \<noteq> ''''
                   then mput (build_node_id b) (mget 0 m (build_node_id b) + 1) m else m)
       (ListBuilds '''' st) []"

text \<open>The order by load and then by id is two stable sorts.\<close>

definition pickBuilder :: "Store \<Rightarrow> Node option" where
  "pickBuilder st =
     (let running = runningBuildsByNode st;
          builders = filter (\<lambda>n. \<not> (node_status n \<noteq> NODE_STATUS_ALIVE \<or> \<not> node_schedulable n)
                                 \<and> mget '''' (node_labels n) ''builder'' = ''true'') (ListNodes st)
      in case sort_key (\<lambda>n. mget 0 running (node_id n)) (sort_key node_id builders) of
           [] \<Rightarrow> None
         | n # _ \<Rightarrow> Some n)"

definition warnNoBuilderOnce :: "Control \<Rightarrow> Build \<Rightarrow> BuildDispatcher \<times> World \<Rightarrow> BuildDispatcher \<times> World" where
  "warnNoBuilderOnce ctl b dw =
     (case dw of (d, w) \<Rightarrow>
        if mget False (bd_noBuilderWarned d) (build_id b) then (d, w)
        else (d\<lparr>bd_noBuilderWarned := mput (build_id b) True (bd_noBuilderWarned d)\<rparr>,
              case fresh_id ctl w of (i, w1) \<Rightarrow>
                snd (builder_apply ctl (Command_AppendEvents
                  [\<lparr>event_meta = \<lparr>Id = i, CreatedAt = Some (clock_now ctl), UpdatedAt = None\<rparr>,
                    event_kind = ''build.waiting_for_builder'', event_severity = ''warning'', event_project_id = '''',
                    event_app_id = '''', event_environment_id = '''', event_node_id = '''',
                    event_message = ''no schedulable builder node (cordoned, down, or builder=false); the build stays queued'',
                    event_fields = []\<rparr>]) w1)))"

definition clearNoBuilderWarning :: "string \<Rightarrow> BuildDispatcher \<Rightarrow> BuildDispatcher" where
  "clearNoBuilderWarning i d = d\<lparr>bd_noBuilderWarned := mdel i (bd_noBuilderWarned d)\<rparr>"

definition appendLog :: "string \<Rightarrow> string \<Rightarrow> BuildDispatcher \<Rightarrow> BuildDispatcher" where
  "appendLog i line d =
     (let r = mget [] (bd_rings d) i @ [line]
      in d\<lparr>bd_rings := mput i (if length r > buildLogRingSize then drop (length r - buildLogRingSize) r else r) (bd_rings d)\<rparr>)"

definition BuildLog :: "string \<Rightarrow> BuildDispatcher \<Rightarrow> string list" where
  "BuildLog i d = mget [] (bd_rings d) i"

text \<open>The receive loop: an error message, or the digest and the platforms reported last.\<close>

fun receive_build ::
  "string \<Rightarrow> string \<Rightarrow> string list \<Rightarrow> build_recv list \<Rightarrow> BuildDispatcher \<Rightarrow> (string + string \<times> string list) \<times> BuildDispatcher" where
  "receive_build i digest platforms [] d = (Inr (digest, platforms), d)"
| "receive_build i digest platforms (BuilderLost # _) d = (Inl ''builder lost'', d)"
| "receive_build i digest platforms (StreamFailed e # _) d = (Inl (''build stream: '' @ e), d)"
| "receive_build i digest platforms (Received ev # evs) d =
     (let d1 = (if be_log_line ev \<noteq> '''' then appendLog i (be_log_line ev) d else d);
          digest1 = (if be_image_digest ev \<noteq> '''' then be_image_digest ev else digest);
          platforms1 = (if be_platforms ev \<noteq> [] then be_platforms ev else platforms)
      in if be_error ev \<noteq> '''' then (Inl (be_error ev), d1)
         else if be_status ev = BUILD_STATUS_FAILED then (Inl ''build failed'', d1)
         else receive_build i digest1 platforms1 evs d1)"

definition image_repo :: "BuildDispatcherConfig \<Rightarrow> Build \<Rightarrow> string" where
  "image_repo cfg b = ToLower (RegistryAddr cfg @ ''/'' @ build_project_id b @ ''/'' @ build_app_id b)"

definition run_build_request :: "BuildDispatcherConfig \<Rightarrow> Build \<Rightarrow> RunBuildRequest" where
  "run_build_request cfg b =
     \<lparr>rb_build = b, rb_source_url = SourceURLBase cfg @ build_tarball_digest b,
      rb_push_image_ref = image_repo cfg b @ '':'' @ ToLower (build_id b)\<rparr>"

text \<open>From the answer of the builder to the recorded outcome.\<close>

definition finish_build ::
  "Control \<Rightarrow> string + build_recv list \<Rightarrow> Build \<Rightarrow> BuildDispatcher \<times> World \<Rightarrow> BuildDispatcher \<times> World" where
  "finish_build ctl answer b dw =
     (case dw of (d, w) \<Rightarrow>
        case answer of
          Inl e \<Rightarrow> (d, build_fail ctl b (''dispatch: '' @ e) w)
        | Inr stream \<Rightarrow>
            (case receive_build (build_id b) '''' [] stream d of
               (Inl msg, d1) \<Rightarrow> (d1, build_fail ctl b msg w)
             | (Inr (digest, platforms), d1) \<Rightarrow>
                 if digest = '''' then (d1, build_fail ctl b ''build ended without producing an image'' w)
                 else let deployRef = (if LocalLoad (bd_cfg d) then rb_push_image_ref (run_build_request (bd_cfg d) b)
                                       else image_repo (bd_cfg d) b @ ''@'' @ digest);
                          b2 = (if platforms \<noteq> [] then b\<lparr>build_platforms := platforms\<rparr> else b)
                      in (d1, build_succeed ctl b2 deployRef w)))"

definition dispatch :: "Control \<Rightarrow> build_dialer \<Rightarrow> Build \<Rightarrow> BuildDispatcher \<times> World \<Rightarrow> BuildDispatcher \<times> World" where
  "dispatch ctl dial b dw =
     (case (case pickBuilder (w_state (snd dw)) of
              None \<Rightarrow> warnNoBuilderOnce ctl b dw
            | Some node \<Rightarrow>
                (case dw of (d0, w) \<Rightarrow>
                   let d = clearNoBuilderWarning (build_id b) d0;
                       b1 = b\<lparr>build_status := BUILD_STATUS_RUNNING, build_node_id := node_id node,
                              build_started_at := Some (clock_now ctl)\<rparr>
                   in case putBuild ctl b1 w of
                        (Some _, w1) \<Rightarrow> (d, w1)
                      | (None, w1) \<Rightarrow> finish_build ctl (dial node (run_build_request (bd_cfg d) b1)) b1 (d, w1))) of
        (d', w') \<Rightarrow> (release_build (build_id b) d', w'))"

text \<open>A pass claims every queued build that is not under way; each claimed build is then dispatched on
  its own.\<close>

definition dispatcher_reconcile :: "Control \<Rightarrow> Store \<Rightarrow> BuildDispatcher \<Rightarrow> Build list \<times> BuildDispatcher" where
  "dispatcher_reconcile ctl st d =
     (if \<not> is_leader ctl then ([], d)
      else fold (\<lambda>b (started, d). if build_status b \<noteq> BUILD_STATUS_QUEUED then (started, d)
                    else case claim_build (build_id b) d of (ok, d') \<Rightarrow> (if ok then started @ [b] else started, d'))
             (ListBuilds '''' st) ([], d))"

subsection \<open>Retention\<close>

definition retentionKeep :: nat where "retentionKeep = 10"
definition tarballMaxAge :: duration where "tarballMaxAge = 24 * Hour"

definition previousReleaseID :: "Release list \<Rightarrow> string \<Rightarrow> string" where
  "previousReleaseID rs activeID =
     (case find (\<lambda>r. rel_id r = activeID) rs of
        None \<Rightarrow> ''''
      | Some active \<Rightarrow>
          (case find (\<lambda>r. rel_version r < rel_version active) rs of None \<Rightarrow> '''' | Some r \<Rightarrow> rel_id r))"

text \<open>The keys of the map \<^verbatim>\<open>keep\<close>.\<close>

definition retention_kept :: "Store \<Rightarrow> Environment \<Rightarrow> Release list \<Rightarrow> string list" where
  "retention_kept st env rs =
     [env_active_release_id env, previousReleaseID rs (env_active_release_id env)]
     @ map rel_id (take retentionKeep rs)
     @ concat (map (\<lambda>d. [dep_release_id d, dep_previous_release_id d])
         (filter (\<lambda>d. \<not> isTerminalPhase (dep_phase d)) (ListDeployments (env_id env) st)))"

text \<open>The registry is absent on a node without one.\<close>

type_synonym retention_state = "Registry option \<times> World"

definition reclaim_image :: "Release \<Rightarrow> Registry option \<Rightarrow> Registry option" where
  "reclaim_image rel reg =
     (if src_build_id (rel_source rel) \<noteq> ''''
      then map_option (UntagAndSweep (rel_project_id rel @ ''/'' @ rel_app_id rel) (src_build_id (rel_source rel))) reg
      else reg)"

fun prune_releases :: "Control \<Rightarrow> string list \<Rightarrow> Release list \<Rightarrow> retention_state \<Rightarrow> apply_error option \<times> retention_state" where
  "prune_releases ctl keep [] rw = (None, rw)"
| "prune_releases ctl keep (rel # rs) (reg, w) =
     (if rel_id rel \<in> set keep then prune_releases ctl keep rs (reg, w)
      else case raft_Apply ctl ''system:retention'' (Command_DeleteRelease (rel_id rel)) w of
             (Some e, w1) \<Rightarrow> (Some e, reclaim_image rel reg, w1)
           | (None, w1) \<Rightarrow> prune_releases ctl keep rs (reclaim_image rel reg, w1))"

definition sweepEnv :: "Control \<Rightarrow> string \<Rightarrow> retention_state \<Rightarrow> apply_error option \<times> retention_state" where
  "sweepEnv ctl envID rw =
     (case Environment envID (w_state (snd rw)) of
        None \<Rightarrow> (None, rw)
      | Some env \<Rightarrow>
          (let rs = ListReleases envID (w_state (snd rw))
           in prune_releases ctl (retention_kept (w_state (snd rw)) env rs) rs rw))"

fun sweep_envs :: "Control \<Rightarrow> string list \<Rightarrow> retention_state \<Rightarrow> apply_error option \<times> retention_state" where
  "sweep_envs ctl [] rw = (None, rw)"
| "sweep_envs ctl (e # es) rw =
     (case sweepEnv ctl e rw of (Some err, rw') \<Rightarrow> (Some err, rw') | (None, rw') \<Rightarrow> sweep_envs ctl es rw')"

record upload_entry =
  ue_name :: string
  ue_is_dir :: bool
  ue_mod_time :: "time option"

definition sweepTarballs :: "time \<Rightarrow> upload_entry list \<Rightarrow> upload_entry list" where
  "sweepTarballs now entries =
     filter (\<lambda>e. ue_is_dir e \<or> (case ue_mod_time e of None \<Rightarrow> True | Some t \<Rightarrow> \<not> t < now - tarballMaxAge)) entries"

text \<open>The order in which the map of environments is ranged over is the parameter \<open>order\<close>.\<close>

definition retention_sweep ::
  "((string, bool) gomap \<Rightarrow> (string \<times> bool) list) \<Rightarrow> Control \<Rightarrow> retention_state \<times> upload_entry list
   \<Rightarrow> apply_error option \<times> retention_state \<times> upload_entry list" where
  "retention_sweep order ctl s =
     (case s of (rw, uploads) \<Rightarrow>
        if \<not> is_leader ctl then (Some ErrNotLeader, rw, uploads)
        else let byEnv = fold (\<lambda>r. mput (rel_environment_id r) True) (ListReleases '''' (w_state (snd rw))) []
             in case sweep_envs ctl (map fst (order byEnv)) rw of
                  (Some e, rw') \<Rightarrow> (Some e, rw', uploads)
                | (None, rw') \<Rightarrow> (None, rw', sweepTarballs (clock_now ctl) uploads))"

end
