(* ===== verification/LivenessProps.thy ===== *)
theory LivenessProps
  imports Liveness Replicas
begin

text \<open>
  The monitor never demotes a node against a fresh heartbeat or without the agreement of the
  detectors, leaves the leader's own node and drained nodes alone, and brings the durable status in
  line with the signals when its proposals commit; a stream that ends late does not disconnect a node
  that has reconnected.
\<close>

subsection \<open>Presence\<close>

text \<open>The events of a node's streams: a connection, the end of the stream with the given number
  (connections are numbered from 1), a heartbeat.\<close>

datatype stream_event = Connected | Ended nat | Beat time "Heartbeat option"

fun stream_step :: "string \<Rightarrow> stream_event \<Rightarrow> LiveRegistry \<Rightarrow> LiveRegistry" where
  "stream_step i Connected r = snd (live_Connect i r)"
| "stream_step i (Ended k) r = live_release i (of_nat k) r"
| "stream_step i (Beat now hb) r = live_Heartbeat now i hb r"

text \<open>What should hold: the newest stream is the number of connections so far, and it is present
  until its own end.\<close>

fun newest_stream :: "stream_event \<Rightarrow> nat \<times> bool \<Rightarrow> nat \<times> bool" where
  "newest_stream Connected (k, up) = (Suc k, True)"
| "newest_stream (Ended j) (k, up) = (k, up \<and> j \<noteq> k)"
| "newest_stream (Beat _ _) (k, up) = (k, up)"

lemma of_nat_inj_bounded:
  assumes "j < 2 ^ 64" "k < 2 ^ 64" "(of_nat j :: 64 word) = of_nat k"
  shows "j = k"
proof -
  have "unat (of_nat j :: 64 word) = j" "unat (of_nat k :: 64 word) = k"
    using assms(1,2) by (simp_all add: unat_of_nat take_bit_nat_eq_self)
  with assms(3) show ?thesis by metis
qed

lemma live_node_put: "live_node (mput j n r) i = (if i = j then n else live_node r i)"
  by (simp add: live_node_def)

lemma stream_step_node:
  assumes "ln_gen (live_node r i) = of_nat k" "ln_connected (live_node r i) = up" "up \<longrightarrow> k > 0"
    and "k < 2 ^ 64" "\<forall>j. ev = Ended j \<longrightarrow> j < 2 ^ 64"
  shows "case newest_stream ev (k, up) of (k', up') \<Rightarrow>
      ln_gen (live_node (stream_step i ev r) i) = of_nat k' \<and> ln_connected (live_node (stream_step i ev r) i) = up'
      \<and> (up' \<longrightarrow> k' > 0)"
proof (cases ev)
  case (Ended j)
  show ?thesis
  proof (cases "map_of r i")
    case None
    then have "\<not> up" using assms(2) by (simp add: live_node_def new_live_node_def)
    with None assms(1-3) Ended show ?thesis by (simp add: live_release_def)
  next
    case (Some n)
    then have n: "live_node r i = n" by (simp add: live_node_def)
    have "j = k" if "(of_nat k :: 64 word) = of_nat j"
      using of_nat_inj_bounded [of k j] assms(4,5) Ended that by simp
    with Some n assms(1-3) Ended show ?thesis by (auto simp: live_release_def live_node_put)
  qed
qed (use assms(1-3) in \<open>simp_all add: live_Connect_def live_Heartbeat_def live_node_put Let_def ac_simps\<close>)

lemma stream_fold:
  assumes "ln_gen (live_node r i) = of_nat k" "ln_connected (live_node r i) = up" "up \<longrightarrow> k > 0"
    and "k + length evs < 2 ^ 64" "\<forall>j. Ended j \<in> set evs \<longrightarrow> j < 2 ^ 64"
  shows "case fold newest_stream evs (k, up) of (k', up') \<Rightarrow>
      ln_gen (live_node (fold (stream_step i) evs r) i) = of_nat k' \<and> ln_connected (live_node (fold (stream_step i) evs r) i) = up'"
  using assms
proof (induction evs arbitrary: r k up)
  case (Cons ev evs)
  obtain k' up' where n: "newest_stream ev (k, up) = (k', up')" by (metis surj_pair)
  then have "k' \<le> Suc k" by (cases ev) auto
  moreover note stream_step_node [OF Cons.prems(1-3), of ev]
  ultimately show ?case
    using Cons.IH [of "stream_step i ev r" k' up'] Cons.prems(4,5) n by simp
qed simp

subsection \<open>What the signals allow\<close>

definition next_status :: "Control \<Rightarrow> LiveRegistry \<Rightarrow> LivenessMonitor \<Rightarrow> Node \<Rightarrow> NodeStatus" where
  "next_status ctl live m n =
     (if node_id n = lm_localNodeID m \<or> node_status n \<in> {NODE_STATUS_DRAINING, NODE_STATUS_DRAINED} then node_status n
      else case desiredStatus (liveness_inputs ctl live m (node_id n)) (baseline_fresh ctl live (node_id n))
                  (in_grace ctl m) (node_status n) of
             (desired, act) \<Rightarrow> if act then desired else node_status n)"

definition beat_within :: "duration \<Rightarrow> Control \<Rightarrow> LiveRegistry \<Rightarrow> string \<Rightarrow> bool" where
  "beat_within d ctl live i \<longleftrightarrow> (\<exists>age. heartbeat_age ctl live i = Some age \<and> age \<le> d)"

lemma next_status_cases:
  "node_id n \<noteq> lm_localNodeID m \<Longrightarrow> node_status n \<notin> {NODE_STATUS_DRAINING, NODE_STATUS_DRAINED} \<Longrightarrow>
   next_status ctl live m n =
     (if beat_within (10 * Second) ctl live (node_id n) \<or> gossip_view m (node_id n) = Some True then NODE_STATUS_ALIVE
      else if gossip_view m (node_id n) = Some False then NODE_STATUS_DOWN
      else if beat_within (30 * Second) ctl live (node_id n) then NODE_STATUS_ALIVE
      else if in_grace ctl m then node_status n
      else NODE_STATUS_DOWN)"
  by (cases "heartbeat_age ctl live (node_id n)"; cases "gossip_view m (node_id n)")
    (auto simp: next_status_def desiredStatus_def Decide_def liveness_inputs_def baseline_fresh_def beat_within_def
      GossipDownStaleThreshold_def heartbeatDeadline_def Let_def split: if_splits)


subsection \<open>A pass\<close>

definition moved :: "Control \<Rightarrow> LiveRegistry \<Rightarrow> LivenessMonitor \<Rightarrow> Node \<Rightarrow> Node \<Rightarrow> bool" where
  "moved ctl live m n n' \<longleftrightarrow>
     (\<exists>st hb. n' = n\<lparr>node_status := st, node_last_heartbeat_at := hb\<rparr> \<and> st \<in> {node_status n, next_status ctl live m n})"

definition other_tables :: "Store \<Rightarrow> Store \<Rightarrow> bool" where
  "other_tables s t \<longleftrightarrow> asgs t = asgs s \<and> deps t = deps s \<and> envs t = envs s \<and> rels t = rels s
     \<and> volumes t = volumes s \<and> jobs t = jobs s \<and> builds t = builds s \<and> serviceVIPs t = serviceVIPs s"

abbreviation same_view :: "LivenessMonitor \<Rightarrow> LivenessMonitor \<Rightarrow> bool" where
  "same_view m m' \<equiv> lm_localNodeID m' = lm_localNodeID m \<and> lm_gossip m' = lm_gossip m \<and> lm_leaderSince m' = lm_leaderSince m"

lemma next_status_view: "same_view m m' \<Longrightarrow> next_status ctl live m' n = next_status ctl live m n"
  by (simp add: next_status_def liveness_inputs_def gossip_view_def in_grace_def)

lemma moved_refl: "moved ctl live m n n"
  unfolding moved_def by (rule exI [of _ "node_status n"], rule exI [of _ "node_last_heartbeat_at n"]) simp

lemma raft_Apply_propose:
  "snd (raft_Apply ctl actor m w) = snd (propose ctl actor m w)"
  "fst (raft_Apply ctl actor m w) = Some ErrNotLeader \<longleftrightarrow> fst (propose ctl actor m w) \<noteq> None"
  by (simp_all add: raft_Apply_def propose_def fresh_id_def split_def)

lemma raft_Apply_reliable:
  assumes "reliable ctl w" and "\<And>rid now s. fst (apply_mutation rid now m s) = None"
  shows "fst (raft_Apply ctl actor m w) = None"
proof -
  have "raft_net ctl (w_proposals w) = Committed" "\<not> mhas (appliedSet (w_state w)) (new_id ctl (w_ids w))"
    using assms(1) by (simp_all add: reliable_def del: mhas_iff)
  then show ?thesis
    by (simp add: raft_Apply_def fresh_id_def Store_Apply_def commit_def split_def Let_def FSM_Apply_fresh fsm_apply_def assms(2)
        del: mhas_iff)
qed

lemma propose_status:
  assumes "store_inv (w_state w)" "map_of (nodes (w_state w)) (node_id n) = Some n" "sns_node_id c = node_id n" "\<not> sns_schedulable_set c"
  defines "n' \<equiv> n\<lparr>node_status := sns_status c,
      node_last_heartbeat_at := (if sns_last_heartbeat_at c \<noteq> None then sns_last_heartbeat_at c else node_last_heartbeat_at n)\<rparr>"
  shows "(map_of (nodes (w_state (snd (propose ctl actor (Command_SetNodeStatus c) w)))) = map_of (nodes (w_state w))
        \<or> map_of (nodes (w_state (snd (propose ctl actor (Command_SetNodeStatus c) w)))) = (map_of (nodes (w_state w)))(node_id n \<mapsto> n'))
      \<and> other_tables (w_state w) (w_state (snd (propose ctl actor (Command_SetNodeStatus c) w)))"
    and "reliable ctl w \<Longrightarrow>
      map_of (nodes (w_state (snd (propose ctl actor (Command_SetNodeStatus c) w)))) = (map_of (nodes (w_state w)))(node_id n \<mapsto> n')"
proof -
  have id: "node_id n' = node_id n" by (simp add: n'_def)
  have performed: "snd (applySetNodeStatus c (recorded e cmd (w_state w))) = PutNode n' (recorded e cmd (w_state w))" for e cmd
    using assms(2-4) by (simp add: applySetNodeStatus_def Node_def n'_def Let_def)
  show "(map_of (nodes (w_state (snd (propose ctl actor (Command_SetNodeStatus c) w)))) = map_of (nodes (w_state w))
        \<or> map_of (nodes (w_state (snd (propose ctl actor (Command_SetNodeStatus c) w)))) = (map_of (nodes (w_state w)))(node_id n \<mapsto> n'))
      \<and> other_tables (w_state w) (w_state (snd (propose ctl actor (Command_SetNodeStatus c) w)))"
    by (rule propose_rel) (simp_all add: performed other_tables_def PutNode_def touch_def id)
  show "map_of (nodes (w_state (snd (propose ctl actor (Command_SetNodeStatus c) w)))) = (map_of (nodes (w_state w)))(node_id n \<mapsto> n')"
    if "reliable ctl w"
  proof -
    have "appliedSet (snd (apply_mutation rid now (Command_SetNodeStatus c) s)) = appliedSet s" for rid now s
      by (simp add: applySetNodeStatus_def PutNode_def touch_def Let_def split: option.split)
    from propose_reliable(2) [OF that this, of actor] show ?thesis by (auto simp: after_def performed PutNode_def touch_def id)
  qed
qed


lemma emit_state:
  "store_inv (w_state w) \<Longrightarrow> store_inv (w_state (api_emitEvent ctl actor ev w))"
  "nodes (w_state (api_emitEvent ctl actor ev w)) = nodes (w_state w)"
  "other_tables (w_state w) (w_state (api_emitEvent ctl actor ev w))"
  "reliable ctl w \<Longrightarrow> reliable ctl (api_emitEvent ctl actor ev w)"
proof -
  define w1 where "w1 = snd (fresh_id ctl w)"
  obtain ev' where e: "api_emitEvent ctl actor ev w = snd (propose ctl actor (Command_AppendEvents [ev']) w1)"
    by (simp add: api_emitEvent_def raft_Apply_propose fresh_id_def w1_def)
  have w1: "w_state w1 = w_state w" "reliable ctl w \<Longrightarrow> reliable ctl w1" by (simp_all add: w1_def fresh_id_def reliable_def)
  show "store_inv (w_state (api_emitEvent ctl actor ev w))" if "store_inv (w_state w)"
    using that by (simp add: e propose_inv w1)
  show "nodes (w_state (api_emitEvent ctl actor ev w)) = nodes (w_state w)"
    "other_tables (w_state w) (w_state (api_emitEvent ctl actor ev w))"
    using propose_AppendEvents [of w1 ctl actor "[ev']"]
    by (simp_all add: e w1 tables_eq_def same_but_assignments_def other_tables_def)
  show "reliable ctl (api_emitEvent ctl actor ev w)" if "reliable ctl w"
    unfolding e by (rule propose_reliable(3) [OF w1(2) [OF that] assignment_mutations_applied(3)])
qed

text \<open>One node: it moves within what the signals allow, and all the way when proposals commit.\<close>

lemma liveness_node_step:
  assumes inv: "store_inv (w_state w)" and at: "map_of (nodes (w_state w)) (node_id n) = Some n"
    and step: "liveness_node ctl live n (m, w) = (stop, m', w')"
  shows "store_inv (w_state w') \<and> other_tables (w_state w) (w_state w') \<and> same_view m m'
    \<and> (\<exists>n'. map_of (nodes (w_state w')) = (map_of (nodes (w_state w)))(node_id n \<mapsto> n') \<and> moved ctl live m n n'
         \<and> (reliable ctl w \<longrightarrow> \<not> stop \<and> reliable ctl w' \<and> node_status n' = next_status ctl live m n))"
proof -
  have stay: "map_of (nodes (w_state w)) = (map_of (nodes (w_state w)))(node_id n \<mapsto> n)" using at by auto
  show ?thesis
  proof (cases "node_id n = lm_localNodeID m \<or> node_status n \<in> {NODE_STATUS_DRAINING, NODE_STATUS_DRAINED}")
    case True
    with step have "stop = False" "m' = m" "w' = w" by (auto simp: liveness_node_def)
    moreover have "next_status ctl live m n = node_status n" using True by (simp add: next_status_def)
    ultimately show ?thesis using inv stay moved_refl by (auto simp: other_tables_def)
  next
    case remote: False
    obtain desired act where d: "desiredStatus (liveness_inputs ctl live m (node_id n)) (baseline_fresh ctl live (node_id n))
        (in_grace ctl m) (node_status n) = (desired, act)" by fastforce
    have target: "next_status ctl live m n = (if act then desired else node_status n)"
      using remote d by (auto simp: next_status_def)
    show ?thesis
    proof (cases "(act \<and> node_status n \<noteq> desired) \<or> (baseline_fresh ctl live (node_id n) \<and> flush_due ctl m (node_id n))")
      case False
      with step remote d have "stop = False" "m' = m" "w' = w" by (auto simp: liveness_node_def)
      moreover have "next_status ctl live m n = node_status n" using False target by auto
      ultimately show ?thesis using inv stay moved_refl by (auto simp: other_tables_def)
    next
      case True
      define c where "c = \<lparr>sns_node_id = node_id n, sns_status = (if act then desired else node_status n),
        sns_last_heartbeat_at = (if baseline_fresh ctl live (node_id n) then ln_lastHeartbeat (live_node live (node_id n)) else None),
        sns_schedulable_set = False, sns_schedulable = False\<rparr>"
      define a where "a = raft_Apply ctl ''system:liveness'' (Command_SetNodeStatus c) w"
      have run: "liveness_node ctl live n (m, w) =
          (case a of
             (Some ErrNotLeader, w1) \<Rightarrow> (True, m, w1)
           | (Some _, w1) \<Rightarrow> (False, m, w1)
           | (None, w1) \<Rightarrow>
               (False,
                (if baseline_fresh ctl live (node_id n) \<and> flush_due ctl m (node_id n)
                 then m\<lparr>lm_lastFlush := mput (node_id n) (clock_now ctl) (lm_lastFlush m)\<rparr> else m),
                (if (act \<and> node_status n \<noteq> desired) \<and> desired = NODE_STATUS_DOWN
                 then api_emitEvent ctl ''system:liveness'' (node_down_event n) w1 else w1)))"
        using remote True d by (auto simp: liveness_node_def a_def c_def Let_def)
      define w1 where "w1 = snd a"
      have w1: "w1 = snd (propose ctl ''system:liveness'' (Command_SetNodeStatus c) w)"
        by (simp add: w1_def a_def raft_Apply_propose)
      have w': "w' = w1 \<or> w' = api_emitEvent ctl ''system:liveness'' (node_down_event n) w1" and view: "same_view m m'"
        and stopped: "stop \<longrightarrow> fst a = Some ErrNotLeader"
        using step unfolding run w1_def by (auto split: prod.splits option.splits apply_error.splits if_splits)
      have c: "sns_node_id c = node_id n" "\<not> sns_schedulable_set c" "sns_status c = next_status ctl live m n"
        by (simp_all add: c_def target)
      note status = propose_status [OF inv at c(1,2), of ctl "''system:liveness''", folded w1]
      have same: "nodes (w_state w') = nodes (w_state w1)" "other_tables (w_state w1) (w_state w')"
        "store_inv (w_state w1) \<Longrightarrow> store_inv (w_state w')" "reliable ctl w1 \<Longrightarrow> reliable ctl w'"
        using w' emit_state [where w = w1 and ctl = ctl and actor = "''system:liveness''" and ev = "node_down_event n"] by (auto simp: other_tables_def)
      have committed: "\<not> stop \<and> reliable ctl w1" if "reliable ctl w"
      proof -
        have quiet: "appliedSet (snd (apply_mutation rid now (Command_SetNodeStatus c) s)) = appliedSet s" for rid now s
          by (simp add: applySetNodeStatus_def PutNode_def touch_def Let_def split: option.split)
        from propose_reliable(1,3) [OF that quiet, of "''system:liveness''"] show ?thesis
          using stopped by (auto simp: a_def raft_Apply_propose w1)
      qed
      have "\<exists>n'. map_of (nodes (w_state w')) = (map_of (nodes (w_state w)))(node_id n \<mapsto> n') \<and> moved ctl live m n n'
         \<and> (reliable ctl w \<longrightarrow> node_status n' = next_status ctl live m n)"
      proof -
        define n1 where "n1 = n\<lparr>node_status := sns_status c, node_last_heartbeat_at :=
          (if sns_last_heartbeat_at c \<noteq> None then sns_last_heartbeat_at c else node_last_heartbeat_at n)\<rparr>"
        have n1: "moved ctl live m n n1" "node_status n1 = next_status ctl live m n"
          unfolding moved_def n1_def c(3) by (blast, simp)
        show ?thesis
        proof (cases "map_of (nodes (w_state w1)) = (map_of (nodes (w_state w)))(node_id n \<mapsto> n1)")
          case True
          with n1 show ?thesis unfolding same(1) by blast
        next
          case False
          then have "\<not> reliable ctl w" "map_of (nodes (w_state w1)) = map_of (nodes (w_state w))"
            using status unfolding n1_def by blast+
          with stay moved_refl show ?thesis unfolding same(1) by metis
        qed
      qed
      moreover have "other_tables (w_state w) (w_state w')" using status(1) same(2) by (auto simp: other_tables_def)
      moreover have "store_inv (w_state w')" by (rule same(3)) (simp add: w1 propose_inv inv)
      ultimately show ?thesis using view committed same(4) by blast
    qed
  qed
qed


lemma liveness_loop_spec:
  assumes "store_inv (w_state w)" "distinct (map node_id ns)"
    and "\<forall>n \<in> set ns. map_of (nodes (w_state w)) (node_id n) = Some n" and "liveness_loop ctl live ns (m, w) = (m', w')"
  shows "store_inv (w_state w') \<and> other_tables (w_state w) (w_state w')
    \<and> (\<forall>i. i \<notin> node_id ` set ns \<longrightarrow> map_of (nodes (w_state w')) i = map_of (nodes (w_state w)) i)
    \<and> (\<forall>n \<in> set ns. \<exists>n'. map_of (nodes (w_state w')) (node_id n) = Some n' \<and> moved ctl live m n n'
         \<and> (reliable ctl w \<longrightarrow> node_status n' = next_status ctl live m n))"
  using assms
proof (induction ns arbitrary: m w)
  case (Cons n ns)
  obtain stop m1 w1 where step: "liveness_node ctl live n (m, w) = (stop, m1, w1)" by (metis prod_cases3)
  from Cons.prems(3) have at: "map_of (nodes (w_state w)) (node_id n) = Some n" by simp
  from liveness_node_step [OF Cons.prems(1) at step] obtain n' where
    inv: "store_inv (w_state w1)" and others: "other_tables (w_state w) (w_state w1)" and view: "same_view m m1"
    and n': "map_of (nodes (w_state w1)) = (map_of (nodes (w_state w)))(node_id n \<mapsto> n')" "moved ctl live m n n'"
      "reliable ctl w \<longrightarrow> \<not> stop \<and> reliable ctl w1 \<and> node_status n' = next_status ctl live m n" by blast
  have later: "map_of (nodes (w_state w1)) (node_id x) = Some x" if "x \<in> set ns" for x
  proof -
    have "node_id n \<notin> node_id ` set ns" using Cons.prems(2) by simp
    with imageI [OF that, of node_id] have "node_id x \<noteq> node_id n" by metis
    moreover have "map_of (nodes (w_state w)) (node_id x) = Some x" using bspec [OF Cons.prems(3), of x] that by simp
    ultimately show ?thesis unfolding n'(1) by simp
  qed
  show ?case
  proof (cases stop)
    case True
    with Cons.prems(4) step have "w' = w1" by simp
    moreover have "\<not> reliable ctl w" using True n'(3) by blast
    moreover have "\<exists>x'. map_of (nodes (w_state w1)) (node_id x) = Some x' \<and> moved ctl live m x x'" if "x \<in> set (n # ns)" for x
      using that later n'(1,2) moved_refl by (metis fun_upd_same set_ConsD)
    ultimately show ?thesis using inv others n'(1) by simp
  next
    case False
    with Cons.prems(4) step have run: "liveness_loop ctl live ns (m1, w1) = (m', w')" by simp
    from Cons.IH [OF inv _ _ run] Cons.prems(2) later
    have ih: "store_inv (w_state w')" "other_tables (w_state w1) (w_state w')"
      "\<forall>i. i \<notin> node_id ` set ns \<longrightarrow> map_of (nodes (w_state w')) i = map_of (nodes (w_state w1)) i"
      "\<forall>x \<in> set ns. \<exists>x'. map_of (nodes (w_state w')) (node_id x) = Some x' \<and> moved ctl live m1 x x'
         \<and> (reliable ctl w1 \<longrightarrow> node_status x' = next_status ctl live m1 x)" by auto
    have "node_id n \<notin> node_id ` set ns" using Cons.prems(2) by simp
    with ih(3) n'(1) have mine: "map_of (nodes (w_state w')) (node_id n) = Some n'" by simp
    have "\<exists>x'. map_of (nodes (w_state w')) (node_id x) = Some x' \<and> moved ctl live m x x'
         \<and> (reliable ctl w \<longrightarrow> node_status x' = next_status ctl live m x)" if "x \<in> set (n # ns)" for x
    proof (cases "x = n")
      case True
      with mine n'(2,3) show ?thesis by blast
    next
      case False
      with that ih(4) obtain x' where "map_of (nodes (w_state w')) (node_id x) = Some x'" "moved ctl live m1 x x'"
        "reliable ctl w1 \<longrightarrow> node_status x' = next_status ctl live m1 x" by auto
      with n'(3) show ?thesis unfolding moved_def next_status_view [OF view] by blast
    qed
    moreover have "other_tables (w_state w) (w_state w')" using others ih(2) by (simp add: other_tables_def)
    moreover have "\<forall>i. i \<notin> node_id ` set (n # ns) \<longrightarrow> map_of (nodes (w_state w')) i = map_of (nodes (w_state w)) i"
      using ih(3) n'(1) by simp
    ultimately show ?thesis using ih(1) by blast
  qed
qed (simp add: other_tables_def)

lemma liveness_pass:
  assumes "store_inv (w_state w)" "LivenessMonitor_evaluate ctl live (m, w) = (m', w')" "Node i (w_state w) = Some n"
  shows "store_inv (w_state w') \<and> other_tables (w_state w) (w_state w')
    \<and> (\<exists>n'. Node i (w_state w') = Some n' \<and> moved ctl live m n n'
         \<and> (is_leader ctl \<and> reliable ctl w \<longrightarrow> node_status n' = next_status ctl live m n))"
proof (cases "is_leader ctl")
  case True
  with assms(2) have run: "liveness_loop ctl live (ListNodes (w_state w)) (m, w) = (m', w')"
    by (simp add: LivenessMonitor_evaluate_def)
  have listed: "\<forall>x \<in> set (ListNodes (w_state w)). map_of (nodes (w_state w)) (node_id x) = Some x"
    using ListNodes_iff [OF assms(1)] by (simp add: Node_def)
  have "distinct (map node_id (ListNodes (w_state w)))"
    using keyed_distinct_mvals [OF store_keyed(5) [OF assms(1)]] keyed_inj_on [OF store_keyed(5) [OF assms(1)]]
    by (simp add: ListNodes_def sortByID_def distinct_map)
  note spec = liveness_loop_spec [OF assms(1) this listed run]
  have i: "node_id n = i" using keyedD [OF store_keyed(5) [OF assms(1)]] assms(3) by (simp add: Node_def)
  then have "n \<in> set (ListNodes (w_state w))" using ListNodes_iff [OF assms(1)] assms(3) by simp
  with spec i show ?thesis by (auto simp: Node_def)
next
  case False
  with assms show ?thesis by (auto simp: LivenessMonitor_evaluate_def other_tables_def moved_refl)
qed


subsection \<open>Properties\<close>

text \<open>C19 (nodes change status for a reason): whatever the outcomes of the proposals, a pass changes the status of
  a node only if it is remote and not draining or drained, and then to alive when it was heard from within 30
  seconds or gossip sees it, or to down when it was not heard from within 10 seconds, gossip does not see
  it, and either gossip reports it dead or it was silent for 30 seconds and the grace period after the
  election is over. Nothing else of a node changes but the instant of its last heartbeat.\<close>

theorem node_status_justified:
  assumes "store_inv (w_state w)" "LivenessMonitor_evaluate ctl live (m, w) = (m', w')" "Node i (w_state w) = Some n"
  shows "\<exists>n'. Node i (w_state w') = Some n'
    \<and> n' = n\<lparr>node_status := node_status n', node_last_heartbeat_at := node_last_heartbeat_at n'\<rparr>
    \<and> (node_status n' \<noteq> node_status n \<longrightarrow>
         node_id n \<noteq> lm_localNodeID m \<and> node_status n \<notin> {NODE_STATUS_DRAINING, NODE_STATUS_DRAINED}
         \<and> (node_status n' = NODE_STATUS_ALIVE
              \<and> (beat_within (30 * Second) ctl live (node_id n) \<or> gossip_view m (node_id n) = Some True)
            \<or> node_status n' = NODE_STATUS_DOWN
              \<and> \<not> beat_within (10 * Second) ctl live (node_id n) \<and> gossip_view m (node_id n) \<noteq> Some True
              \<and> (gossip_view m (node_id n) = Some False
                 \<or> \<not> beat_within (30 * Second) ctl live (node_id n) \<and> \<not> in_grace ctl m)))"
proof -
  from liveness_pass [OF assms] obtain n' where n': "Node i (w_state w') = Some n'" "moved ctl live m n n'" by blast
  then obtain st hb where st: "n' = n\<lparr>node_status := st, node_last_heartbeat_at := hb\<rparr>"
    "st \<in> {node_status n, next_status ctl live m n}" unfolding moved_def by blast
  have whole: "n' = n\<lparr>node_status := node_status n', node_last_heartbeat_at := node_last_heartbeat_at n'\<rparr>"
    by (simp add: st(1))
  have near: "beat_within (30 * Second) ctl live (node_id n)" if "beat_within (10 * Second) ctl live (node_id n)"
    using that by (auto simp: beat_within_def Second_def Millisecond_def)
  show ?thesis
  proof (cases "node_id n = lm_localNodeID m \<or> node_status n \<in> {NODE_STATUS_DRAINING, NODE_STATUS_DRAINED}")
    case True
    then have "node_status n' = node_status n" using st by (auto simp: next_status_def)
    with n'(1) whole show ?thesis by blast
  next
    case False
    note target = next_status_cases [of n m ctl live]
    have "node_status n' \<in> {node_status n, next_status ctl live m n}" using st by simp
    with False near have "node_status n' \<noteq> node_status n \<longrightarrow>
         node_id n \<noteq> lm_localNodeID m \<and> node_status n \<notin> {NODE_STATUS_DRAINING, NODE_STATUS_DRAINED}
         \<and> (node_status n' = NODE_STATUS_ALIVE
              \<and> (beat_within (30 * Second) ctl live (node_id n) \<or> gossip_view m (node_id n) = Some True)
            \<or> node_status n' = NODE_STATUS_DOWN
              \<and> \<not> beat_within (10 * Second) ctl live (node_id n) \<and> gossip_view m (node_id n) \<noteq> Some True
              \<and> (gossip_view m (node_id n) = Some False
                 \<or> \<not> beat_within (30 * Second) ctl live (node_id n) \<and> \<not> in_grace ctl m))"
      using target by (auto split: if_splits)
    with n'(1) whole show ?thesis by blast
  qed
qed

text \<open>C18 (failed nodes are detected): when the leader's proposals commit, a pass leaves every remote node that is not
  draining or drained alive if it was heard from within 10 seconds or gossip sees it; down if gossip
  reports it dead and it was not heard from within 10 seconds; and, where gossip has no opinion, alive if
  heard from within 30 seconds and down if silent for longer once the grace period is over.\<close>

theorem node_failure_detected:
  assumes "store_inv (w_state w)" "is_leader ctl" "reliable ctl w"
    and "LivenessMonitor_evaluate ctl live (m, w) = (m', w')" "Node i (w_state w) = Some n"
    and "i \<noteq> lm_localNodeID m" "node_status n \<notin> {NODE_STATUS_DRAINING, NODE_STATUS_DRAINED}"
  shows "\<exists>n'. Node i (w_state w') = Some n' \<and> node_status n' =
     (if beat_within (10 * Second) ctl live i \<or> gossip_view m i = Some True then NODE_STATUS_ALIVE
      else if gossip_view m i = Some False then NODE_STATUS_DOWN
      else if beat_within (30 * Second) ctl live i then NODE_STATUS_ALIVE
      else if in_grace ctl m then node_status n
      else NODE_STATUS_DOWN)"
proof -
  have i: "node_id n = i" using keyedD [OF store_keyed(5) [OF assms(1)]] assms(5) by (simp add: Node_def)
  from liveness_pass [OF assms(1,4,5)] assms(2,3) obtain n' where
    "Node i (w_state w') = Some n'" "node_status n' = next_status ctl live m n" by blast
  with next_status_cases [of n m ctl live] assms(6,7) i show ?thesis by simp
qed

text \<open>
  A late end of a stream does not disconnect: a node is connected exactly while the newest of its streams
  has not ended; the end of an earlier stream, whenever it is noticed, changes nothing.\<close>

theorem presence_follows_newest_stream:
  assumes "length evs < 2 ^ 64" "\<forall>j. Ended j \<in> set evs \<longrightarrow> j < 2 ^ 64"
  shows "ln_connected (live_node (fold (stream_step i) evs []) i) = snd (fold newest_stream evs (0, False))"
  using stream_fold [of "[]" i 0 False evs] assms by (auto simp: live_node_def new_live_node_def split: prod.splits)

subsection \<open>Examples\<close>

definition sample_nodes :: World where
  "sample_nodes = \<lparr>w_state = run_log
     [entry 1 ''r1'' (Command_PutNode (zero_node\<lparr>node_meta := meta_of ''n1'', node_status := NODE_STATUS_ALIVE\<rparr>)),
      entry 2 ''r2'' (Command_PutNode (zero_node\<lparr>node_meta := meta_of ''n2'', node_status := NODE_STATUS_ALIVE, node_schedulable := True\<rparr>))] New,
     w_index = 2, w_ids = 0, w_proposals = 0\<rparr>"

text \<open>Gossip reports \<^verbatim>\<open>n2\<close> dead, and its last heartbeat is 15 seconds old.\<close>

definition sample_live :: LiveRegistry where
  "sample_live = live_Heartbeat (1000 * Second) ''n2'' None []"

definition sample_monitor :: LivenessMonitor where
  "sample_monitor = \<lparr>lm_localNodeID = ''n1'', lm_gossip = Some [(''n2'', \<lparr>gl_Alive = False, gl_Since = 1004 * Second\<rparr>)],
     lm_leaderSince = 990 * Second, lm_lastFlush = []\<rparr>"

definition sample_clock :: Control where
  "sample_clock = (sample_control (\<lambda>_. Committed))\<lparr>clock_now := 1015 * Second\<rparr>"


lemma sample_reliable:
  assumes "list_all (\<lambda>r. hd r \<noteq> CHR ''i'') (map fst (appliedSet (w_state w)))"
  shows "reliable ((sample_control (\<lambda>_. Committed))\<lparr>clock_now := t\<rparr>) w"
proof -
  have "\<not> mhas (appliedSet (w_state w)) (''id-'' @ x)" for x
  proof
    assume "mhas (appliedSet (w_state w)) (''id-'' @ x)"
    then have "''id-'' @ x \<in> fst ` set (appliedSet (w_state w))" by (simp add: mhas_def map_of_eq_None_iff del: mhas_iff)
    with assms have "hd (''id-'' @ x) \<noteq> CHR ''i''" unfolding list_all_iff set_map by blast
    then show False by simp
  qed
  then show ?thesis
    using sample_control_ids [of "\<lambda>_. Committed"] by (simp add: reliable_def sample_control_def del: mhas_iff)
qed

lemma sample_nodes_reliable: "reliable sample_clock sample_nodes"
  unfolding sample_clock_def by (rule sample_reliable) code_simp

lemma sample_node_signals:
  "\<not> beat_within (10 * Second) sample_clock sample_live ''n2''" "gossip_view sample_monitor ''n2'' = Some False"
  "Node ''n2'' (w_state sample_nodes) = Some (zero_node\<lparr>node_meta := meta_of ''n2'', node_status := NODE_STATUS_ALIVE, node_schedulable := True\<rparr>)"
proof -
  have "heartbeat_age sample_clock sample_live ''n2'' = Some (15 * Second)" by code_simp
  then show "\<not> beat_within (10 * Second) sample_clock sample_live ''n2''"
    by (simp add: beat_within_def Second_def Millisecond_def)
  show "gossip_view sample_monitor ''n2'' = Some False" by code_simp
  show "Node ''n2'' (w_state sample_nodes) = Some (zero_node\<lparr>node_meta := meta_of ''n2'', node_status := NODE_STATUS_ALIVE, node_schedulable := True\<rparr>)"
    by code_simp
qed

theorem node_failure_detected_witness:
  "map_option node_status (Node ''n2'' (w_state (snd (LivenessMonitor_evaluate sample_clock sample_live (sample_monitor, sample_nodes)))))
   = Some NODE_STATUS_DOWN"
proof -
  have "store_inv (w_state sample_nodes)" by (simp only: sample_nodes_def World.simps reachable_inv)
  moreover have "is_leader sample_clock" "''n2'' \<noteq> lm_localNodeID sample_monitor"
    by (simp_all add: sample_clock_def sample_control_def sample_monitor_def)
  moreover note sample_nodes_reliable prod.collapse [symmetric] sample_node_signals(3)
  ultimately show ?thesis
    using node_failure_detected [of sample_nodes sample_clock sample_live sample_monitor
        "fst (LivenessMonitor_evaluate sample_clock sample_live (sample_monitor, sample_nodes))"
        "snd (LivenessMonitor_evaluate sample_clock sample_live (sample_monitor, sample_nodes))" "''n2''"]
      sample_node_signals(1,2) by auto
qed

theorem node_status_justified_witness:
  "\<exists>n'. Node ''n2'' (w_state (snd (LivenessMonitor_evaluate sample_clock sample_live (sample_monitor, sample_nodes)))) = Some n'
     \<and> node_schedulable n' \<and> node_id n' = ''n2''"
proof -
  have inv: "store_inv (w_state sample_nodes)" by (simp only: sample_nodes_def World.simps reachable_inv)
  from node_status_justified [OF inv prod.collapse [symmetric] sample_node_signals(3)] obtain n' where
    n': "Node ''n2'' (w_state (snd (LivenessMonitor_evaluate sample_clock sample_live (sample_monitor, sample_nodes)))) = Some n'"
    "n' = zero_node\<lparr>node_meta := meta_of ''n2'', node_status := NODE_STATUS_ALIVE, node_schedulable := True\<rparr>
        \<lparr>node_status := node_status n', node_last_heartbeat_at := node_last_heartbeat_at n'\<rparr>"
    by blast
  have "node_schedulable n'" "node_id n' = ''n2''" by (subst n'(2), simp add: meta_of_def)+
  with n'(1) show ?thesis by blast
qed

theorem presence_follows_newest_stream_witness:
  "ln_connected (live_node (fold (stream_step ''n2'') [Connected, Connected, Ended 1] []) ''n2'')"
  using presence_follows_newest_stream [of "[Connected, Connected, Ended 1]" "''n2''"] by simp

text \<open>
  The pass writes the status it read when it listed the nodes, also when it only records a heartbeat: a drain
  ordered in between is lost, although the status of a draining node is not the monitor's to revert.
\<close>

definition sample_drained_between :: World where
  "sample_drained_between = snd (raft_Apply sample_clock ''user:1''
     (Command_SetNodeStatus \<lparr>sns_node_id = ''n2'', sns_status = NODE_STATUS_DRAINING, sns_last_heartbeat_at = None,
        sns_schedulable_set = False, sns_schedulable = False\<rparr>) sample_nodes)"

lemma heartbeat_flush_reverts_drain:
  "map_option node_status (Node ''n2'' (w_state sample_drained_between)) = Some NODE_STATUS_DRAINING"
  "map_option node_status (Node ''n2'' (w_state (snd (snd (liveness_node sample_clock
       (live_Heartbeat (1014 * Second) ''n2'' None []) (the (Node ''n2'' (w_state sample_nodes)))
       (sample_monitor, sample_drained_between)))))) = Some NODE_STATUS_ALIVE"
  by code_simp+

end
