(* ===== verification/ImagesProps.thy ===== *)
theory ImagesProps
  imports Images RegistryProps LivenessProps
begin

text \<open>
  What becomes of releases and builds: the retention loop deletes exactly the releases nothing needs any more
  and leaves the registry consistent, and a build is recorded as succeeded only when its builder reported
  an image and no failure.
\<close>

subsection \<open>Deleting releases\<close>

text \<open>The releases with the given ids are gone; nothing else changed in the tables the control loops read.\<close>

definition without :: "string set \<Rightarrow> Store \<Rightarrow> Store \<Rightarrow> bool" where
  "without D s t \<longleftrightarrow> releases t = filter (\<lambda>p. fst p \<notin> D) (releases s)
     \<and> environments t = environments s \<and> deployments t = deployments s \<and> assignments t = assignments s
     \<and> nodes t = nodes s \<and> volumes t = volumes s \<and> jobs t = jobs s \<and> builds t = builds s"

lemma without_empty [simp]: "without {} s s"
  by (simp add: without_def)

lemma without_trans: "without D s t \<Longrightarrow> without E t u \<Longrightarrow> without (D \<union> E) s u"
  by (simp add: without_def conj_commute)

lemma map_of_filter_keys: "map_of (filter (\<lambda>p. fst p \<notin> D) m) k = (if k \<in> D then None else map_of m k)"
  by (induction m) auto

lemma without_rels: "without D s t \<Longrightarrow> rels t i = (if i \<in> D then None else rels s i)"
  by (simp add: without_def map_of_filter_keys)

lemma delete_release:
  "\<exists>D. D \<subseteq> {i} \<and> without D (w_state w) (w_state (snd (raft_Apply ctl actor (Command_DeleteRelease i) w)))"
  unfolding raft_Apply_propose
proof (rule propose_rel)
  show "\<exists>D. D \<subseteq> {i} \<and> without D (w_state w) (w_state w)" using without_empty by blast
next
  fix rid now e c
  have "without {i} (w_state w) (snd (apply_mutation rid (Some now) (Command_DeleteRelease i) (recorded e c (w_state w))))"
    by (simp add: without_def DeleteRelease_def touch_def mdel_def)
  then show "\<exists>D. D \<subseteq> {i} \<and> without D (w_state w) (snd (apply_mutation rid (Some now) (Command_DeleteRelease i) (recorded e c (w_state w))))"
    by blast
qed

text \<open>A committed command reports what the state machine answered.\<close>

lemma delete_release_reliable:
  assumes "reliable ctl w"
  shows "fst (raft_Apply ctl actor (Command_DeleteRelease i) w) = None"
    and "without {i} (w_state w) (w_state (snd (raft_Apply ctl actor (Command_DeleteRelease i) w)))"
    and "reliable ctl (snd (raft_Apply ctl actor (Command_DeleteRelease i) w))"
proof -
  show "fst (raft_Apply ctl actor (Command_DeleteRelease i) w) = None" by (rule raft_Apply_reliable [OF assms]) simp
  have quiet: "appliedSet (snd (apply_mutation rid now (Command_DeleteRelease i) s)) = appliedSet s" for rid now s
    by (simp add: DeleteRelease_def touch_def)
  from propose_reliable(2) [OF assms quiet, of actor]
  show "without {i} (w_state w) (w_state (snd (raft_Apply ctl actor (Command_DeleteRelease i) w)))"
    by (auto simp: raft_Apply_propose after_def without_def DeleteRelease_def touch_def mdel_def)
  show "reliable ctl (snd (raft_Apply ctl actor (Command_DeleteRelease i) w))"
    unfolding raft_Apply_propose by (rule propose_reliable(3) [OF assms quiet])
qed

subsection \<open>One environment\<close>

text \<open>The registry a sweep leaves: consistent, and only the tags of the given releases may be gone.\<close>

definition image_tag :: "Release \<Rightarrow> string" where
  "image_tag r = (rel_project_id r @ ''/'' @ rel_app_id r) @ nul @ src_build_id (rel_source r)"

definition images_kept :: "Release set \<Rightarrow> Registry option \<Rightarrow> Registry option \<Rightarrow> bool" where
  "images_kept P reg reg' \<longleftrightarrow>
     (case reg of None \<Rightarrow> reg' = None
      | Some r \<Rightarrow> \<exists>r'. reg' = Some r' \<and> (reg_inv r \<longrightarrow> reg_inv r'
          \<and> (\<forall>k. k \<notin> image_tag ` P \<longrightarrow> map_of (bktTags r') k = map_of (bktTags r) k)))"

lemma images_kept_refl: "images_kept P reg reg"
  by (simp add: images_kept_def split: option.split)

lemma images_kept_trans: "images_kept P reg reg' \<Longrightarrow> images_kept Q reg' reg'' \<Longrightarrow> images_kept (P \<union> Q) reg reg''"
  by (fastforce simp: images_kept_def split: option.splits)

lemma images_kept_mono: "images_kept P reg reg' \<Longrightarrow> P \<subseteq> Q \<Longrightarrow> images_kept Q reg reg'"
  unfolding images_kept_def by (cases reg) (simp_all, blast)

lemma reclaim_image_kept: "images_kept {rel} reg (reclaim_image rel reg)"
  using UntagAndSweep_spec [of _ "rel_project_id rel @ ''/'' @ rel_app_id rel" "src_build_id (rel_source rel)"]
  by (cases reg) (auto simp: images_kept_def reclaim_image_def image_tag_def)

lemma prune_releases_spec:
  assumes "prune_releases ctl keep rs (reg, w) = (err, reg', w')"
  shows "(\<exists>D. D \<subseteq> {i. \<exists>r \<in> set rs. rel_id r = i \<and> i \<notin> set keep} \<and> without D (w_state w) (w_state w'))
    \<and> images_kept {r \<in> set rs. rel_id r \<notin> set keep} reg reg'
    \<and> (reliable ctl w \<longrightarrow> err = None \<and> reliable ctl w'
         \<and> without {i. \<exists>r \<in> set rs. rel_id r = i \<and> i \<notin> set keep} (w_state w) (w_state w'))"
  using assms
proof (induction rs arbitrary: reg w)
  case (Cons r rs)
  show ?case
  proof (cases "rel_id r \<in> set keep")
    case True
    have "{i. \<exists>x \<in> set (r # rs). rel_id x = i \<and> i \<notin> set keep} = {i. \<exists>x \<in> set rs. rel_id x = i \<and> i \<notin> set keep}"
      "{x \<in> set (r # rs). rel_id x \<notin> set keep} = {x \<in> set rs. rel_id x \<notin> set keep}" using True by auto
    with Cons True show ?thesis by simp
  next
    case False
    have here: "{i. \<exists>x \<in> set (r # rs). rel_id x = i \<and> i \<notin> set keep} = {rel_id r} \<union> {i. \<exists>x \<in> set rs. rel_id x = i \<and> i \<notin> set keep}"
      "{x \<in> set (r # rs). rel_id x \<notin> set keep} = {r} \<union> {x \<in> set rs. rel_id x \<notin> set keep}" using False by auto
    define a where "a = raft_Apply ctl ''system:retention'' (Command_DeleteRelease (rel_id r)) w"
    obtain D where D: "D \<subseteq> {rel_id r}" "without D (w_state w) (w_state (snd a))"
      using delete_release [of "rel_id r" w ctl "''system:retention''"] unfolding a_def by blast
    note img = reclaim_image_kept [of r reg]
    show ?thesis
    proof (cases "fst a")
      case (Some e)
      with Cons.prems False have "reg' = reclaim_image r reg" "w' = snd a" by (auto simp: a_def split: prod.splits)
      moreover have "\<not> reliable ctl w" using delete_release_reliable(1) Some unfolding a_def by force
      ultimately show ?thesis unfolding here using D images_kept_mono [OF img] by blast
    next
      case None
      with Cons.prems False have run: "prune_releases ctl keep rs (reclaim_image r reg, snd a) = (err, reg', w')"
        by (auto simp: a_def split: prod.splits)
      note ih = Cons.IH [OF run]
      from ih obtain E where E: "E \<subseteq> {i. \<exists>x \<in> set rs. rel_id x = i \<and> i \<notin> set keep}" "without E (w_state (snd a)) (w_state w')"
        by blast
      have "without (D \<union> E) (w_state w) (w_state w')" by (rule without_trans [OF D(2) E(2)])
      moreover have "D \<union> E \<subseteq> {rel_id r} \<union> {i. \<exists>x \<in> set rs. rel_id x = i \<and> i \<notin> set keep}" using D(1) E(1) by blast
      moreover have "images_kept ({r} \<union> {x \<in> set rs. rel_id x \<notin> set keep}) reg reg'"
        using images_kept_trans [OF img] ih by blast
      moreover have "err = None \<and> reliable ctl w' \<and> without ({rel_id r} \<union> {i. \<exists>x \<in> set rs. rel_id x = i \<and> i \<notin> set keep}) (w_state w) (w_state w')"
        if "reliable ctl w"
      proof -
        note del = delete_release_reliable(2,3) [OF that, where actor = "''system:retention''" and i = "rel_id r", folded a_def]
        from ih del(2) have "err = None" "reliable ctl w'"
          "without {i. \<exists>x \<in> set rs. rel_id x = i \<and> i \<notin> set keep} (w_state (snd a)) (w_state w')" by blast+
        with without_trans [OF del(1)] show ?thesis by blast
      qed
      ultimately show ?thesis unfolding here by blast
    qed
  qed
qed (simp_all add: images_kept_refl)


subsection \<open>All environments\<close>

text \<open>What a sweep of an environment removes.\<close>

definition swept_of :: "Store \<Rightarrow> string \<Rightarrow> Release set" where
  "swept_of s e = (case Environment e s of
       None \<Rightarrow> {}
     | Some env \<Rightarrow> {r \<in> set (ListReleases e s). rel_id r \<notin> set (retention_kept s env (ListReleases e s))})"

lemma sweepEnv_spec:
  assumes "sweepEnv ctl e (reg, w) = (err, reg', w')"
  shows "(\<exists>E. E \<subseteq> rel_id ` swept_of (w_state w) e \<and> without E (w_state w) (w_state w'))
    \<and> images_kept (swept_of (w_state w) e) reg reg'
    \<and> (reliable ctl w \<longrightarrow> err = None \<and> reliable ctl w' \<and> without (rel_id ` swept_of (w_state w) e) (w_state w) (w_state w'))"
proof (cases "Environment e (w_state w)")
  case None
  with assms show ?thesis by (auto simp: sweepEnv_def swept_of_def images_kept_refl intro: exI [of _ "{}"])
next
  case (Some env)
  let ?rs = "ListReleases e (w_state w)"
  from assms Some have "prune_releases ctl (retention_kept (w_state w) env ?rs) ?rs (reg, w) = (err, reg', w')"
    by (simp add: sweepEnv_def Let_def)
  note spec = prune_releases_spec [OF this]
  have "{i. \<exists>r \<in> set ?rs. rel_id r = i \<and> i \<notin> set (retention_kept (w_state w) env ?rs)} = rel_id ` swept_of (w_state w) e"
    "{r \<in> set ?rs. rel_id r \<notin> set (retention_kept (w_state w) env ?rs)} = swept_of (w_state w) e"
    using Some by (auto simp: swept_of_def)
  with spec show ?thesis by simp
qed

lemma ListReleases_without:
  assumes "without D s t" "e \<noteq> ''''" "\<And>p. p \<in> set (releases s) \<Longrightarrow> fst p \<in> D \<Longrightarrow> rel_environment_id (snd p) \<noteq> e"
  shows "ListReleases e t = ListReleases e s"
proof -
  have "filter (\<lambda>r. rel_environment_id r = e) (map snd (filter (\<lambda>p. fst p \<notin> D) m)) = filter (\<lambda>r. rel_environment_id r = e) (map snd m)"
    if "\<forall>p \<in> set m. fst p \<in> D \<longrightarrow> rel_environment_id (snd p) \<noteq> e" for m
    using that by (induction m) auto
  from this [of "releases s"] assms(3)
  have "filter (\<lambda>r. rel_environment_id r = e) (map snd (filter (\<lambda>p. fst p \<notin> D) (releases s)))
      = filter (\<lambda>r. rel_environment_id r = e) (map snd (releases s))" by blast
  with assms(1,2) show ?thesis by (simp add: ListReleases_def mvals_def without_def)
qed

lemma swept_of_without:
  assumes "without D s t" "e \<noteq> ''''" "\<And>p. p \<in> set (releases s) \<Longrightarrow> fst p \<in> D \<Longrightarrow> rel_environment_id (snd p) \<noteq> e"
  shows "swept_of t e = swept_of s e"
  using ListReleases_without [OF assms] assms(1)
  by (simp add: swept_of_def retention_kept_def Environment_def ListDeployments_def without_def split: option.split)

lemma swept_of_env:
  assumes "keyed rel_id (releases s)" "e \<noteq> ''''" "r \<in> swept_of s e"
  shows "rel_environment_id r = e" "rels s (rel_id r) = Some r"
proof -
  from assms(2,3) have "rel_environment_id r = e \<and> r \<in> set (mvals (releases s))"
    by (auto simp: swept_of_def ListReleases_def split: option.splits)
  then obtain k where "rel_environment_id r = e" "rels s k = Some r"
    using in_mvals_iff [OF keyed_mwf [OF assms(1)]] by blast
  then show "rel_environment_id r = e" "rels s (rel_id r) = Some r" using keyedD [OF assms(1)] by simp_all
qed

lemma sweep_envs_spec:
  assumes "keyed rel_id (releases s)" "distinct es" "'''' \<notin> set es" "without D s (w_state w)"
    and "\<And>p. p \<in> set (releases s) \<Longrightarrow> fst p \<in> D \<Longrightarrow> rel_environment_id (snd p) \<notin> set es"
    and "sweep_envs ctl es (reg, w) = (err, reg', w')"
  shows "(\<exists>E. E \<subseteq> rel_id ` (\<Union>e \<in> set es. swept_of s e) \<and> without (D \<union> E) s (w_state w'))
    \<and> images_kept (\<Union>e \<in> set es. swept_of s e) reg reg'
    \<and> (reliable ctl w \<longrightarrow> err = None \<and> without (D \<union> rel_id ` (\<Union>e \<in> set es. swept_of s e)) s (w_state w'))"
  using assms(2-)
proof (induction es arbitrary: D reg w)
  case (Cons e es)
  obtain err1 reg1 w1 where step: "sweepEnv ctl e (reg, w) = (err1, reg1, w1)" by (metis prod_cases3)
  have e: "e \<noteq> ''''" "e \<notin> set es" using Cons.prems by auto
  have same: "swept_of (w_state w) e = swept_of s e"
    by (rule swept_of_without [OF Cons.prems(3) e(1)]) (use Cons.prems(4) in force)
  note one = sweepEnv_spec [OF step, unfolded same]
  from one obtain E where E: "E \<subseteq> rel_id ` swept_of s e" "without E (w_state w) (w_state w1)" by blast
  have DE: "without (D \<union> E) s (w_state w1)" by (rule without_trans [OF Cons.prems(3) E(2)])
  have avoid: "rel_environment_id (snd p) \<notin> set es" if p: "p \<in> set (releases s)" "fst p \<in> D \<union> rel_id ` swept_of s e" for p
  proof (cases "fst p \<in> D")
    case True
    with Cons.prems(4) p(1) show ?thesis by force
  next
    case False
    with p(2) obtain r where "r \<in> swept_of s e" "fst p = rel_id r" by auto
    with swept_of_env [OF assms(1) e(1), of r] have "rels s (fst p) = Some r" "rel_environment_id r = e" by simp_all
    moreover have "rels s (fst p) = Some (snd p)"
      using p(1) keyed_mwf [OF assms(1)] by (simp add: mwf_def)
    ultimately show ?thesis using e(2) by simp
  qed
  show ?case
  proof (cases err1)
    case (Some x)
    with Cons.prems(5) step have "reg' = reg1" "w' = w1" by auto
    moreover have "\<not> reliable ctl w" using one Some by auto
    moreover have "images_kept (\<Union>e \<in> set (e # es). swept_of s e) reg reg1" using images_kept_mono one by (metis UN_upper list.set_intros(1))
    ultimately show ?thesis using DE E(1) by (intro conjI exI [of _ E]) auto
  next
    case None
    with Cons.prems(5) step have run: "sweep_envs ctl es (reg1, w1) = (err, reg', w')" by simp
    have ih: "(\<exists>E'. E' \<subseteq> rel_id ` (\<Union>e \<in> set es. swept_of s e) \<and> without (D \<union> F \<union> E') s (w_state w'))
        \<and> images_kept (\<Union>e \<in> set es. swept_of s e) reg1 reg'
        \<and> (reliable ctl w1 \<longrightarrow> err = None \<and> without (D \<union> F \<union> rel_id ` (\<Union>e \<in> set es. swept_of s e)) s (w_state w'))"
      if "F \<subseteq> rel_id ` swept_of s e" "without (D \<union> F) s (w_state w1)" for F
      by (rule Cons.IH [OF _ _ that(2) _ run]) (use Cons.prems(1,2) avoid that(1) in auto)
    from ih [OF E(1) DE] obtain E' where E': "E' \<subseteq> rel_id ` (\<Union>e \<in> set es. swept_of s e)" "without (D \<union> E \<union> E') s (w_state w')" by blast
    have imgs: "images_kept (\<Union>e \<in> set (e # es). swept_of s e) reg reg'"
      using images_kept_trans [of "swept_of s e" reg reg1 "\<Union>e \<in> set es. swept_of s e" reg'] one ih [OF E(1) DE] by simp
    have "err = None \<and> without (D \<union> rel_id ` (\<Union>e \<in> set (e # es). swept_of s e)) s (w_state w')" if "reliable ctl w"
    proof -
      have "without (D \<union> rel_id ` swept_of s e) s (w_state w1)" "reliable ctl w1"
        using one that without_trans [OF Cons.prems(3)] by blast+
      with ih [of "rel_id ` swept_of s e"] show ?thesis by (simp add: image_Un Un_assoc)
    qed
    moreover have "\<exists>F. F \<subseteq> rel_id ` (\<Union>e \<in> set (e # es). swept_of s e) \<and> without (D \<union> F) s (w_state w')"
      using E' E(1) by (intro exI [of _ "E \<union> E'"]) (simp add: Un_assoc image_Un, blast)
    ultimately show ?thesis using imgs by blast
  qed
qed (auto simp: images_kept_refl intro: exI [of _ "{}"])


subsection \<open>What retention removes\<close>

text \<open>A release nothing needs: its environment exists, and it is neither active nor the one to roll back to,
  not among the ten newest, and no deployment under way names it.\<close>

definition unneeded :: "Store \<Rightarrow> Release \<Rightarrow> bool" where
  "unneeded s r \<longleftrightarrow>
     (\<exists>env. Environment (rel_environment_id r) s = Some env
        \<and> rel_id r \<noteq> env_active_release_id env
        \<and> rel_id r \<noteq> previousReleaseID (ListReleases (rel_environment_id r) s) (env_active_release_id env)
        \<and> rel_id r \<notin> rel_id ` set (take 10 (ListReleases (rel_environment_id r) s))
        \<and> (\<forall>d. Deployment (dep_id d) s = Some d \<and> dep_environment_id d = rel_environment_id r \<and> \<not> isTerminalPhase (dep_phase d)
              \<longrightarrow> rel_id r \<noteq> dep_release_id d \<and> rel_id r \<noteq> dep_previous_release_id d))"

lemma swept_of_iff:
  assumes "store_inv s" "e \<noteq> ''''"
  shows "r \<in> swept_of s e \<longleftrightarrow> rels s (rel_id r) = Some r \<and> rel_environment_id r = e \<and> unneeded s r"
proof -
  have listed: "r \<in> set (ListReleases e s) \<longleftrightarrow> rels s (rel_id r) = Some r \<and> rel_environment_id r = e"
  proof -
    have "r \<in> set (mvals (releases s)) \<longleftrightarrow> rels s (rel_id r) = Some r"
      using in_mvals_iff [OF keyed_mwf [OF store_keyed(7) [OF assms(1)]]] keyedD [OF store_keyed(7) [OF assms(1)]] by blast
    with assms(2) show ?thesis by (auto simp: ListReleases_def)
  qed
  have deployed: "d \<in> set (ListDeployments e s) \<longleftrightarrow> Deployment (dep_id d) s = Some d \<and> dep_environment_id d = e" for d
    using deployment_rc.in_list_iff [OF store_keyed(8) [OF assms(1)], of d e] assms(2) by simp
  show ?thesis
  proof (cases "Environment e s")
    case None
    then show ?thesis by (auto simp: swept_of_def unneeded_def)
  next
    case (Some env)
    then have "env_id env = e" using keyedD [OF store_keyed(6) [OF assms(1)]] by (simp add: Environment_def)
    with Some show ?thesis
      unfolding swept_of_def unneeded_def
      by (auto simp: listed deployed retention_kept_def retentionKeep_def)
  qed
qed

lemma byEnv_keys:
  "fst ` set (fold (\<lambda>r. mput (rel_environment_id r) True) rs m) = rel_environment_id ` set rs \<union> fst ` set m"
  by (induction rs arbitrary: m) (auto simp: fst_set_mput)

lemma byEnv_mwf: "mwf m \<Longrightarrow> mwf (fold (\<lambda>r. mput (rel_environment_id r) True) rs m)"
  by (induction rs arbitrary: m) simp_all

text \<open>The environments of a pass, and what they give to delete.\<close>

lemma byEnv_listed:
  fixes s order
  defines "m \<equiv> fold (\<lambda>r. mput (rel_environment_id r) True) (ListReleases '''' s) []"
  assumes "mset (order m) = mset m"
  shows "distinct (map fst (order m))" "set (map fst (order m)) = rel_environment_id ` set (mvals (releases s))"
proof -
  have "mset (map fst (order m)) = image_mset fst (mset m)" by (simp add: assms(2))
  then have "mset (map fst (order m)) = mset (map fst m)" by simp
  moreover have "distinct (map fst m)" using byEnv_mwf [of "[]"] by (simp add: mwf_def m_def)
  ultimately have "distinct (map fst (order m))" "set (map fst (order m)) = fst ` set m"
    by (metis mset_eq_imp_distinct_iff, metis set_map set_mset_mset)
  then show "distinct (map fst (order m))" "set (map fst (order m)) = rel_environment_id ` set (mvals (releases s))"
    by (simp_all add: m_def byEnv_keys ListReleases_def)
qed

lemma swept_all:
  assumes "store_inv s" "set es = rel_environment_id ` set (mvals (releases s))" "'''' \<notin> set es"
  shows "(\<Union>e \<in> set es. swept_of s e) = {r. Release (rel_id r) s = Some r \<and> unneeded s r}"
proof (rule set_eqI)
  fix r
  have "rel_environment_id r \<in> set es" if "rels s (rel_id r) = Some r"
    using that in_mvals_iff [OF keyed_mwf [OF store_keyed(7) [OF assms(1)]], of r] unfolding assms(2) by blast
  moreover have "r \<in> swept_of s e \<longleftrightarrow> rels s (rel_id r) = Some r \<and> rel_environment_id r = e \<and> unneeded s r" if "e \<in> set es" for e
  proof -
    from that assms(3) have "e \<noteq> ''''" by auto
    from swept_of_iff [OF assms(1) this, of r] show ?thesis .
  qed
  ultimately show "r \<in> (\<Union>e \<in> set es. swept_of s e) \<longleftrightarrow> r \<in> {r. Release (rel_id r) s = Some r \<and> unneeded s r}"
    unfolding Release_def by blast
qed

lemma unneeded_ids:
  assumes "store_inv s"
  shows "i \<in> rel_id ` {r. Release (rel_id r) s = Some r \<and> unneeded s r} \<longleftrightarrow> (\<exists>r. rels s i = Some r \<and> unneeded s r)"
proof
  assume "\<exists>r. rels s i = Some r \<and> unneeded s r"
  then obtain r where r: "rels s i = Some r" "unneeded s r" by blast
  with keyedD [OF store_keyed(7) [OF assms] r(1)]
  have "r \<in> {r. Release (rel_id r) s = Some r \<and> unneeded s r}" "rel_id r = i" unfolding Release_def by simp_all
  then show "i \<in> rel_id ` {r. Release (rel_id r) s = Some r \<and> unneeded s r}" by blast
qed (auto simp: Release_def)



definition sample_release_entry :: "uint64 \<times> char \<Rightarrow> log_entry" where
  "sample_release_entry = (\<lambda>(v, c). entry v [CHR ''q'', c] (Command_PutRelease
     (zero_release\<lparr>rel_meta := meta_of [CHR ''r'', c], rel_environment_id := ''e'', rel_project_id := ''P'', rel_app_id := ''A'',
        rel_version := v, rel_source := zero_source\<lparr>src_build_id := [CHR ''B'', c]\<rparr>\<rparr>)))"

text \<open>Twelve releases, the newest active.\<close>

definition sample_releases :: World where
  "sample_releases = \<lparr>w_state = run_log
     (entry 1 ''q0'' (Command_PutEnvironment (zero_env\<lparr>env_meta := meta_of ''e'', env_active_release_id := ''rl''\<rparr>))
      # map sample_release_entry (zip [1, 2, 3, 4, 5, 6, 7, 8, 9, 10, 11, 12] ''abcdefghijkl'')) New,
     w_index = 13, w_ids = 0, w_proposals = 0\<rparr>"

definition sample_sweep_control :: Control where
  "sample_sweep_control = (sample_control (\<lambda>_. Committed))\<lparr>clock_now := Hour\<rparr>"

lemma sample_releases_eval:
  "map rel_id (ListReleases ''e'' (w_state sample_releases)) = [''rl'', ''rk'', ''rj'', ''ri'', ''rh'', ''rg'', ''rf'', ''re'', ''rd'', ''rc'', ''rb'', ''ra'']"
  "previousReleaseID (ListReleases ''e'' (w_state sample_releases)) ''rl'' = ''rk''"
  "map_option env_active_release_id (Environment ''e'' (w_state sample_releases)) = Some ''rl''"
  "map_option (\<lambda>r. (rel_id r, rel_environment_id r)) (Release ''ra'' (w_state sample_releases)) = Some (''ra'', ''e'')"
  "deployments (w_state sample_releases) = []"
  "list_all (\<lambda>r. rel_environment_id r \<noteq> '''') (mvals (releases (w_state sample_releases)))"
  "list_all (\<lambda>r. hd r \<noteq> CHR ''i'') (map fst (appliedSet (w_state sample_releases)))"
  by code_simp+


text \<open>
  Images are pushed under lower-case names, and identifiers are upper case: where an identifier has an upper-case
  letter, the tag retention removes is not the one that was pushed, and the image stays for good.
\<close>

lemma lower_char_idem [simp]: "lower_char (lower_char c) = lower_char c"
proof -
  have "of_char (char_of (n + 32) :: char) = n + 32" if "65 \<le> n" "n \<le> 90" for n :: nat using that by simp
  then show ?thesis by (simp add: lower_char_def Let_def)
qed

lemma lower_char_punctuation: "lower_char CHR ''/'' = CHR ''/''" "lower_char CHR '':'' = CHR '':''"
  by code_simp+

lemma pushed_in_lower_case: "ToLower (image_repo cfg b) = image_repo cfg b"
  "ToLower (rb_push_image_ref (run_build_request cfg b)) = rb_push_image_ref (run_build_request cfg b)"
  by (simp_all add: image_repo_def run_build_request_def ToLower_def lower_char_punctuation)

lemma retention_misses_pushed_images:
  assumes "\<forall>k \<in> fst ` set (bktTags r). ToLower k = k" "ToLower (src_build_id (rel_source rel)) \<noteq> src_build_id (rel_source rel)"
  shows "reclaim_image rel (Some r) = Some r"
proof -
  have "image_tag rel \<notin> fst ` set (bktTags r)"
  proof
    assume "image_tag rel \<in> fst ` set (bktTags r)"
    with assms(1) have "ToLower (image_tag rel) = image_tag rel" by blast
    then have "ToLower (src_build_id (rel_source rel)) = src_build_id (rel_source rel)"
      by (simp add: image_tag_def ToLower_def append_eq_append_conv)
    with assms(2) show False by simp
  qed
  then have "map_of (bktTags r) (image_tag rel) = None" by (simp add: map_of_eq_None_iff)
  then show ?thesis by (simp add: reclaim_image_def UntagAndSweep_def untag_tx_def image_tag_def sweepBlobs_def)
qed


subsection \<open>Builds\<close>

text \<open>A stream that reports an image and no failure, and the digest it reports last.\<close>

definition last_digest :: "BuildEvent list \<Rightarrow> string \<Rightarrow> string" where
  "last_digest es dg = fold (\<lambda>e dg. if be_image_digest e \<noteq> '''' then be_image_digest e else dg) es dg"

definition clean :: "BuildEvent \<Rightarrow> bool" where
  "clean e \<longleftrightarrow> be_error e = '''' \<and> be_status e \<noteq> BUILD_STATUS_FAILED"

definition produces :: "string + build_recv list \<Rightarrow> string \<Rightarrow> bool" where
  "produces answer digest \<longleftrightarrow>
     (\<exists>es. answer = Inr (map Received es) \<and> (\<forall>e \<in> set es. clean e) \<and> last_digest es '''' = digest \<and> digest \<noteq> '''')"

lemma receive_build_iff:
  "(\<exists>pl. fst (receive_build i dg pl0 evs d) = Inr (digest, pl)) \<longleftrightarrow>
     (\<exists>es. evs = map Received es \<and> (\<forall>e \<in> set es. clean e) \<and> last_digest es dg = digest)"
proof (induction i dg pl0 evs d rule: receive_build.induct)
  case (4 i dg pl0 ev evs d)
  show ?case
  proof (cases "clean ev")
    case True
    then have step: "receive_build i dg pl0 (Received ev # evs) d =
        receive_build i (if be_image_digest ev \<noteq> '''' then be_image_digest ev else dg)
          (if be_platforms ev \<noteq> [] then be_platforms ev else pl0) evs
          (if be_log_line ev \<noteq> '''' then appendLog i (be_log_line ev) d else d)"
      by (simp add: clean_def Let_def)
    have "(\<exists>es. Received ev # evs = map Received es \<and> (\<forall>e \<in> set es. clean e) \<and> last_digest es dg = digest) \<longleftrightarrow>
        (\<exists>es. evs = map Received es \<and> (\<forall>e \<in> set es. clean e)
           \<and> last_digest es (if be_image_digest ev \<noteq> '''' then be_image_digest ev else dg) = digest)" (is "?l = ?r")
    proof
      assume ?l
      then obtain e es where "evs = map Received es" "\<forall>x \<in> set es. clean x" "e = ev" "last_digest (e # es) dg = digest"
        by (auto simp: Cons_eq_map_conv)
      then show ?r by (auto simp: last_digest_def)
    next
      assume ?r
      then obtain es where "evs = map Received es" "\<forall>x \<in> set es. clean x"
        "last_digest es (if be_image_digest ev \<noteq> '''' then be_image_digest ev else dg) = digest" by blast
      with True show ?l by (intro exI [of _ "ev # es"]) (simp add: last_digest_def)
    qed
    with 4 True show ?thesis unfolding step by (simp add: clean_def)
  next
    case False
    then have "\<nexists>es. Received ev # evs = map Received es \<and> (\<forall>e \<in> set es. clean e) \<and> last_digest es dg = digest"
      by (auto simp: Cons_eq_map_conv)
    moreover from False obtain m d' where "receive_build i dg pl0 (Received ev # evs) d = (Inl m, d')"
      by (cases "be_error ev = ''''") (simp_all add: clean_def Let_def)
    ultimately show ?thesis by (simp only: fst_conv) blast
  qed
qed (auto simp: last_digest_def)

lemma put_build:
  "map_of (builds (w_state (snd (putBuild ctl b w)))) \<in> {map_of (builds (w_state w)), (map_of (builds (w_state w)))(build_id b \<mapsto> b)}
   \<and> releases (w_state (snd (putBuild ctl b w))) = releases (w_state w)
   \<and> environments (w_state (snd (putBuild ctl b w))) = environments (w_state w)
   \<and> deployments (w_state (snd (putBuild ctl b w))) = deployments (w_state w)"
  unfolding putBuild_def builder_apply_def raft_Apply_propose
  by (rule propose_rel) (simp_all add: PutBuild_def touch_def)

lemma put_build_reliable:
  assumes "reliable ctl w"
  shows "fst (putBuild ctl b w) = None" "reliable ctl (snd (putBuild ctl b w))"
    "map_of (builds (w_state (snd (putBuild ctl b w)))) = (map_of (builds (w_state w)))(build_id b \<mapsto> b)"
proof -
  have quiet: "appliedSet (snd (apply_mutation rid now (Command_PutBuild b) s)) = appliedSet s" for rid now s
    by (simp add: PutBuild_def touch_def)
  show "fst (putBuild ctl b w) = None" unfolding putBuild_def builder_apply_def
    by (rule raft_Apply_reliable [OF assms]) simp
  show "reliable ctl (snd (putBuild ctl b w))" unfolding putBuild_def builder_apply_def raft_Apply_propose
    by (rule propose_reliable(3) [OF assms quiet])
  from propose_reliable(2) [OF assms quiet, of "''system:builder''"]
  show "map_of (builds (w_state (snd (putBuild ctl b w)))) = (map_of (builds (w_state w)))(build_id b \<mapsto> b)"
    by (auto simp: putBuild_def builder_apply_def raft_Apply_propose after_def PutBuild_def touch_def)
qed

definition usable_builder :: "Store \<Rightarrow> Node \<Rightarrow> bool" where
  "usable_builder s n \<longleftrightarrow> Node (node_id n) s = Some n \<and> node_status n = NODE_STATUS_ALIVE \<and> node_schedulable n
     \<and> mget '''' (node_labels n) ''builder'' = ''true''"

lemma pickBuilder_spec:
  assumes "store_inv s"
  shows "case pickBuilder s of
      None \<Rightarrow> \<forall>n. \<not> usable_builder s n
    | Some n \<Rightarrow> usable_builder s n
        \<and> (\<forall>n'. usable_builder s n' \<longrightarrow> mget 0 (runningBuildsByNode s) (node_id n) \<le> mget 0 (runningBuildsByNode s) (node_id n'))"
proof -
  define bs where "bs = sort_key (\<lambda>n. mget 0 (runningBuildsByNode s) (node_id n))
    (sort_key node_id (filter (\<lambda>n. \<not> (node_status n \<noteq> NODE_STATUS_ALIVE \<or> \<not> node_schedulable n)
       \<and> mget '''' (node_labels n) ''builder'' = ''true'') (ListNodes s)))"
  have mem: "n \<in> set bs \<longleftrightarrow> usable_builder s n" for n
    using ListNodes_iff [OF assms, of n] by (auto simp: bs_def usable_builder_def)
  have pick: "pickBuilder s = (case bs of [] \<Rightarrow> None | n # _ \<Rightarrow> Some n)" by (simp add: pickBuilder_def bs_def Let_def)
  have sorted: "sorted (map (\<lambda>n. mget 0 (runningBuildsByNode s) (node_id n)) bs)" by (simp add: bs_def)
  show ?thesis
  proof (cases bs)
    case Nil
    then show ?thesis using mem by (auto simp: pick)
  next
    case (Cons n ns)
    have "mget 0 (runningBuildsByNode s) (node_id n) \<le> mget 0 (runningBuildsByNode s) (node_id n')" if "usable_builder s n'" for n'
    proof -
      from that have "n' \<in> set bs" by (simp only: mem)
      with Cons sorted show ?thesis by auto
    qed
    moreover have "usable_builder s n" using mem [of n] Cons by simp
    ultimately show ?thesis by (simp add: pick Cons)
  qed
qed


text \<open>The tables a dispatch leaves alone.\<close>

definition other_builds :: "string \<Rightarrow> Store \<Rightarrow> Store \<Rightarrow> bool" where
  "other_builds i s t \<longleftrightarrow> (\<forall>j. j \<noteq> i \<longrightarrow> Build j t = Build j s)
     \<and> releases t = releases s \<and> environments t = environments s \<and> deployments t = deployments s"

lemma other_builds_put: "build_id b = i \<Longrightarrow> other_builds i s (w_state w) \<Longrightarrow> other_builds i s (w_state (snd (putBuild ctl b w)))"
  using put_build [of ctl b w] by (auto simp: other_builds_def Build_def)

lemma put_build_at:
  "build_id b = i \<Longrightarrow> Build i (w_state (snd (putBuild ctl b w))) \<in> {Build i (w_state w), Some b}"
  using put_build [of ctl b w] by (auto simp: Build_def)

text \<open>How a dispatch ends once a builder is chosen and the build is marked as running.\<close>

definition build_end :: "Control \<Rightarrow> BuildDispatcherConfig \<Rightarrow> Build \<Rightarrow> string + build_recv list \<Rightarrow> Build \<Rightarrow> bool" where
  "build_end ctl cfg b1 answer b2 \<longleftrightarrow> build_id b2 = build_id b1 \<and> build_node_id b2 = build_node_id b1
     \<and> (build_status b2 = BUILD_STATUS_FAILED \<and> (\<nexists>digest. produces answer digest)
        \<or> build_status b2 = BUILD_STATUS_SUCCEEDED
          \<and> (\<exists>digest. produces answer digest
               \<and> build_image_ref b2 = (if LocalLoad cfg then rb_push_image_ref (run_build_request cfg b1)
                                       else image_repo cfg b1 @ ''@'' @ digest)))"

lemma build_ends:
  assumes "finish_build ctl answer b1 (d, w1) = (d', w')"
  shows "\<exists>b2. build_end ctl (bd_cfg d) b1 answer b2 \<and> w' = snd (putBuild ctl b2 w1)"
proof (cases answer)
  case (Inl e)
  have "build_end ctl (bd_cfg d) b1 answer (b1\<lparr>build_status := BUILD_STATUS_FAILED, build_error := ''dispatch: '' @ e,
      build_finished_at := Some (clock_now ctl)\<rparr>)" by (simp add: build_end_def Inl produces_def)
  with assms Inl show ?thesis by (auto simp: finish_build_def build_fail_def)
next
  case (Inr stream)
  obtain r d1 where r: "receive_build (build_id b1) '''' [] stream d = (r, d1)" by fastforce
  have iff: "(\<exists>pl. r = Inr (digest, pl)) \<longleftrightarrow> (\<exists>es. stream = map Received es \<and> (\<forall>e \<in> set es. clean e) \<and> last_digest es '''' = digest)" for digest
    using receive_build_iff [of "build_id b1" "''''" "[]" stream d digest] by (simp add: r)
  have prod: "produces answer digest \<longleftrightarrow> digest \<noteq> '''' \<and> (\<exists>pl. r = Inr (digest, pl))" for digest
    unfolding iff by (auto simp: produces_def Inr)
  show ?thesis
  proof (cases "\<exists>digest. produces answer digest")
    case True
    then obtain digest pl where digest: "produces answer digest" "digest \<noteq> ''''" "r = Inr (digest, pl)" unfolding prod by blast
    let ?b = "if pl \<noteq> [] then b1\<lparr>build_platforms := pl\<rparr> else b1"
    let ?ref = "if LocalLoad (bd_cfg d) then rb_push_image_ref (run_build_request (bd_cfg d) b1) else image_repo (bd_cfg d) b1 @ ''@'' @ digest"
    from assms digest(2,3) have "w' = build_succeed ctl ?b ?ref w1" by (simp add: finish_build_def Inr r Let_def split: if_splits)
    moreover have "build_end ctl (bd_cfg d) b1 answer (?b\<lparr>build_status := BUILD_STATUS_SUCCEEDED, build_image_ref := ?ref,
        build_finished_at := Some (clock_now ctl)\<rparr>)" using digest(1) by (auto simp: build_end_def)
    ultimately show ?thesis unfolding build_succeed_def by blast
  next
    case False
    obtain msg where "w' = build_fail ctl b1 msg w1"
    proof (cases r)
      case (Inl m)
      with assms have "w' = build_fail ctl b1 m w1" by (simp add: finish_build_def \<open>answer = Inr stream\<close> r)
      then show ?thesis by (rule that)
    next
      case (Inr p)
      then obtain dg pl where p: "r = Inr (dg, pl)" by (cases p) simp
      with prod [of dg] False have "dg = ''''" by blast
      with assms p have "w' = build_fail ctl b1 ''build ended without producing an image'' w1"
        by (simp add: finish_build_def \<open>answer = Inr stream\<close> r)
      then show ?thesis by (rule that)
    qed
    moreover have "build_end ctl (bd_cfg d) b1 answer (b1\<lparr>build_status := BUILD_STATUS_FAILED, build_error := msg,
        build_finished_at := Some (clock_now ctl)\<rparr>)" using False by (simp add: build_end_def)
    ultimately show ?thesis unfolding build_fail_def by blast
  qed
qed


lemma events_tables:
  "builds (w_state (snd (propose ctl a (Command_AppendEvents es) w))) = builds (w_state w)
   \<and> releases (w_state (snd (propose ctl a (Command_AppendEvents es) w))) = releases (w_state w)
   \<and> environments (w_state (snd (propose ctl a (Command_AppendEvents es) w))) = environments (w_state w)
   \<and> deployments (w_state (snd (propose ctl a (Command_AppendEvents es) w))) = deployments (w_state w)"
  by (rule propose_rel)
    (simp_all add: AppendEvents_def Let_def fold_frame [where g = builds] fold_frame [where g = releases]
      fold_frame [where g = environments] fold_frame [where g = deployments] locked_tables)

lemma warn_tables:
  "warnNoBuilderOnce ctl b (d, w) = (d1, w') \<Longrightarrow>
   builds (w_state w') = builds (w_state w) \<and> releases (w_state w') = releases (w_state w)
   \<and> environments (w_state w') = environments (w_state w) \<and> deployments (w_state w') = deployments (w_state w)"
  by (auto simp: warnNoBuilderOnce_def builder_apply_def raft_Apply_propose fresh_id_def events_tables split: if_splits)

lemma dispatch_started:
  fixes b n ctl
  defines "b1 \<equiv> b\<lparr>build_status := BUILD_STATUS_RUNNING, build_node_id := node_id n, build_started_at := Some (clock_now ctl)\<rparr>"
  assumes "dispatch ctl dial b (d, w) = (d', w')" "pickBuilder (w_state w) = Some n" "fst (putBuild ctl b1 w) = None"
  shows "\<exists>d2 b2. build_end ctl (bd_cfg d) b1 (dial n (run_build_request (bd_cfg d) b1)) b2
    \<and> w' = snd (putBuild ctl b2 (snd (putBuild ctl b1 w))) \<and> d' = release_build (build_id b) d2"
proof -
  define d1 where "d1 = clearNoBuilderWarning (build_id b) d"
  have cfg: "bd_cfg d1 = bd_cfg d" by (simp add: d1_def clearNoBuilderWarning_def)
  let ?answer = "dial n (run_build_request (bd_cfg d) b1)"
  obtain w1 where put: "putBuild ctl b1 w = (None, w1)" using assms(4) by (metis prod.collapse)
  have "dispatch ctl dial b (d, w) =
      (case finish_build ctl ?answer b1 (d1, snd (putBuild ctl b1 w)) of (x, y) \<Rightarrow> (release_build (build_id b) x, y))"
    by (simp add: dispatch_def assms(3) Let_def put flip: b1_def d1_def) (simp add: cfg)
  with assms(2) obtain d2 where run: "finish_build ctl ?answer b1 (d1, snd (putBuild ctl b1 w)) = (d2, w')"
    and "d' = release_build (build_id b) d2" by (simp split: prod.splits)
  with build_ends [OF run, unfolded cfg] show ?thesis by blast
qed



definition sample_build :: Build where
  "sample_build = \<lparr>build_meta = meta_of ''B1'', build_app_id = ''A'', build_project_id = ''P'', build_environment_id = '''',
     build_type = BUILD_TYPE_UNSPECIFIED, build_status = BUILD_STATUS_QUEUED, build_node_id = '''', build_image_ref = '''',
     build_tarball_digest = '''', build_git_sha = '''', build_error = '''', build_started_at = None, build_finished_at = None,
     build_platforms = []\<rparr>"

definition sample_builder_world :: World where
  "sample_builder_world = \<lparr>w_state = run_log
     [entry 1 ''r1'' (Command_PutNode (zero_node\<lparr>node_meta := meta_of ''n1'', node_status := NODE_STATUS_ALIVE, node_schedulable := True,
        node_labels := [(''builder'', ''true'')]\<rparr>)),
      entry 2 ''r2'' (Command_PutBuild sample_build)] New, w_index = 2, w_ids = 0, w_proposals = 0\<rparr>"

definition sample_dispatcher :: BuildDispatcher where
  "sample_dispatcher = \<lparr>bd_cfg = \<lparr>SourceURLBase = '''', RegistryAddr = ''10.90.0.1:5000'', LocalLoad = False\<rparr>, bd_inflight = [],
     bd_rings = [], bd_noBuilderWarned = []\<rparr>"

definition sample_built :: BuildEvent where
  "sample_built = \<lparr>be_log_line = ''done'', be_image_digest = ''sha256:12'', be_platforms = [], be_error = '''', be_status = BUILD_STATUS_RUNNING\<rparr>"


text \<open>
  A pass starts queued builds only: a build that was running when its dispatcher lost the leadership is never
  taken up again, although it is marked as running for a failover to observe it.
\<close>

lemma running_build_abandoned:
  "build_status b = BUILD_STATUS_RUNNING \<Longrightarrow> b \<notin> set (fst (dispatcher_reconcile ctl st d))"
proof -
  let ?f = "\<lambda>b (started, d). if build_status b \<noteq> BUILD_STATUS_QUEUED then (started, d)
     else case claim_build (build_id b) d of (ok, d') \<Rightarrow> (if ok then started @ [b] else started, d')"
  have "\<forall>x \<in> set (fst (fold ?f xs acc)). x \<in> set (fst acc) \<or> build_status x = BUILD_STATUS_QUEUED" for xs acc
    by (induction xs arbitrary: acc) (fastforce split: prod.splits if_splits)+
  from this [of "ListBuilds '''' st" "([], d)"] show "build_status b = BUILD_STATUS_RUNNING \<Longrightarrow> ?thesis"
    by (auto simp: dispatcher_reconcile_def)
qed

end
