(* ===== verification/Scaling.thy ===== *)
theory Scaling
  imports Liveness
begin

text \<open>
  The loops that set the replica count of an environment from what the proxies report: an idle
  environment cools to zero (\<^verbatim>\<open>internal/daemon/scheduler/scaletozero.go\<close>), one with a concurrency limit
  follows its requests in flight (\<^verbatim>\<open>serverless.go\<close>), and one with load targets follows its load
  (\<^verbatim>\<open>autoscaler.go\<close>). The load of the autoscaler is computed in floating point from heartbeats: the
  replica count a load asks for, before it is clamped, is a parameter. All three write
  \<^verbatim>\<open>effective_replicas\<close> only.
\<close>

definition deploymentActive :: "Store \<Rightarrow> string \<Rightarrow> bool" where
  "deploymentActive st envID = list_ex (\<lambda>d. \<not> isTerminalPhase (dep_phase d)) (ListDeployments envID st)"

text \<open>The event a loop appends about an environment.\<close>

definition env_event :: "Control \<Rightarrow> string \<Rightarrow> Environment \<Rightarrow> string \<Rightarrow> string \<Rightarrow> string \<Rightarrow> action" where
  "env_event ctl actor env kind severity msg w =
     (case fresh_id ctl w of (i, w1) \<Rightarrow>
        ignore (propose ctl actor (Command_AppendEvents
          [\<lparr>event_meta = \<lparr>Id = i, CreatedAt = Some (clock_now ctl), UpdatedAt = None\<rparr>,
            event_kind = kind, event_severity = severity, event_project_id = env_project_id env,
            event_app_id = env_app_id env, event_environment_id = env_id env, event_node_id = '''',
            event_message = msg, event_fields = []\<rparr>])) w1)"

definition with_replicas :: "Control \<Rightarrow> uint32 \<Rightarrow> Environment \<Rightarrow> Environment" where
  "with_replicas ctl n env =
     env\<lparr>env_effective_replicas := n, env_meta := (env_meta env)\<lparr>UpdatedAt := Some (clock_now ctl)\<rparr>\<rparr>"

subsection \<open>Scale to zero\<close>

type_synonym marks = "(string, time) gomap"

definition later :: "time option \<Rightarrow> time option \<Rightarrow> time option" where
  "later t u = (case t of None \<Rightarrow> u | Some x \<Rightarrow> (case u of None \<Rightarrow> t | Some y \<Rightarrow> if x > y then t else u))"

text \<open>The latest request, the requests in flight and whether a node reports at all.\<close>

definition activity :: "LiveRegistry \<Rightarrow> string \<Rightarrow> time option \<times> uint32 \<times> bool" where
  "activity live envID =
     fold (\<lambda>ns (lastReq, inflight, haveData).
             case ln_heartbeat ns of
               None \<Rightarrow> (lastReq, inflight, haveData)
             | Some hb \<Rightarrow>
                 (case map_of (hb_proxy hb) envID of
                    None \<Rightarrow> (lastReq, inflight, True)
                  | Some ps \<Rightarrow> (later (px_last_request_at ps) lastReq, inflight + px_inflight ps, True)))
       (live_Snapshot live) (None, 0, False)"

definition s2z_actor :: string where "s2z_actor = ''system:scaletozero''"

definition cool :: "Control \<Rightarrow> Environment \<Rightarrow> marks \<times> World \<Rightarrow> apply_error option \<times> marks \<times> World" where
  "cool ctl env mw =
     (case mw of (la, w) \<Rightarrow>
        case Environment (env_id env) (w_state w) of
          None \<Rightarrow> (None, la, w)
        | Some cur \<Rightarrow>
            if env_effective_replicas cur = 0 then (None, la, w)
            else (case propose ctl s2z_actor (Command_PutEnvironment (with_replicas ctl 0 cur)) w of
                    (Some e, w1) \<Rightarrow> (Some e, la, w1)
                  | (None, w1) \<Rightarrow>
                      (None, mdel (env_id env) la,
                       snd (env_event ctl s2z_actor env ''scaletozero.cooled'' ''info''
                              (''scaled '' @ env_name env @ '' to zero after idle'') w1))))"

definition s2z_evaluateEnv ::
  "Control \<Rightarrow> LiveRegistry \<Rightarrow> Environment \<Rightarrow> marks \<times> World \<Rightarrow> apply_error option \<times> marks \<times> World" where
  "s2z_evaluateEnv ctl live env mw =
     (case mw of (la, w) \<Rightarrow>
        let spec = env_service env; timeout = env_idle_timeout env; envID = env_id env
        in if \<not> svc_scale_to_zero spec \<or> svc_stateful spec \<or> env_active_release_id env = '''' then (None, la, w)
           else if svc_max_concurrency spec > 0 then (None, la, w)
           else if timeout \<le> 0 then (None, la, w)
           else if env_effective_replicas env = 0 \<or> deploymentActive (w_state w) envID then (None, mdel envID la, w)
           else (case activity live envID of (lastReq, inflight, haveData) \<Rightarrow>
                   if \<not> haveData then (None, la, w)
                   else let now = clock_now ctl;
                            seen = (case map_of la envID of None \<Rightarrow> now | Some t \<Rightarrow> t);
                            seen1 = (if inflight > 0 then now
                                     else case lastReq of None \<Rightarrow> seen | Some r \<Rightarrow> if r > seen then r else seen);
                            la1 = mput envID seen1 la
                        in if now - seen1 < timeout then (None, la1, w) else cool ctl env (la1, w)))"

text \<open>A loop over the environments that carries the state of a controller.\<close>

fun each_env ::
  "(Environment \<Rightarrow> 'm \<times> World \<Rightarrow> apply_error option \<times> 'm \<times> World) \<Rightarrow> Environment list \<Rightarrow> 'm \<times> World
   \<Rightarrow> apply_error option \<times> 'm \<times> World" where
  "each_env f [] mw = (None, mw)"
| "each_env f (env # es) mw = (case f env mw of (Some e, mw') \<Rightarrow> (Some e, mw') | (None, mw') \<Rightarrow> each_env f es mw')"

definition s2z_evaluate :: "Control \<Rightarrow> LiveRegistry \<Rightarrow> marks \<times> World \<Rightarrow> apply_error option \<times> marks \<times> World" where
  "s2z_evaluate ctl live mw =
     (if \<not> is_leader ctl then (Some ErrNotLeader, mw)
      else each_env (s2z_evaluateEnv ctl live) (ListEnvironments '''' '''' (w_state (snd mw))) mw)"

subsection \<open>Concurrency\<close>

definition totalInflight :: "LiveRegistry \<Rightarrow> string \<Rightarrow> uint32 \<times> bool" where
  "totalInflight live envID =
     fold (\<lambda>ns (total, have).
             case ln_heartbeat ns of
               None \<Rightarrow> (total, have)
             | Some hb \<Rightarrow> (case map_of (hb_proxy hb) envID of None \<Rightarrow> (total, True) | Some ps \<Rightarrow> (total + px_inflight ps, True)))
       (live_Snapshot live) (0, False)"

text \<open>
  The rounded-up quotient. In Go it is computed in \<^verbatim>\<open>float64\<close>; for operands below \<open>2 ^ 32\<close> the error of the
  division is below the distance of the quotient to the next integer, so the result is the same.
\<close>

definition ceil_div :: "int \<Rightarrow> int \<Rightarrow> int" where
  "ceil_div a b = - ((- a) div b)"

definition serverless_floor :: "ServiceSpec \<Rightarrow> int" where
  "serverless_floor spec =
     (let floor = uint (replicas_min (svc_replicas spec))
      in if svc_scale_to_zero spec then 0 else if floor < 1 then 1 else floor)"

definition serverless_desired :: "ServiceSpec \<Rightarrow> uint32 \<Rightarrow> int" where
  "serverless_desired spec inflight =
     (let floor = serverless_floor spec;
          maxRep0 = uint (replicas_max (svc_replicas spec));
          maxRep = (if maxRep0 < floor then floor else maxRep0);
          desired0 = ceil_div (uint inflight) (uint (svc_max_concurrency spec));
          desired1 = (if desired0 < floor then floor else desired0)
      in if desired1 > maxRep then maxRep else desired1)"

definition serverless_applyScale :: "Control \<Rightarrow> Environment \<Rightarrow> int \<Rightarrow> action" where
  "serverless_applyScale ctl env to w =
     (case Environment (env_id env) (w_state w) of
        None \<Rightarrow> ret w
      | Some cur \<Rightarrow> propose ctl ''system:serverless'' (Command_PutEnvironment (with_replicas ctl (of_int to) cur)) w)"

definition serverless_evaluateEnv :: "Control \<Rightarrow> LiveRegistry \<Rightarrow> Environment \<Rightarrow> action" where
  "serverless_evaluateEnv ctl live env w =
     (let spec = env_service env
      in if svc_max_concurrency spec = 0 \<or> env_active_release_id env = '''' then ret w
         else if deploymentActive (w_state w) (env_id env) then ret w
         else (case totalInflight live (env_id env) of (inflight, ok) \<Rightarrow>
                 if \<not> ok then ret w
                 else let desired = serverless_desired spec inflight
                      in if desired = desiredReplicas env then ret w else serverless_applyScale ctl env desired w))"

definition serverless_evaluate :: "Control \<Rightarrow> LiveRegistry \<Rightarrow> action" where
  "serverless_evaluate ctl live w =
     (if \<not> is_leader ctl then (Some ErrNotLeader, w)
      else in_turn (serverless_evaluateEnv ctl live) (ListEnvironments '''' '''' (w_state w)) w)"

subsection \<open>Load\<close>

definition scaleDownHold :: duration where "scaleDownHold = 5 * Minute"
definition scaleCooldown :: duration where "scaleCooldown = 3 * Minute"

record AutoscalerState =
  as_lowSince :: marks
  as_lastChange :: marks

text \<open>The replica count the load of an environment asks for at full target and at the lower band; none when
  a configured signal has no data. Clamping is the code's.\<close>

type_synonym load_view = "Store \<Rightarrow> Environment \<Rightarrow> (int \<times> int) option"

definition autoscaleConfigured :: "Autoscale \<Rightarrow> bool" where
  "autoscaleConfigured auto =
     (target_cpu_percent auto > 0 \<or> target_memory_percent auto > 0 \<or> target_rps_per_replica auto > 0)"

definition clampReplicas :: "int \<Rightarrow> int \<Rightarrow> int \<Rightarrow> int" where
  "clampReplicas minRep maxRep asked =
     (let desired0 = (if asked > minRep then asked else minRep);
          desired1 = (if desired0 < minRep then minRep else desired0)
      in if desired1 > maxRep then maxRep else desired1)"

definition inCooldown :: "AutoscalerState \<Rightarrow> string \<Rightarrow> time \<Rightarrow> bool" where
  "inCooldown a envID now =
     (case map_of (as_lastChange a) envID of None \<Rightarrow> False | Some changed \<Rightarrow> now - changed < scaleCooldown)"

definition autoscaler_applyScale ::
  "Control \<Rightarrow> Environment \<Rightarrow> int \<Rightarrow> int \<Rightarrow> AutoscalerState \<times> World \<Rightarrow> apply_error option \<times> AutoscalerState \<times> World" where
  "autoscaler_applyScale ctl env from_n to aw =
     (case aw of (a, w) \<Rightarrow>
        case Environment (env_id env) (w_state w) of
          None \<Rightarrow> (None, a, w)
        | Some cur \<Rightarrow>
            (case propose ctl ''system:autoscaler'' (Command_PutEnvironment (with_replicas ctl (of_int to) cur)) w of
               (Some e, w1) \<Rightarrow> (Some e, a, w1)
             | (None, w1) \<Rightarrow>
                 (None,
                  a\<lparr>as_lastChange := mput (env_id env) (clock_now ctl) (as_lastChange a),
                    as_lowSince := mdel (env_id env) (as_lowSince a)\<rparr>,
                  snd (env_event ctl ''system:autoscaler'' env ''autoscale.scaled'' ''info''
                         (''autoscaled '' @ env_name env @ '' from '' @ itoa_int from_n @ '' to '' @ itoa_int to @ '' replicas'') w1))))"

text \<open>The switch on the desired against the set count: whether to scale now, and the marks.\<close>

definition autoscale_switch :: "time \<Rightarrow> string \<Rightarrow> int \<Rightarrow> int \<Rightarrow> int \<Rightarrow> AutoscalerState \<Rightarrow> bool \<times> AutoscalerState" where
  "autoscale_switch now envID desired low effective a =
     (let a_reset = a\<lparr>as_lowSince := mdel envID (as_lowSince a)\<rparr>
      in if desired > effective then (\<not> inCooldown a_reset envID now, a_reset)
         else if desired < effective
         then (if low \<ge> effective then (False, a_reset)
               else let since = (case map_of (as_lowSince a) envID of None \<Rightarrow> now | Some t \<Rightarrow> t);
                        a1 = a\<lparr>as_lowSince := mput envID since (as_lowSince a)\<rparr>
                    in (\<not> now - since < scaleDownHold \<and> \<not> inCooldown a1 envID now, a1))
         else (False, a_reset))"

definition autoscale_bounds :: "ServiceSpec \<Rightarrow> int \<times> int" where
  "autoscale_bounds spec =
     (let min0 = uint (replicas_min (svc_replicas spec))
      in (if min0 < 1 then 1 else min0, uint (replicas_max (svc_replicas spec))))"

definition autoscaler_evaluateEnv ::
  "Control \<Rightarrow> load_view \<Rightarrow> Environment \<Rightarrow> AutoscalerState \<times> World \<Rightarrow> apply_error option \<times> AutoscalerState \<times> World" where
  "autoscaler_evaluateEnv ctl load env aw =
     (case aw of (a, w) \<Rightarrow>
        let envID = env_id env; spec = env_service env
        in if \<not> autoscaleConfigured (svc_autoscale spec) \<or> env_active_release_id env = '''' then (None, a, w)
           else if svc_max_concurrency spec > 0 then (None, a, w)
           else if deploymentActive (w_state w) envID then (None, a, w)
           else
             (case autoscale_bounds spec of (minRep, maxRep) \<Rightarrow>
                if maxRep \<le> minRep then (None, a, w)
                else case load (w_state w) env of
                       None \<Rightarrow> (None, a, w)
                     | Some (asked, asked_low) \<Rightarrow>
                         (let desired = clampReplicas minRep maxRep asked;
                              low = clampReplicas minRep maxRep asked_low;
                              effective = (if desiredReplicas env < 1 then minRep else desiredReplicas env)
                          in case autoscale_switch (clock_now ctl) envID desired low effective a of
                               (scale, a1) \<Rightarrow> if scale then autoscaler_applyScale ctl env effective desired (a1, w) else (None, a1, w))))"

definition autoscaler_evaluate :: "Control \<Rightarrow> load_view \<Rightarrow> AutoscalerState \<times> World \<Rightarrow> apply_error option \<times> AutoscalerState \<times> World" where
  "autoscaler_evaluate ctl load aw =
     (if \<not> is_leader ctl then (Some ErrNotLeader, aw)
      else each_env (autoscaler_evaluateEnv ctl load) (ListEnvironments '''' '''' (w_state (snd aw))) aw)"

end
