(* ===== verification/ScalingProps.thy ===== *)
theory ScalingProps
  imports Scaling LivenessProps
begin

text \<open>
  The three scaling loops keep to themselves: each evaluates every environment once, changes nothing of an
  environment but its replica count, and touches no other. The locale \<open>env_loop\<close> states this contract
  and derives what a whole pass does to one environment; it is interpreted for each loop.
\<close>

subsection \<open>Changing a replica count\<close>

definition env_rel :: "string \<Rightarrow> Environment option \<Rightarrow> Store \<Rightarrow> Store \<Rightarrow> bool" where
  "env_rel i x s t \<longleftrightarrow> (envs t = envs s \<or> envs t = (envs s)(i := x)) \<and> deployments t = deployments s"

lemma put_env:
  "env_rel (env_id e) (Some e) (w_state w) (w_state (snd (propose ctl actor (Command_PutEnvironment e) w)))"
  by (rule propose_rel) (simp_all add: env_rel_def PutEnvironment_def touch_def)

lemma put_env_reliable:
  assumes "reliable ctl w"
  shows "fst (propose ctl actor (Command_PutEnvironment e) w) = None"
    "reliable ctl (snd (propose ctl actor (Command_PutEnvironment e) w))"
    "envs (w_state (snd (propose ctl actor (Command_PutEnvironment e) w))) = (envs (w_state w))(env_id e \<mapsto> e)"
proof -
  have quiet: "appliedSet (snd (apply_mutation rid now (Command_PutEnvironment e) s)) = appliedSet s" for rid now s
    by (simp add: PutEnvironment_def touch_def)
  show "fst (propose ctl actor (Command_PutEnvironment e) w) = None" by (rule propose_reliable(1) [OF assms quiet])
  show "reliable ctl (snd (propose ctl actor (Command_PutEnvironment e) w))" by (rule propose_reliable(3) [OF assms quiet])
  from propose_reliable(2) [OF assms quiet, of actor]
  show "envs (w_state (snd (propose ctl actor (Command_PutEnvironment e) w))) = (envs (w_state w))(env_id e \<mapsto> e)"
    by (auto simp: after_def PutEnvironment_def touch_def)
qed

lemma env_event_tables:
  "environments (w_state (snd (env_event ctl actor env k sev msg w))) = environments (w_state w)"
  "deployments (w_state (snd (env_event ctl actor env k sev msg w))) = deployments (w_state w)"
  "store_inv (w_state w) \<Longrightarrow> store_inv (w_state (snd (env_event ctl actor env k sev msg w)))"
  "reliable ctl w \<Longrightarrow> reliable ctl (snd (env_event ctl actor env k sev msg w))"
proof -
  have tables: "environments (w_state (snd (propose ctl a (Command_AppendEvents es) v))) = environments (w_state v)
      \<and> deployments (w_state (snd (propose ctl a (Command_AppendEvents es) v))) = deployments (w_state v)" for a es v
    by (rule propose_rel)
      (simp_all add: AppendEvents_def Let_def fold_frame [where g = environments] fold_frame [where g = deployments] locked_tables)
  then show "environments (w_state (snd (env_event ctl actor env k sev msg w))) = environments (w_state w)"
    "deployments (w_state (snd (env_event ctl actor env k sev msg w))) = deployments (w_state w)"
    by (simp_all add: env_event_def fresh_id_def ignore_def)
  show "store_inv (w_state w) \<Longrightarrow> store_inv (w_state (snd (env_event ctl actor env k sev msg w)))"
    by (simp add: env_event_def fresh_id_def ignore_def propose_inv)
  show "reliable ctl (snd (env_event ctl actor env k sev msg w))" if "reliable ctl w"
  proof -
    have "reliable ctl (w\<lparr>w_ids := Suc (w_ids w)\<rparr>)" using that by (simp add: reliable_def)
    from propose_reliable(3) [OF this assignment_mutations_applied(3)] show ?thesis
      by (simp add: env_event_def fresh_id_def ignore_def)
  qed
qed

lemma stored_env_id: "store_inv s \<Longrightarrow> Environment i s = Some cur \<Longrightarrow> env_id cur = i"
  using keyedD [OF store_keyed(6)] by (simp add: Environment_def)

lemma listed_envs:
  assumes "store_inv s"
  shows "distinct (map env_id (ListEnvironments '''' '''' s))"
    "Environment i s = Some env \<Longrightarrow> env \<in> set (ListEnvironments '''' '''' s)"
    "env \<in> set (ListEnvironments '''' '''' s) \<Longrightarrow> Environment (env_id env) s = Some env"
proof -
  show "Environment (env_id env) s = Some env" if "env \<in> set (ListEnvironments '''' '''' s)"
    using env_rc.in_list_iff [OF store_keyed(6) [OF assms], of env "('''', '''')"] that by simp
  show "distinct (map env_id (ListEnvironments '''' '''' s))"
    using keyed_distinct_mvals [OF store_keyed(6) [OF assms]] keyed_inj_on [OF store_keyed(6) [OF assms]]
    by (simp add: ListEnvironments_def sortByID_def distinct_map inj_on_def)
  show "env \<in> set (ListEnvironments '''' '''' s)" if "Environment i s = Some env"
    using env_rc.in_list_iff [OF store_keyed(6) [OF assms], of env "('''', '''')"] that stored_env_id [OF assms that] by simp
qed

subsection \<open>A pass over the environments\<close>

text \<open>What a step leaves alone for the environment \<open>i\<close>.\<close>

definition apart :: "Control \<Rightarrow> ('m \<Rightarrow> string \<Rightarrow> 'v) \<Rightarrow> string \<Rightarrow> 'm \<times> World \<Rightarrow> apply_error option \<times> 'm \<times> World \<Rightarrow> bool" where
  "apart ctl view i mw r \<longleftrightarrow>
     store_inv (w_state (snd (snd r))) \<and> envs (w_state (snd (snd r))) i = envs (w_state (snd mw)) i
     \<and> deployments (w_state (snd (snd r))) = deployments (w_state (snd mw)) \<and> view (fst (snd r)) i = view (fst mw) i
     \<and> (reliable ctl (snd mw) \<longrightarrow> fst r = None \<and> reliable ctl (snd (snd r)))"

locale env_loop =
  fixes ctl :: Control
    and f :: "Environment \<Rightarrow> 'm \<times> World \<Rightarrow> apply_error option \<times> 'm \<times> World"
    and view :: "'m \<Rightarrow> string \<Rightarrow> 'v"
  assumes own: "store_inv (w_state (snd mw)) \<Longrightarrow> env_id env \<noteq> i \<Longrightarrow> apart ctl view i mw (f env mw)"
begin

lemma loop_apart:
  "store_inv (w_state (snd mw)) \<Longrightarrow> i \<notin> env_id ` set es \<Longrightarrow> apart ctl view i mw (each_env f es mw)"
proof (induction es arbitrary: mw)
  case (Cons env es)
  from Cons.prems(2) have i: "env_id env \<noteq> i" "i \<notin> env_id ` set es" by auto
  note step = own [OF Cons.prems(1) i(1)]
  obtain err mw' where r: "f env mw = (err, mw')" by (metis surj_pair)
  show ?case
  proof (cases err)
    case (Some e)
    with r step show ?thesis by simp
  next
    case None
    from step r have inv: "store_inv (w_state (snd mw'))" by (simp add: apart_def)
    from Cons.IH [OF inv i(2)] step r None show ?thesis by (simp add: apart_def)
  qed
qed (simp add: apart_def)

lemma loop_reliable:
  assumes "store_inv (w_state (snd mw))" "reliable ctl (snd mw)"
  shows "fst (each_env f es mw) = None"
proof -
  obtain i where "i \<notin> env_id ` set es"
    using ex_new_if_finite [OF infinite_UNIV_listI, of "env_id ` set es"] by auto
  from loop_apart [OF assms(1) this] assms(2) show ?thesis by (simp add: apart_def)
qed

text \<open>The pass as seen from one environment: it is reached as it was, evaluated once, and left alone; or the
  pass stops before.\<close>

lemma loop_at:
  assumes "store_inv (w_state (snd mw))" "distinct (map env_id es)" "env \<in> set es"
  obtains (stopped) "fst (each_env f es mw) \<noteq> None" "apart ctl view (env_id env) mw (each_env f es mw)"
  | (reached) mw1 where "apart ctl view (env_id env) mw (None, mw1)"
      "fst (f env mw1) \<noteq> None \<Longrightarrow> fst (each_env f es mw) \<noteq> None"
      "store_inv (w_state (snd (snd (f env mw1)))) \<Longrightarrow>
         envs (w_state (snd (snd (each_env f es mw)))) (env_id env) = envs (w_state (snd (snd (f env mw1)))) (env_id env)
         \<and> view (fst (snd (each_env f es mw))) (env_id env) = view (fst (snd (f env mw1))) (env_id env)"
proof -
  from split_list [OF assms(3)] obtain xs ys where es: "es = xs @ env # ys" by blast
  with assms(2) have out: "env_id env \<notin> env_id ` set xs" "env_id env \<notin> env_id ` set ys" by auto
  have split: "each_env f es mw = (case each_env f xs mw of (Some e, mw') \<Rightarrow> (Some e, mw') | (None, mw') \<Rightarrow> each_env f (env # ys) mw')"
    unfolding es by (induction xs arbitrary: mw) (auto split: prod.split option.split)
  note before = loop_apart [OF assms(1) out(1)]
  obtain e1 mw1 where xs: "each_env f xs mw = (e1, mw1)" by (metis surj_pair)
  show thesis
  proof (cases e1)
    case (Some e)
    with split xs before show thesis by (intro stopped) simp_all
  next
    case None
    obtain e2 mw2 where step: "f env mw1 = (e2, mw2)" by (metis surj_pair)
    have all: "each_env f es mw = (case e2 of Some e \<Rightarrow> (Some e, mw2) | None \<Rightarrow> each_env f ys mw2)"
      using split xs None step by (simp split: option.split)
    show thesis
    proof (rule reached [of mw1])
      show "apart ctl view (env_id env) mw (None, mw1)" using before xs None by simp
      show "fst (f env mw1) \<noteq> None \<Longrightarrow> fst (each_env f es mw) \<noteq> None" using all step by auto
      show "envs (w_state (snd (snd (each_env f es mw)))) (env_id env) = envs (w_state (snd (snd (f env mw1)))) (env_id env)
         \<and> view (fst (snd (each_env f es mw))) (env_id env) = view (fst (snd (f env mw1))) (env_id env)"
        if "store_inv (w_state (snd (snd (f env mw1))))"
        using all step loop_apart [OF _ out(2), of mw2] that by (cases e2) (simp_all add: apart_def)
    qed
  qed
qed

text \<open>The same for a pass over the stored environments.\<close>

lemma pass_at:
  assumes "store_inv (w_state (snd mw))" "each_env f (ListEnvironments '''' '''' (w_state (snd mw))) mw = (e, mw')"
  obtains (quiet) "view (fst mw') i = view (fst mw) i" "Environment i (w_state (snd mw')) = Environment i (w_state (snd mw))"
      "e = None \<Longrightarrow> Environment i (w_state (snd mw)) = None"
  | (evaluated) env mw1 e2 mw2 where "Environment i (w_state (snd mw)) = Some env" "env_id env = i"
      "apart ctl view i mw (None, mw1)" "f env mw1 = (e2, mw2)" "e = None \<Longrightarrow> e2 = None"
      "view (fst mw') i = view (fst mw2) i" "Environment i (w_state (snd mw')) = Environment i (w_state (snd mw2))"
proof (cases "Environment i (w_state (snd mw))")
  case None
  then have "i \<notin> env_id ` set (ListEnvironments '''' '''' (w_state (snd mw)))" using listed_envs(3) [OF assms(1)] by fastforce
  from loop_apart [OF assms(1) this] None show thesis
    by (intro quiet) (simp_all add: apart_def assms(2) Environment_def)
next
  case (Some env)
  have id: "env_id env = i" by (rule stored_env_id [OF assms(1) Some])
  show thesis
  proof (cases rule: loop_at [OF assms(1) listed_envs(1) [OF assms(1)] listed_envs(2) [OF assms(1) Some]])
    case 1
    with assms(2) id show thesis by (intro quiet) (auto simp: apart_def Environment_def)
  next
    case reached: (2 mw1)
    obtain e2 mw2 where step: "f env mw1 = (e2, mw2)" by (metis surj_pair)
    have "store_inv (w_state (snd mw2))" using own [of mw1 env "i @ ''.''"] reached(1) step id by (simp add: apart_def)
    moreover have "e = None \<Longrightarrow> e2 = None" using reached(2) step assms(2) by (cases e2) simp_all
    ultimately show thesis using reached(1,3) step Some id assms(2)
      by (intro evaluated [of env mw1 e2 mw2]) (simp_all add: Environment_def)
  qed
qed

end

lemma with_replicas_fields [simp]:
  "env_id (with_replicas ctl n e) = env_id e" "env_effective_replicas (with_replicas ctl n e) = n"
  "env_service (with_replicas ctl n e) = env_service e" "env_active_release_id (with_replicas ctl n e) = env_active_release_id e"
  by (simp_all add: with_replicas_def)

text \<open>One replica count is written, and an event may follow.\<close>

lemma scaled_apart:
  assumes "store_inv (w_state w)" "env_id e \<noteq> i"
    and "w' = snd (propose ctl actor (Command_PutEnvironment e) w)
       \<or> w' = snd (env_event ctl actor' env k sev msg (snd (propose ctl actor (Command_PutEnvironment e) w)))"
  shows "store_inv (w_state w') \<and> envs (w_state w') i = envs (w_state w) i \<and> deployments (w_state w') = deployments (w_state w)
    \<and> (reliable ctl w \<longrightarrow> reliable ctl w')"
proof -
  let ?w1 = "snd (propose ctl actor (Command_PutEnvironment e) w)"
  have one: "store_inv (w_state ?w1)" "envs (w_state ?w1) i = envs (w_state w) i" "deployments (w_state ?w1) = deployments (w_state w)"
    "reliable ctl w \<longrightarrow> reliable ctl ?w1"
    using put_env [of e w ctl actor] assms(1,2) put_env_reliable(2) by (auto simp: env_rel_def propose_inv)
  with assms(3) env_event_tables [where ctl = ctl and actor = actor' and env = env and k = k and sev = sev and msg = msg and w = ?w1] show ?thesis by auto
qed

lemma cool_apart:
  assumes "store_inv (w_state w)" "env_id env \<noteq> i"
  shows "apart ctl map_of i (la, w) (cool ctl env (la, w))"
proof (cases "Environment (env_id env) (w_state w)")
  case None
  with assms show ?thesis by (simp add: cool_def apart_def)
next
  case (Some cur)
  then have id: "env_id (with_replicas ctl 0 cur) \<noteq> i" using stored_env_id [OF assms(1)] assms(2) by simp
  obtain err w1 where p: "propose ctl s2z_actor (Command_PutEnvironment (with_replicas ctl 0 cur)) w = (err, w1)" by fastforce
  have "reliable ctl w \<Longrightarrow> err = None" using put_env_reliable(1) p by (metis fst_conv)
  moreover note scaled_apart [OF assms(1) id, where actor = s2z_actor and actor' = s2z_actor and env = env
      and k = "''scaletozero.cooled''" and sev = "''info''" and msg = "''scaled '' @ env_name env @ '' to zero after idle''" and ctl = ctl, unfolded p snd_conv]
  ultimately show ?thesis
    using Some p assms by (cases err) (auto simp: cool_def apart_def)
qed

interpretation s2z: env_loop ctl "s2z_evaluateEnv ctl live" map_of for ctl live
proof
  fix mw :: "marks \<times> World" and env i
  assume inv: "store_inv (w_state (snd mw))" and i: "env_id env \<noteq> i"
  obtain la w where mw: "mw = (la, w)" by fastforce
  have quiet: "apart ctl map_of i (la, w) (None, la', w)" if "map_of la' i = map_of la i" for la'
    using inv that by (simp add: apart_def mw)
  have cooled: "apart ctl map_of i (la, w) (cool ctl env (mput (env_id env) t la, w))" for t
    using cool_apart [of w env i ctl "mput (env_id env) t la"] inv i by (simp add: apart_def mw)
  show "apart ctl map_of i mw (s2z_evaluateEnv ctl live env mw)"
    unfolding mw s2z_evaluateEnv_def prod.case Let_def
    using i by (auto split: prod.split intro!: quiet cooled)
qed

lemma serverless_applyScale_apart:
  assumes "store_inv (w_state w)" "env_id env \<noteq> i"
  shows "store_inv (after (serverless_applyScale ctl env n) w) \<and> envs (after (serverless_applyScale ctl env n) w) i = envs (w_state w) i
    \<and> deployments (after (serverless_applyScale ctl env n) w) = deployments (w_state w)
    \<and> (reliable ctl w \<longrightarrow> fst (serverless_applyScale ctl env n w) = None \<and> reliable ctl (snd (serverless_applyScale ctl env n w)))"
proof (cases "Environment (env_id env) (w_state w)")
  case None
  with assms show ?thesis by (simp add: serverless_applyScale_def after_def ret_def)
next
  case (Some cur)
  then have "env_id (with_replicas ctl (of_int n) cur) \<noteq> i" using stored_env_id [OF assms(1)] assms(2) by simp
  from scaled_apart [OF assms(1) this disjI1 [OF refl], of ctl "''system:serverless''"] put_env_reliable(1) Some show ?thesis
    by (simp add: serverless_applyScale_def after_def)
qed

text \<open>The loop over plain actions is the same loop with no state of its own.\<close>

definition stateless :: "('x \<Rightarrow> action) \<Rightarrow> 'x \<Rightarrow> unit \<times> World \<Rightarrow> apply_error option \<times> unit \<times> World" where
  "stateless f x mw = (case f x (snd mw) of (e, w) \<Rightarrow> (e, (), w))"

lemma in_turn_each_env:
  "in_turn f es w = (case each_env (stateless f) es ((), w) of (e, _, w') \<Rightarrow> (e, w'))"
  by (induction es arbitrary: w) (auto simp: ret_def and_then_def stateless_def split: prod.split option.split)

interpretation serverless: env_loop ctl "stateless (serverless_evaluateEnv ctl live)" "\<lambda>_ _. ()" for ctl live
proof
  fix mw :: "unit \<times> World" and env i
  assume inv: "store_inv (w_state (snd mw))" and i: "env_id env \<noteq> i"
  have "store_inv (after (serverless_evaluateEnv ctl live env) (snd mw))
    \<and> envs (after (serverless_evaluateEnv ctl live env) (snd mw)) i = envs (w_state (snd mw)) i
    \<and> deployments (after (serverless_evaluateEnv ctl live env) (snd mw)) = deployments (w_state (snd mw))
    \<and> (reliable ctl (snd mw) \<longrightarrow> fst (serverless_evaluateEnv ctl live env (snd mw)) = None
         \<and> reliable ctl (snd (serverless_evaluateEnv ctl live env (snd mw))))"
    using serverless_applyScale_apart [OF inv i, of ctl] inv
    by (simp add: serverless_evaluateEnv_def Let_def after_def ret_def split: prod.split)
  then show "apart ctl (\<lambda>_ _. ()) i mw (stateless (serverless_evaluateEnv ctl live) env mw)"
    by (simp add: apart_def stateless_def after_def split_def)
qed


text \<open>The autoscaler's marks of an environment.\<close>

definition as_view :: "AutoscalerState \<Rightarrow> string \<Rightarrow> time option \<times> time option" where
  "as_view a i = (map_of (as_lowSince a) i, map_of (as_lastChange a) i)"

lemma autoscaler_applyScale_apart:
  assumes "store_inv (w_state w)" "env_id env \<noteq> i"
  shows "apart ctl as_view i (a, w) (autoscaler_applyScale ctl env n m (a, w))"
proof (cases "Environment (env_id env) (w_state w)")
  case None
  with assms show ?thesis by (simp add: autoscaler_applyScale_def apart_def)
next
  case (Some cur)
  then have id: "env_id (with_replicas ctl (of_int m) cur) \<noteq> i" using stored_env_id [OF assms(1)] assms(2) by simp
  obtain err w1 where p: "propose ctl ''system:autoscaler'' (Command_PutEnvironment (with_replicas ctl (of_int m) cur)) w = (err, w1)"
    by fastforce
  have "reliable ctl w \<Longrightarrow> err = None" using put_env_reliable(1) p by (metis fst_conv)
  moreover note scaled_apart [OF assms(1) id, where actor = "''system:autoscaler''" and actor' = "''system:autoscaler''" and env = env
      and k = "''autoscale.scaled''" and sev = "''info''" and ctl = ctl
      and msg = "''autoscaled '' @ env_name env @ '' from '' @ itoa_int n @ '' to '' @ itoa_int m @ '' replicas''", unfolded p snd_conv]
  ultimately show ?thesis
    using Some p assms by (cases err) (auto simp: autoscaler_applyScale_def apart_def as_view_def)
qed

interpretation autoscaler: env_loop ctl "autoscaler_evaluateEnv ctl load" as_view for ctl load
proof
  fix mw :: "AutoscalerState \<times> World" and env i
  assume inv: "store_inv (w_state (snd mw))" and i: "env_id env \<noteq> i"
  obtain a w where mw: "mw = (a, w)" by fastforce
  have quiet: "apart ctl as_view i (a, w) (None, a', w)" if "as_view a' i = as_view a i" for a'
    using inv that by (simp add: apart_def mw)
  have scaled: "apart ctl as_view i (a, w) (autoscaler_applyScale ctl env n m (a', w))" if "as_view a' i = as_view a i" for a' n m
    using autoscaler_applyScale_apart [of w env i ctl a' n m] inv i that by (simp add: apart_def mw)
  have switched: "as_view a' i = as_view a i" if "autoscale_switch now (env_id env) d l e a = (scale, a')" for now d l e scale a'
    using that i by (auto simp: autoscale_switch_def as_view_def Let_def split: if_splits)
  show "apart ctl as_view i mw (autoscaler_evaluateEnv ctl load env mw)"
    unfolding mw autoscaler_evaluateEnv_def prod.case Let_def
    by (simp add: quiet scaled switched split: prod.split option.split)
qed

subsection \<open>The count that fits the load\<close>

text \<open>
  Specification of a concurrency-scaled environment: the smallest number of replicas, within the bounds of the
  service, at which no replica has more than the limit of requests in flight.
\<close>

definition right_count :: "ServiceSpec \<Rightarrow> int \<Rightarrow> int \<Rightarrow> bool" where
  "right_count spec inflight n \<longleftrightarrow>
     (let lo = (if svc_scale_to_zero spec then 0 else max 1 (uint (replicas_min (svc_replicas spec))));
          hi = max lo (uint (replicas_max (svc_replicas spec)));
          c = uint (svc_max_concurrency spec)
      in lo \<le> n \<and> n \<le> hi \<and> (n = hi \<or> inflight \<le> n * c) \<and> (n = lo \<or> (n - 1) * c < inflight))"

lemma ceil_div_least:
  assumes "0 < b"
  shows "a \<le> ceil_div a b * b" "(ceil_div a b - 1) * b < a"
proof -
  define q r where "q = (- a) div b" and "r = (- a) mod b"
  have "q * b + r = - a" unfolding q_def r_def by (rule div_mult_mod_eq)
  moreover from assms have "0 \<le> r" "r < b" by (simp_all add: r_def)
  ultimately show "a \<le> ceil_div a b * b" "(ceil_div a b - 1) * b < a"
    unfolding ceil_div_def q_def [symmetric] left_diff_distrib by simp_all
qed

lemma serverless_desired_right:
  assumes "0 < svc_max_concurrency spec"
  shows "right_count spec (uint inflight) (serverless_desired spec inflight)"
proof -
  let ?c = "uint (svc_max_concurrency spec)" and ?q = "ceil_div (uint inflight) (uint (svc_max_concurrency spec))"
  from assms have c: "0 < ?c" by (simp add: word_less_def)
  have up: "uint inflight \<le> n * ?c" if "?q \<le> n" for n
    using ceil_div_least(1) [OF c, of "uint inflight"] mult_right_mono [OF that, of ?c] c by linarith
  have down: "(n - 1) * ?c < uint inflight" if "n \<le> ?q" for n
    using ceil_div_least(2) [OF c, of "uint inflight"] mult_right_mono [of "n - 1" "?q - 1" ?c] that c by linarith
  have low: "serverless_floor spec = (if svc_scale_to_zero spec then 0 else max 1 (uint (replicas_min (svc_replicas spec))))"
    by (simp add: serverless_floor_def Let_def)
  show ?thesis
    unfolding right_count_def serverless_desired_def Let_def low [symmetric]
    using up down by (auto simp: max_def)
qed

lemma serverless_desired_fits: "0 \<le> serverless_desired spec inflight" "serverless_desired spec inflight < 2 ^ 32"
  using uint_bounded [of "replicas_min (svc_replicas spec)"] uint_bounded [of "replicas_max (svc_replicas spec)"]
  by (auto simp: serverless_desired_def serverless_floor_def Let_def)

text \<open>A written count is the one the scheduler then reads.\<close>

lemma desiredReplicas_written:
  assumes "env_active_release_id env \<noteq> ''''" "0 < svc_max_concurrency (env_service env)"
  shows "desiredReplicas (with_replicas ctl (of_int (serverless_desired (env_service env) inflight)) env)
    = serverless_desired (env_service env) inflight"
proof -
  let ?n = "serverless_desired (env_service env) inflight"
  have u: "uint (of_int ?n :: uint32) = ?n"
    using serverless_desired_fits by (simp add: uint_word_of_int take_bit_int_eq_self)
  have "0 < ?n" if "\<not> svc_scale_to_zero (env_service env)"
    using serverless_desired_right [OF assms(2), of inflight] that by (auto simp: right_count_def Let_def)
  with u assms(1) show ?thesis by (auto simp: desiredReplicas_def word_less_def)
qed

text \<open>One evaluation of a concurrency-scaled environment as it is stored.\<close>

lemma serverless_step:
  assumes "store_inv (w_state w)" "Environment i (w_state w) = Some env"
    and "0 < svc_max_concurrency (env_service env)" "env_active_release_id env \<noteq> ''''"
    and "totalInflight live i = (inflight, ok)"
  obtains env' where "Environment i (after (serverless_evaluateEnv ctl live env) w) = Some env'"
    "store_inv (after (serverless_evaluateEnv ctl live env) w)"
    "env' = env \<or> ok \<and> \<not> deploymentActive (w_state w) i
       \<and> env' = with_replicas ctl (of_int (serverless_desired (env_service env) inflight)) env"
    "reliable ctl w \<Longrightarrow> \<not> deploymentActive (w_state w) i \<Longrightarrow> ok \<Longrightarrow>
       desiredReplicas env' = serverless_desired (env_service env) inflight"
proof -
  have id: "env_id env = i" by (rule stored_env_id [OF assms(1,2)])
  let ?n = "serverless_desired (env_service env) inflight"
  let ?e = "with_replicas ctl (of_int ?n) env"
  let ?put = "propose ctl ''system:serverless'' (Command_PutEnvironment ?e) w"
  show thesis
  proof (cases "ok \<and> \<not> deploymentActive (w_state w) i \<and> ?n \<noteq> desiredReplicas env")
    case False
    then have "serverless_evaluateEnv ctl live env w = ret w"
      using assms(5) id by (auto simp: serverless_evaluateEnv_def Let_def)
    with False assms(1,2) show thesis by (intro that [of env]) (auto simp: after_def ret_def)
  next
    case True
    then have run: "serverless_evaluateEnv ctl live env w = ?put"
      using assms(2-5) id by (auto simp: serverless_evaluateEnv_def serverless_applyScale_def Let_def)
    have "Environment i (w_state (snd ?put)) = Some env \<or> Environment i (w_state (snd ?put)) = Some ?e"
      using put_env [of ?e w ctl "''system:serverless''"] assms(2) id by (auto simp: env_rel_def Environment_def)
    moreover have "Environment i (w_state (snd ?put)) = Some ?e" if "reliable ctl w"
      using put_env_reliable(3) [OF that, of "''system:serverless''" ?e] id by (simp add: Environment_def)
    ultimately show thesis
      using True run that desiredReplicas_written [OF assms(4,3), of ctl inflight] propose_inv [OF assms(1)]
      by (auto simp: after_def)
  qed
qed

text \<open>
  C22 (concurrency scaling follows the load): Whatever the outcomes of the proposals, a pass of the concurrency
  loop changes nothing of an environment with a concurrency limit but its replica count and the time of its
  change, and a count it sets is the smallest one within the bounds of the service at which no replica
  has more than the limit of the requests the proxies report in flight. When this node leads, proposals commit,
  some node reports and no deployment owns the environment, its replica count is that one after the pass.
\<close>

theorem serverless_follows_load:
  assumes "store_inv (w_state w)" "serverless_evaluate ctl live w = (err, w')"
    and "Environment i (w_state w) = Some env" "env_active_release_id env \<noteq> ''''"
    and "0 < svc_max_concurrency (env_service env)" "totalInflight live i = (inflight, reported)"
  shows "\<exists>env'. Environment i (w_state w') = Some env'
     \<and> env' = env\<lparr>env_effective_replicas := env_effective_replicas env', env_meta := env_meta env'\<rparr>
     \<and> (env' \<noteq> env \<longrightarrow> reported \<and> right_count (env_service env) (uint inflight) (desiredReplicas env'))
     \<and> (is_leader ctl \<and> reliable ctl w \<and> reported \<and> \<not> deploymentActive (w_state w) i \<longrightarrow>
          err = None \<and> right_count (env_service env) (uint inflight) (desiredReplicas env'))"
proof (cases "is_leader ctl")
  case False
  with assms(2,3) show ?thesis by (auto simp: serverless_evaluate_def)
next
  case leads: True
  let ?f = "stateless (serverless_evaluateEnv ctl live)"
  note right = serverless_desired_right [OF assms(5), of inflight]
  have run: "each_env ?f (ListEnvironments '''' '''' (w_state (snd ((), w)))) ((), w) = (err, (), w')"
    using assms(2) leads by (simp add: serverless_evaluate_def in_turn_each_env split: prod.splits)
  have inv: "store_inv (w_state (snd ((), w)))" using assms(1) by simp
  have done_all: "err = None" if "reliable ctl w"
    using serverless.loop_reliable [OF inv, of ctl live] that run by (metis fst_conv snd_conv)
  show ?thesis
  proof (cases rule: serverless.pass_at [OF inv run, of i])
    case 1
    with assms(3) done_all show ?thesis by auto
  next
    case reached: (2 env0 mw1 e2 mw2)
    obtain w1 where mw1: "mw1 = ((), w1)" by (cases mw1) auto
    from reached(1) assms(3) have env0: "env0 = env" by simp
    from reached(3) have w1: "store_inv (w_state w1)" "Environment i (w_state w1) = Some env"
      "deployments (w_state w1) = deployments (w_state w)" "reliable ctl w \<Longrightarrow> reliable ctl w1"
      using assms(3) by (simp_all add: apart_def mw1 Environment_def)
    have owned: "deploymentActive (w_state w1) i = deploymentActive (w_state w) i"
      using w1(3) by (simp add: deploymentActive_def ListDeployments_def)
    from serverless_step [OF w1(1,2) assms(5,4,6), of ctl] obtain env' where
      env': "Environment i (after (serverless_evaluateEnv ctl live env) w1) = Some env'"
      "store_inv (after (serverless_evaluateEnv ctl live env) w1)"
      "env' = env \<or> reported \<and> env' = with_replicas ctl (of_int (serverless_desired (env_service env) inflight)) env"
      "reliable ctl w1 \<Longrightarrow> \<not> deploymentActive (w_state w) i \<Longrightarrow> reported \<Longrightarrow>
        desiredReplicas env' = serverless_desired (env_service env) inflight"
      unfolding owned by blast
    have at: "Environment i (w_state w') = Some env'"
      using reached(4,7) env'(1) unfolding env0 by (auto simp: stateless_def mw1 after_def split: prod.splits)
    have same: "env' = env\<lparr>env_effective_replicas := env_effective_replicas env', env_meta := env_meta env'\<rparr>"
      using env'(3) by (auto simp: with_replicas_def)
    have "right_count (env_service env) (uint inflight) (desiredReplicas env')" if "env' \<noteq> env"
      using env'(3) that right desiredReplicas_written [OF assms(4,5)] by auto
    moreover have "right_count (env_service env) (uint inflight) (desiredReplicas env')"
      if "reliable ctl w" "reported" "\<not> deploymentActive (w_state w) i"
      using env'(4) [OF w1(4)] that right by auto
    ultimately show ?thesis using at same env'(3) done_all by blast
  qed
qed

subsection \<open>Cooling to zero\<close>

text \<open>The environments the loop manages, and the activity mark an evaluation computes.\<close>

definition s2z_managed :: "Environment \<Rightarrow> bool" where
  "s2z_managed env \<longleftrightarrow>
     svc_scale_to_zero (env_service env) \<and> \<not> svc_stateful (env_service env) \<and> env_active_release_id env \<noteq> ''''
     \<and> svc_max_concurrency (env_service env) = 0 \<and> 0 < env_idle_timeout env"

definition s2z_seen :: "time \<Rightarrow> time option \<times> uint32 \<times> bool \<Rightarrow> time option \<Rightarrow> time" where
  "s2z_seen now act m =
     (case act of (lastReq, inflight, _) \<Rightarrow>
        let seen = (case m of None \<Rightarrow> now | Some t \<Rightarrow> t)
        in if inflight > 0 then now else case lastReq of None \<Rightarrow> seen | Some r \<Rightarrow> if r > seen then r else seen)"

text \<open>Without a heartbeat nothing counts as traffic.\<close>

lemma activity_blackout:
  assumes "activity live i = (lastReq, inflight, False)"
  shows "lastReq = None \<and> inflight = 0"
proof -
  let ?f = "\<lambda>ns (lastReq, inflight, haveData).
     case ln_heartbeat ns of
       None \<Rightarrow> (lastReq, inflight, haveData)
     | Some hb \<Rightarrow>
         (case map_of (hb_proxy hb) i of
            None \<Rightarrow> (lastReq, inflight, True)
          | Some ps \<Rightarrow> (later (px_last_request_at ps) lastReq, inflight + px_inflight ps, True))"
  have frozen: "fold ?f xs acc = (r, n, False) \<Longrightarrow> acc = (r, n, False)" for xs acc r n
  proof (induction xs arbitrary: acc)
    case (Cons x xs)
    then have "?f x acc = (r, n, False)" by simp
    then show ?case by (cases acc) (auto split: option.splits)
  qed simp
  from frozen [OF assms [unfolded activity_def]] show ?thesis by simp
qed

lemma cool_marks:
  assumes "cool ctl env (la, w) = (e, la', w')"
  shows "map_of la' (env_id env) = None \<or> la' = la"
  using assms by (auto simp: cool_def split: option.splits if_splits prod.splits)

text \<open>What an evaluation does to the mark of its environment and to the environment.\<close>

lemma s2z_evaluateEnv_cases:
  assumes "Environment i (w_state w) = Some env" "env_id env = i"
    and "s2z_evaluateEnv ctl live env (la, w) = (e, la', w')"
  obtains (kept) "map_of la' i = map_of la i" "w' = w" "s2z_managed env \<Longrightarrow> fst (snd (activity live i)) = 0 \<and> fst (activity live i) = None"
  | (forgot) "map_of la' i = None" "w' = w" "s2z_managed env"
  | (waited) "map_of la' i = Some (s2z_seen (clock_now ctl) (activity live i) (map_of la i))" "w' = w" "s2z_managed env"
  | (cooled) "map_of la' i = None \<or> map_of la' i = Some (s2z_seen (clock_now ctl) (activity live i) (map_of la i))"
      "s2z_managed env" "env_idle_timeout env \<le> clock_now ctl - s2z_seen (clock_now ctl) (activity live i) (map_of la i)"
      "w' = snd (snd (cool ctl env (la, w)))"
proof -
  obtain lastReq inflight haveData where act: "activity live i = (lastReq, inflight, haveData)" by (metis surj_pair)
  have blackout: "inflight = 0 \<and> lastReq = None" if "\<not> haveData"
    using activity_blackout [of live i] act that by simp
  let ?t = "s2z_seen (clock_now ctl) (activity live i) (map_of la i)"
  have seen: "(if inflight > 0 then clock_now ctl
      else case lastReq of None \<Rightarrow> case map_of la i of None \<Rightarrow> clock_now ctl | Some t \<Rightarrow> t
        | Some r \<Rightarrow> if r > (case map_of la i of None \<Rightarrow> clock_now ctl | Some t \<Rightarrow> t) then r
            else case map_of la i of None \<Rightarrow> clock_now ctl | Some t \<Rightarrow> t) = ?t"
    by (simp add: s2z_seen_def act Let_def)
  show thesis
  proof (cases "s2z_managed env")
    case False
    then have "(e, la', w') = (None, la, w)" using assms(3)
      by (auto simp: s2z_evaluateEnv_def s2z_managed_def Let_def word_gt_0 split: if_splits)
    with False show thesis by (intro kept) simp_all
  next
    case managed: True
    then have guards: "svc_scale_to_zero (env_service env)" "\<not> svc_stateful (env_service env)" "env_active_release_id env \<noteq> ''''"
      "\<not> 0 < svc_max_concurrency (env_service env)" "\<not> env_idle_timeout env \<le> 0" by (auto simp: s2z_managed_def)
    note eval = assms(3) [unfolded s2z_evaluateEnv_def prod.case Let_def assms(2) act seen]
    consider "env_effective_replicas env = 0 \<or> deploymentActive (w_state w) i"
      | "\<not> (env_effective_replicas env = 0 \<or> deploymentActive (w_state w) i)" "\<not> haveData"
      | "\<not> (env_effective_replicas env = 0 \<or> deploymentActive (w_state w) i)" haveData "clock_now ctl - ?t < env_idle_timeout env"
      | "\<not> (env_effective_replicas env = 0 \<or> deploymentActive (w_state w) i)" haveData "\<not> clock_now ctl - ?t < env_idle_timeout env"
      by blast
    then show thesis
    proof cases
      case 1
      then show thesis using eval guards managed by (intro forgot) auto
    next
      case 2
      then show thesis using eval guards managed blackout act by (intro kept) auto
    next
      case 3
      then show thesis using eval guards managed by (intro waited) (auto simp: act)
    next
      case 4
      then have "cool ctl env (mput i ?t la, w) = (e, la', w')" using eval guards by (simp add: act)
      moreover from cool_marks [OF this] have "map_of la' i = None \<or> map_of la' i = Some ?t" using assms(2) by auto
      moreover have "snd (snd (cool ctl env (mput i ?t la, w))) = snd (snd (cool ctl env (la, w)))"
        by (simp add: cool_def split: option.split prod.split)
      ultimately show thesis using 4 managed by (intro cooled) auto
    qed
  qed
qed

text \<open>
  A leader term: the marks start empty and pass through one evaluation after the other, each on the state,
  heartbeats and clock of its moment; the term ends with an evaluation that reports an error.
\<close>

type_synonym s2z_pass = "Control \<times> LiveRegistry \<times> World"

fun s2z_term :: "marks \<Rightarrow> s2z_pass list \<Rightarrow> marks option" where
  "s2z_term la [] = Some la"
| "s2z_term la ((ctl, live, w) # ps) =
     (case s2z_evaluate ctl live (la, w) of (None, la', _) \<Rightarrow> s2z_term la' ps | (Some _, _) \<Rightarrow> None)"

definition pass_time :: "s2z_pass \<Rightarrow> time" where
  "pass_time p = clock_now (fst p)"

text \<open>Traffic of an environment at time \<open>t\<close> that a pass observes while it manages the environment: requests in
  flight at the pass, or a reported last request that is not in the future.\<close>

definition observed_traffic :: "string \<Rightarrow> s2z_pass \<Rightarrow> time \<Rightarrow> bool" where
  "observed_traffic i p t =
     (case p of (ctl, live, w) \<Rightarrow>
        case Environment i (w_state w) of
          None \<Rightarrow> False
        | Some env \<Rightarrow>
            s2z_managed env \<and> t \<le> clock_now ctl
            \<and> (case activity live i of (lastReq, inflight, _) \<Rightarrow> inflight > 0 \<and> t = clock_now ctl \<or> lastReq = Some t))"

text \<open>What the mark of an environment says of the passes so far.\<close>

definition mark_ok :: "string \<Rightarrow> s2z_pass list \<Rightarrow> time option \<Rightarrow> bool" where
  "mark_ok i ps m \<longleftrightarrow>
     (\<forall>t. m = Some t \<longrightarrow> (\<exists>p \<in> set ps. pass_time p \<le> t) \<and> (\<forall>p \<in> set ps. \<forall>u. observed_traffic i p u \<longrightarrow> u \<le> t))"

lemma mark_seen:
  assumes "mark_ok i ps m" "\<forall>p \<in> set ps. pass_time p \<le> clock_now ctl"
  shows "\<forall>p \<in> set ps. \<forall>u. observed_traffic i p u \<longrightarrow> u \<le> s2z_seen (clock_now ctl) (activity live i) m"
    "\<exists>p \<in> set (ps @ [(ctl, live, w)]). pass_time p \<le> s2z_seen (clock_now ctl) (activity live i) m"
    "observed_traffic i (ctl, live, w) u \<Longrightarrow> u \<le> s2z_seen (clock_now ctl) (activity live i) m"
proof -
  let ?s = "s2z_seen (clock_now ctl) (activity live i) m"
  obtain lastReq inflight haveData where act: "activity live i = (lastReq, inflight, haveData)" by (metis surj_pair)
  have now: "u \<le> clock_now ctl" if "p \<in> set ps" "observed_traffic i p u" for p u
  proof -
    have "u \<le> pass_time p" using that(2) by (auto simp: observed_traffic_def pass_time_def split: prod.splits option.splits)
    with assms(2) that(1) show ?thesis by fastforce
  qed
  have mark: "?s = clock_now ctl \<or> (\<exists>t. m = Some t \<and> t \<le> ?s) \<or> m = None \<and> clock_now ctl \<le> ?s"
    by (auto simp: s2z_seen_def act Let_def split: option.split)
  show "\<forall>p \<in> set ps. \<forall>u. observed_traffic i p u \<longrightarrow> u \<le> ?s"
  proof (intro ballI allI impI)
    fix p u
    assume pu: "p \<in> set ps" "observed_traffic i p u"
    have "u \<le> t" if "m = Some t" for t using assms(1) pu that unfolding mark_ok_def by blast
    with mark now [OF pu] show "u \<le> ?s" by fastforce
  qed
  show "\<exists>p \<in> set (ps @ [(ctl, live, w)]). pass_time p \<le> ?s"
  proof (cases "\<exists>t. m = Some t \<and> t \<le> ?s")
    case True
    then obtain t where t: "m = Some t" "t \<le> ?s" by blast
    with assms(1) obtain p where "p \<in> set ps" "pass_time p \<le> t" unfolding mark_ok_def by blast
    with t(2) show ?thesis by (intro bexI [of _ p]) auto
  next
    case False
    with mark have "clock_now ctl \<le> ?s" by auto
    then show ?thesis by (simp add: pass_time_def)
  qed
  show "observed_traffic i (ctl, live, w) u \<Longrightarrow> u \<le> ?s"
    by (auto simp: observed_traffic_def s2z_seen_def act Let_def split: option.splits)
qed

text \<open>A pass as one environment sees it.\<close>

lemma s2z_pass_at:
  assumes "store_inv (w_state w)" "s2z_evaluate ctl live (la, w) = (e, la', w')"
  obtains (quiet) "map_of la' i = map_of la i" "Environment i (w_state w') = Environment i (w_state w)"
      "e = None \<Longrightarrow> Environment i (w_state w) = None"
  | (evaluated) env la1 w1 e2 la2 w2 where "Environment i (w_state w) = Some env" "store_inv (w_state w1)"
      "Environment i (w_state w1) = Some env" "env_id env = i" "map_of la1 i = map_of la i"
      "s2z_evaluateEnv ctl live env (la1, w1) = (e2, la2, w2)"
      "map_of la' i = map_of la2 i" "Environment i (w_state w') = Environment i (w_state w2)"
proof (cases "is_leader ctl")
  case False
  with assms(2) show thesis by (intro quiet) (auto simp: s2z_evaluate_def)
next
  case True
  then have run: "each_env (s2z_evaluateEnv ctl live) (ListEnvironments '''' '''' (w_state (snd (la, w)))) (la, w) = (e, la', w')"
    using assms(2) by (simp add: s2z_evaluate_def)
  have inv: "store_inv (w_state (snd (la, w)))" using assms(1) by simp
  show thesis
  proof (cases rule: s2z.pass_at [OF inv run, of i])
    case 1
    then show thesis by (intro quiet) simp_all
  next
    case (2 env mw1 e2 mw2)
    then show thesis
      by (intro evaluated [of env "snd mw1" "fst mw1" e2 "fst mw2" "snd mw2"]) (simp_all add: apart_def Environment_def)
  qed
qed

lemma mark_step:
  assumes "store_inv (w_state w)" "s2z_evaluate ctl live (la, w) = (None, la', w')"
    and "mark_ok i ps (map_of la i)" "\<forall>p \<in> set ps. pass_time p \<le> clock_now ctl"
  shows "mark_ok i (ps @ [(ctl, live, w)]) (map_of la' i)"
proof -
  note seen = mark_seen [OF assms(3,4)]
  have unseen: "mark_ok i (ps @ [(ctl, live, w)]) (map_of la i)" if "\<And>u. \<not> observed_traffic i (ctl, live, w) u"
    using assms(3) that unfolding mark_ok_def by simp
  have at_seen: "mark_ok i (ps @ [(ctl, live, w)]) (Some (s2z_seen (clock_now ctl) (activity live i) (map_of la i)))"
    unfolding mark_ok_def using seen(1) [where live = live] seen(2) [where live = live and w = w] seen(3) [where live = live and w = w] by simp
  have gone: "mark_ok i (ps @ [(ctl, live, w)]) None" by (simp add: mark_ok_def)
  show ?thesis
  proof (cases rule: s2z_pass_at [OF assms(1,2), of i])
    case 1
    with unseen show ?thesis by (simp add: observed_traffic_def)
  next
    case (2 env la1 w1 e2 la2 w2)
    show ?thesis
    proof (cases rule: s2z_evaluateEnv_cases [OF 2(3,4,6)])
      case kept: 1
      have "\<not> observed_traffic i (ctl, live, w) u" for u
        using kept(3) 2(1) by (auto simp: observed_traffic_def split: prod.splits)
      with unseen kept(1) 2 show ?thesis by simp
    qed (use gone at_seen 2 in auto)
  qed
qed

lemma term_marks:
  assumes "s2z_term la qs = Some la'" "mark_ok i ps (map_of la i)" "\<forall>q \<in> set qs. store_inv (w_state (snd (snd q)))"
    and "sorted (map pass_time (ps @ qs))"
  shows "mark_ok i (ps @ qs) (map_of la' i)"
  using assms
proof (induction qs arbitrary: la ps)
  case (Cons q qs)
  obtain ctl live w where q: "q = (ctl, live, w)" by (metis surj_pair)
  from Cons.prems(1) obtain la1 w' where pass: "s2z_evaluate ctl live (la, w) = (None, la1, w')" "s2z_term la1 qs = Some la'"
    by (auto simp: q split: prod.splits option.splits)
  have "\<forall>p \<in> set ps. pass_time p \<le> clock_now ctl" using Cons.prems(4) by (auto simp: q sorted_append pass_time_def)
  from mark_step [OF _ pass(1) Cons.prems(2) this] Cons.prems(3)
  have "mark_ok i (ps @ [q]) (map_of la1 i)" by (simp add: q)
  from Cons.IH [OF pass(2) this] Cons.prems(3,4) show ?case by simp
qed simp

text \<open>
  C21 (only idle environments are cooled to zero): In a leader term, whatever the outcomes of the proposals and
  whatever else changes the state between the passes, the loop takes the replica count of an environment to zero
  only if the environment asks for it, the term has lasted for its idle timeout, and all the traffic that
  any pass of the term observed (requests in flight at a pass, or a last request reported by a proxy) is at least
  the idle timeout ago.
\<close>

theorem cooled_only_when_idle:
  assumes "s2z_term [] ps = Some la" "s2z_evaluate ctl live (la, w) = (err, la', w')"
    and "\<forall>p \<in> set ps. store_inv (w_state (snd (snd p)))" "store_inv (w_state w)"
    and "sorted (map pass_time (ps @ [(ctl, live, w)]))"
    and "Environment i (w_state w) = Some env" "env_effective_replicas env \<noteq> 0"
    and "Environment i (w_state w') = Some env'" "env_effective_replicas env' = 0"
  shows "svc_scale_to_zero (env_service env) \<and> \<not> svc_stateful (env_service env)
    \<and> (\<exists>p \<in> set ps. pass_time p + env_idle_timeout env \<le> clock_now ctl)
    \<and> (\<forall>p \<in> set (ps @ [(ctl, live, w)]). \<forall>t. observed_traffic i p t \<longrightarrow> t + env_idle_timeout env \<le> clock_now ctl)"
proof -
  have times: "sorted (map pass_time ([] @ ps))" "\<forall>p \<in> set ps. pass_time p \<le> clock_now ctl"
    using assms(5) by (auto simp: sorted_append pass_time_def)
  have "mark_ok i ps (map_of la i)"
    using term_marks [OF assms(1) _ assms(3) times(1), of i] by (simp add: mark_ok_def)
  note seen = mark_seen [OF this times(2), of live]
  show ?thesis
  proof (cases rule: s2z_pass_at [OF assms(4,2), of i])
    case 1
    with assms(6-9) show ?thesis by simp
  next
    case (2 env0 la1 w1 e2 la2 w2)
    then have env0: "env0 = env" using assms(6) by simp
    show ?thesis
    proof (cases rule: s2z_evaluateEnv_cases [OF 2(3,4,6)])
      case cooled: 4
      let ?s = "s2z_seen (clock_now ctl) (activity live i) (map_of la i)"
      have idle: "?s + env_idle_timeout env \<le> clock_now ctl" "s2z_managed env" using cooled(2,3) 2(5) env0 by simp_all
      then have "0 < env_idle_timeout env" by (simp add: s2z_managed_def)
      with idle seen(2) [of w] have "\<exists>p \<in> set ps. pass_time p + env_idle_timeout env \<le> clock_now ctl"
        by (force simp: pass_time_def)
      moreover have "t + env_idle_timeout env \<le> clock_now ctl" if "p \<in> set (ps @ [(ctl, live, w)])" "observed_traffic i p t" for p t
        using that seen(1,3) idle(1) by force
      ultimately show ?thesis using idle(2) by (simp add: s2z_managed_def)
    qed (use 2 env0 assms(6-9) in auto)
  qed
qed

subsection \<open>Scaling with the load\<close>

lemma clampReplicas_bounds: "lo \<le> hi \<Longrightarrow> lo \<le> clampReplicas lo hi n \<and> clampReplicas lo hi n \<le> hi"
  by (auto simp: clampReplicas_def Let_def)

lemma autoscale_switch_scales:
  assumes "autoscale_switch now i desired low effective a = (True, a1)"
  shows "desired \<noteq> effective" "map_of (as_lastChange a) i = Some c \<Longrightarrow> c + scaleCooldown \<le> now"
    "desired < effective \<Longrightarrow> low < effective \<and> (\<exists>s. map_of (as_lowSince a) i = Some s \<and> s + scaleDownHold \<le> now)"
proof -
  have hold: "0 < scaleDownHold" by (simp add: scaleDownHold_def Minute_def Second_def Millisecond_def)
  show "desired \<noteq> effective" "map_of (as_lastChange a) i = Some c \<Longrightarrow> c + scaleCooldown \<le> now"
    "desired < effective \<Longrightarrow> low < effective \<and> (\<exists>s. map_of (as_lowSince a) i = Some s \<and> s + scaleDownHold \<le> now)"
    using assms hold by (auto simp: autoscale_switch_def inCooldown_def Let_def split: if_splits option.splits)
qed

text \<open>The environment after a proposed count, whatever its outcome.\<close>

lemma autoscaler_applyScale_env:
  assumes "store_inv (w_state w)" "Environment i (w_state w) = Some env" "env_id env = i"
    and "autoscaler_applyScale ctl env n m (a, w) = (e, a', w')"
  obtains env' where "Environment i (w_state w') = Some env'" "env' = env \<or> env' = with_replicas ctl (of_int m) env"
    "e = None \<Longrightarrow> map_of (as_lastChange a') i = Some (clock_now ctl)"
proof -
  let ?put = "propose ctl ''system:autoscaler'' (Command_PutEnvironment (with_replicas ctl (of_int m) env)) w"
  have put: "Environment i (w_state (snd ?put)) = Some env \<or> Environment i (w_state (snd ?put)) = Some (with_replicas ctl (of_int m) env)"
    using put_env [of "with_replicas ctl (of_int m) env" w ctl "''system:autoscaler''"] assms(2,3)
    by (auto simp: env_rel_def Environment_def)
  obtain e1 w1 where p: "?put = (e1, w1)" by fastforce
  show thesis
  proof (cases e1)
    case None
    with assms p have w': "environments (w_state w') = environments (w_state w1)"
      "a' = a\<lparr>as_lastChange := mput i (clock_now ctl) (as_lastChange a), as_lowSince := mdel i (as_lowSince a)\<rparr>"
      by (auto simp: autoscaler_applyScale_def env_event_tables)
    with put p show thesis by (auto simp: Environment_def intro: that)
  next
    case (Some x)
    with assms p put show thesis by (auto simp: autoscaler_applyScale_def intro: that)
  qed
qed

text \<open>One evaluation of an environment as it is stored.\<close>

definition scaled_by :: "Control \<Rightarrow> AutoscalerState \<Rightarrow> Environment \<Rightarrow> int \<Rightarrow> bool" where
  "scaled_by ctl a env n \<longleftrightarrow>
     max 1 (uint (replicas_min (svc_replicas (env_service env)))) \<le> n \<and> n \<le> uint (replicas_max (svc_replicas (env_service env)))
     \<and> env_active_release_id env \<noteq> ''''
     \<and> (\<forall>t. map_of (as_lastChange a) (env_id env) = Some t \<longrightarrow> t + scaleCooldown \<le> clock_now ctl)
     \<and> (0 < desiredReplicas env \<and> n < desiredReplicas env \<longrightarrow>
          (\<exists>t. map_of (as_lowSince a) (env_id env) = Some t \<and> t + scaleDownHold \<le> clock_now ctl))"

lemma scaled_by_count:
  assumes "scaled_by ctl a env m"
  shows "uint (of_int m :: uint32) = m" "desiredReplicas (with_replicas ctl (of_int m) env) = m"
proof -
  show u: "uint (of_int m :: uint32) = m"
    using assms uint_bounded [of "replicas_max (svc_replicas (env_service env))"]
    by (simp add: scaled_by_def uint_word_of_int take_bit_int_eq_self)
  show "desiredReplicas (with_replicas ctl (of_int m) env) = m"
    using assms u by (auto simp: desiredReplicas_def scaled_by_def word_less_def)
qed

lemma autoscaler_evaluateEnv_scales:
  fixes ctl load env a w
  assumes "autoscaler_evaluateEnv ctl load env (a, w) = r"
  obtains (quiet) "snd (snd r) = w"
  | (scales) n m a1 where "r = autoscaler_applyScale ctl env n m (a1, w)" "scaled_by ctl a env m"
proof -
  obtain lo hi where bounds: "autoscale_bounds (env_service env) = (lo, hi)" by fastforce
  then have lo: "lo = max 1 (uint (replicas_min (svc_replicas (env_service env))))"
    and hi: "hi = uint (replicas_max (svc_replicas (env_service env)))" by (auto simp: autoscale_bounds_def Let_def)
  show thesis
  proof (cases "env_active_release_id env \<noteq> '''' \<and> lo < hi \<and> load (w_state w) env \<noteq> None \<and> snd (snd r) \<noteq> w")
    case False
    then have "snd (snd r) = w"
      using assms by (auto simp: autoscaler_evaluateEnv_def Let_def bounds split: if_splits option.splits)
    then show thesis by (rule quiet)
  next
    case True
    then obtain asked asked_low where load: "load (w_state w) env = Some (asked, asked_low)" by fastforce
    let ?d = "clampReplicas lo hi asked" and ?l = "clampReplicas lo hi asked_low"
      and ?e = "if desiredReplicas env < 1 then lo else desiredReplicas env"
    obtain sc a1 where sw: "autoscale_switch (clock_now ctl) (env_id env) ?d ?l ?e a = (sc, a1)" by fastforce
    have "sc \<and> r = autoscaler_applyScale ctl env ?e ?d (a1, w)"
      using True assms load sw by (auto simp: autoscaler_evaluateEnv_def Let_def bounds split: if_splits)
    moreover from this sw have "scaled_by ctl a env ?d"
      using autoscale_switch_scales [of "clock_now ctl" "env_id env" ?d ?l ?e a a1] clampReplicas_bounds [of lo hi asked] True
      by (auto simp: scaled_by_def lo hi)
    ultimately show thesis using scales by blast
  qed
qed


subsection \<open>Sample environments\<close>

definition sample_scaled :: "(ServiceSpec \<Rightarrow> ServiceSpec) \<Rightarrow> Environment" where
  "sample_scaled upd = (let env = zero_env\<lparr>env_meta := meta_of ''e'', env_active_release_id := ''r'', env_effective_replicas := 1,
       env_idle_timeout := 60\<rparr>
     in env\<lparr>env_service := upd ((env_service env)\<lparr>svc_replicas := \<lparr>replicas_min = 1, replicas_max = 4\<rparr>\<rparr>)\<rparr>)"

definition sample_scaled_world :: "Environment \<Rightarrow> World" where
  "sample_scaled_world env = \<lparr>w_state = run_log [entry 1 ''r1'' (Command_PutEnvironment env)] New, w_index = 1, w_ids = 0, w_proposals = 0\<rparr>"

definition sample_traffic :: "uint32 \<Rightarrow> time \<Rightarrow> LiveRegistry" where
  "sample_traffic n t = live_Heartbeat 100 ''n1'' (Some \<lparr>hb_proxy = [(''e'', \<lparr>px_inflight = n, px_last_request_at = Some t\<rparr>)]\<rparr>) []"

definition at_time :: "time \<Rightarrow> Control" where
  "at_time t = (sample_control (\<lambda>_. Committed))\<lparr>clock_now := t\<rparr>"

lemma sample_scaled_facts:
  "store_inv (w_state (sample_scaled_world env))" "is_leader (at_time t)"
  by (simp_all only: sample_scaled_world_def World.simps reachable_inv) (simp add: at_time_def sample_control_def)

definition sample_concurrent :: Environment where
  "sample_concurrent = sample_scaled (svc_max_concurrency_update (\<lambda>_. 10))"

theorem serverless_follows_load_witness:
  "map_option desiredReplicas (Environment ''e'' (w_state (snd (serverless_evaluate (at_time 100) (sample_traffic 25 99)
     (sample_scaled_world sample_concurrent))))) = Some 3"
proof -
  have stored: "Environment ''e'' (w_state (sample_scaled_world sample_concurrent)) = Some sample_concurrent" by code_simp
  have load: "totalInflight (sample_traffic 25 99) ''e'' = (25, True)" by code_simp
  have env: "env_active_release_id sample_concurrent \<noteq> ''''" "0 < svc_max_concurrency (env_service sample_concurrent)"
    "\<not> deploymentActive (w_state (sample_scaled_world sample_concurrent)) ''e''" by code_simp+
  have "reliable (at_time 100) (sample_scaled_world sample_concurrent)"
    unfolding at_time_def by (rule sample_reliable) code_simp
  with serverless_follows_load [OF sample_scaled_facts(1) prod.collapse [symmetric] stored env(1,2) load, of "at_time 100"] env(3)
    sample_scaled_facts(2)
  obtain env' where env': "Environment ''e'' (w_state (snd (serverless_evaluate (at_time 100) (sample_traffic 25 99)
     (sample_scaled_world sample_concurrent)))) = Some env'"
    "right_count (env_service sample_concurrent) 25 (desiredReplicas env')" by auto
  have "right_count (env_service sample_concurrent) 25 n = (1 \<le> n \<and> n \<le> 4 \<and> (n = 4 \<or> 25 \<le> n * 10) \<and> (n = 1 \<or> (n - 1) * 10 < 25))" for n
    by (simp add: right_count_def sample_concurrent_def sample_scaled_def Let_def zero_env_def zero_spec_def)
  with env'(2) have "desiredReplicas env' = 3" by auto
  with env'(1) show ?thesis by simp
qed

definition sample_idle :: Environment where
  "sample_idle = sample_scaled (svc_scale_to_zero_update (\<lambda>_. True))"

text \<open>
  A pass at time 100 sees a request in flight, and one at time 165 none since: it cools the environment,
  whose timeout has passed.
\<close>

theorem cooled_only_when_idle_witness:
  "map_option env_effective_replicas (Environment ''e'' (w_state (snd (snd (s2z_evaluate (at_time 165) (sample_traffic 0 100)
     ([(''e'', 100)], sample_scaled_world sample_idle)))))) = Some 0
   \<and> svc_scale_to_zero (env_service sample_idle)
   \<and> observed_traffic ''e'' (at_time 100, sample_traffic 1 99, sample_scaled_world sample_idle) 100
   \<and> 100 + env_idle_timeout sample_idle \<le> 165"
proof -
  let ?w = "sample_scaled_world sample_idle"
  let ?r = "s2z_evaluate (at_time 165) (sample_traffic 0 100) ([(''e'', 100)], ?w)"
  have first: "s2z_term [] [(at_time 100, sample_traffic 1 99, ?w)] = Some [(''e'', 100)]" by code_simp
  have stored: "Environment ''e'' (w_state ?w) = Some sample_idle" by code_simp
  have cooled: "map_option env_effective_replicas (Environment ''e'' (w_state (snd (snd ?r)))) = Some 0" by code_simp
  then obtain env' where env': "Environment ''e'' (w_state (snd (snd ?r))) = Some env'" "env_effective_replicas env' = 0" by auto
  have sample: "env_effective_replicas sample_idle \<noteq> 0" by code_simp
  have busy: "observed_traffic ''e'' (at_time 100, sample_traffic 1 99, ?w) 100" by code_simp
  have r: "?r = (fst ?r, fst (snd ?r), snd (snd ?r))" by simp
  have "svc_scale_to_zero (env_service sample_idle)
    \<and> (\<forall>t. observed_traffic ''e'' (at_time 100, sample_traffic 1 99, ?w) t
          \<longrightarrow> t + env_idle_timeout sample_idle \<le> clock_now (at_time 165))"
    using cooled_only_when_idle [OF first r _ sample_scaled_facts(1) _ stored sample env']
    by (simp add: sample_scaled_facts(1) pass_time_def at_time_def)
  with busy cooled show ?thesis by (simp add: at_time_def)
qed

definition sample_loaded :: Environment where
  "sample_loaded = sample_scaled (svc_autoscale_update (target_cpu_percent_update (\<lambda>_. 50)))"


text \<open>
  A proposal that fails for another reason than lost leadership is only logged: the environment keeps its
  count, and the log of events says that it was scaled to zero.
\<close>

definition sample_failing :: Control where
  "sample_failing = (sample_control (\<lambda>n. if n = 0 then ProposalFailed False else Committed))\<lparr>clock_now := 165\<rparr>"

lemma failed_cooling_reported:
  "map_option env_effective_replicas (Environment ''e'' (w_state (snd (snd (s2z_evaluate sample_failing (sample_traffic 0 100)
     ([(''e'', 100)], sample_scaled_world sample_idle)))))) = Some 1"
  "map event_kind (events (w_state (snd (snd (s2z_evaluate sample_failing (sample_traffic 0 100)
     ([(''e'', 100)], sample_scaled_world sample_idle)))))) = [''scaletozero.cooled'']"
  by code_simp+

end
