(* ===== verification/AgentSync.thy ===== *)
theory AgentSync
  imports Liveness Services Networks
begin

text \<open>
  The two ends of the stream between an agent and the leader. On the node, a health state machine folds probe
  results into the state of an instance (\<^verbatim>\<open>internal/daemon/agent/health.go\<close>) and the set of bridge networks
  is read off the assignments (\<^verbatim>\<open>agent/netscope.go\<close>). On the leader, the stream handler registers the node,
  pushes its assignments with what is needed to run them, buffers the reported states and commits them in
  batches (\<^verbatim>\<open>internal/daemon/api/agentsync.go\<close>); a request for a cold environment wakes it
  (\<^verbatim>\<open>api/activator.go\<close>). An absent health check is the zero message here.
\<close>

subsection \<open>Probes\<close>

definition defaultProbeInterval :: duration where "defaultProbeInterval = 10 * Second"
definition defaultProbeTimeout :: duration where "defaultProbeTimeout = 5 * Second"
definition defaultProbeGrace :: duration where "defaultProbeGrace = 60 * Second"
definition defaultProbeThreshold :: int where "defaultProbeThreshold = 3"

record HealthConfig =
  hcf_Interval :: duration
  hcf_Timeout :: duration
  hcf_Grace :: duration
  hcf_Threshold :: int

definition resolveHealthConfig :: "HealthCheck option \<Rightarrow> HealthConfig" where
  "resolveHealthConfig hc =
     (let cfg = \<lparr>hcf_Interval = defaultProbeInterval, hcf_Timeout = defaultProbeTimeout, hcf_Grace = defaultProbeGrace,
                  hcf_Threshold = defaultProbeThreshold\<rparr>
      in case hc of
           None \<Rightarrow> cfg
         | Some h \<Rightarrow>
             (let c1 = (if hc_interval h > 0 then cfg\<lparr>hcf_Interval := hc_interval h\<rparr> else cfg);
                  c2 = (if hc_timeout h > 0 then c1\<lparr>hcf_Timeout := hc_timeout h\<rparr> else c1);
                  c3 = (if hc_grace_period h > 0 then c2\<lparr>hcf_Grace := hc_grace_period h\<rparr> else c2)
              in if hc_unhealthy_threshold h > 0 then c3\<lparr>hcf_Threshold := uint (hc_unhealthy_threshold h)\<rparr> else c3))"

record healthSM =
  sm_cfg :: HealthConfig
  sm_state :: InstanceState
  sm_passedOnce :: bool
  sm_fails :: int

definition newHealthSM :: "HealthConfig \<Rightarrow> healthSM" where
  "newHealthSM cfg = \<lparr>sm_cfg = cfg, sm_state = INSTANCE_STATE_RUNNING, sm_passedOnce = False, sm_fails = 0\<rparr>"

definition sm_observe :: "bool \<Rightarrow> duration \<Rightarrow> healthSM \<Rightarrow> (InstanceState \<times> bool) \<times> healthSM" where
  "sm_observe pass elapsed s =
     (if pass
      then let s1 = s\<lparr>sm_fails := 0, sm_passedOnce := True\<rparr>
           in if sm_state s1 \<noteq> INSTANCE_STATE_HEALTHY
              then ((INSTANCE_STATE_HEALTHY, True), s1\<lparr>sm_state := INSTANCE_STATE_HEALTHY\<rparr>)
              else ((sm_state s1, False), s1)
      else let s1 = s\<lparr>sm_fails := sm_fails s + 1\<rparr>
           in if sm_state s1 = INSTANCE_STATE_HEALTHY
              then (if sm_fails s1 \<ge> hcf_Threshold (sm_cfg s1)
                    then ((INSTANCE_STATE_UNHEALTHY, True), s1\<lparr>sm_state := INSTANCE_STATE_UNHEALTHY\<rparr>)
                    else ((sm_state s1, False), s1))
              else if \<not> sm_passedOnce s1
              then (if elapsed \<ge> hcf_Grace (sm_cfg s1) \<and> sm_fails s1 \<ge> hcf_Threshold (sm_cfg s1)
                    then ((INSTANCE_STATE_UNHEALTHY, True), s1\<lparr>sm_state := INSTANCE_STATE_UNHEALTHY\<rparr>)
                    else ((sm_state s1, False), s1))
              else ((sm_state s1, False), s1))"

text \<open>The monitor over the results of its probes, each with the time since the start: the machine it ends
  in and the states it reports.\<close>

fun monitor_run :: "(bool \<times> duration) list \<Rightarrow> healthSM \<Rightarrow> InstanceState list \<times> healthSM" where
  "monitor_run [] s = ([], s)"
| "monitor_run ((pass, elapsed) # ps) s =
     (case sm_observe pass elapsed s of ((state, changed), s1) \<Rightarrow>
        (case monitor_run ps s1 of (out, s2) \<Rightarrow> ((if changed then state # out else out), s2)))"

subsection \<open>Reported states\<close>

type_synonym statusBuffer = "(string, AssignmentObserved) gomap"

definition buffer_one :: "string \<times> AssignmentObserved \<Rightarrow> statusBuffer \<Rightarrow> statusBuffer" where
  "buffer_one = (\<lambda>(i, o') b.
     let o1 = (case map_of b i of
                 None \<Rightarrow> o'
               | Some prev \<Rightarrow>
                   if length (obs_mesh_port_bindings o') = 0 \<and> length (obs_mesh_port_bindings prev) > 0
                   then o'\<lparr>obs_mesh_port_bindings := obs_mesh_port_bindings prev\<rparr> else o')
     in mput i o1 b)"

definition statusBuffer_add :: "(string, AssignmentObserved) gomap \<Rightarrow> statusBuffer \<Rightarrow> statusBuffer" where
  "statusBuffer_add observed b = fold buffer_one observed b"

definition statusBuffer_drain :: "statusBuffer \<Rightarrow> (string, AssignmentObserved) gomap \<times> statusBuffer" where
  "statusBuffer_drain b = (b, [])"

definition applyAnywhere :: "Control \<Rightarrow> string \<Rightarrow> Mutation \<Rightarrow> action" where
  "applyAnywhere ctl actor m w =
     (case raft_Apply ctl actor m w of (e, w1) \<Rightarrow> (if e = Some ErrNotLeader then None else e, w1))"

definition flushStatus :: "Control \<Rightarrow> string \<Rightarrow> statusBuffer \<times> World \<Rightarrow> statusBuffer \<times> World" where
  "flushStatus ctl nodeID bw =
     (case bw of (b, w) \<Rightarrow>
        case statusBuffer_drain b of (observed, b1) \<Rightarrow>
          if length observed = 0 then (b1, w)
          else (b1, snd (applyAnywhere ctl (''node:'' @ nodeID)
                           (Command_SetAssignmentsObserved nodeID observed) w)))"

subsection \<open>The stream\<close>

record AgentHello =
  hello_node_id :: string
  hello_binary_version :: string
  hello_assignment_version :: uint64

datatype AgentMessage =
    AgentMessage_Heartbeat Heartbeat
  | AgentMessage_Status "(string, AssignmentObserved) gomap"
  | AgentMessage_Ack uint64
  | AgentMessage_Hello AgentHello

definition resolveNodeID :: "Identity option \<Rightarrow> AgentHello \<Rightarrow> status + string" where
  "resolveNodeID ident hello =
     (let claimed = hello_node_id hello
      in case ident of
           Some i \<Rightarrow>
             if NodeID i \<noteq> ''''
             then (if claimed \<noteq> '''' \<and> claimed \<noteq> NodeID i
                   then Inl (Status PermissionDenied (''hello node_id '' @ Quote claimed @
                               '' does not match certificate identity '' @ Quote (NodeID i)))
                   else Inr (NodeID i))
             else if claimed = '''' then Inl (Status InvalidArgument ''hello node_id is required'') else Inr claimed
         | None \<Rightarrow> if claimed = '''' then Inl (Status InvalidArgument ''hello node_id is required'') else Inr claimed)"

definition recordNodeVersion :: "Control \<Rightarrow> string \<Rightarrow> string \<Rightarrow> World \<Rightarrow> World" where
  "recordNodeVersion ctl nodeID reported w =
     (if reported = '''' then w
      else case Node nodeID (w_state w) of
             None \<Rightarrow> w
           | Some n \<Rightarrow>
               if node_binary_version n = reported then w
               else snd (raft_Apply ctl ''system:agent-sync'' (Command_PutNode (n\<lparr>node_binary_version := reported\<rparr>)) w))"

text \<open>The receive loop over the messages of a stream; each message comes with whether this node still leads when
  it arrives and the time.\<close>

fun recvLoop :: "string \<Rightarrow> (bool \<times> time \<times> AgentMessage) list \<Rightarrow> LiveRegistry \<times> statusBuffer \<Rightarrow> LiveRegistry \<times> statusBuffer" where
  "recvLoop nodeID [] lb = lb"
| "recvLoop nodeID ((leads, now, m) # ms) (live, b) =
     (if \<not> leads then (live, b)
      else recvLoop nodeID ms
             (case m of
                AgentMessage_Heartbeat hb \<Rightarrow> (live_Heartbeat now nodeID (Some hb) live, b)
              | AgentMessage_Status observed \<Rightarrow> (live, statusBuffer_add observed b)
              | AgentMessage_Ack _ \<Rightarrow> (live, b)
              | AgentMessage_Hello _ \<Rightarrow> (live, b)))"

subsection \<open>What an agent is told\<close>

record AssignmentRuntime =
  ar_image_ref :: string
  ar_spec :: ServiceSpec
  ar_env :: "(string, string) gomap"
  ar_subnet_cidr :: string
  ar_volume_lease :: "VolumeLease option"

record AssignmentSet =
  set_version :: uint64
  set_assignments :: "Assignment list"
  set_runtime :: "(string, AssignmentRuntime) gomap"

definition injectPlatformEnv :: "Store \<Rightarrow> Assignment \<Rightarrow> Release \<Rightarrow> (string, string) gomap \<Rightarrow> (string, string) gomap" where
  "injectPlatformEnv st a rel env =
     (let env1 = (case svc_ports (rel_service rel) of
                    p # _ \<Rightarrow> if container_port p > 0 \<and> \<not> mhas env ''PORT''
                             then mput ''PORT'' (Itoa (unat (container_port p))) env else env
                  | [] \<Rightarrow> env);
          env2 = (case Environment (asg_environment_id a) st of
                    Some e \<Rightarrow> if env_name e \<noteq> '''' then mput ''ZATTERA_ENV'' (env_name e) env1 else env1
                  | None \<Rightarrow> env1)
      in case App (asg_app_id a) st of
           Some app \<Rightarrow> if app_name app \<noteq> '''' then mput ''ZATTERA_APP'' (app_name app) env2 else env2
         | None \<Rightarrow> env2)"

definition opened_env :: "Crypto \<Rightarrow> Vault \<Rightarrow> Store \<Rightarrow> string \<Rightarrow> (string, string) gomap" where
  "opened_env c v st envID =
     (if Unsealed v
      then fold (\<lambda>(k, ev) env. case vault_Open c v ev of Inl _ \<Rightarrow> env | Inr pt \<Rightarrow> mput k (string_of pt) env)
             (EnvVars envID st) []
      else [])"

definition runtime_spec :: "Store \<Rightarrow> Assignment \<Rightarrow> Release \<Rightarrow> ServiceSpec" where
  "runtime_spec st a rel =
     (if asg_job_id a \<noteq> ''''
      then (case Job (asg_job_id a) st of
              Some job \<Rightarrow> if job_command job \<noteq> ''''
                          then (rel_service rel)\<lparr>svc_command := job_command job, svc_healthcheck := zero_health\<rparr>
                          else rel_service rel
            | None \<Rightarrow> rel_service rel)
      else rel_service rel)"

definition runtime_lease :: "Store \<Rightarrow> Assignment \<Rightarrow> ServiceSpec \<Rightarrow> VolumeLease option" where
  "runtime_lease st a spec =
     (if svc_stateful spec
      then (case svc_volumes spec of
              m # _ \<Rightarrow> (case VolumeByName (asg_project_id a) (asg_environment_id a) (vm_volume_name m) st of
                          Some v \<Rightarrow> vol_lease v | None \<Rightarrow> None)
            | [] \<Rightarrow> None)
      else None)"

definition buildRuntime :: "Crypto \<Rightarrow> Vault \<Rightarrow> Store \<Rightarrow> Assignment \<Rightarrow> AssignmentRuntime option" where
  "buildRuntime c v st a =
     (case Release (asg_release_id a) st of
        None \<Rightarrow> None
      | Some rel \<Rightarrow>
          (let spec = runtime_spec st a rel
           in Some \<lparr>ar_image_ref = rel_image_ref rel, ar_spec = spec,
                ar_env = injectPlatformEnv st a rel (opened_env c v st (asg_environment_id a)),
                ar_subnet_cidr = (case NetworkAllocation (asg_project_id a) (asg_environment_id a) (asg_node_id a) st of
                                    Some s \<Rightarrow> s | None \<Rightarrow> ''''),
                ar_volume_lease = runtime_lease st a spec\<rparr>))"

text \<open>The message of a push. The index of a node names stored assignments only, so the listing has no gaps.\<close>

definition sendAssignments :: "Crypto \<Rightarrow> Vault \<Rightarrow> Store \<Rightarrow> string \<Rightarrow> AssignmentSet" where
  "sendAssignments c v st nodeID =
     (let assignments = List.map_filter (\<lambda>a. a) (ListAssignmentsByNode nodeID st)
      in \<lparr>set_version = version st, set_assignments = assignments,
          set_runtime = fold (\<lambda>a m. case buildRuntime c v st a of None \<Rightarrow> m | Some rt \<Rightarrow> mput (asg_id a) rt m) assignments []\<rparr>)"

record NetScope =
  ns_Gateway :: string
  ns_ProjectID :: string
  ns_EnvID :: string

text \<open>The values of the map \<^verbatim>\<open>byGateway\<close>; their order is that of the map.\<close>

definition NetworkScopes :: "AssignmentSet option \<Rightarrow> (string, NetScope) gomap" where
  "NetworkScopes aset =
     (case aset of
        None \<Rightarrow> []
      | Some s \<Rightarrow>
          fold (\<lambda>a m.
             let subnet = (case map_of (set_runtime s) (asg_id a) of None \<Rightarrow> '''' | Some rt \<Rightarrow> ar_subnet_cidr rt)
             in if subnet = '''' then m
                else case GatewayIP subnet of
                       None \<Rightarrow> m
                     | Some gw \<Rightarrow> mput gw \<lparr>ns_Gateway = gw, ns_ProjectID = asg_project_id a, ns_EnvID = asg_environment_id a\<rparr> m)
            (set_assignments s) [])"

subsection \<open>Waking an environment\<close>

definition activationDebounce :: duration where "activationDebounce = 10 * Second"

text \<open>The response is whether the call was accepted; the state is the times of the last wakes.\<close>

definition Activate :: "Control \<Rightarrow> string \<Rightarrow> (string, time) gomap \<times> World \<Rightarrow> (status + bool) \<times> (string, time) gomap \<times> World" where
  "Activate ctl envID lw =
     (case lw of (lastWake, w) \<Rightarrow>
        case Environment envID (w_state w) of
          None \<Rightarrow> (Inl (Status NotFound ''environment not found''), lastWake, w)
        | Some env \<Rightarrow>
            if \<not> svc_scale_to_zero (env_service env) then (Inr False, lastWake, w)
            else
              (let target0 = replicas_min (svc_replicas (env_service env));
                   target = (if target0 < 1 then 1 else target0)
               in if env_effective_replicas env \<ge> target then (Inr True, lastWake, w)
                  else if (case map_of lastWake envID of Some t \<Rightarrow> clock_now ctl - t < activationDebounce | None \<Rightarrow> False)
                  then (Inr True, lastWake, w)
                  else
                    (case raft_Apply ctl ''system:activator''
                            (Command_PutEnvironment
                               (env\<lparr>env_effective_replicas := target,
                                    env_meta := (env_meta env)\<lparr>UpdatedAt := Some (clock_now ctl)\<rparr>\<rparr>)) w of
                       (Some e, w1) \<Rightarrow> (Inl (toStatus e), lastWake, w1)
                     | (None, w1) \<Rightarrow> (Inr True, mput envID (clock_now ctl) lastWake, w1))))"

end
