(* ===== verification/Discovery.thy ===== *)
theory Discovery
  imports AgentSync Routes
begin

text \<open>
  Service discovery on a node (\<^verbatim>\<open>internal/daemon/intdns/resolver.go\<close>): a DNS server on the gateway of every
  bridge network answers the names below \<^verbatim>\<open>internal\<close> with the address of a service of that network's project
  and environment, and forwards everything else. The DNS library and the upstream servers are parameters:
  the reply to a request, and what an exchange with an upstream returns.
\<close>

definition internalTTL :: nat where "internalTTL = 5"
definition internalZone :: string where "internalZone = ''internal''"

datatype dns_rcode = RcodeSuccess | RcodeFormatError | RcodeServerFailure | RcodeNameError

datatype dns_qtype = TypeA | TypeANY | TypeOther nat

record dns_question =
  q_Name :: string
  q_Qtype :: dns_qtype

record dns_A =
  rr_Name :: string
  rr_Ttl :: nat
  rr_A :: string

record dns_Msg =
  msg_Question :: "dns_question list"
  msg_Authoritative :: bool
  msg_RecursionAvailable :: bool
  msg_Rcode :: dns_rcode
  msg_Answer :: "dns_A list"

definition isInternalName :: "string \<Rightarrow> bool" where
  "isInternalName name \<longleftrightarrow> name = internalZone \<or> HasSuffix name (''.'' @ internalZone)"

definition firstLabel :: "string \<Rightarrow> string" where
  "firstLabel fqdn = ToLower (takeWhile (\<lambda>c. c \<noteq> CHR ''.'') fqdn)"

definition in_scope :: "NetScope \<Rightarrow> InternalService \<Rightarrow> bool" where
  "in_scope scope is = (is_project_id is = ns_ProjectID scope \<and> is_environment_id is = ns_EnvID scope)"

definition findService :: "RouteSnapshot \<Rightarrow> NetScope \<Rightarrow> string \<Rightarrow> InternalService option" where
  "findService snap scope name =
     (let labels = Split (CHR ''.'') name
      in if length labels = 2
         then find (\<lambda>is. in_scope scope is \<and> firstLabel (is_fqdn is) = labels ! 0) (snap_internal_services snap)
         else (case find (\<lambda>is. EqualFold (is_fqdn is) (name @ ''.'')) (snap_internal_services snap) of
                 None \<Rightarrow> None
               | Some is \<Rightarrow> if in_scope scope is then Some is else None))"

definition answerInternal :: "RouteSnapshot \<Rightarrow> NetScope \<Rightarrow> dns_Msg \<Rightarrow> dns_question \<Rightarrow> string \<Rightarrow> dns_Msg" where
  "answerInternal snap scope m q name =
     (case findService snap scope name of
        None \<Rightarrow> m\<lparr>msg_Rcode := RcodeNameError\<rparr>
      | Some svc \<Rightarrow>
          if is_vip svc = '''' then m\<lparr>msg_Rcode := RcodeNameError\<rparr>
          else if q_Qtype q \<noteq> TypeA \<and> q_Qtype q \<noteq> TypeANY then m
          else m\<lparr>msg_Answer := msg_Answer m @ [\<lparr>rr_Name = q_Name q, rr_Ttl = internalTTL, rr_A = is_vip svc\<rparr>]\<rparr>)"

fun forward :: "(dns_Msg \<Rightarrow> dns_Msg) \<Rightarrow> (string \<Rightarrow> dns_Msg \<Rightarrow> dns_Msg option) \<Rightarrow> string list \<Rightarrow> dns_Msg \<Rightarrow> dns_Msg" where
  "forward SetReply exchange [] req = (SetReply req)\<lparr>msg_Rcode := RcodeServerFailure\<rparr>"
| "forward SetReply exchange (up # ups) req =
     (case exchange up req of Some resp \<Rightarrow> resp | None \<Rightarrow> forward SetReply exchange ups req)"

definition Answer ::
  "(dns_Msg \<Rightarrow> dns_Msg) \<Rightarrow> (string \<Rightarrow> dns_Msg \<Rightarrow> dns_Msg option) \<Rightarrow> string list \<Rightarrow> RouteSnapshot \<Rightarrow> NetScope \<Rightarrow> dns_Msg \<Rightarrow> dns_Msg" where
  "Answer SetReply exchange upstreams snap scope req =
     (let m = (SetReply req)\<lparr>msg_Authoritative := True, msg_RecursionAvailable := False\<rparr>
      in case msg_Question req of
           [q] \<Rightarrow>
             (let name = ToLower (TrimSuffix (q_Name q) ''.'')
              in if isInternalName name then answerInternal snap scope m q name
                 else forward SetReply exchange upstreams req)
         | _ \<Rightarrow> m\<lparr>msg_Rcode := RcodeFormatError\<rparr>)"

text \<open>The running servers, by gateway; a server answers for the scope it was started with.\<close>

type_synonym dns_servers = "(string, NetScope) gomap"

definition resolver_Reconcile :: "NetScope list \<Rightarrow> dns_servers \<Rightarrow> dns_servers" where
  "resolver_Reconcile scopes servers =
     (let want = fold (\<lambda>s. mput (ns_Gateway s) s) scopes [];
          started = fold (\<lambda>(gw, scope) m. if mhas m gw then m else mput gw scope m) want servers
      in filter (\<lambda>(gw, _). mhas want gw) started)"

end
