(* ===== verification/AgentProps.thy ===== *)
theory AgentProps
  imports Discovery ScalingProps NetworkProps
begin

text \<open>
  What the stream of an agent achieves: the verdict on an instance is a function of its probes alone, reported
  states are committed as reported last, and the containers of a network find services of their own
  environment only.
\<close>

subsection \<open>Probes\<close>

text \<open>Specification of the verdict after a history of probes: the failures since the last success count.\<close>

definition fails_since :: "(bool \<times> duration) list \<Rightarrow> nat" where
  "fails_since ps = length (takeWhile (\<lambda>p. \<not> fst p) (rev ps))"

definition verdict :: "HealthConfig \<Rightarrow> (bool \<times> duration) list \<Rightarrow> InstanceState" where
  "verdict cfg ps =
     (if list_ex fst ps
      then (if int (fails_since ps) < hcf_Threshold cfg then INSTANCE_STATE_HEALTHY else INSTANCE_STATE_UNHEALTHY)
      else if list_ex (\<lambda>k. hcf_Threshold cfg \<le> int (Suc k) \<and> hcf_Grace cfg \<le> snd (ps ! k)) [0..<length ps]
      then INSTANCE_STATE_UNHEALTHY else INSTANCE_STATE_RUNNING)"

lemma monitor_run_append:
  "monitor_run (ps @ qs) s = (case monitor_run ps s of (out, s1) \<Rightarrow> (case monitor_run qs s1 of (out', s2) \<Rightarrow> (out @ out', s2)))"
  by (induction ps arbitrary: s) (auto split: prod.split)

definition sm_after :: "HealthConfig \<Rightarrow> (bool \<times> duration) list \<Rightarrow> healthSM" where
  "sm_after cfg ps = \<lparr>sm_cfg = cfg, sm_state = verdict cfg ps, sm_passedOnce = list_ex fst ps, sm_fails = int (fails_since ps)\<rparr>"

lemma verdict_pass: "0 < hcf_Threshold cfg \<Longrightarrow> verdict cfg (ps @ [(True, t)]) = INSTANCE_STATE_HEALTHY"
  by (simp add: verdict_def fails_since_def)

lemma fails_since_fail: "fails_since (ps @ [(False, t)]) = Suc (fails_since ps)"
  by (simp add: fails_since_def)

lemma fails_since_all: "\<not> list_ex fst ps \<Longrightarrow> fails_since ps = length ps"
proof -
  assume "\<not> list_ex fst ps"
  then have "takeWhile (\<lambda>p. \<not> fst p) (rev ps) = rev ps" by (auto simp: takeWhile_eq_all_conv list_ex_iff)
  then show ?thesis by (simp only: fails_since_def length_rev)
qed

lemma verdict_fail:
  "verdict cfg (ps @ [(False, t)]) =
     (if list_ex fst ps
      then (if int (Suc (fails_since ps)) < hcf_Threshold cfg then INSTANCE_STATE_HEALTHY else INSTANCE_STATE_UNHEALTHY)
      else if verdict cfg ps = INSTANCE_STATE_UNHEALTHY \<or> hcf_Threshold cfg \<le> int (Suc (length ps)) \<and> hcf_Grace cfg \<le> t
      then INSTANCE_STATE_UNHEALTHY else INSTANCE_STATE_RUNNING)"
proof -
  have "list_ex (\<lambda>k. hcf_Threshold cfg \<le> int (Suc k) \<and> hcf_Grace cfg \<le> snd ((ps @ [(False, t)]) ! k)) [0..<length ps]
      = list_ex (\<lambda>k. hcf_Threshold cfg \<le> int (Suc k) \<and> hcf_Grace cfg \<le> snd (ps ! k)) [0..<length ps]"
    by (rule list_ex_cong) (simp_all add: nth_append)
  then show ?thesis by (auto simp: verdict_def fails_since_fail)
qed

lemma sm_observe_after:
  assumes "0 < hcf_Threshold cfg"
  shows "snd (sm_observe pass t (sm_after cfg ps)) = sm_after cfg (ps @ [(pass, t)])"
    "fst (fst (sm_observe pass t (sm_after cfg ps))) = verdict cfg (ps @ [(pass, t)])"
    "verdict cfg (ps @ [(pass, t)]) \<noteq> verdict cfg ps \<Longrightarrow> snd (fst (sm_observe pass t (sm_after cfg ps)))"
proof (atomize (full), cases pass)
  case True
  with assms show "snd (sm_observe pass t (sm_after cfg ps)) = sm_after cfg (ps @ [(pass, t)])
    \<and> fst (fst (sm_observe pass t (sm_after cfg ps))) = verdict cfg (ps @ [(pass, t)])
    \<and> (verdict cfg (ps @ [(pass, t)]) \<noteq> verdict cfg ps \<longrightarrow> snd (fst (sm_observe pass t (sm_after cfg ps))))"
    by (simp add: sm_observe_def sm_after_def Let_def verdict_pass fails_since_def)
next
  case False
  show "snd (sm_observe pass t (sm_after cfg ps)) = sm_after cfg (ps @ [(pass, t)])
    \<and> fst (fst (sm_observe pass t (sm_after cfg ps))) = verdict cfg (ps @ [(pass, t)])
    \<and> (verdict cfg (ps @ [(pass, t)]) \<noteq> verdict cfg ps \<longrightarrow> snd (fst (sm_observe pass t (sm_after cfg ps))))"
  proof (cases "list_ex fst ps")
    case True
    then have "verdict cfg ps = (if int (fails_since ps) < hcf_Threshold cfg then INSTANCE_STATE_HEALTHY else INSTANCE_STATE_UNHEALTHY)"
      by (simp add: verdict_def)
    with True False show ?thesis
      by (auto simp: sm_observe_def sm_after_def Let_def verdict_fail fails_since_fail)
  next
    case never: False
    then have "verdict cfg ps \<in> {INSTANCE_STATE_RUNNING, INSTANCE_STATE_UNHEALTHY}" by (simp add: verdict_def)
    with never False fails_since_all [OF never] show ?thesis
      by (auto simp: sm_observe_def sm_after_def Let_def verdict_fail fails_since_fail)
  qed
qed

text \<open>
  C17 (the verdict on an instance): After every history of probes the health of an instance is exactly what the
  probes say. It is healthy when some probe has passed and fewer than the threshold failed since the last that
  passed; unhealthy when at least the threshold failed since; and while none has passed it is
  starting until a failure, at least the threshold-th, comes after the grace period. The state reported last is
  the state it is in, and nothing is reported while it is starting.
\<close>

theorem health_verdict_exact:
  fixes hc ps
  defines "cfg \<equiv> resolveHealthConfig hc"
  shows "sm_state (snd (monitor_run ps (newHealthSM cfg))) = verdict cfg ps
    \<and> verdict cfg ps = last (INSTANCE_STATE_RUNNING # fst (monitor_run ps (newHealthSM cfg)))"
proof -
  have threshold: "0 < hcf_Threshold cfg"
    unfolding cfg_def resolveHealthConfig_def
    by (simp add: defaultProbeThreshold_def Let_def word_less_def split: option.split)
  have "snd (monitor_run ps (newHealthSM cfg)) = sm_after cfg ps
    \<and> verdict cfg ps = last (INSTANCE_STATE_RUNNING # fst (monitor_run ps (newHealthSM cfg)))"
  proof (induction ps rule: rev_induct)
    case Nil
    show ?case by (simp add: newHealthSM_def sm_after_def verdict_def fails_since_def)
  next
    case (snoc p ps)
    obtain pass t where p: "p = (pass, t)" by fastforce
    obtain out where run: "monitor_run ps (newHealthSM cfg) = (out, sm_after cfg ps)"
      using snoc by (metis prod.collapse)
    note step = sm_observe_after [OF threshold, where pass = pass and t = t and ps = ps]
    obtain st ch where obs: "sm_observe pass t (sm_after cfg ps) = ((st, ch), sm_after cfg (ps @ [(pass, t)]))"
      using step(1) by (metis prod.collapse)
    show ?case
      using snoc step(2,3) run obs by (auto simp: monitor_run_append p split: if_splits)
  qed
  then show ?thesis by (simp add: sm_after_def)
qed

text \<open>
  An instance that never passed reports unhealthy again with every further failure, although only changes are
  meant to be reported.
\<close>

lemma unhealthy_reported_again:
  "fst (monitor_run [(False, 70), (False, 80)]
     (newHealthSM \<lparr>hcf_Interval = 10, hcf_Timeout = 5, hcf_Grace = 60, hcf_Threshold = 1\<rparr>))
   = [INSTANCE_STATE_UNHEALTHY, INSTANCE_STATE_UNHEALTHY]"
  by code_simp

subsection \<open>Reported states\<close>

text \<open>The reports on one assignment in a sequence of batches, and what they amount to: the last report, with the
  ports of the last one that names any.\<close>

definition reports :: "string \<Rightarrow> (string, AssignmentObserved) gomap list \<Rightarrow> AssignmentObserved list" where
  "reports i bs = List.map_filter (\<lambda>b. map_of b i) bs"

definition last_ports :: "AssignmentObserved list \<Rightarrow> (string, uint32) gomap" where
  "last_ports rs = fold (\<lambda>r p. if obs_mesh_port_bindings r = [] then p else obs_mesh_port_bindings r) rs []"

lemma buffer_one_at:
  "map_of (buffer_one (j, x) b) i =
     (if i = j then Some (x\<lparr>obs_mesh_port_bindings :=
        (if obs_mesh_port_bindings x = [] then (case map_of b i of None \<Rightarrow> [] | Some p \<Rightarrow> obs_mesh_port_bindings p)
         else obs_mesh_port_bindings x)\<rparr>)
      else map_of b i)"
  by (auto simp: buffer_one_def Let_def split: option.split)

lemma buffer_add_at:
  assumes "mwf observed"
  shows "map_of (statusBuffer_add observed b) i =
     (case map_of observed i of None \<Rightarrow> map_of b i | Some x \<Rightarrow> map_of (buffer_one (i, x) b) i)"
  using assms unfolding statusBuffer_add_def
proof (induction observed arbitrary: b)
  case (Cons p observed)
  obtain j x where p: "p = (j, x)" by fastforce
  with Cons.prems have rest: "mwf observed" and new: "map_of observed j = None"
    by (auto simp: mwf_def map_of_eq_None_iff)
  show ?case
  proof (cases "i = j")
    case True
    then show ?thesis using Cons.IH [OF rest, of "buffer_one p b"] new by (simp add: p)
  next
    case False
    then show ?thesis using Cons.IH [OF rest, of "buffer_one p b"] by (simp add: p buffer_one_at split: option.split)
  qed
qed simp

lemma buffer_wf: "mwf b \<Longrightarrow> mwf (statusBuffer_add observed b)"
  unfolding statusBuffer_add_def
  by (induction observed arbitrary: b) (auto simp: buffer_one_def Let_def split: option.split)

lemma buffered:
  assumes "\<forall>b \<in> set bs. mwf b"
  shows "map_of (fold statusBuffer_add bs []) i =
     (if reports i bs = [] then None
      else Some ((last (reports i bs))\<lparr>obs_mesh_port_bindings := last_ports (reports i bs)\<rparr>))"
  using assms
proof (induction bs rule: rev_induct)
  case (snoc b bs)
  then show ?case
    by (cases "map_of b i")
      (auto simp: buffer_add_at buffer_one_at reports_def last_ports_def List.map_filter_def)
qed (simp add: reports_def map_filter_simps)

lemma flush_reliable:
  assumes "reliable ctl w" "b \<noteq> []" "mwf b"
  shows "map_of (assignments (w_state (snd (flushStatus ctl n (b, w))))) i =
    (case map_of b i of
       None \<Rightarrow> map_of (assignments (w_state w)) i
     | Some x \<Rightarrow> map_option (\<lambda>a. if asg_node_id a = n then merge_observed x a else a) (map_of (assignments (w_state w)) i))"
proof -
  have quiet: "appliedSet (snd (apply_mutation rid now (Command_SetAssignmentsObserved n b) s)) = appliedSet s" for rid now s
    unfolding apply_mutation.simps SetAssignmentObserved_def snd_conv
    by (rule fold_frame) (auto simp: observeLocked_def touch_def split: option.split)
  from propose_reliable(2) [OF assms(1) quiet, of "''node:'' @ n"] show ?thesis
    using assms(2) observed_map_of [OF assms(3)]
    by (auto simp: flushStatus_def statusBuffer_drain_def applyAnywhere_def split_def raft_Apply_propose(1) after_def
        split: option.split)
qed


text \<open>
  The buffer lets a later running replace a verdict of the probes that was not flushed yet. The monitor does not
  repeat its verdict, so the store says running until the next change, and no request is routed to the
  instance.
\<close>

lemma buffered_verdict_lost:
  "map_option obs_state (map_of (fold statusBuffer_add
     [[(''a'', zero_observed\<lparr>obs_state := INSTANCE_STATE_HEALTHY\<rparr>)], [(''a'', zero_observed\<lparr>obs_state := INSTANCE_STATE_RUNNING\<rparr>)]] []) ''a'')
   = Some INSTANCE_STATE_RUNNING"
  by code_simp

subsection \<open>Names\<close>

text \<open>The service of an environment in the snapshot.\<close>

definition service_of :: "Store \<Rightarrow> App \<Rightarrow> Environment \<Rightarrow> string \<Rightarrow> InternalService" where
  "service_of st app env vip =
     \<lparr>is_fqdn = app_name app @ ''.'' @ env_name env @ ''.'' @ projectName st (env_project_id env) @ ''.internal.'',
      is_project_id = env_project_id env, is_environment_id = env_id env, is_vip = vip,
      is_ports = map (\<lambda>p. \<lparr>ip_name = port_name p, ip_port = container_port p, ip_protocol = ''tcp'',
                           ip_endpoints = endpoints st env (port_name p)\<rparr>) (svc_ports (env_service env))\<rparr>"

definition services_of :: "Store \<Rightarrow> Environment \<Rightarrow> InternalService list" where
  "services_of st env =
     (case App (env_app_id env) st of
        None \<Rightarrow> []
      | Some app \<Rightarrow> (case ServiceVIP (env_id env) st of None \<Rightarrow> [] | Some vip \<Rightarrow> [service_of st app env vip]))"

lemma fold_build_env_internal:
  "snap_internal_services (fst (fold (build_env domain st) es acc)) =
     snap_internal_services (fst acc) @ concat (map (services_of st) es)"
  by (induction es arbitrary: acc)
    (auto simp: build_env_def services_of_def service_of_def Let_def split_def split: option.split)

lemma build_internal:
  "snap_internal_services (build domain st) = concat (map (services_of st) (ListEnvironments '''' '''' st))"
  using fold_build_env_internal [of domain st "ListEnvironments '''' '''' st"] by (simp add: build_def split_def)

lemma built_service:
  assumes "store_inv st"
  shows "sv \<in> set (snap_internal_services (build domain st)) \<longleftrightarrow>
    (\<exists>env app vip. Environment (env_id env) st = Some env \<and> App (env_app_id env) st = Some app
       \<and> ServiceVIP (env_id env) st = Some vip \<and> sv = service_of st app env vip)"
proof -
  have listed: "env \<in> set (ListEnvironments '''' '''' st) \<longleftrightarrow> Environment (env_id env) st = Some env" for env
    using env_rc.in_list_iff [OF store_keyed(6) [OF assms], of env "('''', '''')"] by simp
  have "sv \<in> set (services_of st env) \<longleftrightarrow>
      (\<exists>app vip. App (env_app_id env) st = Some app \<and> ServiceVIP (env_id env) st = Some vip \<and> sv = service_of st app env vip)" for env
    by (cases "App (env_app_id env) st"; cases "ServiceVIP (env_id env) st") (simp_all add: services_of_def)
  then show ?thesis unfolding build_internal set_concat set_map UN_iff image_iff by (auto simp: listed Bex_def)
qed

lemma findService_sound:
  "findService snap scope name = Some sv \<Longrightarrow> sv \<in> set (snap_internal_services snap) \<and> in_scope scope sv"
  by (auto simp: findService_def Let_def find_Some_iff in_set_conv_nth split: if_splits option.splits)

text \<open>An answer for a name of the cluster is the address of the environment of the scope.\<close>

lemma answers_in_scope:
  assumes "store_inv st" "\<And>r. msg_Answer (SetReply r) = []"
    and "msg_Question req = [q]" "isInternalName (ToLower (TrimSuffix (q_Name q) ''.''))"
    and "rr \<in> set (msg_Answer (Answer SetReply exchange ups (build domain st) scope req))"
  shows "rr_Name rr = q_Name q \<and> ServiceVIP (ns_EnvID scope) st = Some (rr_A rr)
    \<and> (\<exists>env. Environment (ns_EnvID scope) st = Some env \<and> env_project_id env = ns_ProjectID scope)"
proof -
  let ?name = "ToLower (TrimSuffix (q_Name q) ''.'')"
  from assms(5) obtain sv where sv: "findService (build domain st) scope ?name = Some sv"
    "rr = \<lparr>rr_Name = q_Name q, rr_Ttl = internalTTL, rr_A = is_vip sv\<rparr>"
    by (auto simp: Answer_def answerInternal_def assms(2,3,4) Let_def split: option.splits if_splits)
  from findService_sound [OF sv(1)] obtain env app vip where
    env: "Environment (env_id env) st = Some env" "ServiceVIP (env_id env) st = Some vip" "sv = service_of st app env vip"
    "in_scope scope sv" by (auto simp: built_service [OF assms(1)])
  then show ?thesis by (auto simp: in_scope_def service_of_def sv(2))
qed

lemma find_unique:
  assumes "x \<in> set xs" "P x" "\<forall>y \<in> set xs. P y \<longrightarrow> y = x"
  shows "find P xs = Some x"
proof (cases "find P xs")
  case None
  with assms(1,2) show ?thesis unfolding find_None_iff by blast
next
  case (Some y)
  then have "y \<in> set xs" "P y" unfolding find_Some_iff by (metis nth_mem, blast)
  with assms(3) Some show ?thesis by simp
qed

text \<open>The short name of an app always resolves within its environment.\<close>

definition plain_label :: "string \<Rightarrow> bool" where
  "plain_label s \<longleftrightarrow> CHR ''.'' \<notin> set s \<and> ToLower s = s"

lemma short_name_found:
  assumes "store_inv st" "Environment e st = Some env" "App (env_app_id env) st = Some app" "ServiceVIP e st = Some vip"
    and "plain_label (app_name app)" "ns_EnvID scope = e" "ns_ProjectID scope = env_project_id env"
  shows "findService (build domain st) scope (app_name app @ ''.internal'') = Some (service_of st app env vip)"
proof -
  let ?svcs = "snap_internal_services (build domain st)" and ?svc = "service_of st app env vip"
  let ?P = "\<lambda>sv. in_scope scope sv \<and> firstLabel (is_fqdn sv) = app_name app"
  have id: "env_id env = e" using keyedD [OF store_keyed(6) [OF assms(1)], of e env] assms(2) by (simp add: Environment_def)
  have whole: "takeWhile (\<lambda>c. c \<noteq> CHR ''.'') (app_name app) = app_name app"
    unfolding takeWhile_eq_all_conv using assms(5) by (auto simp: plain_label_def)
  have "Split (CHR ''.'') (app_name app @ CHR ''.'' # ''internal'') = [app_name app, ''internal'']"
    using assms(5) Split_append [of "CHR ''.''" "app_name app" "''internal''"] Split_no_sep [of "CHR ''.''" "''internal''"]
    by (simp add: plain_label_def)
  then have short: "findService (build domain st) scope (app_name app @ ''.internal'') = find ?P ?svcs"
    by (simp add: findService_def Let_def)
  have mem: "?svc \<in> set ?svcs" using assms(2-4) id by (auto simp: built_service [OF assms(1)])
  have P: "?P ?svc"
    using assms(5-7) id whole by (simp add: in_scope_def service_of_def firstLabel_def plain_label_def takeWhile_tail)
  have "sv = ?svc" if "sv \<in> set ?svcs" "in_scope scope sv" for sv
    using that assms(2-4,6) id by (auto simp: built_service [OF assms(1)] in_scope_def service_of_def)
  then have "\<forall>sv \<in> set ?svcs. ?P sv \<longrightarrow> sv = ?svc" by blast
  with find_unique [of ?svc ?svcs ?P, OF mem P] show ?thesis unfolding short .
qed

subsection \<open>The networks of a node\<close>

text \<open>The gateway of the bridge network an assignment is attached to.\<close>

definition gateway_of :: "Store \<Rightarrow> Assignment \<Rightarrow> string option" where
  "gateway_of st a =
     (case NetworkAllocation (asg_project_id a) (asg_environment_id a) (asg_node_id a) st of
        None \<Rightarrow> None
      | Some s \<Rightarrow> if s = '''' then None else GatewayIP s)"

lemma fold_puts:
  assumes "\<forall>x \<in> set xs. k x = i \<longrightarrow> x = a" "k a = i"
  shows "map_of (fold (\<lambda>x m. case g x of None \<Rightarrow> m | Some r \<Rightarrow> mput (k x) r m) xs m) i =
    (if a \<in> set xs \<and> g a \<noteq> None then g a else map_of m i)"
  using assms(1)
proof (induction xs arbitrary: m)
  case (Cons x xs)
  then have rest: "\<forall>y \<in> set xs. k y = i \<longrightarrow> y = a" by simp
  show ?case
  proof (cases "x = a")
    case True
    with Cons.IH [OF rest] assms(2) show ?thesis by (cases "g a") simp_all
  next
    case False
    with Cons.prems have "k x \<noteq> i" by auto
    with Cons.IH [OF rest] False show ?thesis by (cases "g x") auto
  qed
qed simp

lemma pushed_assignments:
  assumes "store_inv st"
  shows "set (set_assignments (sendAssignments c v st n)) = {a. Assignment (asg_id a) st = Some a \<and> asg_node_id a = n}"
proof -
  have "set (List.map_filter (\<lambda>a. a) xs) = {a. Some a \<in> set xs}" for xs :: "Assignment option list"
    by (induction xs) (auto simp: map_filter_simps split: option.split)
  then show ?thesis
    by (simp add: sendAssignments_def Let_def ListAssignmentsByNode_iff [OF assms] Assignment_def)
qed

lemma pushed_runtime:
  assumes "store_inv st" "Assignment i st = Some a" "asg_node_id a = n"
  shows "map_of (set_runtime (sendAssignments c v st n)) i = buildRuntime c v st a"
proof -
  have id: "asg_id a = i" using keyedD [OF store_keyed(4) [OF assms(1)], of i a] assms(2) by (simp add: Assignment_def)
  have same: "\<forall>x \<in> set (set_assignments (sendAssignments c v st n)). asg_id x = i \<longrightarrow> x = a"
    using assms(2) by (auto simp: pushed_assignments [OF assms(1)])
  have "a \<in> set (set_assignments (sendAssignments c v st n))" using assms(2,3) id by (simp add: pushed_assignments [OF assms(1)])
  with fold_puts [OF same id, of "buildRuntime c v st" "[]"] show ?thesis
    by (cases "buildRuntime c v st a") (simp_all add: sendAssignments_def Let_def)
qed

lemma scopes_at:
  assumes "store_inv st" "Assignment i st = Some a" "asg_node_id a = n" "Release (asg_release_id a) st \<noteq> None"
    and "gateway_of st a = Some gw"
    and "\<forall>j b. Assignment j st = Some b \<and> asg_node_id b = n \<and> gateway_of st b = Some gw \<longrightarrow>
           asg_project_id b = asg_project_id a \<and> asg_environment_id b = asg_environment_id a"
  shows "map_of (NetworkScopes (Some (sendAssignments c v st n))) gw =
    Some \<lparr>ns_Gateway = gw, ns_ProjectID = asg_project_id a, ns_EnvID = asg_environment_id a\<rparr>"
proof -
  let ?set = "sendAssignments c v st n"
  let ?scope = "\<lambda>a gw. \<lparr>ns_Gateway = gw, ns_ProjectID = asg_project_id a, ns_EnvID = asg_environment_id a\<rparr>"
  let ?g = "\<lambda>b. case map_of (set_runtime ?set) (asg_id b) of None \<Rightarrow> None
     | Some rt \<Rightarrow> if ar_subnet_cidr rt = '''' then None else GatewayIP (ar_subnet_cidr rt)"
  have fold: "NetworkScopes (Some ?set) = fold (\<lambda>b m. case ?g b of None \<Rightarrow> m | Some g \<Rightarrow> mput g (?scope b g) m) (set_assignments ?set) []"
    unfolding NetworkScopes_def option.case
    by (rule fold_cong) (auto simp: Let_def split: option.split)
  have at: "map_of (fold (\<lambda>b m. case g b of None \<Rightarrow> m | Some x \<Rightarrow> mput x (?scope b x) m) as m) gw = Some (?scope a gw)"
    if "\<forall>b \<in> set as. g b = Some gw \<longrightarrow> ?scope b gw = ?scope a gw" "map_of m gw = Some (?scope a gw) \<or> (\<exists>b \<in> set as. g b = Some gw)"
    for g :: "Assignment \<Rightarrow> string option" and as m
    using that
  proof (induction as arbitrary: m)
    case (Cons b as)
    let ?m = "case g b of None \<Rightarrow> m | Some x \<Rightarrow> mput x (?scope b x) m"
    have "map_of ?m gw = Some (?scope a gw) \<or> (\<exists>b \<in> set as. g b = Some gw)"
      using Cons.prems by (cases "g b") auto
    with Cons.IH [of ?m] Cons.prems(1) show ?case by simp
  qed simp
  have own: "?g b = (if Release (asg_release_id b) st = None then None else gateway_of st b)" if "b \<in> set (set_assignments ?set)" for b
    using that pushed_runtime [OF assms(1), of "asg_id b" b n c v]
    by (auto simp: pushed_assignments [OF assms(1)] buildRuntime_def gateway_of_def Let_def split: option.split)
  have id: "asg_id a = i" using keyedD [OF store_keyed(4) [OF assms(1)], of i a] assms(2) by (simp add: Assignment_def)
  have mem: "a \<in> set (set_assignments ?set)" using assms(2,3) id by (simp add: pushed_assignments [OF assms(1)])
  show ?thesis unfolding fold
  proof (rule at)
    show "\<forall>b \<in> set (set_assignments ?set). ?g b = Some gw \<longrightarrow> ?scope b gw = ?scope a gw"
    proof (intro ballI impI)
      fix b
      assume b: "b \<in> set (set_assignments ?set)" "?g b = Some gw"
      then have "gateway_of st b = Some gw" using own [OF b(1)] by (simp split: if_splits)
      with b(1) assms(6) show "?scope b gw = ?scope a gw" by (auto simp: pushed_assignments [OF assms(1)])
    qed
    show "map_of [] gw = Some (?scope a gw) \<or> (\<exists>b \<in> set (set_assignments ?set). ?g b = Some gw)"
      using own [OF mem] mem assms(4,5) by auto
  qed
qed

lemma map_of_filter_key: "map_of (filter (\<lambda>(k, _). Q k) m) k = (if Q k then map_of m k else None)"
  by (induction m) auto

lemma set_mput: "p \<in> set (mput k v m) \<Longrightarrow> p = (k, v) \<or> p \<in> set m"
  by (induction m) (auto split: if_splits)

definition scope_step :: "AssignmentSet \<Rightarrow> Assignment \<Rightarrow> (string, NetScope) gomap \<Rightarrow> (string, NetScope) gomap" where
  "scope_step s a m =
     (let subnet = (case map_of (set_runtime s) (asg_id a) of None \<Rightarrow> '''' | Some rt \<Rightarrow> ar_subnet_cidr rt)
      in if subnet = '''' then m
         else case GatewayIP subnet of
                None \<Rightarrow> m
              | Some gw \<Rightarrow> mput gw \<lparr>ns_Gateway = gw, ns_ProjectID = asg_project_id a, ns_EnvID = asg_environment_id a\<rparr> m)"

lemma NetworkScopes_step: "NetworkScopes (Some s) = fold (scope_step s) (set_assignments s) []"
  by (simp add: NetworkScopes_def scope_step_def [abs_def])

text \<open>The servers a resolver runs after its first pass.\<close>

lemma resolver_first_pass:
  assumes "map_of (NetworkScopes x) gw = Some scope"
  shows "map_of (resolver_Reconcile (map snd (NetworkScopes x)) []) gw = Some scope"
proof -
  let ?want = "fold (\<lambda>s. mput (ns_Gateway s) s) (map snd (NetworkScopes x)) []"
  have keys: "\<forall>p \<in> set m. ns_Gateway (snd p) = fst p \<Longrightarrow> mwf m \<Longrightarrow>
      map_of (fold (\<lambda>s. mput (ns_Gateway s) s) (map snd m) acc) gw = (case map_of m gw of None \<Rightarrow> map_of acc gw | s \<Rightarrow> s)"
    for m :: "(string, NetScope) gomap" and acc
  proof (induction m arbitrary: acc)
    case (Cons p m)
    then have "mwf m" "map_of m (fst p) = None" by (cases p, auto simp: mwf_def map_of_eq_None_iff)+
    with Cons show ?case by (cases p) (auto split: option.split)
  qed simp
  have inv: "(\<forall>p \<in> set (NetworkScopes x). ns_Gateway (snd p) = fst p) \<and> mwf (NetworkScopes x)"
  proof (cases x)
    case (Some s)
    have "(\<forall>p \<in> set m. ns_Gateway (snd p) = fst p) \<and> mwf m \<Longrightarrow>
        (\<forall>p \<in> set (fold (scope_step s) as m). ns_Gateway (snd p) = fst p) \<and> mwf (fold (scope_step s) as m)" for as m
    proof (induction as arbitrary: m)
      case (Cons b as)
      have "(\<forall>p \<in> set (scope_step s b m). ns_Gateway (snd p) = fst p) \<and> mwf (scope_step s b m)"
        using Cons.prems by (auto simp: scope_step_def Let_def dest!: set_mput split: option.split)
      then show ?case using Cons.IH [of "scope_step s b m"] by simp
    qed simp
    from this [of "[]" "set_assignments s"] Some show ?thesis by (simp add: NetworkScopes_step)
  qed (simp add: NetworkScopes_def)
  have started: "map_of (fold (\<lambda>(gw, scope) m. if mhas m gw then m else mput gw scope m) ws m) g =
      (case map_of m g of None \<Rightarrow> map_of ws g | s \<Rightarrow> s)" for ws m g
  proof (induction ws arbitrary: m)
    case (Cons p ws)
    obtain k sc where p: "p = (k, sc)" by fastforce
    show ?case
      using Cons.IH [of "if mhas m k then m else mput k sc m"]
      by (cases "map_of m k"; cases "map_of m g"; cases "g = k") (simp_all add: p)
  qed (simp split: option.split)
  have "map_of ?want gw = Some scope" using keys [of "NetworkScopes x" "[]"] inv assms by simp
  then show ?thesis
    using started [of ?want "[]" gw] by (simp add: resolver_Reconcile_def Let_def map_of_filter_key)
qed


subsection \<open>Sample node\<close>

definition sample_attached :: Assignment where
  "sample_attached = zero_assignment\<lparr>asg_meta := meta_of ''a'', asg_node_id := ''n'', asg_project_id := ''p'',
     asg_environment_id := ''e'', asg_release_id := ''r''\<rparr>"

definition sample_meshed :: World where
  "sample_meshed = \<lparr>w_state = run_log
     [entry 1 ''r1'' (Command_PutApp \<lparr>app_meta = meta_of ''x'', app_project_id = ''p'', app_name = ''shop'', app_build = [], app_github = []\<rparr>),
      entry 2 ''r2'' (Command_PutEnvironment (zero_env\<lparr>env_meta := meta_of ''e'', env_app_id := ''x'', env_project_id := ''p'', env_name := ''prod''\<rparr>)),
      entry 3 ''r3'' (Command_PutRelease (zero_release\<lparr>rel_meta := meta_of ''r'', rel_environment_id := ''e''\<rparr>)),
      entry 4 ''r4'' (Command_PutAssignments [sample_attached]),
      entry 5 ''r5'' (Command_PutNetworkAllocation ''p'' ''e'' ''n'' ''10.201.5.0/24''),
      entry 6 ''r6'' (Command_PutServiceVip ''e'' ''10.97.0.9'')] New,
     w_index = 6, w_ids = 0, w_proposals = 0\<rparr>"

lemma sample_meshed_inv: "store_inv (w_state sample_meshed)"
  by (simp only: sample_meshed_def World.simps reachable_inv)

lemma sample_meshed_eval:
  "assignments (w_state sample_meshed) = [(''a'', sample_attached)]"
  "Release ''r'' (w_state sample_meshed) \<noteq> None"
  "gateway_of (w_state sample_meshed) sample_attached = Some ''10.201.5.1''"
  "Environment ''e'' (w_state sample_meshed) =
     Some (zero_env\<lparr>env_meta := meta_of ''e'', env_app_id := ''x'', env_project_id := ''p'', env_name := ''prod''\<rparr>)"
  "App ''x'' (w_state sample_meshed) =
     Some \<lparr>app_meta = meta_of ''x'', app_project_id = ''p'', app_name = ''shop'', app_build = [], app_github = []\<rparr>"
  "ServiceVIP ''e'' (w_state sample_meshed) = Some ''10.97.0.9''"
  by code_simp+

definition sample_query :: dns_Msg where
  "sample_query = \<lparr>msg_Question = [\<lparr>q_Name = ''shop.internal.'', q_Qtype = TypeA\<rparr>], msg_Authoritative = False,
     msg_RecursionAvailable = True, msg_Rcode = RcodeSuccess, msg_Answer = []\<rparr>"


text \<open>A report without ports follows one with them.\<close>

definition sample_batches :: "(string, AssignmentObserved) gomap list" where
  "sample_batches = [[(''a'', zero_observed\<lparr>obs_state := INSTANCE_STATE_RUNNING, obs_mesh_port_bindings := [(''http'', 3000)]\<rparr>)],
     [(''a'', zero_observed\<lparr>obs_state := INSTANCE_STATE_HEALTHY\<rparr>)]]"


text \<open>
  A server keeps the scope it was started with. When the subnet of a network that went away is given to another
  environment before the next pass, the gateway goes on answering with the services of the old one.
\<close>

lemma reused_gateway_keeps_scope:
  "map_of (resolver_Reconcile [\<lparr>ns_Gateway = ''10.201.5.1'', ns_ProjectID = ''q'', ns_EnvID = ''f''\<rparr>]
      (resolver_Reconcile [\<lparr>ns_Gateway = ''10.201.5.1'', ns_ProjectID = ''p'', ns_EnvID = ''e''\<rparr>] [])) ''10.201.5.1''
   = Some \<lparr>ns_Gateway = ''10.201.5.1'', ns_ProjectID = ''p'', ns_EnvID = ''e''\<rparr>"
  by code_simp

subsection \<open>Waking an environment\<close>

text \<open>
  Waking: when proposals commit and no wake was issued within ten seconds, a call for an environment that may
  scale to zero is accepted and leaves it with at least one replica and at least its minimum; nothing but
  its replica count and the time of its change is different.
\<close>

lemma Activate_wakes:
  assumes "store_inv (w_state w)" "reliable ctl w" "Environment i (w_state w) = Some env" "svc_scale_to_zero (env_service env)"
    and "\<And>t. map_of lastWake i = Some t \<Longrightarrow> t + 10 * Second \<le> clock_now ctl"
    and "Activate ctl i (lastWake, w) = (r, lastWake', w')"
  shows "r = Inr True \<and> (\<exists>env'. Environment i (w_state w') = Some env'
    \<and> env' = env\<lparr>env_effective_replicas := env_effective_replicas env', env_meta := env_meta env'\<rparr>
    \<and> 1 \<le> env_effective_replicas env' \<and> replicas_min (svc_replicas (env_service env)) \<le> env_effective_replicas env')"
proof -
  let ?target = "if replicas_min (svc_replicas (env_service env)) < 1 then 1 else replicas_min (svc_replicas (env_service env))"
  have id: "env_id env = i" by (rule stored_env_id [OF assms(1,3)])
  have quiet: "\<not> (case map_of lastWake i of Some t \<Rightarrow> clock_now ctl - t < activationDebounce | None \<Rightarrow> False)"
    by (cases "map_of lastWake i") (use assms(5) in \<open>fastforce simp: activationDebounce_def\<close>)+
  have target: "1 \<le> ?target" "replicas_min (svc_replicas (env_service env)) \<le> ?target"
    by (auto simp del: word_less_1 simp: linorder_not_less)
  show ?thesis
  proof (cases "?target \<le> env_effective_replicas env")
    case True
    with assms(3,4,6) have "r = Inr True" "w' = w" by (auto simp: Activate_def Let_def)
    with True target assms(3) show ?thesis by (auto intro: order_trans)
  next
    case False
    let ?e = "with_replicas ctl ?target env"
    let ?put = "raft_Apply ctl ''system:activator'' (Command_PutEnvironment ?e) w"
    have ok: "fst ?put = None"
      using assms(2) by (rule raft_Apply_reliable) (simp add: PutEnvironment_def)
    have run: "Activate ctl i (lastWake, w) = (Inr True, mput i (clock_now ctl) lastWake, snd ?put)"
      using False assms(3,4) quiet ok by (cases ?put) (simp add: Activate_def Let_def with_replicas_def)
    have "Environment i (w_state (snd ?put)) = Some ?e"
      using put_env_reliable(3) [OF assms(2), of "''system:activator''" ?e] id by (simp add: raft_Apply_propose(1) Environment_def)
    with run assms(6) target show ?thesis by (auto simp: with_replicas_def)
  qed
qed

text \<open>
  A request that waits for a wake is not in flight yet, so for an environment with a concurrency limit the next
  pass of the concurrency loop takes the replica away again before an instance can become healthy.
\<close>

definition sample_cold :: Environment where
  "sample_cold = (sample_scaled (\<lambda>s. s\<lparr>svc_max_concurrency := 10, svc_scale_to_zero := True\<rparr>))\<lparr>env_effective_replicas := 0\<rparr>"

definition sample_woken :: World where
  "sample_woken = snd (snd (Activate (at_time 100) ''e'' ([], sample_scaled_world sample_cold)))"

lemma serverless_undoes_wake:
  "map_option env_effective_replicas (Environment ''e'' (w_state sample_woken)) = Some 1"
  "map_option env_effective_replicas (Environment ''e'' (w_state (snd (serverless_evaluate (at_time 105) (sample_traffic 0 99) sample_woken)))) = Some 0"
  by code_simp+

end
