(* ===== verification/Spec2Isabelle.thy ===== *)
theory Spec2Isabelle
  imports Replication NetworkProps SchedulerPass RegistryProps AuthProps ServicesProps RoutesProps
    ImagesProps ScalingProps AgentProps
begin

text \<open>
  A verification development of the zattera control plane: the Go code under
  \<^verbatim>\<open>src/internal\<close> that keeps the replicated cluster state and drives it towards what users ask for.

  \<^bold>\<open>The program.\<close> Every control node holds a \<^emph>\<open>store\<close>, a set of in-memory maps with secondary
  indexes and a change-notification hub (\<^verbatim>\<open>internal/state\<close>). The store only changes through
  commands of a Raft log, applied by the \<^emph>\<open>state machine\<close> (\<^verbatim>\<open>internal/daemon/raftstore\<close>), which
  skips commands it has seen, and snapshots and restores the store. On the leader, control loops
  (\<^verbatim>\<open>internal/daemon/scheduler\<close>) read the store and propose commands: the deployment orchestrator
  moves a release through its phases, the scheduler keeps the replicas, volumes, leases, addresses,
  jobs and drains of the services in order, all of them placing instances through one placement
  function; further loops mark nodes up and down by their heartbeats, hand builds to builder nodes,
  delete old releases and set replica counts by the traffic. Users reach the store through the gRPC \<^emph>\<open>services\<close> (\<^verbatim>\<open>internal/daemon/api\<close>), which
  authenticate a call, check it against a policy and the caller's role in the project, and propose
  commands; values are encrypted by a \<^emph>\<open>vault\<close> (\<^verbatim>\<open>internal/daemon/secrets\<close>) and images kept in a
  \<^emph>\<open>registry\<close> (\<^verbatim>\<open>internal/daemon/registry\<close>). What the store says of healthy instances becomes a
  snapshot of routes, and the \<^emph>\<open>proxy\<close> of a node (\<^verbatim>\<open>internal/daemon/proxy\<close>) sends each request to an
  instance by it. The \<^emph>\<open>agents\<close> (\<^verbatim>\<open>internal/daemon/agent\<close>) probe the instances of their node and report
  what they find, and a resolver on each node (\<^verbatim>\<open>internal/daemon/intdns\<close>) answers the names of services
  by the same snapshot.

  \<^bold>\<open>Theories and what they model.\<close>

  \<^item> \<open>Prelude\<close>, \<open>GoStrings\<close>: Go maps as association lists with distinct keys, id-ordered listings,
    machine integers, instants and durations in nanoseconds, and the parts of \<^verbatim>\<open>strings\<close>,
    \<^verbatim>\<open>strconv\<close> and \<^verbatim>\<open>fmt\<close> the code calls.
  \<^item> \<open>Proto\<close>, \<open>Commands\<close>, \<open>Samples\<close>: the replicated messages and commands as records and datatypes,
    with their zero values.
  \<^item> \<open>Watch\<close>, \<open>Store\<close>, \<open>StoreInfra\<close>: \<^verbatim>\<open>state/watch.go\<close>, \<^verbatim>\<open>state.go\<close>, \<^verbatim>\<open>accessors.go\<close>,
    \<^verbatim>\<open>accessors_infra.go\<close>. One definition per accessor over the record \<open>Store\<close>.
  \<^item> \<open>FSM\<close>: \<^verbatim>\<open>raftstore/apply.go\<close>, \<^verbatim>\<open>fsm.go\<close>. \<open>FSM_Apply\<close> applies a log entry, \<open>run_log\<close> a log.
  \<^item> \<open>Snapshot\<close>: \<^verbatim>\<open>state/snapshot.go\<close>, the snapshot half of \<^verbatim>\<open>fsm.go\<close>.
  \<^item> \<open>Versions\<close>, \<open>Platform\<close>: \<^verbatim>\<open>pkgutil/version\<close>, \<^verbatim>\<open>pkgutil/platform\<close>.
  \<^item> \<open>RaftStore\<close>: \<^verbatim>\<open>raftstore/store.go\<close> as a control loop sees it. An \<open>action\<close> takes a \<open>World\<close>
    (store, log index, counters) to an error and a world; \<open>Control\<close> holds what the code does not
    determine: the outcome of every proposal, the identifiers, the clock, leadership.
  \<^item> \<open>Placement\<close>, \<open>Orchestrator\<close>, \<open>Scheduler\<close>, \<open>Networks\<close>, \<open>Jobs\<close>, \<open>SchedulerPass\<close>:
    \<^verbatim>\<open>scheduler/*.go\<close>, one definition per function, composed in \<open>reconcileAll\<close> (a pass of the
    orchestrator) and \<open>evaluate\<close> (a pass of the scheduler).
  \<^item> \<open>Registry\<close>: \<^verbatim>\<open>registry/blobstore.go\<close>, \<^verbatim>\<open>manifests.go\<close>, \<^verbatim>\<open>gc.go\<close>: pushes, tags, reference
    counts and the collection of what loses its last reference, a recursion over a work list with a
    termination proof.
  \<^item> \<open>Auth\<close>, \<open>Secrets\<close>: \<^verbatim>\<open>api/token.go\<close>, \<^verbatim>\<open>interceptors.go\<close>, \<^verbatim>\<open>policy.go\<close>, \<^verbatim>\<open>rbac.go\<close>;
    \<^verbatim>\<open>secrets/*.go\<close>.
  \<^item> \<open>Services\<close>, \<open>ServicesInfra\<close>: the handlers of \<^verbatim>\<open>api/projects.go\<close>, \<^verbatim>\<open>apps.go\<close>, \<^verbatim>\<open>deploy.go\<close>;
    \<^verbatim>\<open>domains.go\<close>, \<^verbatim>\<open>jobs.go\<close>, \<^verbatim>\<open>volumes.go\<close>, \<^verbatim>\<open>nodes.go\<close>, \<^verbatim>\<open>auth.go\<close>, each an action with a gRPC
    status as its error.
  \<^item> \<open>Routes\<close>: \<^verbatim>\<open>scheduler/routes.go\<close>, \<^verbatim>\<open>proxy/l7.go\<close>, \<^verbatim>\<open>lb.go\<close>, \<^verbatim>\<open>sticky.go\<close>.
  \<^item> \<open>Liveness\<close>: \<^verbatim>\<open>livestate/livestate.go\<close>, \<^verbatim>\<open>nodehealth/nodehealth.go\<close>, \<^verbatim>\<open>api/liveness.go\<close>: heartbeats,
    the decision over two failure detectors, and a pass of the monitor.
  \<^item> \<open>Images\<close>: \<^verbatim>\<open>scheduler/builds.go\<close>, \<^verbatim>\<open>retention.go\<close>: an image from its build to its removal.
  \<^item> \<open>Scaling\<close>: \<^verbatim>\<open>scheduler/scaletozero.go\<close>, \<^verbatim>\<open>serverless.go\<close>, \<^verbatim>\<open>autoscaler.go\<close>.
  \<^item> \<open>AgentSync\<close>: \<^verbatim>\<open>agent/health.go\<close>, \<^verbatim>\<open>agent/netscope.go\<close>, \<^verbatim>\<open>api/agentsync.go\<close>, \<^verbatim>\<open>api/activator.go\<close>:
    the health machine of an instance, the buffer of reported states, what a node is sent, waking.
  \<^item> \<open>Discovery\<close>: \<^verbatim>\<open>intdns/resolver.go\<close>: answers to the names of services by the caller's scope.

  \<^bold>\<open>What is proved.\<close>

  \<^item> \<open>Resources\<close>, \<open>StoreInv\<close>, \<open>StoreFacts\<close>: the contracts of the collections as locales, interpreted
    on the store's operations; a well-formedness invariant that every log keeps; what the commands
    do, on every branch.
  \<^item> \<open>Replica\<close>, \<open>Replication\<close>: replicas that apply the same log agree although Go maps iterate in
    different orders, and a replica that restores a snapshot catches up. The contract is a locale of
    a replicated state machine.
  \<^item> \<open>DeploymentProps\<close>, \<open>Changes\<close>, \<open>Drains\<close>, \<open>Replicas\<close>, \<open>Leases\<close>, \<open>JobProps\<close>, \<open>NetworkProps\<close>:
    safety of the control loops for every outcome of their proposals (a proposal may fail, or be
    applied although the caller sees an error), and convergence when proposals commit. The locale
    \<open>change\<close> reduces a property of a pass to its commands; the locale \<open>pool\<close> is the discipline of
    both address allocators.
  \<^item> \<open>RegistryProps\<close>: reference counts stay exact and a collection deletes exactly the blobs that lost
    their last reference; what is pushed can be pulled.
  \<^item> \<open>AuthProps\<close>, \<open>Secrets\<close>: no call reaches a handler without the identity and the role its method
    asks for; tokens, sealed keys and sealed values round trip.
  \<^item> \<open>ServicesProps\<close>: what histories of requests keep (no shared hostname, one rollout per
    environment) and what the handlers change.
  \<^item> \<open>RoutesProps\<close>: a request reaches only a healthy instance of the active release of the environment
    its host belongs to; the balancer keeps the concurrency limit.
  \<^item> \<open>LivenessProps\<close>: the status of a node changes only as its heartbeats and the gossip view justify,
    and a failed node is detected.
  \<^item> \<open>ImagesProps\<close>: every build ends as its builder reported; retention deletes exactly the releases
    nothing needs.
  \<^item> \<open>ScalingProps\<close>: only idle environments are cooled over a whole leader term, concurrency scaling sets
    the least sufficient count, load scaling is bounded and damped. The locale \<open>env_loop\<close> is the
    contract the three loops share: an evaluation touches its own environment only.
  \<^item> \<open>AgentProps\<close>: the verdict on an instance is a function of its probes, a flush records the reported
    states and nothing else, a resolver names no service outside its caller's scope, and waking an
    environment sets its count to at least one replica.

  \<^bold>\<open>Parameters.\<close> The Raft library, the protobuf codec, the cron expression parser, the entropy behind
  identifiers, the clock, SHA-256, AES-GCM, argon2id, JSON decoding of manifests, the random draws of
  the balancer, the gossip view, the stream of a builder, the load computed in floating point, the
  replies and exchanges of the DNS library and the iteration order of Go maps are arguments of the definitions; what a
  property needs of them is a hypothesis of it.

  \<^bold>\<open>Bounds.\<close> Integers that can wrap are words or wrap explicitly (reservations, versions, ports);
  counters of objects in memory are unbounded. Recursion is structural or has a termination proof, so
  no definition uses fuel.

  \<^bold>\<open>Not modelled.\<close> A pass of a control loop runs at one instant and without other writers between its
  commands. Messages are never nil inside the store, the loops around a pass (tickers, watches,
  leadership changes) and log lines are left out, as are failures of the local disk. Streams of the
  services and the snapshots of volumes dial agents; login and passwords are calls of bcrypt. The
  rest of the agents, the container runtime, the mesh, the sockets of the resolver, the builders, the
  log and metric stores,
  TLS and ACME, backups, GitHub, notifications, the cloud providers and the command line are
  input/output around the modelled core.
\<close>

end
